(* ===== verification/Rust_Str.thy ===== *)
theory Rust_Str
  imports Prelude
begin

text \<open>
  Rust's \<open>str\<close> as a list of 8-bit characters, the UTF-8 bytes of the string: \<^const>\<open>length\<close> is
  the byte length \<open>str::len\<close>, and every index is a byte index.  The operations below are the
  methods of \<open>str\<close> and \<open>u8\<close> that the sources call, written on bytes.  Each comes with the
  lemma that characterises it, so that its clients do not unfold it.
\<close>

named_theorems str_simps \<open>characterisations of the string operations\<close>

section \<open>Bytes\<close>

definition byte :: "char \<Rightarrow> nat" where
  "byte c = of_char c"

definition is_ascii_digit :: "char \<Rightarrow> bool" where
  "is_ascii_digit c \<longleftrightarrow> 48 \<le> byte c \<and> byte c \<le> 57"

definition is_ascii_uppercase :: "char \<Rightarrow> bool" where
  "is_ascii_uppercase c \<longleftrightarrow> 65 \<le> byte c \<and> byte c \<le> 90"

definition is_ascii_lowercase :: "char \<Rightarrow> bool" where
  "is_ascii_lowercase c \<longleftrightarrow> 97 \<le> byte c \<and> byte c \<le> 122"

definition is_ascii_alphabetic :: "char \<Rightarrow> bool" where
  "is_ascii_alphabetic c \<longleftrightarrow> is_ascii_uppercase c \<or> is_ascii_lowercase c"

definition is_ascii_alphanumeric :: "char \<Rightarrow> bool" where
  "is_ascii_alphanumeric c \<longleftrightarrow> is_ascii_alphabetic c \<or> is_ascii_digit c"

definition is_ascii_hexdigit :: "char \<Rightarrow> bool" where
  "is_ascii_hexdigit c \<longleftrightarrow> is_ascii_digit c \<or> 65 \<le> byte c \<and> byte c \<le> 70 \<or> 97 \<le> byte c \<and> byte c \<le> 102"

definition is_ascii_char :: "char \<Rightarrow> bool" where
  "is_ascii_char c \<longleftrightarrow> byte c < 128"

definition is_ascii_graphic :: "char \<Rightarrow> bool" where
  "is_ascii_graphic c \<longleftrightarrow> 33 \<le> byte c \<and> byte c \<le> 126"

definition to_ascii_lowercase_char :: "char \<Rightarrow> char" where
  "to_ascii_lowercase_char c = (if is_ascii_uppercase c then char_of (byte c + 32) else c)"

definition to_ascii_uppercase_char :: "char \<Rightarrow> char" where
  "to_ascii_uppercase_char c = (if is_ascii_lowercase c then char_of (byte c - 32) else c)"

definition to_ascii_lowercase :: "string \<Rightarrow> string" where
  "to_ascii_lowercase s = map to_ascii_lowercase_char s"

definition to_ascii_uppercase :: "string \<Rightarrow> string" where
  "to_ascii_uppercase s = map to_ascii_uppercase_char s"

definition eq_ignore_ascii_case :: "string \<Rightarrow> string \<Rightarrow> bool" where
  "eq_ignore_ascii_case a b \<longleftrightarrow> to_ascii_lowercase a = to_ascii_lowercase b"

definition nl :: string where
  "nl = [CHR 0x0A]"

lemma byte_less: "byte c < 256"
  using nat_of_char_less_256[of c] by (simp add: byte_def)

lemma length_to_ascii_lowercase [simp]: "length (to_ascii_lowercase s) = length s"
  by (simp add: to_ascii_lowercase_def)

lemma length_to_ascii_uppercase [simp]: "length (to_ascii_uppercase s) = length s"
  by (simp add: to_ascii_uppercase_def)

section \<open>Prefixes, suffixes and substrings\<close>

fun strip_prefix :: "'a list \<Rightarrow> 'a list \<Rightarrow> 'a list option" where
  "strip_prefix [] s = Some s"
| "strip_prefix (p # ps) [] = None"
| "strip_prefix (p # ps) (c # cs) = (if p = c then strip_prefix ps cs else None)"

definition starts_with :: "'a list \<Rightarrow> 'a list \<Rightarrow> bool" where
  "starts_with p s \<longleftrightarrow> strip_prefix p s \<noteq> None"

definition strip_suffix :: "'a list \<Rightarrow> 'a list \<Rightarrow> 'a list option" where
  "strip_suffix p s = map_option rev (strip_prefix (rev p) (rev s))"

definition ends_with :: "'a list \<Rightarrow> 'a list \<Rightarrow> bool" where
  "ends_with p s \<longleftrightarrow> strip_suffix p s \<noteq> None"

fun str_contains :: "'a list \<Rightarrow> 'a list \<Rightarrow> bool" where
  "str_contains p [] = (p = [])"
| "str_contains p (c # cs) = (starts_with p (c # cs) \<or> str_contains p cs)"

fun str_find :: "'a list \<Rightarrow> 'a list \<Rightarrow> nat option" where
  "str_find p [] = (if p = [] then Some 0 else None)"
| "str_find p (c # cs) = (if starts_with p (c # cs) then Some 0 else map_option Suc (str_find p cs))"

lemma strip_prefix_some_iff [str_simps]: "strip_prefix p s = Some r \<longleftrightarrow> s = p @ r"
  by (induction p s rule: strip_prefix.induct) auto

lemma strip_prefix_append [simp]: "strip_prefix p (p @ r) = Some r"
  by (simp add: strip_prefix_some_iff)

lemma case_strip_prefix:
  "(case strip_prefix p s of None \<Rightarrow> False | Some x \<Rightarrow> P x) \<longleftrightarrow> (\<exists>x. s = p @ x \<and> P x)"
  by (cases "strip_prefix p s") (auto simp: strip_prefix_some_iff)

lemma starts_with_iff [str_simps]: "starts_with p s \<longleftrightarrow> (\<exists>r. s = p @ r)"
  unfolding starts_with_def by (cases "strip_prefix p s") (auto simp: strip_prefix_some_iff)

lemma starts_with_take: "starts_with p s \<longleftrightarrow> take (length p) s = p"
  by (auto simp: starts_with_iff) (metis append_take_drop_id)

lemma strip_suffix_some_iff [str_simps]: "strip_suffix p s = Some r \<longleftrightarrow> s = r @ p"
proof -
  have "strip_suffix p s = Some r \<longleftrightarrow> rev s = rev p @ rev r"
    by (auto simp: strip_suffix_def strip_prefix_some_iff)
  also have "\<dots> \<longleftrightarrow> s = r @ p" by (metis rev_append rev_rev_ident)
  finally show ?thesis .
qed

lemma strip_suffix_append [simp]: "strip_suffix p (r @ p) = Some r"
  by (simp add: strip_suffix_some_iff)

lemma ends_with_iff [str_simps]: "ends_with p s \<longleftrightarrow> (\<exists>r. s = r @ p)"
  unfolding ends_with_def by (cases "strip_suffix p s") (auto simp: strip_suffix_some_iff)

lemma str_contains_iff [str_simps]: "str_contains p s \<longleftrightarrow> (\<exists>a b. s = a @ p @ b)"
proof (induction s)
  case IH: (Cons c cs)
  show ?case
  proof
    assume "str_contains p (c # cs)"
    then consider "starts_with p (c # cs)" | "str_contains p cs" by auto
    then show "\<exists>a b. c # cs = a @ p @ b"
    proof cases
      case 1
      then obtain r where "c # cs = [] @ p @ r" by (auto simp: starts_with_iff)
      then show ?thesis by blast
    next
      case 2
      then obtain a b where "c # cs = (c # a) @ p @ b" using IH by auto
      then show ?thesis by blast
    qed
  next
    assume "\<exists>a b. c # cs = a @ p @ b"
    then obtain a b where ab: "c # cs = a @ p @ b" by blast
    show "str_contains p (c # cs)"
    proof (cases a)
      case Nil
      then have "starts_with p (c # cs)" using ab by (auto simp: starts_with_iff)
      then show ?thesis by simp
    next
      case (Cons x xs)
      then have "str_contains p cs" using ab IH by auto
      then show ?thesis by simp
    qed
  qed
qed auto

lemma str_find_some:
  "str_find p s = Some i \<Longrightarrow>
     i + length p \<le> length s \<and> take (length p) (drop i s) = p \<and>
     (\<forall>j<i. \<not> starts_with p (drop j s))"
proof (induction s arbitrary: i)
  case (Cons c cs)
  show ?case
  proof (cases "starts_with p (c # cs)")
    case True
    then obtain r where r: "c # cs = p @ r" by (auto simp: starts_with_iff)
    have "i = 0" using Cons.prems True by simp
    then show ?thesis using r by simp
  next
    case False
    then obtain k where k: "i = Suc k" "str_find p cs = Some k" using Cons.prems by auto
    then show ?thesis
      using Cons.IH[OF k(2)] False by (auto simp: less_Suc_eq_0_disj)
  qed
qed (auto split: if_splits)

lemma str_find_none_iff: "str_find p s = None \<longleftrightarrow> \<not> str_contains p s"
  by (induction s) auto

section \<open>Splitting\<close>

definition split_once :: "'a \<Rightarrow> 'a list \<Rightarrow> ('a list \<times> 'a list) option" where
  "split_once d s =
     (if d \<in> set s then Some (takeWhile (\<lambda>c. c \<noteq> d) s, tl (dropWhile (\<lambda>c. c \<noteq> d) s)) else None)"

lemma split_once_some_iff [str_simps]:
  "split_once d s = Some (a, b) \<longleftrightarrow> s = a @ d # b \<and> d \<notin> set a"
proof
  assume h: "split_once d s = Some (a, b)"
  then have d: "d \<in> set s" and a: "a = takeWhile (\<lambda>c. c \<noteq> d) s"
    and b: "b = tl (dropWhile (\<lambda>c. c \<noteq> d) s)"
    by (auto simp: split_once_def split: if_splits)
  from d have ne: "dropWhile (\<lambda>c. c \<noteq> d) s \<noteq> []" by (auto simp: dropWhile_eq_Nil_conv)
  from hd_dropWhile[OF ne] have "hd (dropWhile (\<lambda>c. c \<noteq> d) s) = d" by simp
  then have "dropWhile (\<lambda>c. c \<noteq> d) s = d # b" using ne b by (cases "dropWhile (\<lambda>c. c \<noteq> d) s") auto
  then have "s = a @ d # b" using a takeWhile_dropWhile_id[of "\<lambda>c. c \<noteq> d" s] by simp
  moreover have "d \<notin> set a" using a by (auto dest: set_takeWhileD)
  ultimately show "s = a @ d # b \<and> d \<notin> set a" by simp
next
  assume h: "s = a @ d # b \<and> d \<notin> set a"
  then have "\<forall>c\<in>set a. c \<noteq> d" by auto
  then have "takeWhile (\<lambda>c. c \<noteq> d) s = a" "dropWhile (\<lambda>c. c \<noteq> d) s = d # b"
    using h by (auto simp: takeWhile_append2 dropWhile_append2)
  then show "split_once d s = Some (a, b)" using h by (simp add: split_once_def)
qed

lemma split_once_none_iff [str_simps]: "split_once d s = None \<longleftrightarrow> d \<notin> set s"
  by (simp add: split_once_def)

text \<open>\<open>str::split\<close> on one ASCII character: always at least one part.\<close>

fun split_on :: "'a \<Rightarrow> 'a list \<Rightarrow> 'a list list" where
  "split_on d [] = [[]]"
| "split_on d (c # cs) =
     (if c = d then [] # split_on d cs
      else case split_on d cs of [] \<Rightarrow> [[c]] | p # ps \<Rightarrow> (c # p) # ps)"

lemma split_on_ne [simp]: "split_on d s \<noteq> []"
  by (cases s) (auto split: list.splits)

lemma split_on_no_delim: "p \<in> set (split_on d s) \<Longrightarrow> d \<notin> set p"
proof (induction s arbitrary: p)
  case (Cons c cs)
  show ?case
  proof (cases "c = d")
    case False
    obtain q qs where q: "split_on d cs = q # qs" using split_on_ne by (metis list.exhaust)
    have "p = c # q \<or> p \<in> set qs" using Cons.prems False q by auto
    then show ?thesis using Cons.IH[of q] Cons.IH[of p] False q by auto
  next
    case True
    then show ?thesis using Cons by auto
  qed
qed simp

fun join_with :: "'a list \<Rightarrow> 'a list list \<Rightarrow> 'a list" where
  "join_with d [] = []"
| "join_with d [p] = p"
| "join_with d (p # q # ps) = p @ d @ join_with d (q # ps)"

lemma join_split_on: "join_with [d] (split_on d s) = s"
proof (induction s)
  case (Cons c cs)
  obtain q qs where q: "split_on d cs = q # qs" using split_on_ne by (metis list.exhaust)
  then show ?case using Cons by (cases qs) auto
qed simp

lemma split_on_append: "split_on d (a @ d # b) = split_on d a @ split_on d b"
proof (induction a)
  case (Cons c a)
  obtain q qs where "split_on d a = q # qs" using split_on_ne by (metis list.exhaust)
  then show ?case using Cons by simp
qed simp

lemma split_on_free: "d \<notin> set a \<Longrightarrow> split_on d a = [a]"
  by (induction a) auto

text \<open>
  \<open>str::lines\<close>: a line ends at a newline, which is dropped with the carriage return before it; a
  last line without newline is kept as it is, and a text that ends in a newline has no empty last
  line.
\<close>

definition strip_cr :: "string \<Rightarrow> string" where
  "strip_cr l = (case strip_suffix [CHR 0x0D] l of None \<Rightarrow> l | Some l' \<Rightarrow> l')"

definition str_lines :: "string \<Rightarrow> string list" where
  "str_lines s =
     (let parts = split_on (CHR 0x0A) s in
      map strip_cr (butlast parts) @ (if last parts = [] then [] else [last parts]))"

text \<open>The lines of a text written line by line are those lines.\<close>

definition plain_line :: "string \<Rightarrow> bool" where
  "plain_line l \<longleftrightarrow> CHR 0x0A \<notin> set l \<and> (l = [] \<or> last l \<noteq> CHR 0x0D)"

definition unlines :: "string list \<Rightarrow> string" where
  "unlines ls = concat (map (\<lambda>l. l @ nl) ls)"

lemma split_on_unlines:
  "\<forall>l\<in>set ls. CHR 0x0A \<notin> set l \<Longrightarrow> split_on (CHR 0x0A) (unlines ls) = ls @ [[]]"
  by (induction ls) (auto simp: unlines_def nl_def split_on_append split_on_free)

lemma strip_cr_plain: "plain_line l \<Longrightarrow> strip_cr l = l"
  by (cases "strip_suffix [CHR 0x0D] l") (auto simp: strip_cr_def plain_line_def strip_suffix_some_iff)

lemma str_lines_unlines:
  assumes "\<forall>l\<in>set ls. plain_line l"
  shows "str_lines (unlines ls) = ls"
proof -
  have "split_on (CHR 0x0A) (unlines ls) = ls @ [[]]"
    using assms by (intro split_on_unlines) (simp add: plain_line_def)
  moreover have "map strip_cr ls = ls" using assms by (simp add: map_idI strip_cr_plain)
  ultimately show ?thesis by (simp add: str_lines_def)
qed

section \<open>Character boundaries\<close>

definition is_continuation :: "char \<Rightarrow> bool" where
  "is_continuation c \<longleftrightarrow> 128 \<le> byte c \<and> byte c < 192"

definition is_char_boundary :: "string \<Rightarrow> nat \<Rightarrow> bool" where
  "is_char_boundary s i \<longleftrightarrow>
     i = 0 \<or> i = length s \<or> (i < length s \<and> \<not> is_continuation (s ! i))"

definition str_slice :: "'a list \<Rightarrow> nat \<Rightarrow> nat \<Rightarrow> 'a list" where
  "str_slice s a b = take (b - a) (drop a s)"

text \<open>\<open>str::get\<close> with a byte range.\<close>

definition str_get :: "string \<Rightarrow> nat \<Rightarrow> nat \<Rightarrow> string option" where
  "str_get s a b =
     (if a \<le> b \<and> b \<le> length s \<and> is_char_boundary s a \<and> is_char_boundary s b
      then Some (str_slice s a b) else None)"

lemma str_slice_append: "a \<le> b \<Longrightarrow> b \<le> c \<Longrightarrow> str_slice s a b @ str_slice s b c = str_slice s a c"
proof -
  assume ab: "a \<le> b" and bc: "b \<le> c"
  have "drop b s = drop (b - a) (drop a s)" using ab by simp
  moreover have "c - a = (b - a) + (c - b)" using ab bc by simp
  ultimately show ?thesis by (simp add: str_slice_def take_add)
qed

lemma str_slice_full [simp]: "str_slice s 0 (length s) = s"
  by (simp add: str_slice_def)

lemma str_slice_to_end: "length s \<le> b \<Longrightarrow> str_slice s a b = drop a s"
  by (simp add: str_slice_def)

lemma length_str_slice: "b \<le> length s \<Longrightarrow> length (str_slice s a b) = b - a"
  by (simp add: str_slice_def)

section \<open>White space and control characters\<close>

text \<open>
  \<open>char::is_whitespace\<close> on the UTF-8 encoding: the ASCII white space bytes and the encodings of
  U+0085, U+00A0, U+1680, U+2000..U+200A, U+2028, U+2029, U+202F, U+205F and U+3000.
  \<open>ws_prefix\<close> is the number of bytes of a white space character at the start of the string.
\<close>

definition is_ascii_ws :: "nat \<Rightarrow> bool" where
  "is_ascii_ws b \<longleftrightarrow> (9 \<le> b \<and> b \<le> 13) \<or> b = 32"

definition is_ws2 :: "nat \<Rightarrow> nat \<Rightarrow> bool" where
  "is_ws2 a b \<longleftrightarrow> a = 0xC2 \<and> (b = 0x85 \<or> b = 0xA0)"

definition is_ws3 :: "nat \<Rightarrow> nat \<Rightarrow> nat \<Rightarrow> bool" where
  "is_ws3 a b c \<longleftrightarrow>
     (a = 0xE1 \<and> b = 0x9A \<and> c = 0x80) \<or>
     (a = 0xE2 \<and> b = 0x80 \<and> (0x80 \<le> c \<and> c \<le> 0x8A \<or> c = 0xA8 \<or> c = 0xA9 \<or> c = 0xAF)) \<or>
     (a = 0xE2 \<and> b = 0x81 \<and> c = 0x9F) \<or>
     (a = 0xE3 \<and> b = 0x80 \<and> c = 0x80)"

fun trim_start :: "string \<Rightarrow> string" where
  "trim_start (a # b # c # s) =
     (if is_ascii_ws (byte a) then trim_start (b # c # s)
      else if is_ws2 (byte a) (byte b) then trim_start (c # s)
      else if is_ws3 (byte a) (byte b) (byte c) then trim_start s
      else a # b # c # s)"
| "trim_start [a, b] =
     (if is_ascii_ws (byte a) then trim_start [b]
      else if is_ws2 (byte a) (byte b) then []
      else [a, b])"
| "trim_start [a] = (if is_ascii_ws (byte a) then [] else [a])"
| "trim_start [] = []"

fun trim_end_rev :: "string \<Rightarrow> string" where
  "trim_end_rev (c # b # a # s) =
     (if is_ascii_ws (byte c) then trim_end_rev (b # a # s)
      else if is_ws2 (byte b) (byte c) then trim_end_rev (a # s)
      else if is_ws3 (byte a) (byte b) (byte c) then trim_end_rev s
      else c # b # a # s)"
| "trim_end_rev [b, a] =
     (if is_ascii_ws (byte b) then trim_end_rev [a]
      else if is_ws2 (byte a) (byte b) then []
      else [b, a])"
| "trim_end_rev [a] = (if is_ascii_ws (byte a) then [] else [a])"
| "trim_end_rev [] = []"

definition trim_end :: "string \<Rightarrow> string" where
  "trim_end s = rev (trim_end_rev (rev s))"

definition str_trim :: "string \<Rightarrow> string" where
  "str_trim s = trim_end (trim_start s)"

lemma trim_start_suffix: "suffix (trim_start s) s"
  by (induction s rule: trim_start.induct) (auto simp: suffix_Cons)

lemma trim_end_rev_suffix: "suffix (trim_end_rev s) s"
  by (induction s rule: trim_end_rev.induct) (auto simp: suffix_Cons)

lemma trim_end_prefix: "prefix (trim_end s) s"
  using trim_end_rev_suffix[of "rev s"] by (simp add: trim_end_def suffix_to_prefix)

lemma str_trim_sublist: "sublist (str_trim s) s"
  unfolding str_trim_def
  by (meson prefix_imp_sublist suffix_imp_sublist sublist_order.order_trans
      trim_end_prefix trim_start_suffix)

text \<open>\<open>char::is_control\<close>: the C0 range, DEL, and the C1 range, which UTF-8 encodes as C2 80..9F.\<close>

fun has_control :: "string \<Rightarrow> bool" where
  "has_control [] = False"
| "has_control (a # s) =
     (byte a < 32 \<or> byte a = 127 \<or>
      (case s of [] \<Rightarrow> False | b # _ \<Rightarrow> byte a = 0xC2 \<and> 0x80 \<le> byte b \<and> byte b \<le> 0x9F) \<or>
      has_control s)"

section \<open>Replacement\<close>

text \<open>
  \<open>str::replace\<close>: the matches are found from the left and do not overlap.  The empty pattern
  matches at every character boundary, the end of the string included.
\<close>

fun replace_empty :: "string \<Rightarrow> string \<Rightarrow> string" where
  "replace_empty r [] = r"
| "replace_empty r (c # cs) = (if is_continuation c then [] else r) @ c # replace_empty r cs"

function replace_ne :: "string \<Rightarrow> string \<Rightarrow> string \<Rightarrow> string" where
  "replace_ne p r s =
     (if p = [] then s
      else case s of
        [] \<Rightarrow> []
      | c # cs \<Rightarrow>
          (case strip_prefix p s of
             Some rest \<Rightarrow> r @ replace_ne p r rest
           | None \<Rightarrow> c # replace_ne p r cs))"
  by pat_completeness auto
termination
  by (relation "measure (\<lambda>(p, r, s). length s)")
    (auto simp: strip_prefix_some_iff simp flip: length_greater_0_conv dest: arg_cong[where f = length])

declare replace_ne.simps [simp del]

definition str_replace :: "string \<Rightarrow> string \<Rightarrow> string \<Rightarrow> string" where
  "str_replace p r s = (if p = [] then replace_empty r s else replace_ne p r s)"

lemma replace_ne_no_match: "\<not> str_contains p s \<Longrightarrow> replace_ne p r s = s"
proof (induction s)
  case Nil
  then show ?case by (simp add: replace_ne.simps)
next
  case (Cons c cs)
  then have "strip_prefix p (c # cs) = None" by (auto simp: starts_with_def)
  then show ?case using Cons by (simp add: replace_ne.simps[of p r "c # cs"])
qed

lemma str_replace_no_match: "\<not> str_contains p s \<Longrightarrow> str_replace p r s = s"
  using replace_ne_no_match[of p s r] by (cases s) (auto simp: str_replace_def starts_with_def)

lemma str_contains_append:
  assumes "str_contains p (xs @ ys)" and "xs \<noteq> []"
  shows "str_contains p xs \<or> str_contains p ys \<or> last xs \<in> set p"
proof -
  obtain a b where ab: "xs @ ys = a @ p @ b" using assms(1) by (auto simp: str_contains_iff)
  then consider u where "xs = (a @ p) @ u" | u where "xs @ u = a @ p" "ys = u @ b"
    by (fastforce simp: append_eq_append_conv2)
  then show ?thesis
  proof cases
    case 1
    then show ?thesis by (auto simp: str_contains_iff)
  next
    case 2
    then consider w where "xs = a @ w" "p = w @ u" | w where "a = xs @ w" "u = w @ p"
      by (fastforce simp: append_eq_append_conv2)
    then show ?thesis
    proof cases
      case 1
      then show ?thesis using assms(2) 2 by (cases "w = []") (auto simp: str_contains_iff)
    next
      case 2
      then show ?thesis using \<open>ys = u @ b\<close> by (auto simp: str_contains_iff)
    qed
  qed
qed

lemma replace_ne_prefix:
  assumes "r \<noteq> []" and "hd r \<notin> set q"
  shows "replace_ne p r s = q @ w \<Longrightarrow> \<exists>w'. s = q @ w'"
  using assms
proof (induction p r s arbitrary: q w rule: replace_ne.induct)
  case (1 p r s)
  show ?case
  proof (cases q)
    case (Cons x q')
    note q = this
    show ?thesis
    proof (cases "p = [] \<or> s = []")
      case False
      then obtain c cs where s: "s = c # cs" by (cases s) auto
      show ?thesis
      proof (cases "strip_prefix p s")
        case None
        then have "replace_ne p r s = c # replace_ne p r cs" using False s by (subst replace_ne.simps) simp
        then have "x = c" "replace_ne p r cs = q' @ w" using "1.prems" q by auto
        then show ?thesis using "1.IH"(1)[OF _ s None, of q' w] False s None "1.prems" q by auto
      next
        case (Some rest)
        then have "replace_ne p r s = r @ replace_ne p r rest" using False s by (subst replace_ne.simps) simp
        then show ?thesis using "1.prems" q by (cases r) auto
      qed
    qed (use "1.prems" q in \<open>auto simp: replace_ne.simps[of p r s] split: if_splits\<close>)
  qed simp
qed

text \<open>
  Replacing leaves no occurrence of the pattern when the replacement neither holds it nor can be
  extended to it across either of its ends.
\<close>

lemma replace_ne_clean:
  assumes "p \<noteq> []" and "r \<noteq> []" and "hd r \<notin> set p" and "last r \<notin> set p" and "\<not> str_contains p r"
  shows "\<not> str_contains p (replace_ne p r s)"
  using assms
proof (induction p r s rule: replace_ne.induct)
  case (1 p r s)
  show ?case
  proof (cases s)
    case Nil
    then show ?thesis using "1.prems"(1) by (simp add: replace_ne.simps)
  next
    case (Cons c cs)
    show ?thesis
    proof (cases "strip_prefix p s")
      case None
      then have e: "replace_ne p r s = c # replace_ne p r cs" using Cons "1.prems"(1) by (subst replace_ne.simps) simp
      have "\<not> starts_with p (replace_ne p r s)"
        using replace_ne_prefix[OF "1.prems"(2,3), of p s] None by (auto simp: starts_with_iff)
      then show ?thesis using "1.IH"(1)[OF _ Cons None] "1.prems" Cons None e by auto
    next
      case (Some rest)
      then have e: "replace_ne p r s = r @ replace_ne p r rest" using Cons "1.prems"(1) by (subst replace_ne.simps) simp
      then show ?thesis
        using "1.IH"(2)[OF _ Cons Some] "1.prems" Cons Some str_contains_append[of p r "replace_ne p r rest"] by auto
    qed
  qed
qed

lemma str_replace_clean:
  "p \<noteq> [] \<Longrightarrow> r \<noteq> [] \<Longrightarrow> hd r \<notin> set p \<Longrightarrow> last r \<notin> set p \<Longrightarrow> \<not> str_contains p r \<Longrightarrow> \<not> str_contains p (str_replace p r s)"
  by (simp add: str_replace_def replace_ne_clean)

section \<open>Numbers\<close>

text \<open>Decimal text of a number, as \<open>to_string\<close> writes it.\<close>

fun nat_str :: "nat \<Rightarrow> string" where
  "nat_str n = (if n < 10 then [char_of (48 + n)] else nat_str (n div 10) @ [char_of (48 + n mod 10)])"

declare nat_str.simps [simp del]

definition str_nat :: "string \<Rightarrow> nat" where
  "str_nat s = foldl (\<lambda>n c. 10 * n + (byte c - 48)) 0 s"

lemma byte_char_of: "n < 256 \<Longrightarrow> byte (char_of n) = n"
  by (simp add: byte_def)

lemma str_nat_str: "str_nat (nat_str n) = n"
proof (induction n rule: nat_str.induct)
  case (1 n)
  have "n mod 10 < 10" by simp
  then have b: "byte (char_of (48 + n mod 10)) = 48 + n mod 10" by (intro byte_char_of) linarith
  show ?case
    using 1 b byte_char_of[of "48 + n"]
    by (subst nat_str.simps) (auto simp: str_nat_def)
qed

lemma nat_str_inject [simp]: "nat_str a = nat_str b \<longleftrightarrow> a = b"
  using str_nat_str by metis

lemma nat_str_ne [simp]: "nat_str n \<noteq> []"
  by (subst nat_str.simps) auto

lemma nat_str_digits: "c \<in> set (nat_str n) \<Longrightarrow> 48 \<le> byte c \<and> byte c \<le> 57"
proof (induction n rule: nat_str.induct)
  case (1 n)
  have "n mod 10 < 10" by simp
  then have "byte (char_of (48 + n mod 10)) = 48 + n mod 10" by (intro byte_char_of) linarith
  then show ?case
    using 1 byte_char_of[of "48 + n"] by (auto simp: nat_str.simps[of n] split: if_splits)
qed

text \<open>\<open>str::parse::<usize>\<close>: an optional plus sign and decimal digits whose value fits 64 bits.\<close>

definition parse_usize :: "string \<Rightarrow> 64 word option" where
  "parse_usize s =
     (let ds = (case strip_prefix ''+'' s of None \<Rightarrow> s | Some r \<Rightarrow> r) in
      if ds \<noteq> [] \<and> list_all is_ascii_digit ds \<and> str_nat ds < 2 ^ 64 then Some (of_nat (str_nat ds)) else None)"

lemma list_all_nat_str: "list_all is_ascii_digit (nat_str n)"
  using nat_str_digits by (auto simp: list_all_iff is_ascii_digit_def)

lemma parse_usize_nat_str: "n < 2 ^ 64 \<Longrightarrow> parse_usize (nat_str n) = Some (of_nat n)"
proof -
  have "strip_prefix ''+'' (nat_str n) = None"
  proof (rule ccontr)
    assume "strip_prefix ''+'' (nat_str n) \<noteq> None"
    then obtain r where "nat_str n = CHR ''+'' # r" by (auto simp: strip_prefix_some_iff)
    then show False using nat_str_digits[of "CHR ''+''" n] by (simp add: byte_def)
  qed
  then show "n < 2 ^ 64 \<Longrightarrow> ?thesis"
    using list_all_nat_str[of n] by (simp add: parse_usize_def str_nat_str)
qed

section \<open>Splitting at white space and at strings\<close>

definition is_ascii_whitespace :: "char \<Rightarrow> bool" where
  "is_ascii_whitespace c \<longleftrightarrow> byte c = 32 \<or> byte c = 9 \<or> byte c = 10 \<or> byte c = 12 \<or> byte c = 13"

text \<open>The length in bytes of the white space character a string starts with, or 0.\<close>

definition ws_len :: "string \<Rightarrow> nat" where
  "ws_len s =
     (case s of
        [] \<Rightarrow> 0
      | a # r \<Rightarrow>
          if is_ascii_ws (byte a) then 1
          else case r of
            [] \<Rightarrow> 0
          | b # r' \<Rightarrow>
              if is_ws2 (byte a) (byte b) then 2
              else case r' of [] \<Rightarrow> 0 | c # _ \<Rightarrow> if is_ws3 (byte a) (byte b) (byte c) then 3 else 0)"

fun split_ws :: "string \<Rightarrow> string \<Rightarrow> string list" where
  "split_ws word [] = (if word = [] then [] else [word])"
| "split_ws word (c # s) =
     (if ws_len (c # s) = 0 then split_ws (word @ [c]) s
      else (if word = [] then [] else [word]) @ split_ws [] (drop (ws_len (c # s) - 1) s))"

definition split_whitespace :: "string \<Rightarrow> string list" where
  "split_whitespace s = split_ws [] s"

definition split_once_str :: "string \<Rightarrow> string \<Rightarrow> (string \<times> string) option" where
  "split_once_str p s = map_option (\<lambda>i. (take i s, drop (i + length p) s)) (str_find p s)"

definition trim_matches :: "(char \<Rightarrow> bool) \<Rightarrow> string \<Rightarrow> string" where
  "trim_matches p s = rev (dropWhile p (rev (dropWhile p s)))"

definition trim_end_matches :: "(char \<Rightarrow> bool) \<Rightarrow> string \<Rightarrow> string" where
  "trim_end_matches p s = rev (dropWhile p (rev s))"

section \<open>UTF-8\<close>

text \<open>
  \<open>String::from_utf8\<close>: \<open>utf8_char\<close> removes one well-formed encoded character (no overlong forms, no
  surrogates, nothing above U+10FFFF).
\<close>

definition in_range :: "nat \<Rightarrow> nat \<Rightarrow> char \<Rightarrow> bool" where
  "in_range lo hi c \<longleftrightarrow> lo \<le> byte c \<and> byte c \<le> hi"

fun utf8_tail :: "nat \<Rightarrow> string \<Rightarrow> string option" where
  "utf8_tail 0 s = Some s"
| "utf8_tail (Suc n) [] = None"
| "utf8_tail (Suc n) (c # s) = (if is_continuation c then utf8_tail n s else None)"

definition utf8_second :: "nat \<Rightarrow> nat \<Rightarrow> nat \<Rightarrow> string \<Rightarrow> string option" where
  "utf8_second lo hi n s =
     (case s of [] \<Rightarrow> None | c # r \<Rightarrow> if in_range lo hi c then utf8_tail n r else None)"

fun utf8_char :: "string \<Rightarrow> string option" where
  "utf8_char [] = None"
| "utf8_char (a # s) =
     (if byte a < 0x80 then Some s
      else if in_range 0xC2 0xDF a then utf8_tail 1 s
      else if byte a = 0xE0 then utf8_second 0xA0 0xBF 1 s
      else if byte a = 0xED then utf8_second 0x80 0x9F 1 s
      else if in_range 0xE1 0xEF a then utf8_tail 2 s
      else if byte a = 0xF0 then utf8_second 0x90 0xBF 2 s
      else if in_range 0xF1 0xF3 a then utf8_tail 3 s
      else if byte a = 0xF4 then utf8_second 0x80 0x8F 2 s
      else None)"

lemma utf8_tail_length: "utf8_tail n s = Some r \<Longrightarrow> length r + n = length s"
  by (induction n s rule: utf8_tail.induct) (auto split: if_splits)

lemma utf8_char_shorter: "utf8_char s = Some r \<Longrightarrow> length r < length s"
  by (cases s) (auto simp: utf8_second_def dest!: utf8_tail_length split: if_splits list.splits)

function utf8_valid :: "string \<Rightarrow> bool" where
  "utf8_valid s = (s = [] \<or> (case utf8_char s of None \<Rightarrow> False | Some r \<Rightarrow> utf8_valid r))"
  by pat_completeness auto
termination by (relation "measure length") (auto dest: utf8_char_shorter)

declare utf8_valid.simps [simp del]

end
