(* ===== verification/Core.thy ===== *)
theory Core
  imports Rust_Str
begin

text \<open>
  The vocabulary crate \<open>blindfold-core\<close>: the classifications of \<open>types.rs\<close>, the redacting wrapper
  of \<open>secret_value.rs\<close>, the finding of \<open>finding.rs\<close>, and the static error and log values of
  \<open>error.rs\<close> and \<open>safe_log.rs\<close>.  \<open>SafeRef\<close> has a theory of its own.
\<close>

section \<open>Classifications (types.rs)\<close>

datatype SecretKind =
    SK_ApiKey | SK_Token | SK_Password | SK_PrivateKey | SK_Certificate | SK_CredentialUrl
  | SK_PersonallyIdentifiableInformation | SK_Other

datatype Destination =
    Dest_ModelProvider | Dest_Agent | Dest_Tool | Dest_ChildProcess | Dest_File | Dest_Log
  | Dest_Audit | Dest_User | Dest_TrustedLocal

datatype Action = Act_Allow | Act_Redact | Act_ReplaceWithSafeRef | Act_Warn | Act_Block

datatype Source =
    Src_EnvironmentVariable string
  | Src_File string
  | Src_StandardInput
  | Src_ProcessOutput
  | Src_Request
  | Src_Response
  | Src_Tool string
  | Src_Unknown

datatype Sensitivity =
  Sens_Public | Sens_Internal | Sens_Confidential | Sens_Secret | Sens_Restricted

text \<open>The derived \<open>Ord\<close> of an enumeration compares the positions of the variants.\<close>

fun Sensitivity_rank :: "Sensitivity \<Rightarrow> nat" where
  "Sensitivity_rank Sens_Public = 0"
| "Sensitivity_rank Sens_Internal = 1"
| "Sensitivity_rank Sens_Confidential = 2"
| "Sensitivity_rank Sens_Secret = 3"
| "Sensitivity_rank Sens_Restricted = 4"

lemma Sensitivity_rank_inject [simp]: "Sensitivity_rank a = Sensitivity_rank b \<longleftrightarrow> a = b"
  by (cases a; cases b) auto

instantiation Sensitivity :: linorder
begin

definition less_eq_Sensitivity :: "Sensitivity \<Rightarrow> Sensitivity \<Rightarrow> bool" where
  "a \<le> b \<longleftrightarrow> Sensitivity_rank a \<le> Sensitivity_rank b"

definition less_Sensitivity :: "Sensitivity \<Rightarrow> Sensitivity \<Rightarrow> bool" where
  "a < b \<longleftrightarrow> Sensitivity_rank a < Sensitivity_rank b"

instance
  by standard (auto simp: less_eq_Sensitivity_def less_Sensitivity_def)

end

section \<open>Protected values (secret\_value.rs)\<close>

datatype SecretValue = SecretValue (expose_secret: string)

definition REDACTED :: string where
  "REDACTED = ''[REDACTED]''"

definition SecretValue_is_empty :: "SecretValue \<Rightarrow> bool" where
  "SecretValue_is_empty v \<longleftrightarrow> expose_secret v = []"

definition SecretValue_len :: "SecretValue \<Rightarrow> nat" where
  "SecretValue_len v = length (expose_secret v)"

definition SecretValue_fmt :: "SecretValue \<Rightarrow> string" where
  "SecretValue_fmt v = REDACTED"

section \<open>Findings (finding.rs)\<close>

datatype FindingError = FindingError_EmptyRange | FindingError_EmptyValue

record Finding =
  finding_kind :: SecretKind
  finding_sensitivity :: Sensitivity
  finding_source :: Source
  finding_range :: "nat \<times> nat"
  finding_secret :: SecretValue

definition Finding_new ::
  "SecretKind \<Rightarrow> Sensitivity \<Rightarrow> Source \<Rightarrow> nat \<times> nat \<Rightarrow> SecretValue \<Rightarrow> FindingError + Finding"
where
  "Finding_new kind sensitivity source byte_range v =
     (if \<not> fst byte_range < snd byte_range then Err FindingError_EmptyRange
      else if SecretValue_is_empty v then Err FindingError_EmptyValue
      else Ok \<lparr>finding_kind = kind, finding_sensitivity = sensitivity, finding_source = source,
               finding_range = byte_range, finding_secret = v\<rparr>)"

definition finding_wf :: "Finding \<Rightarrow> bool" where
  "finding_wf f \<longleftrightarrow>
     fst (finding_range f) < snd (finding_range f) \<and> expose_secret (finding_secret f) \<noteq> []"

lemma Finding_new_ok_iff:
  "Finding_new k s src r v = Ok f \<longleftrightarrow>
     f = \<lparr>finding_kind = k, finding_sensitivity = s, finding_source = src,
          finding_range = r, finding_secret = v\<rparr> \<and> finding_wf f"
  by (auto simp: Finding_new_def finding_wf_def SecretValue_is_empty_def)

section \<open>Static errors and log events (error.rs, safe\_log.rs)\<close>

datatype ErrorCode =
  EC_InvalidInput | EC_PolicyDenied | EC_SafeRefRejected | EC_VaultUnavailable | EC_Internal

record RedactedError =
  re_code :: ErrorCode
  re_message :: string

definition RedactedError_fmt :: "RedactedError \<Rightarrow> string" where
  "RedactedError_fmt e = re_message e"

datatype EventLevel = Level_Debug | Level_Info | Level_Warning | Level_Error

record SafeField =
  sf_key :: string
  sf_text :: string

record SafeEvent =
  se_level :: EventLevel
  se_name :: string
  se_message :: string
  se_fields :: "SafeField list"

fun EventLevel_fmt :: "EventLevel \<Rightarrow> string" where
  "EventLevel_fmt Level_Debug = ''Debug''"
| "EventLevel_fmt Level_Info = ''Info''"
| "EventLevel_fmt Level_Warning = ''Warning''"
| "EventLevel_fmt Level_Error = ''Error''"

definition SafeEvent_fmt :: "SafeEvent \<Rightarrow> string" where
  "SafeEvent_fmt ev =
     ''level='' @ EventLevel_fmt (se_level ev) @ '' event='' @ se_name ev @
     '' message='' @ se_message ev @
     concat (map (\<lambda>f. '' '' @ sf_key f @ ''='' @ sf_text f) (se_fields ev))"

end
