(* ===== verification/Safe_Ref.thy ===== *)
theory Safe_Ref
  imports Core
begin

text \<open>
  Opaque references to protected data (\<open>crates/blindfold-core/src/safe_ref.rs\<close>): the printer
  \<open>SafeRef::from_id\<close>, the parser \<open>SafeRef::parse\<close> and the identifier check they share.
\<close>

definition PREFIX :: string where
  "PREFIX = ''{{BLINDFOLD:v1:''"

definition SUFFIX :: string where
  "SUFFIX = ''}}''"

definition ID_LENGTH :: nat where
  "ID_LENGTH = 32"

datatype SafeRefKind =
    SRK_Secret | SRK_Environment | SRK_PersonallyIdentifiableInformation
  | SRK_PrivateKey | SRK_Certificate

datatype SafeRefError = SRE_InvalidLength | SRE_InvalidFormat | SRE_InvalidKind | SRE_InvalidIdentifier

fun SafeRefKind_as_str :: "SafeRefKind \<Rightarrow> string" where
  "SafeRefKind_as_str SRK_Secret = ''SECRET''"
| "SafeRefKind_as_str SRK_Environment = ''ENV''"
| "SafeRefKind_as_str SRK_PersonallyIdentifiableInformation = ''PII''"
| "SafeRefKind_as_str SRK_PrivateKey = ''PRIVATE_KEY''"
| "SafeRefKind_as_str SRK_Certificate = ''CERT''"

definition SafeRefKind_parse :: "string \<Rightarrow> SafeRefError + SafeRefKind" where
  "SafeRefKind_parse s =
     (if s = ''SECRET'' then Ok SRK_Secret
      else if s = ''ENV'' then Ok SRK_Environment
      else if s = ''PII'' then Ok SRK_PersonallyIdentifiableInformation
      else if s = ''PRIVATE_KEY'' then Ok SRK_PrivateKey
      else if s = ''CERT'' then Ok SRK_Certificate
      else Err SRE_InvalidKind)"

record SafeRef =
  sr_kind :: SafeRefKind
  sr_encoded :: string

definition validate_id :: "string \<Rightarrow> SafeRefError + unit" where
  "validate_id id' =
     (if length id' \<noteq> ID_LENGTH then Err SRE_InvalidLength
      else if \<not> list_all (\<lambda>b. is_ascii_hexdigit b \<and> \<not> is_ascii_uppercase b) id'
      then Err SRE_InvalidIdentifier
      else Ok ())"

definition SafeRef_from_id :: "SafeRefKind \<Rightarrow> string \<Rightarrow> SafeRefError + SafeRef" where
  "SafeRef_from_id kind id' =
     res_bind (validate_id id') (\<lambda>_.
       Ok \<lparr>sr_kind = kind,
           sr_encoded = PREFIX @ SafeRefKind_as_str kind @ '':'' @ id' @ SUFFIX\<rparr>)"

definition SafeRef_parse :: "string \<Rightarrow> SafeRefError + SafeRef" where
  "SafeRef_parse s =
     res_bind (ok_or (Option.bind (strip_prefix PREFIX s) (strip_suffix SUFFIX)) SRE_InvalidFormat) (\<lambda>body.
     res_bind (ok_or (split_once (CHR '':'') body) SRE_InvalidFormat) (\<lambda>(kind, id').
     res_bind (SafeRefKind_parse kind) (\<lambda>kind.
     res_bind (validate_id id') (\<lambda>_.
       if length s \<noteq> length PREFIX + length (SafeRefKind_as_str kind) + 1 + ID_LENGTH + length SUFFIX
       then Err SRE_InvalidLength
       else Ok \<lparr>sr_kind = kind, sr_encoded = s\<rparr>))))"

fun SafeRefError_fmt :: "SafeRefError \<Rightarrow> string" where
  "SafeRefError_fmt SRE_InvalidLength = ''safe reference has an invalid length''"
| "SafeRefError_fmt SRE_InvalidFormat = ''safe reference has an invalid format''"
| "SafeRefError_fmt SRE_InvalidKind = ''safe reference has an invalid kind''"
| "SafeRefError_fmt SRE_InvalidIdentifier = ''safe reference has an invalid identifier''"

section \<open>Well-formed references\<close>

definition lower_hex_id :: "string \<Rightarrow> bool" where
  "lower_hex_id i \<longleftrightarrow> length i = ID_LENGTH \<and> list_all (\<lambda>b. is_ascii_hexdigit b \<and> \<not> is_ascii_uppercase b) i"

definition safe_ref_wf :: "SafeRef \<Rightarrow> bool" where
  "safe_ref_wf r \<longleftrightarrow> (\<exists>i. lower_hex_id i \<and> sr_encoded r = PREFIX @ SafeRefKind_as_str (sr_kind r) @ '':'' @ i @ SUFFIX)"

lemma validate_id_ok_iff [res_simps]: "validate_id i = Ok u \<longleftrightarrow> lower_hex_id i"
  by (simp add: validate_id_def lower_hex_id_def)

lemma SafeRefKind_parse_ok_iff [res_simps]: "SafeRefKind_parse s = Ok k \<longleftrightarrow> s = SafeRefKind_as_str k"
  by (cases k) (auto simp: SafeRefKind_parse_def)

lemma colon_not_in_kind: "CHR '':'' \<notin> set (SafeRefKind_as_str k)"
  by (cases k) auto

lemma SafeRef_from_id_ok_iff [res_simps]:
  "SafeRef_from_id k i = Ok r \<longleftrightarrow>
     lower_hex_id i \<and>
     r = \<lparr>sr_kind = k, sr_encoded = PREFIX @ SafeRefKind_as_str k @ '':'' @ i @ SUFFIX\<rparr>"
  by (auto simp: SafeRef_from_id_def res_bind_ok_iff validate_id_ok_iff)

lemma envelope_iff:
  "Option.bind (strip_prefix PREFIX s) (strip_suffix SUFFIX) = Some body \<longleftrightarrow> s = PREFIX @ body @ SUFFIX"
  by (auto simp: bind_eq_Some_conv strip_prefix_some_iff strip_suffix_some_iff)

text \<open>The parser accepts exactly the encodings the printer makes.\<close>

lemma SafeRef_parse_ok_iff [res_simps]:
  "SafeRef_parse s = Ok r \<longleftrightarrow>
     sr_encoded r = s \<and> (\<exists>i. lower_hex_id i \<and> s = PREFIX @ SafeRefKind_as_str (sr_kind r) @ '':'' @ i @ SUFFIX)"
proof
  assume "SafeRef_parse s = Ok r"
  then obtain kind i k where
    s: "s = PREFIX @ (kind @ CHR '':'' # i) @ SUFFIX" and k: "kind = SafeRefKind_as_str k"
    and i: "lower_hex_id i" and r: "r = \<lparr>sr_kind = k, sr_encoded = s\<rparr>"
    by (auto simp: SafeRef_parse_def res_bind_ok_iff ok_or_ok_iff envelope_iff
        split_once_some_iff SafeRefKind_parse_ok_iff validate_id_ok_iff split: if_splits)
  then show "sr_encoded r = s \<and> (\<exists>i. lower_hex_id i \<and> s = PREFIX @ SafeRefKind_as_str (sr_kind r) @ '':'' @ i @ SUFFIX)"
    by auto
next
  assume "sr_encoded r = s \<and> (\<exists>i. lower_hex_id i \<and> s = PREFIX @ SafeRefKind_as_str (sr_kind r) @ '':'' @ i @ SUFFIX)"
  then obtain i where r: "sr_encoded r = s" and i: "lower_hex_id i"
    and s: "s = PREFIX @ SafeRefKind_as_str (sr_kind r) @ '':'' @ i @ SUFFIX" by blast
  let ?body = "SafeRefKind_as_str (sr_kind r) @ CHR '':'' # i"
  have env: "Option.bind (strip_prefix PREFIX s) (strip_suffix SUFFIX) = Some ?body"
    using s by (simp only: envelope_iff) simp
  have sp: "split_once (CHR '':'') ?body = Some (SafeRefKind_as_str (sr_kind r), i)"
    using colon_not_in_kind by (simp add: split_once_some_iff)
  have kp: "SafeRefKind_parse (SafeRefKind_as_str (sr_kind r)) = Ok (sr_kind r)"
    by (simp add: SafeRefKind_parse_ok_iff)
  have len: "length s = length PREFIX + length (SafeRefKind_as_str (sr_kind r)) + 1 + ID_LENGTH + length SUFFIX"
    using s i by (simp add: lower_hex_id_def)
  have vi: "validate_id i = Ok ()" using i by (simp add: validate_id_ok_iff)
  show "SafeRef_parse s = Ok r"
    unfolding SafeRef_parse_def env using r sp kp vi len by simp
qed

lemma SafeRef_parse_wf: "SafeRef_parse s = Ok r \<Longrightarrow> safe_ref_wf r"
  by (auto simp: SafeRef_parse_ok_iff safe_ref_wf_def)

text \<open>Two well-formed references with the same text are the same reference.\<close>

lemma SafeRefKind_as_str_inject [simp]: "SafeRefKind_as_str a = SafeRefKind_as_str b \<longleftrightarrow> a = b"
  by (cases a; cases b) auto

lemma safe_ref_eqI: "safe_ref_wf a \<Longrightarrow> safe_ref_wf b \<Longrightarrow> sr_encoded a = sr_encoded b \<Longrightarrow> a = b"
proof -
  assume "safe_ref_wf a" "safe_ref_wf b" "sr_encoded a = sr_encoded b"
  then have "SafeRef_parse (sr_encoded a) = Ok a" "SafeRef_parse (sr_encoded a) = Ok b"
    by (auto simp: safe_ref_wf_def SafeRef_parse_ok_iff)
  then show "a = b" by simp
qed

section \<open>Properties\<close>

text \<open>
  C1. Round trip of \<open>SafeRef::parse\<close> and \<open>SafeRef::from_id\<close>: the parser accepts a text exactly
  when some category and identifier print to it, and then returns that reference.  A parsed
  reference is therefore never anything but the envelope, one of the five categories, a colon
  and 32 lowercase hexadecimal digits.
\<close>

theorem SafeRef_parse_from_id:
  "SafeRef_parse s = Ok r \<longleftrightarrow> sr_encoded r = s \<and> (\<exists>i. SafeRef_from_id (sr_kind r) i = Ok r)"
  by (cases r) (auto simp: SafeRef_parse_ok_iff SafeRef_from_id_ok_iff)

end
