(* ===== verification/Policy.thy ===== *)
theory Policy
  imports Core
begin

text \<open>
  Destination-aware policy decisions (\<open>crates/blindfold-policy/src/lib.rs\<close>): rules, their
  validation, the preset tables and \<open>Policy::evaluate_at\<close> with its precedence of hard invariant,
  invalid policy, explicit deny, active allow and preset.  A \<open>SystemTime\<close> is an integer, only
  compared.  The catch-all arms the code keeps for future variants of the core enumerations have
  no input today: every variant is named.
\<close>

datatype Preset = Preset_Chill | Preset_Balanced | Preset_Strict | Preset_Ci

datatype Operation = Op_Disclose | Op_Restore

datatype SourceContext =
    SC_Environment | SC_File | SC_StandardInput | SC_ProcessOutput | SC_Request | SC_Response
  | SC_Tool | SC_Unknown | SC_Unsupported

fun SourceContext_from :: "Source \<Rightarrow> SourceContext" where
  "SourceContext_from (Src_EnvironmentVariable _) = SC_Environment"
| "SourceContext_from (Src_File _) = SC_File"
| "SourceContext_from Src_StandardInput = SC_StandardInput"
| "SourceContext_from Src_ProcessOutput = SC_ProcessOutput"
| "SourceContext_from Src_Request = SC_Request"
| "SourceContext_from Src_Response = SC_Response"
| "SourceContext_from (Src_Tool _) = SC_Tool"
| "SourceContext_from Src_Unknown = SC_Unknown"

record Request =
  rq_operation :: Operation
  rq_kind :: SecretKind
  rq_sensitivity :: Sensitivity
  rq_source :: SourceContext
  rq_destination :: Destination

definition Request_from_source ::
  "Operation \<Rightarrow> SecretKind \<Rightarrow> Sensitivity \<Rightarrow> Source \<Rightarrow> Destination \<Rightarrow> Request" where
  "Request_from_source op kind sensitivity source destination =
     \<lparr>rq_operation = op, rq_kind = kind, rq_sensitivity = sensitivity,
      rq_source = SourceContext_from source, rq_destination = destination\<rparr>"

datatype DecisionAction = DA_Allow | DA_Redact | DA_Warn | DA_Block | DA_Restore

fun as_core_action :: "DecisionAction \<Rightarrow> Action" where
  "as_core_action DA_Allow = Act_Allow"
| "as_core_action DA_Restore = Act_Allow"
| "as_core_action DA_Redact = Act_ReplaceWithSafeRef"
| "as_core_action DA_Warn = Act_Warn"
| "as_core_action DA_Block = Act_Block"

datatype AllowReason =
  AR_RequiredOperation | AR_Compatibility | AR_TestFixture | AR_IncidentResponse

type_synonym RuleId = "64 word"

record RuleScope =
  rs_operation :: Operation
  rs_destination :: Destination
  rs_kind :: "SecretKind option"
  rs_sensitivity :: "Sensitivity option"
  rs_source :: "SourceContext option"

definition RuleScope_new :: "Operation \<Rightarrow> Destination \<Rightarrow> RuleScope" where
  "RuleScope_new op destination =
     \<lparr>rs_operation = op, rs_destination = destination, rs_kind = None,
      rs_sensitivity = None, rs_source = None\<rparr>"

definition with_kind :: "RuleScope \<Rightarrow> SecretKind \<Rightarrow> RuleScope" where
  "with_kind s k = s\<lparr>rs_kind := Some k\<rparr>"

definition with_sensitivity :: "RuleScope \<Rightarrow> Sensitivity \<Rightarrow> RuleScope" where
  "with_sensitivity s k = s\<lparr>rs_sensitivity := Some k\<rparr>"

definition with_source :: "RuleScope \<Rightarrow> SourceContext \<Rightarrow> RuleScope" where
  "with_source s k = s\<lparr>rs_source := Some k\<rparr>"

definition is_none_or :: "'a option \<Rightarrow> ('a \<Rightarrow> bool) \<Rightarrow> bool" where
  "is_none_or x p = (case x of None \<Rightarrow> True | Some v \<Rightarrow> p v)"

definition RuleScope_matches :: "RuleScope \<Rightarrow> Request \<Rightarrow> bool" where
  "RuleScope_matches s request \<longleftrightarrow>
     rs_operation s = rq_operation request \<and>
     rs_destination s = rq_destination request \<and>
     is_none_or (rs_kind s) (\<lambda>k. k = rq_kind request) \<and>
     is_none_or (rs_sensitivity s) (\<lambda>k. k = rq_sensitivity request) \<and>
     is_none_or (rs_source s) (\<lambda>k. k = rq_source request)"

record DenyRule =
  deny_id :: RuleId
  deny_scope :: RuleScope

record AllowRule =
  allow_id :: RuleId
  allow_scope :: RuleScope
  allow_reason :: AllowReason
  allow_expires_at :: "int option"

definition expiring_at :: "AllowRule \<Rightarrow> int \<Rightarrow> AllowRule" where
  "expiring_at r t = r\<lparr>allow_expires_at := Some t\<rparr>"

definition AllowRule_is_active :: "AllowRule \<Rightarrow> int \<Rightarrow> bool" where
  "AllowRule_is_active r now = is_none_or (allow_expires_at r) (\<lambda>expiry. now < expiry)"

datatype DecisionBasis =
  DB_Invariant | DB_InvalidPolicy | DB_ExplicitDeny | DB_ExplicitAllow | DB_Preset

record Explanation =
  ex_preset :: Preset
  ex_operation :: Operation
  ex_kind :: SecretKind
  ex_sensitivity :: Sensitivity
  ex_source :: SourceContext
  ex_destination :: Destination
  ex_action :: DecisionAction
  ex_basis :: DecisionBasis
  ex_rule_id :: "RuleId option"
  ex_allow_reason :: "AllowReason option"

record Decision =
  dec_action :: DecisionAction
  dec_explanation :: Explanation

definition permits_operation :: "Decision \<Rightarrow> bool" where
  "permits_operation d \<longleftrightarrow> dec_action d \<noteq> DA_Block"

datatype PolicyError =
    PE_DuplicateRuleId | PE_UntrustedRestoreDestination | PE_OverbroadAllowRule
  | PE_UnsupportedDestination | PE_UnsupportedSource

record Policy =
  pol_preset :: Preset
  pol_deny_rules :: "DenyRule list"
  pol_allow_rules :: "AllowRule list"
  pol_validation_error :: "PolicyError option"

section \<open>Validation and invariants\<close>

fun is_known_destination :: "Destination \<Rightarrow> bool" where
  "is_known_destination Dest_ModelProvider = True"
| "is_known_destination Dest_Agent = True"
| "is_known_destination Dest_Tool = True"
| "is_known_destination Dest_ChildProcess = True"
| "is_known_destination Dest_File = True"
| "is_known_destination Dest_Log = True"
| "is_known_destination Dest_Audit = True"
| "is_known_destination Dest_User = True"
| "is_known_destination Dest_TrustedLocal = True"

definition is_trusted_restore_destination :: "Destination \<Rightarrow> bool" where
  "is_trusted_restore_destination d \<longleftrightarrow> d = Dest_ChildProcess \<or> d = Dest_TrustedLocal"

fun is_known_sensitivity :: "Sensitivity \<Rightarrow> bool" where
  "is_known_sensitivity Sens_Public = True"
| "is_known_sensitivity Sens_Internal = True"
| "is_known_sensitivity Sens_Confidential = True"
| "is_known_sensitivity Sens_Secret = True"
| "is_known_sensitivity Sens_Restricted = True"

fun is_known_kind :: "SecretKind \<Rightarrow> bool" where
  "is_known_kind SK_ApiKey = True"
| "is_known_kind SK_Token = True"
| "is_known_kind SK_Password = True"
| "is_known_kind SK_PrivateKey = True"
| "is_known_kind SK_Certificate = True"
| "is_known_kind SK_CredentialUrl = True"
| "is_known_kind SK_PersonallyIdentifiableInformation = True"
| "is_known_kind SK_Other = True"

definition validate_scope :: "RuleScope \<Rightarrow> PolicyError + unit" where
  "validate_scope s =
     (if \<not> is_known_destination (rs_destination s) then Err PE_UnsupportedDestination
      else if rs_source s = Some SC_Unsupported then Err PE_UnsupportedSource
      else Ok ())"

fun validate_ids :: "RuleId set \<Rightarrow> (RuleId \<times> RuleScope) list \<Rightarrow> PolicyError + unit" where
  "validate_ids ids [] = Ok ()"
| "validate_ids ids ((i, s) # rest) =
     (if i \<in> ids then Err PE_DuplicateRuleId
      else res_bind (validate_scope s) (\<lambda>_. validate_ids (insert i ids) rest))"

definition validate_allow_rule :: "AllowRule \<Rightarrow> PolicyError + unit" where
  "validate_allow_rule r =
     (let s = allow_scope r in
      if rs_kind s = None \<and> rs_sensitivity s = None \<and> rs_source s = None
      then Err PE_OverbroadAllowRule
      else if rs_operation s = Op_Restore \<and> \<not> is_trusted_restore_destination (rs_destination s)
      then Err PE_UntrustedRestoreDestination
      else Ok ())"

definition validate_rules :: "DenyRule list \<Rightarrow> AllowRule list \<Rightarrow> PolicyError + unit" where
  "validate_rules deny_rules allow_rules =
     res_bind
       (validate_ids {}
          (map (\<lambda>r. (deny_id r, deny_scope r)) deny_rules @
           map (\<lambda>r. (allow_id r, allow_scope r)) allow_rules))
       (\<lambda>_. try_all validate_allow_rule allow_rules)"

definition violates_invariant :: "Request \<Rightarrow> bool" where
  "violates_invariant request =
     (if \<not> is_known_destination (rq_destination request)
         \<or> rq_source request = SC_Unsupported
         \<or> \<not> is_known_sensitivity (rq_sensitivity request)
         \<or> \<not> is_known_kind (rq_kind request)
      then True
      else case rq_operation request of
        Op_Restore \<Rightarrow> \<not> is_trusted_restore_destination (rq_destination request)
      | Op_Disclose \<Rightarrow>
          rq_sensitivity request \<ge> Sens_Secret \<and>
          rq_destination request \<in> {Dest_ModelProvider, Dest_Agent, Dest_Tool, Dest_Log, Dest_Audit})"

section \<open>Presets\<close>

definition chill_action :: "Request \<Rightarrow> DecisionAction" where
  "chill_action request =
     (case rq_sensitivity request of
        Sens_Internal \<Rightarrow>
          (case rq_destination request of
             Dest_ModelProvider \<Rightarrow> DA_Redact | Dest_Log \<Rightarrow> DA_Redact | Dest_Audit \<Rightarrow> DA_Redact
           | Dest_Agent \<Rightarrow> DA_Warn | Dest_Tool \<Rightarrow> DA_Warn
           | Dest_ChildProcess \<Rightarrow> DA_Allow | Dest_File \<Rightarrow> DA_Allow
           | Dest_User \<Rightarrow> DA_Allow | Dest_TrustedLocal \<Rightarrow> DA_Allow)
      | Sens_Confidential \<Rightarrow>
          (case rq_destination request of
             Dest_ChildProcess \<Rightarrow> DA_Warn | Dest_File \<Rightarrow> DA_Warn | Dest_User \<Rightarrow> DA_Warn
           | Dest_TrustedLocal \<Rightarrow> DA_Allow
           | Dest_ModelProvider \<Rightarrow> DA_Redact | Dest_Agent \<Rightarrow> DA_Redact | Dest_Tool \<Rightarrow> DA_Redact
           | Dest_Log \<Rightarrow> DA_Redact | Dest_Audit \<Rightarrow> DA_Redact)
      | Sens_Secret \<Rightarrow>
          (case rq_destination request of
             Dest_ChildProcess \<Rightarrow> DA_Redact | Dest_File \<Rightarrow> DA_Redact
           | Dest_User \<Rightarrow> DA_Redact | Dest_TrustedLocal \<Rightarrow> DA_Redact
           | _ \<Rightarrow> DA_Block)
      | _ \<Rightarrow> DA_Block)"

definition balanced_action :: "Request \<Rightarrow> DecisionAction" where
  "balanced_action request =
     (case rq_sensitivity request of
        Sens_Internal \<Rightarrow>
          (case rq_destination request of
             Dest_ModelProvider \<Rightarrow> DA_Redact | Dest_Agent \<Rightarrow> DA_Redact | Dest_Tool \<Rightarrow> DA_Redact
           | Dest_Log \<Rightarrow> DA_Redact | Dest_Audit \<Rightarrow> DA_Redact
           | Dest_ChildProcess \<Rightarrow> DA_Allow | Dest_File \<Rightarrow> DA_Allow
           | Dest_User \<Rightarrow> DA_Allow | Dest_TrustedLocal \<Rightarrow> DA_Allow)
      | Sens_Confidential \<Rightarrow>
          (case rq_destination request of
             Dest_TrustedLocal \<Rightarrow> DA_Allow
           | Dest_ModelProvider \<Rightarrow> DA_Redact | Dest_Agent \<Rightarrow> DA_Redact | Dest_Tool \<Rightarrow> DA_Redact
           | Dest_ChildProcess \<Rightarrow> DA_Redact | Dest_File \<Rightarrow> DA_Redact | Dest_Log \<Rightarrow> DA_Redact
           | Dest_Audit \<Rightarrow> DA_Redact | Dest_User \<Rightarrow> DA_Redact)
      | Sens_Secret \<Rightarrow>
          (case rq_destination request of
             Dest_ChildProcess \<Rightarrow> DA_Redact | Dest_File \<Rightarrow> DA_Redact
           | Dest_User \<Rightarrow> DA_Redact | Dest_TrustedLocal \<Rightarrow> DA_Redact
           | _ \<Rightarrow> DA_Block)
      | _ \<Rightarrow> DA_Block)"

definition strict_action :: "Request \<Rightarrow> DecisionAction" where
  "strict_action request =
     (let confidential_or_secret =
            (case rq_destination request of
               Dest_ChildProcess \<Rightarrow> DA_Redact | Dest_File \<Rightarrow> DA_Redact
             | Dest_User \<Rightarrow> DA_Redact | Dest_TrustedLocal \<Rightarrow> DA_Redact
             | _ \<Rightarrow> DA_Block)
      in case rq_sensitivity request of
        Sens_Internal \<Rightarrow>
          (case rq_destination request of
             Dest_ChildProcess \<Rightarrow> DA_Warn | Dest_File \<Rightarrow> DA_Warn
           | Dest_User \<Rightarrow> DA_Warn | Dest_TrustedLocal \<Rightarrow> DA_Warn
           | Dest_ModelProvider \<Rightarrow> DA_Redact | Dest_Agent \<Rightarrow> DA_Redact | Dest_Tool \<Rightarrow> DA_Redact
           | Dest_Log \<Rightarrow> DA_Redact | Dest_Audit \<Rightarrow> DA_Redact)
      | Sens_Confidential \<Rightarrow> confidential_or_secret
      | Sens_Secret \<Rightarrow> confidential_or_secret
      | _ \<Rightarrow> DA_Block)"

definition ci_action :: "Request \<Rightarrow> DecisionAction" where
  "ci_action request =
     (case rq_sensitivity request of
        Sens_Internal \<Rightarrow> DA_Redact
      | Sens_Confidential \<Rightarrow> DA_Redact
      | _ \<Rightarrow> DA_Block)"

definition preset_action :: "Preset \<Rightarrow> Request \<Rightarrow> DecisionAction" where
  "preset_action preset request =
     (if rq_operation request = Op_Restore then DA_Block
      else if rq_sensitivity request = Sens_Public then DA_Allow
      else if rq_sensitivity request = Sens_Restricted
           \<or> (rq_kind request = SK_PrivateKey \<and> rq_sensitivity request \<ge> Sens_Secret)
      then DA_Block
      else if rq_source request = SC_Unknown then
        (case preset of
           Preset_Chill \<Rightarrow> DA_Redact | Preset_Balanced \<Rightarrow> DA_Redact
         | Preset_Strict \<Rightarrow> DA_Block | Preset_Ci \<Rightarrow> DA_Block)
      else if rq_source request = SC_Environment \<and> rq_sensitivity request \<ge> Sens_Confidential
      then DA_Redact
      else (case preset of
          Preset_Chill \<Rightarrow> chill_action request
        | Preset_Balanced \<Rightarrow> balanced_action request
        | Preset_Strict \<Rightarrow> strict_action request
        | Preset_Ci \<Rightarrow> ci_action request))"

section \<open>Evaluation\<close>

definition Policy_new :: "Preset \<Rightarrow> DenyRule list \<Rightarrow> AllowRule list \<Rightarrow> Policy" where
  "Policy_new preset deny_rules allow_rules =
     \<lparr>pol_preset = preset, pol_deny_rules = deny_rules, pol_allow_rules = allow_rules,
      pol_validation_error = res_err (validate_rules deny_rules allow_rules)\<rparr>"

definition Policy_preset :: "Preset \<Rightarrow> Policy" where
  "Policy_preset preset = Policy_new preset [] []"

definition Policy_decision ::
  "Policy \<Rightarrow> Request \<Rightarrow> DecisionAction \<Rightarrow> DecisionBasis \<Rightarrow> (RuleId \<times> AllowReason option) option \<Rightarrow> Decision"
where
  "Policy_decision p request action basis rule =
     (let (rule_id, reason) = (case rule of None \<Rightarrow> (None, None) | Some (i, r) \<Rightarrow> (Some i, r)) in
      \<lparr>dec_action = action,
       dec_explanation =
         \<lparr>ex_preset = pol_preset p, ex_operation = rq_operation request, ex_kind = rq_kind request,
          ex_sensitivity = rq_sensitivity request, ex_source = rq_source request,
          ex_destination = rq_destination request, ex_action = action, ex_basis = basis,
          ex_rule_id = rule_id, ex_allow_reason = reason\<rparr>\<rparr>)"

definition matching_deny :: "Policy \<Rightarrow> Request \<Rightarrow> DenyRule option" where
  "matching_deny p request =
     min_by_key deny_id (filter (\<lambda>r. RuleScope_matches (deny_scope r) request) (pol_deny_rules p))"

definition matching_allow :: "Policy \<Rightarrow> Request \<Rightarrow> int \<Rightarrow> AllowRule option" where
  "matching_allow p request now =
     min_by_key allow_id
       (filter (\<lambda>r. RuleScope_matches (allow_scope r) request \<and> AllowRule_is_active r now)
          (pol_allow_rules p))"

definition evaluate_at :: "Policy \<Rightarrow> Request \<Rightarrow> int \<Rightarrow> Decision" where
  "evaluate_at p request now =
     (if violates_invariant request then Policy_decision p request DA_Block DB_Invariant None
      else if pol_validation_error p \<noteq> None
      then Policy_decision p request DA_Block DB_InvalidPolicy None
      else case matching_deny p request of
        Some rule \<Rightarrow> Policy_decision p request DA_Block DB_ExplicitDeny (Some (deny_id rule, None))
      | None \<Rightarrow>
        (case matching_allow p request now of
           Some rule \<Rightarrow>
             Policy_decision p request
               (case rq_operation request of Op_Disclose \<Rightarrow> DA_Allow | Op_Restore \<Rightarrow> DA_Restore)
               DB_ExplicitAllow (Some (allow_id rule, Some (allow_reason rule)))
         | None \<Rightarrow>
             Policy_decision p request (preset_action (pol_preset p) request) DB_Preset None))"

section \<open>Lemmas\<close>

lemma is_known_simps [simp]:
  "is_known_destination d" "is_known_sensitivity s" "is_known_kind k"
    apply (cases d; simp)
   apply (cases s; simp)
  apply (cases k; simp)
  done

lemma dec_action_decision [simp]: "dec_action (Policy_decision p rq a b r) = a"
  by (simp add: Policy_decision_def split: prod.splits)

lemma ex_decision [simp]:
  "ex_basis (dec_explanation (Policy_decision p rq a b r)) = b"
  "ex_action (dec_explanation (Policy_decision p rq a b r)) = a"
  "ex_rule_id (dec_explanation (Policy_decision p rq a b r)) = map_option fst r"
  by (cases r; auto simp: Policy_decision_def split: prod.splits)+

lemma matching_deny_none_iff:
  "matching_deny p rq = None \<longleftrightarrow> (\<forall>r\<in>set (pol_deny_rules p). \<not> RuleScope_matches (deny_scope r) rq)"
  by (auto simp: matching_deny_def filter_empty_conv)

lemma matching_allow_none_iff:
  "matching_allow p rq now = None \<longleftrightarrow>
     (\<forall>r\<in>set (pol_allow_rules p). RuleScope_matches (allow_scope r) rq \<longrightarrow> \<not> AllowRule_is_active r now)"
  by (auto simp: matching_allow_def filter_empty_conv)

lemma matching_deny_some:
  "matching_deny p rq = Some r \<Longrightarrow>
     r \<in> set (pol_deny_rules p) \<and> RuleScope_matches (deny_scope r) rq \<and>
     (\<forall>r'\<in>set (pol_deny_rules p). RuleScope_matches (deny_scope r') rq \<longrightarrow> deny_id r \<le> deny_id r')"
  unfolding matching_deny_def by (drule min_by_key_some) auto

lemma matching_allow_some:
  "matching_allow p rq now = Some r \<Longrightarrow>
     r \<in> set (pol_allow_rules p) \<and> RuleScope_matches (allow_scope r) rq \<and> AllowRule_is_active r now"
  unfolding matching_allow_def by (drule min_by_key_some) auto

lemma validate_scope_ok_iff [res_simps]: "validate_scope s = Ok u \<longleftrightarrow> rs_source s \<noteq> Some SC_Unsupported"
  by (simp add: validate_scope_def)

lemma validate_ids_ok_iff [res_simps]:
  "validate_ids ids xs = Ok u \<longleftrightarrow>
     distinct (map fst xs) \<and> fst ` set xs \<inter> ids = {} \<and> (\<forall>x\<in>set xs. rs_source (snd x) \<noteq> Some SC_Unsupported)"
  by (induction ids xs rule: validate_ids.induct)
    (auto simp: res_bind_ok_iff validate_scope_ok_iff image_iff)

lemma preset_action_restore: "preset_action pr rq = DA_Restore \<longleftrightarrow> False"
  by (auto simp: preset_action_def chill_action_def balanced_action_def strict_action_def
      ci_action_def Let_def split: Preset.splits Sensitivity.splits Destination.splits if_splits)

lemma violates_invariant_iff:
  "violates_invariant rq \<longleftrightarrow>
     rq_source rq = SC_Unsupported \<or>
     (rq_operation rq = Op_Restore \<and> \<not> is_trusted_restore_destination (rq_destination rq)) \<or>
     (rq_operation rq = Op_Disclose \<and> rq_sensitivity rq \<ge> Sens_Secret \<and>
      rq_destination rq \<in> {Dest_ModelProvider, Dest_Agent, Dest_Tool, Dest_Log, Dest_Audit})"
  by (cases "rq_operation rq") (auto simp: violates_invariant_def)

lemma validate_allow_rule_ok_iff [res_simps]:
  "validate_allow_rule r = Ok u \<longleftrightarrow>
     (rs_kind (allow_scope r) \<noteq> None \<or> rs_sensitivity (allow_scope r) \<noteq> None \<or> rs_source (allow_scope r) \<noteq> None) \<and>
     (rs_operation (allow_scope r) = Op_Restore \<longrightarrow> is_trusted_restore_destination (rs_destination (allow_scope r)))"
  by (auto simp: validate_allow_rule_def Let_def)

definition allow_rule_narrow :: "AllowRule \<Rightarrow> bool" where
  "allow_rule_narrow r \<longleftrightarrow>
     (rs_kind (allow_scope r) \<noteq> None \<or> rs_sensitivity (allow_scope r) \<noteq> None \<or> rs_source (allow_scope r) \<noteq> None) \<and>
     (rs_operation (allow_scope r) = Op_Restore \<longrightarrow> is_trusted_restore_destination (rs_destination (allow_scope r)))"

lemma validate_rules_ok_iff:
  "validate_rules deny allow = Ok () \<longleftrightarrow>
     distinct (map deny_id deny @ map allow_id allow) \<and>
     list_all (\<lambda>r. rs_source (deny_scope r) \<noteq> Some SC_Unsupported) deny \<and>
     list_all (\<lambda>r. rs_source (allow_scope r) \<noteq> Some SC_Unsupported \<and> allow_rule_narrow r) allow"
proof -
  let ?ids = "map (\<lambda>r. (deny_id r, deny_scope r)) deny @ map (\<lambda>r. (allow_id r, allow_scope r)) allow"
  have d: "map fst ?ids = map deny_id deny @ map allow_id allow"
    by (simp add: comp_def)
  have sup: "(\<forall>x\<in>set ?ids. rs_source (snd x) \<noteq> Some SC_Unsupported) \<longleftrightarrow>
      list_all (\<lambda>r. rs_source (deny_scope r) \<noteq> Some SC_Unsupported) deny \<and>
      list_all (\<lambda>r. rs_source (allow_scope r) \<noteq> Some SC_Unsupported) allow"
    by (simp add: list_all_iff ball_Un)
  have nar: "try_all validate_allow_rule allow = Ok () \<longleftrightarrow> list_all allow_rule_narrow allow"
    by (simp add: try_all_ok_iff validate_allow_rule_ok_iff allow_rule_narrow_def list_all_iff)
  have "validate_rules deny allow = Ok () \<longleftrightarrow>
      distinct (map fst ?ids) \<and> (\<forall>x\<in>set ?ids. rs_source (snd x) \<noteq> Some SC_Unsupported) \<and>
      try_all validate_allow_rule allow = Ok ()"
    unfolding validate_rules_def res_bind_ok_iff validate_ids_ok_iff by blast
  then show ?thesis
    unfolding d sup nar by (auto simp: list_all_iff)
qed

text \<open>
  A partial order of caution on the actions a preset can answer to a disclosure, used to compare
  presets.
\<close>

fun caution :: "DecisionAction \<Rightarrow> nat" where
  "caution DA_Allow = 0"
| "caution DA_Restore = 0"
| "caution DA_Warn = 1"
| "caution DA_Redact = 2"
| "caution DA_Block = 3"

lemmas preset_tables =
  preset_action_def chill_action_def balanced_action_def strict_action_def ci_action_def Let_def
  less_eq_Sensitivity_def

section \<open>Properties\<close>

text \<open>
  C2. Hard invariants: whatever the preset and the rules, valid or not, and whatever the clock,
  a secret or restricted value is never disclosed to a model provider, agent, tool, log or audit
  sink, and plaintext is never restored to anything but a child process or a trusted local
  component.  The answer is a block whose basis is the invariant.
\<close>

theorem policy_hard_invariant:
  assumes "rq_operation rq = Op_Disclose \<and> rq_sensitivity rq \<ge> Sens_Secret \<and>
             rq_destination rq \<in> {Dest_ModelProvider, Dest_Agent, Dest_Tool, Dest_Log, Dest_Audit} \<or>
           rq_operation rq = Op_Restore \<and> rq_destination rq \<notin> {Dest_ChildProcess, Dest_TrustedLocal}"
  shows "\<not> permits_operation (evaluate_at p rq now) \<and>
         ex_basis (dec_explanation (evaluate_at p rq now)) = DB_Invariant"
proof -
  have "violates_invariant rq"
    using assms by (auto simp: violates_invariant_iff is_trusted_restore_destination_def)
  then show ?thesis by (simp add: evaluate_at_def permits_operation_def)
qed

theorem policy_hard_invariant_witness:
  "\<not> permits_operation (evaluate_at (Policy_preset Preset_Chill)
      (Request_from_source Op_Disclose SK_ApiKey Sens_Secret (Src_Tool ''t'') Dest_ModelProvider) 7)"
  using policy_hard_invariant
    [of "Request_from_source Op_Disclose SK_ApiKey Sens_Secret (Src_Tool ''t'') Dest_ModelProvider"
        "Policy_preset Preset_Chill" 7]
  by (simp add: Request_from_source_def less_eq_Sensitivity_def)

text \<open>
  C3. Restoration is answered exactly when it is authorised: the request is a restore from a
  known source context to a trusted destination, the policy is valid, no deny rule matches, and
  some allow rule matches and has not expired.
\<close>

theorem policy_restore_iff:
  "dec_action (evaluate_at (Policy_new preset deny allow) rq now) = DA_Restore \<longleftrightarrow>
     rq_operation rq = Op_Restore \<and> rq_source rq \<noteq> SC_Unsupported \<and>
     rq_destination rq \<in> {Dest_ChildProcess, Dest_TrustedLocal} \<and>
     validate_rules deny allow = Ok () \<and>
     \<not> (\<exists>r\<in>set deny. RuleScope_matches (deny_scope r) rq) \<and>
     (\<exists>r\<in>set allow. RuleScope_matches (allow_scope r) rq \<and> AllowRule_is_active r now)"
proof -
  let ?p = "Policy_new preset deny allow"
  have err: "pol_validation_error ?p = None \<longleftrightarrow> validate_rules deny allow = Ok ()"
    by (auto simp: Policy_new_def is_ok_iff)
  have den: "matching_deny ?p rq = None \<longleftrightarrow> \<not> (\<exists>r\<in>set deny. RuleScope_matches (deny_scope r) rq)"
    by (auto simp: matching_deny_none_iff Policy_new_def)
  have all: "matching_allow ?p rq now = None \<longleftrightarrow>
      \<not> (\<exists>r\<in>set allow. RuleScope_matches (allow_scope r) rq \<and> AllowRule_is_active r now)"
    by (auto simp: matching_allow_none_iff Policy_new_def)
  show ?thesis
    unfolding err[symmetric] den[symmetric]
    using all
    by (cases "rq_operation rq")
      (auto simp: evaluate_at_def violates_invariant_iff is_trusted_restore_destination_def
        preset_action_restore split: option.splits)
qed

text \<open>
  A policy is valid exactly when its rule identifiers are pairwise distinct, no rule scope
  names an unsupported source, and every allow rule is restricted in some dimension and restores
  only to a trusted destination.  An invalid policy permits nothing.
\<close>

theorem policy_validation:
  "(pol_validation_error (Policy_new preset deny allow) = None \<longleftrightarrow>
      distinct (map deny_id deny @ map allow_id allow) \<and>
      list_all (\<lambda>r. rs_source (deny_scope r) \<noteq> Some SC_Unsupported) deny \<and>
      list_all (\<lambda>r. rs_source (allow_scope r) \<noteq> Some SC_Unsupported \<and> allow_rule_narrow r) allow) \<and>
   (pol_validation_error (Policy_new preset deny allow) \<noteq> None \<longrightarrow>
      \<not> permits_operation (evaluate_at (Policy_new preset deny allow) rq now))"
proof -
  have "pol_validation_error (Policy_new preset deny allow) = None \<longleftrightarrow> validate_rules deny allow = Ok ()"
    by (auto simp: Policy_new_def is_ok_iff)
  then show ?thesis
    by (simp add: validate_rules_ok_iff evaluate_at_def permits_operation_def)
qed

theorem policy_validation_witness:
  "\<not> permits_operation (evaluate_at
      (Policy_new Preset_Chill []
        [\<lparr>allow_id = 1, allow_scope = RuleScope_new Op_Disclose Dest_User,
          allow_reason = AR_TestFixture, allow_expires_at = None\<rparr>])
      (Request_from_source Op_Disclose SK_Token Sens_Public Src_Request Dest_User) 0)"
proof -
  have "pol_validation_error (Policy_new Preset_Chill []
        [\<lparr>allow_id = 1, allow_scope = RuleScope_new Op_Disclose Dest_User,
          allow_reason = AR_TestFixture, allow_expires_at = None\<rparr>]) \<noteq> None"
    by (simp add: Policy_new_def validate_rules_def validate_scope_def validate_allow_rule_def RuleScope_new_def)
  then show ?thesis using policy_validation by blast
qed

text \<open>
  Precedence of explicit rules: with no hard invariant violated and a valid policy, a
  matching deny rule blocks, whatever the allow rules say, and the explanation names the
  matching deny rule of least identifier.
\<close>

theorem policy_rule_precedence:
  assumes "\<not> violates_invariant rq" and "pol_validation_error p = None"
    and "r \<in> set (pol_deny_rules p)" and "RuleScope_matches (deny_scope r) rq"
  shows "dec_action (evaluate_at p rq now) = DA_Block \<and>
      ex_basis (dec_explanation (evaluate_at p rq now)) = DB_ExplicitDeny \<and>
      (\<exists>r'\<in>set (pol_deny_rules p). RuleScope_matches (deny_scope r') rq \<and> deny_id r' \<le> deny_id r \<and>
         ex_rule_id (dec_explanation (evaluate_at p rq now)) = Some (deny_id r'))"
proof -
  obtain d where d: "matching_deny p rq = Some d"
    using assms(3,4) matching_deny_none_iff[of p rq] by (cases "matching_deny p rq") auto
  show ?thesis
    using matching_deny_some[OF d] assms d by (auto simp: evaluate_at_def)
qed

theorem policy_rule_precedence_witness:
  "let scope = RuleScope_new Op_Disclose Dest_User;
       deny = \<lparr>deny_id = 4, deny_scope = scope\<rparr>;
       allow = \<lparr>allow_id = 1, allow_scope = with_kind scope SK_Token,
                allow_reason = AR_TestFixture, allow_expires_at = None\<rparr>
   in dec_action (evaluate_at (Policy_new Preset_Chill [deny] [allow])
        (Request_from_source Op_Disclose SK_Token Sens_Public Src_Request Dest_User) 0) = DA_Block"
  unfolding Let_def
  using policy_rule_precedence
    [where rq = "Request_from_source Op_Disclose SK_Token Sens_Public Src_Request Dest_User"
       and p = "Policy_new Preset_Chill [\<lparr>deny_id = 4, deny_scope = RuleScope_new Op_Disclose Dest_User\<rparr>]
         [\<lparr>allow_id = 1, allow_scope = with_kind (RuleScope_new Op_Disclose Dest_User) SK_Token,
           allow_reason = AR_TestFixture, allow_expires_at = None\<rparr>]"
       and r = "\<lparr>deny_id = 4, deny_scope = RuleScope_new Op_Disclose Dest_User\<rparr>" and now = 0]
  by (simp add: Policy_new_def Request_from_source_def RuleScope_new_def with_kind_def
      violates_invariant_iff less_eq_Sensitivity_def RuleScope_matches_def is_none_or_def
      validate_rules_def validate_scope_def validate_allow_rule_def)

text \<open>
  The presets are ordered by caution: on every disclosure the balanced preset is at least as
  restrictive as chill, and strict at least as restrictive as balanced.  No preset ever restores,
  and no preset lets a confidential or more sensitive value reach a model provider, a log or an
  audit sink unreplaced.
\<close>

theorem preset_caution:
  "caution (preset_action Preset_Chill rq) \<le> caution (preset_action Preset_Balanced rq) \<and>
   caution (preset_action Preset_Balanced rq) \<le> caution (preset_action Preset_Strict rq) \<and>
   preset_action pr rq \<noteq> DA_Restore \<and>
   (rq_sensitivity rq \<ge> Sens_Confidential \<and>
      rq_destination rq \<in> {Dest_ModelProvider, Dest_Log, Dest_Audit} \<longrightarrow>
    preset_action pr rq \<in> {DA_Redact, DA_Block})"
proof -
  have "caution (preset_action Preset_Chill rq) \<le> caution (preset_action Preset_Balanced rq)"
    by (cases "rq_sensitivity rq"; cases "rq_destination rq") (simp_all add: preset_tables)
  moreover have "caution (preset_action Preset_Balanced rq) \<le> caution (preset_action Preset_Strict rq)"
    by (cases "rq_sensitivity rq"; cases "rq_destination rq") (simp_all add: preset_tables)
  moreover have "preset_action pr rq \<in> {DA_Redact, DA_Block}"
    if "rq_sensitivity rq \<ge> Sens_Confidential"
      and "rq_destination rq \<in> {Dest_ModelProvider, Dest_Log, Dest_Audit}"
    using that
    by (cases pr; cases "rq_sensitivity rq"; cases "rq_destination rq") (simp_all add: preset_tables)
  ultimately show ?thesis by (simp add: preset_action_restore)
qed

theorem preset_caution_witness:
  "preset_action Preset_Chill
     (Request_from_source Op_Disclose SK_Password Sens_Confidential Src_Request Dest_Log) \<in> {DA_Redact, DA_Block}"
  using preset_caution[of "Request_from_source Op_Disclose SK_Password Sens_Confidential Src_Request Dest_Log" Preset_Chill]
  by (simp add: Request_from_source_def less_eq_Sensitivity_def)

end
