(* ===== verification/Detect_Findings.thy ===== *)
theory Detect_Findings
  imports Core "HOL-Library.Product_Lexorder"
begin

text \<open>
  Safe finding metadata and overlap resolution of the detector crate
  (\<open>crates/blindfold-detectors/src/finding.rs\<close> and \<open>overlap.rs\<close>).  Types whose names the core
  crate also uses carry the prefix \<open>Det\<close>.  \<open>sort_unstable_by_key\<close> is \<^const>\<open>sort_key\<close>; the order
  of findings with equal keys, which the library leaves open, is shown not to matter.
\<close>

section \<open>Spans, confidence and kinds (finding.rs)\<close>

record Span =
  span_start :: nat
  span_end :: nat

datatype SpanError = SpanError

definition Span_new :: "nat \<Rightarrow> nat \<Rightarrow> SpanError + Span" where
  "Span_new a b = (if a \<ge> b then Err SpanError else Ok \<lparr>span_start = a, span_end = b\<rparr>)"

definition Span_len :: "Span \<Rightarrow> nat" where
  "Span_len s = span_end s - span_start s"

definition Span_overlaps :: "Span \<Rightarrow> Span \<Rightarrow> bool" where
  "Span_overlaps a b \<longleftrightarrow> span_start a < span_end b \<and> span_start b < span_end a"

datatype Confidence = Conf_Contextual | Conf_High | Conf_Certain

datatype DetKind =
    DK_OpenAiApiKey | DK_AnthropicApiKey | DK_GitHubToken | DK_StripeKey | DK_SlackToken
  | DK_AwsAccessKeyId | DK_AwsSecretAccessKey | DK_BearerToken | DK_JsonWebToken | DK_OAuthToken
  | DK_PemPrivateKey | DK_CredentialUrl | DK_EmailAddress | DK_PhoneNumber | DK_Password
  | DK_ApiKey | DK_Token

fun DetKind_label :: "DetKind \<Rightarrow> string" where
  "DetKind_label DK_OpenAiApiKey = ''openai_api_key''"
| "DetKind_label DK_AnthropicApiKey = ''anthropic_api_key''"
| "DetKind_label DK_GitHubToken = ''github_token''"
| "DetKind_label DK_StripeKey = ''stripe_key''"
| "DetKind_label DK_SlackToken = ''slack_token''"
| "DetKind_label DK_AwsAccessKeyId = ''aws_access_key_id''"
| "DetKind_label DK_AwsSecretAccessKey = ''aws_secret_access_key''"
| "DetKind_label DK_BearerToken = ''bearer_token''"
| "DetKind_label DK_JsonWebToken = ''jwt''"
| "DetKind_label DK_OAuthToken = ''oauth_token''"
| "DetKind_label DK_PemPrivateKey = ''pem_private_key''"
| "DetKind_label DK_CredentialUrl = ''credential_url''"
| "DetKind_label DK_EmailAddress = ''email_address''"
| "DetKind_label DK_PhoneNumber = ''phone_number''"
| "DetKind_label DK_Password = ''password''"
| "DetKind_label DK_ApiKey = ''api_key''"
| "DetKind_label DK_Token = ''token''"

fun Confidence_rank :: "Confidence \<Rightarrow> nat" where
  "Confidence_rank Conf_Contextual = 0"
| "Confidence_rank Conf_High = 1"
| "Confidence_rank Conf_Certain = 2"

fun DetKind_rank :: "DetKind \<Rightarrow> nat" where
  "DetKind_rank DK_OpenAiApiKey = 0"
| "DetKind_rank DK_AnthropicApiKey = 1"
| "DetKind_rank DK_GitHubToken = 2"
| "DetKind_rank DK_StripeKey = 3"
| "DetKind_rank DK_SlackToken = 4"
| "DetKind_rank DK_AwsAccessKeyId = 5"
| "DetKind_rank DK_AwsSecretAccessKey = 6"
| "DetKind_rank DK_BearerToken = 7"
| "DetKind_rank DK_JsonWebToken = 8"
| "DetKind_rank DK_OAuthToken = 9"
| "DetKind_rank DK_PemPrivateKey = 10"
| "DetKind_rank DK_CredentialUrl = 11"
| "DetKind_rank DK_EmailAddress = 12"
| "DetKind_rank DK_PhoneNumber = 13"
| "DetKind_rank DK_Password = 14"
| "DetKind_rank DK_ApiKey = 15"
| "DetKind_rank DK_Token = 16"

lemma Confidence_rank_inject [simp]: "Confidence_rank a = Confidence_rank b \<longleftrightarrow> a = b"
  by (cases a; cases b) auto

lemma DetKind_rank_inject [simp]: "DetKind_rank a = DetKind_rank b \<longleftrightarrow> a = b"
  by (cases a; cases b; simp)

instantiation Confidence :: linorder
begin

definition less_eq_Confidence :: "Confidence \<Rightarrow> Confidence \<Rightarrow> bool" where
  "a \<le> b \<longleftrightarrow> Confidence_rank a \<le> Confidence_rank b"

definition less_Confidence :: "Confidence \<Rightarrow> Confidence \<Rightarrow> bool" where
  "a < b \<longleftrightarrow> Confidence_rank a < Confidence_rank b"

instance
  by standard (auto simp: less_eq_Confidence_def less_Confidence_def)

end

instantiation DetKind :: linorder
begin

definition less_eq_DetKind :: "DetKind \<Rightarrow> DetKind \<Rightarrow> bool" where
  "a \<le> b \<longleftrightarrow> DetKind_rank a \<le> DetKind_rank b"

definition less_DetKind :: "DetKind \<Rightarrow> DetKind \<Rightarrow> bool" where
  "a < b \<longleftrightarrow> DetKind_rank a < DetKind_rank b"

instance
  by standard (auto simp: less_eq_DetKind_def less_DetKind_def)

end

record DetFinding =
  df_kind :: DetKind
  df_span :: Span
  df_confidence :: Confidence
  df_detector :: string

section \<open>Overlap resolution (overlap.rs)\<close>

definition finding_key :: "DetFinding \<Rightarrow> Confidence Reverse \<times> nat Reverse \<times> nat \<times> DetKind" where
  "finding_key f =
     (Reverse (df_confidence f), Reverse (Span_len (df_span f)), span_start (df_span f), df_kind f)"

definition position_key :: "DetFinding \<Rightarrow> nat \<times> nat" where
  "position_key f = (span_start (df_span f), span_end (df_span f))"

fun select_disjoint :: "DetFinding list \<Rightarrow> DetFinding list \<Rightarrow> DetFinding list" where
  "select_disjoint selected [] = selected"
| "select_disjoint selected (f # fs) =
     (if list_all (\<lambda>existing. \<not> Span_overlaps (df_span existing) (df_span f)) selected
      then select_disjoint (selected @ [f]) fs
      else select_disjoint selected fs)"

definition resolve_overlaps :: "DetFinding list \<Rightarrow> DetFinding list" where
  "resolve_overlaps findings =
     sort_key position_key (select_disjoint [] (sort_key finding_key findings))"

section \<open>Lemmas\<close>

definition span_wf :: "Span \<Rightarrow> bool" where
  "span_wf s \<longleftrightarrow> span_start s < span_end s"

definition span_before :: "DetFinding \<Rightarrow> DetFinding \<Rightarrow> bool" where
  "span_before a b \<longleftrightarrow> span_end (df_span a) \<le> span_start (df_span b)"

lemma Span_new_ok_iff [res_simps]:
  "Span_new a b = Ok s \<longleftrightarrow> s = \<lparr>span_start = a, span_end = b\<rparr> \<and> span_wf s"
  by (auto simp: Span_new_def span_wf_def)

lemma Span_overlaps_sym: "Span_overlaps a b \<longleftrightarrow> Span_overlaps b a"
  by (auto simp: Span_overlaps_def)

lemma Span_overlaps_self: "span_wf a \<Longrightarrow> Span_overlaps a a"
  by (simp add: span_wf_def Span_overlaps_def)

abbreviation disjoint_findings :: "DetFinding list \<Rightarrow> bool" where
  "disjoint_findings fs \<equiv> sorted_wrt (\<lambda>a b. \<not> Span_overlaps (df_span a) (df_span b)) fs"

lemma select_disjoint_prefix: "\<exists>rest. select_disjoint sel fs = sel @ rest \<and> subseq rest fs"
proof (induction sel fs rule: select_disjoint.induct)
  case (2 sel f fs)
  show ?case
  proof (cases "list_all (\<lambda>existing. \<not> Span_overlaps (df_span existing) (df_span f)) sel")
    case True
    then obtain rest where "select_disjoint (sel @ [f]) fs = (sel @ [f]) @ rest" "subseq rest fs"
      using 2 by blast
    then show ?thesis using True by (auto intro!: exI[of _ "f # rest"])
  next
    case False
    then show ?thesis using 2 by auto
  qed
qed simp

lemma select_disjoint_disjoint:
  "disjoint_findings sel \<Longrightarrow> disjoint_findings (select_disjoint sel fs)"
proof (induction sel fs rule: select_disjoint.induct)
  case (2 sel f fs)
  then show ?case by (auto simp: sorted_wrt_append list_all_iff)
qed simp

text \<open>Whatever is not selected overlaps something selected before it.\<close>

lemma select_disjoint_covers:
  assumes "f \<in> set fs" and "span_wf (df_span f)" and "sorted_wrt (\<lambda>a b. k a \<le> k b) fs"
    and "\<forall>s\<in>set sel. \<forall>g\<in>set fs. k s \<le> k g"
  shows "\<exists>g\<in>set (select_disjoint sel fs). Span_overlaps (df_span g) (df_span f) \<and> k g \<le> (k f :: 'k::linorder)"
  using assms
proof (induction sel fs rule: select_disjoint.induct)
  case (2 sel h fs)
  let ?ok = "list_all (\<lambda>existing. \<not> Span_overlaps (df_span existing) (df_span h)) sel"
  show ?case
  proof (cases "f = h")
    case True
    show ?thesis
    proof (cases ?ok)
      case True
      then obtain rest where "select_disjoint sel (h # fs) = (sel @ [h]) @ rest"
        using select_disjoint_prefix[of "sel @ [h]" fs] by auto
      then show ?thesis using \<open>f = h\<close> 2(4) Span_overlaps_self by fastforce
    next
      case False
      then obtain g where g: "g \<in> set sel" "Span_overlaps (df_span g) (df_span h)"
        by (auto simp: list_all_iff)
      have "g \<in> set (select_disjoint sel (h # fs))"
        using select_disjoint_prefix[of sel "h # fs"] g(1) by (metis UnI1 set_append)
      then show ?thesis using \<open>f = h\<close> 2(6) g by (intro bexI[of _ g]) simp_all
    qed
  next
    case False
    then have f: "f \<in> set fs" using 2(3) by simp
    show ?thesis
    proof (cases ?ok)
      case True
      have "\<exists>g\<in>set (select_disjoint (sel @ [h]) fs). Span_overlaps (df_span g) (df_span f) \<and> k g \<le> k f"
        using True f 2(4-6) by (intro 2(1)) auto
      then show ?thesis using True by simp
    next
      case False
      have "\<exists>g\<in>set (select_disjoint sel fs). Span_overlaps (df_span g) (df_span f) \<and> k g \<le> k f"
        using False f 2(4-6) by (intro 2(2)) auto
      then show ?thesis using False by simp
    qed
  qed
qed simp

lemma set_select_disjoint: "set (select_disjoint [] fs) \<subseteq> set fs"
  using select_disjoint_prefix[of "[]" fs] by (auto dest: subseq_order.antisym list_emb_set)

text \<open>Disjoint non-empty spans in order of position follow one another.\<close>

lemma disjoint_sorted_before:
  assumes "disjoint_findings fs" and "sorted (map position_key fs)" and "\<forall>f\<in>set fs. span_wf (df_span f)"
  shows "sorted_wrt span_before fs"
  using assms
  by (induction fs)
    (auto simp: span_before_def position_key_def Span_overlaps_def span_wf_def less_eq_prod_def not_less
      dest!: bspec)

lemma disjoint_findings_mset:
  assumes "mset xs = mset ys" and "disjoint_findings xs"
  shows "disjoint_findings ys"
  using assms
proof (induction xs arbitrary: ys)
  case (Cons x xs)
  then have "x \<in> set ys" by (metis list.set_intros(1) mset_eq_setD)
  then obtain as bs where ys: "ys = as @ x # bs" by (meson split_list)
  then have "mset xs = mset (as @ bs)" using Cons.prems(1) by simp
  moreover from this have "set xs = set (as @ bs)" by (rule mset_eq_setD)
  ultimately show ?case
    using Cons.IH[of "as @ bs"] Cons.prems(2) ys
    by (auto simp: sorted_wrt_append Span_overlaps_sym)
qed simp

lemma set_resolve_overlaps: "set (resolve_overlaps fs) \<subseteq> set fs"
  using set_select_disjoint[of "sort_key finding_key fs"] by (simp add: resolve_overlaps_def)

lemma resolve_overlaps_ordered:
  assumes "\<forall>f\<in>set fs. span_wf (df_span f)"
  shows "sorted_wrt span_before (resolve_overlaps fs)"
proof (rule disjoint_sorted_before)
  let ?sel = "select_disjoint [] (sort_key finding_key fs)"
  have "disjoint_findings ?sel" by (rule select_disjoint_disjoint) simp
  then show "disjoint_findings (resolve_overlaps fs)"
    unfolding resolve_overlaps_def by (rule disjoint_findings_mset[rotated]) simp
  show "sorted (map position_key (resolve_overlaps fs))"
    by (simp add: resolve_overlaps_def)
  show "\<forall>f\<in>set (resolve_overlaps fs). span_wf (df_span f)"
    using assms set_resolve_overlaps[of fs] by blast
qed

lemma resolve_overlaps_covers:
  assumes "f \<in> set fs" and "span_wf (df_span f)"
  shows "\<exists>g\<in>set (resolve_overlaps fs). Span_overlaps (df_span g) (df_span f) \<and> finding_key g \<le> finding_key f"
proof -
  have "sorted_wrt (\<lambda>a b. finding_key a \<le> finding_key b) (sort_key finding_key fs)"
    using sorted_sort_key[of finding_key fs] by (simp add: sorted_map)
  then show ?thesis
    using select_disjoint_covers[of f "sort_key finding_key fs" finding_key "[]"] assms
    by (simp add: resolve_overlaps_def)
qed

subsection \<open>The result depends on the reported findings, not on their order\<close>

text \<open>
  The selection reads a finding only through its span, and the span of a finding is a function
  of its key, so the whole resolution can be carried out on keys.
\<close>

type_synonym fkey = "Confidence Reverse \<times> nat Reverse \<times> nat \<times> DetKind"

fun key_span :: "fkey \<Rightarrow> Span" where
  "key_span (c, l, a, k) = \<lparr>span_start = a, span_end = a + reversed l\<rparr>"

fun select_keys :: "fkey list \<Rightarrow> fkey list \<Rightarrow> fkey list" where
  "select_keys sel [] = sel"
| "select_keys sel (f # fs) =
     (if list_all (\<lambda>existing. \<not> Span_overlaps (key_span existing) (key_span f)) sel
      then select_keys (sel @ [f]) fs
      else select_keys sel fs)"

lemma key_span_finding: "span_wf (df_span f) \<Longrightarrow> key_span (finding_key f) = df_span f"
  by (simp add: finding_key_def Span_len_def span_wf_def)

lemma select_keys_map:
  "\<forall>f\<in>set sel \<union> set fs. span_wf (df_span f) \<Longrightarrow>
     map finding_key (select_disjoint sel fs) = select_keys (map finding_key sel) (map finding_key fs)"
  by (induction sel fs rule: select_disjoint.induct)
    (auto simp: list_all_iff key_span_finding)

lemma map_insort_key:
  "\<forall>y\<in>set (x # xs). k y = g (f y) \<Longrightarrow> map f (insort_key k x xs) = insort_key g (f x) (map f xs)"
  by (induction xs) auto

lemma map_sort_key:
  "\<forall>x\<in>set xs. k x = g (f x) \<Longrightarrow> map f (sort_key k xs) = sort_key g (map f xs)"
proof (induction xs)
  case (Cons x xs)
  then have "map f (insort_key k x (sort_key k xs)) = insort_key g (f x) (map f (sort_key k xs))"
    by (intro map_insort_key) simp
  then show ?case using Cons by simp
qed simp

definition key_position :: "fkey \<Rightarrow> nat \<times> nat" where
  "key_position k = (span_start (key_span k), span_end (key_span k))"

lemma resolve_overlaps_keys:
  assumes "\<forall>f\<in>set fs. span_wf (df_span f)"
  shows "map finding_key (resolve_overlaps fs) = sort_key key_position (select_keys [] (sort (map finding_key fs)))"
proof -
  let ?sel = "select_disjoint [] (sort_key finding_key fs)"
  have wf: "\<forall>f\<in>set ?sel. span_wf (df_span f)"
    using set_select_disjoint[of "sort_key finding_key fs"] assms by auto
  then have "\<forall>f\<in>set ?sel. position_key f = key_position (finding_key f)"
    by (simp add: position_key_def key_position_def key_span_finding)
  then have "map finding_key (resolve_overlaps fs) = sort_key key_position (map finding_key ?sel)"
    unfolding resolve_overlaps_def by (rule map_sort_key)
  also have "map finding_key ?sel = select_keys [] (map finding_key (sort_key finding_key fs))"
    using assms by (simp add: select_keys_map)
  also have "map finding_key (sort_key finding_key fs) = sort (map finding_key fs)"
    by (rule map_sort_key) simp
  finally show ?thesis .
qed

section \<open>The contract of overlap resolution\<close>

text \<open>
  What a client of overlap resolution relies on: the resolved findings are among those reported,
  they follow one another without overlap, and every reported span keeps a selected finding that
  overlaps it.
\<close>

locale overlap_resolution =
  fixes resolve :: "DetFinding list \<Rightarrow> DetFinding list"
  assumes resolve_subset: "set (resolve fs) \<subseteq> set fs"
    and resolve_ordered: "\<forall>f\<in>set fs. span_wf (df_span f) \<Longrightarrow> sorted_wrt span_before (resolve fs)"
    and resolve_covers: "f \<in> set fs \<Longrightarrow> span_wf (df_span f) \<Longrightarrow>
           \<exists>g\<in>set (resolve fs). Span_overlaps (df_span g) (df_span f)"
begin

lemma resolve_empty_iff:
  assumes "\<forall>f\<in>set fs. span_wf (df_span f)"
  shows "resolve fs = [] \<longleftrightarrow> fs = []"
proof
  assume empty: "resolve fs = []"
  show "fs = []"
  proof (rule ccontr)
    assume "fs \<noteq> []"
    then have "hd fs \<in> set fs" by simp
    then show False using resolve_covers assms empty by fastforce
  qed
next
  assume "fs = []"
  then show "resolve fs = []" using resolve_subset[of fs] by simp
qed

lemma resolve_wf: "\<forall>f\<in>set fs. P f \<Longrightarrow> \<forall>f\<in>set (resolve fs). P f"
  using resolve_subset by blast

end

interpretation ro: overlap_resolution resolve_overlaps
  by unfold_locales
    (use set_resolve_overlaps resolve_overlaps_ordered resolve_overlaps_covers in blast)+

section \<open>Properties\<close>

text \<open>
  C4. \<open>resolve_overlaps\<close> returns a subset of the reported findings in order of position, each
  ending before the next begins.  The selection is maximal and respects the documented priority:
  every reported finding is either kept or overlaps a kept finding of equal or higher priority
  (confidence, then length, then position).
\<close>

theorem resolve_overlaps_correct:
  assumes "\<forall>f\<in>set fs. span_wf (df_span f)"
  shows "set (resolve_overlaps fs) \<subseteq> set fs \<and>
         sorted_wrt (\<lambda>a b. span_end (df_span a) \<le> span_start (df_span b)) (resolve_overlaps fs) \<and>
         (\<forall>f\<in>set fs. \<exists>g\<in>set (resolve_overlaps fs).
            Span_overlaps (df_span g) (df_span f) \<and> finding_key g \<le> finding_key f)"
  using set_resolve_overlaps resolve_overlaps_ordered[OF assms] resolve_overlaps_covers assms
  by (simp add: span_before_def[abs_def])

theorem resolve_overlaps_correct_witness:
  "let mk = (\<lambda>k a b c. \<lparr>df_kind = k, df_span = \<lparr>span_start = a, span_end = b\<rparr>, df_confidence = c, df_detector = ''d''\<rparr>);
       fs = [mk DK_Token 2 20 Conf_Contextual, mk DK_GitHubToken 4 18 Conf_Certain]
   in set (resolve_overlaps fs) \<subseteq> set fs \<and> resolve_overlaps fs = [mk DK_GitHubToken 4 18 Conf_Certain]"
  unfolding Let_def
  using resolve_overlaps_correct
    [of "[\<lparr>df_kind = DK_Token, df_span = \<lparr>span_start = 2, span_end = 20\<rparr>, df_confidence = Conf_Contextual, df_detector = ''d''\<rparr>,
          \<lparr>df_kind = DK_GitHubToken, df_span = \<lparr>span_start = 4, span_end = 18\<rparr>, df_confidence = Conf_Certain, df_detector = ''d''\<rparr>]"]
  by (simp add: resolve_overlaps_def finding_key_def position_key_def Span_len_def Span_overlaps_def
      span_wf_def less_eq_prod_def less_eq_Reverse_def less_Reverse_def less_eq_Confidence_def less_Confidence_def)

text \<open>
  Overlap resolution is deterministic although it sorts with an unstable sort: two reports
  that contain the same findings in any order resolve to the same sequence of spans, kinds and
  confidences.
\<close>

theorem resolve_overlaps_deterministic:
  assumes "mset (map finding_key fs) = mset (map finding_key gs)"
    and "\<forall>f\<in>set fs \<union> set gs. span_wf (df_span f)"
  shows "map finding_key (resolve_overlaps fs) = map finding_key (resolve_overlaps gs)"
proof -
  have "sort (map finding_key fs) = sort (map finding_key gs)"
    by (rule properties_for_sort) (use assms(1) in simp_all)
  then show ?thesis
    using assms(2) by (simp add: resolve_overlaps_keys)
qed

theorem resolve_overlaps_deterministic_witness:
  "let mk = (\<lambda>k a b c. \<lparr>df_kind = k, df_span = \<lparr>span_start = a, span_end = b\<rparr>, df_confidence = c, df_detector = ''d''\<rparr>);
       f = mk DK_ApiKey 30 35 Conf_High; g = mk DK_ApiKey 29 36 Conf_High
   in map finding_key (resolve_overlaps [f, g]) = map finding_key (resolve_overlaps [g, f])"
  unfolding Let_def
  by (rule resolve_overlaps_deterministic) (simp_all add: span_wf_def)

end
