(* ===== verification/Detectors.thy ===== *)
theory Detectors
  imports Complex_Main Detect_Findings
begin

text \<open>
  The built-in detectors of \<open>crates/blindfold-detectors/src/detector.rs\<close> and the detector set that
  runs them and resolves overlaps.

  The regular-expression engine, the URL parser, the e-mail validator and the phone-number
  validator are third-party crates: they are the fields of \<open>DetEnv\<close>, parameters of the model.
  The engine takes the text of an expression and an input and returns what \<open>captures_iter\<close>
  yields, each match as the list of its capture groups (group 0 is the whole match).  What the
  code relies on is \<open>regex_spans_ok\<close>: capture positions lie inside the input, on character
  boundaries.  \<open>shannon_entropy\<close> is computed with real numbers, and \<open>f64::log2\<close> of the platform
  is a parameter as well; the rounding of \<open>f64\<close> is not modelled.
\<close>

section \<open>Parameters\<close>

type_synonym re_match = "(nat \<times> nat) option list"

record DetEnv =
  de_regex :: "string \<Rightarrow> string \<Rightarrow> re_match list"
  de_url_has_password :: "string \<Rightarrow> bool"
  de_email_valid :: "string \<Rightarrow> bool"
  de_phone_valid :: "string \<Rightarrow> bool"
  de_log2 :: "real \<Rightarrow> real"

definition re_get :: "re_match \<Rightarrow> nat \<Rightarrow> (nat \<times> nat) option" where
  "re_get m i = (if i < length m then m ! i else None)"

text \<open>
  The one consequence of UTF-8 validity the positions rest on: a continuation byte never starts
  the text and never follows an ASCII byte.
\<close>

fun utf8_from :: "bool \<Rightarrow> string \<Rightarrow> bool" where
  "utf8_from after_ascii [] = True"
| "utf8_from after_ascii (c # cs) =
     (\<not> (after_ascii \<and> is_continuation c) \<and> utf8_from (byte c < 128) cs)"

definition utf8_ok :: "string \<Rightarrow> bool" where
  "utf8_ok s = utf8_from True s"

definition span_in :: "string \<Rightarrow> Span \<Rightarrow> bool" where
  "span_in s sp \<longleftrightarrow>
     span_start sp < span_end sp \<and> span_end sp \<le> length s \<and>
     is_char_boundary s (span_start sp) \<and> is_char_boundary s (span_end sp)"

definition regex_spans_ok :: "(string \<Rightarrow> string \<Rightarrow> re_match list) \<Rightarrow> bool" where
  "regex_spans_ok re \<longleftrightarrow>
     (\<forall>e s m a b. utf8_ok s \<longrightarrow> m \<in> set (re e s) \<longrightarrow> Some (a, b) \<in> set m \<longrightarrow>
        a \<le> b \<and> b \<le> length s \<and> is_char_boundary s a \<and> is_char_boundary s b)"

section \<open>Known formats\<close>

record Pattern =
  pat_regex :: string
  pat_capture :: nat
  pat_kind :: DetKind
  pat_confidence :: Confidence
  pat_name :: string

definition mk_finding :: "DetKind \<Rightarrow> Confidence \<Rightarrow> string \<Rightarrow> nat \<Rightarrow> nat \<Rightarrow> DetFinding option" where
  "mk_finding kind confidence name a b =
     (case Span_new a b of
        Inl _ \<Rightarrow> None
      | Inr sp \<Rightarrow> Some \<lparr>df_kind = kind, df_span = sp, df_confidence = confidence, df_detector = name\<rparr>)"

definition Pattern_detect :: "DetEnv \<Rightarrow> Pattern \<Rightarrow> string \<Rightarrow> DetFinding list" where
  "Pattern_detect env p input =
     List.map_filter
       (\<lambda>captures. Option.bind (re_get captures (pat_capture p))
          (\<lambda>(a, b). mk_finding (pat_kind p) (pat_confidence p) (pat_name p) a b))
       (de_regex env (pat_regex p) input)"

definition bs :: string where "bs = [CHR 0x5C]"
definition dq :: string where "dq = [CHR 0x22]"
definition sq :: string where "sq = [CHR 0x27]"
definition bq :: string where "bq = [CHR 0x60]"

definition mk_pattern :: "string \<Rightarrow> DetKind \<Rightarrow> Confidence \<Rightarrow> string \<Rightarrow> Pattern" where
  "mk_pattern e k c n =
     \<lparr>pat_regex = e, pat_capture = 1, pat_kind = k, pat_confidence = c, pat_name = n\<rparr>"

definition KnownFormats_patterns :: "Pattern list" where
  "KnownFormats_patterns =
    [mk_pattern (bs @ ''b(sk-(?:(?:proj|svcacct|admin)-[A-Za-z0-9_-]{20,}|[A-Za-z0-9]{20,}))'' @ bs @ ''b'')
       DK_OpenAiApiKey Conf_Certain ''known.openai'',
     mk_pattern (bs @ ''b(sk-ant-(?:api'' @ bs @ ''d{2}-)?[A-Za-z0-9_-]{20,})'' @ bs @ ''b'')
       DK_AnthropicApiKey Conf_Certain ''known.anthropic'',
     mk_pattern (bs @ ''b((?:gh[pousr]_[A-Za-z0-9]{36,255}|github_pat_[A-Za-z0-9_]{22,255}))'' @ bs @ ''b'')
       DK_GitHubToken Conf_Certain ''known.github'',
     mk_pattern (bs @ ''b((?:sk|rk)_(?:live|test)_[A-Za-z0-9]{16,})'' @ bs @ ''b'')
       DK_StripeKey Conf_Certain ''known.stripe'',
     mk_pattern (bs @ ''b(xox[baprs]-[A-Za-z0-9-]{10,})'' @ bs @ ''b'')
       DK_SlackToken Conf_Certain ''known.slack'',
     mk_pattern (bs @ ''b((?:AKIA|ASIA|AIDA|AROA)[A-Z0-9]{16})'' @ bs @ ''b'')
       DK_AwsAccessKeyId Conf_Certain ''known.aws_access_key'',
     mk_pattern (''(?:^|[^A-Za-z0-9_])[Bb][Ee][Aa][Rr][Ee][Rr][ '' @ bs @ ''t]+([-A-Za-z0-9._~+/=]{16,})'')
       DK_BearerToken Conf_High ''known.bearer'',
     mk_pattern (bs @ ''b(eyJ[A-Za-z0-9_-]{5,}'' @ bs @ ''.[A-Za-z0-9_-]{5,}'' @ bs @ ''.[A-Za-z0-9_-]{5,})'' @ bs @ ''b'')
       DK_JsonWebToken Conf_Certain ''known.jwt'',
     mk_pattern (bs @ ''b((?:ya29'' @ bs @ ''.[A-Za-z0-9_-]{20,}|1//[A-Za-z0-9_-]{20,}))'' @ bs @ ''b'')
       DK_OAuthToken Conf_Certain ''known.oauth'',
     mk_pattern (''(?s)(-----BEGIN (?:RSA |EC |DSA |OPENSSH )?PRIVATE KEY-----.*?-----END (?:RSA |EC |DSA |OPENSSH )?PRIVATE KEY-----)'')
       DK_PemPrivateKey Conf_Certain ''known.pem_private_key'']"

definition KnownFormats_detect :: "DetEnv \<Rightarrow> string \<Rightarrow> DetFinding list" where
  "KnownFormats_detect env input = concat (map (\<lambda>p. Pattern_detect env p input) KnownFormats_patterns)"

section \<open>Structured values\<close>

definition url_regex :: string where
  "url_regex = ''(?i)'' @ bs @ ''b[A-Z][A-Z0-9+.-]{1,31}://[^'' @ bs @ ''s<>'' @ dq @ sq @ bq @ '']+''"

definition email_regex :: string where
  "email_regex =
     ''(?i)(?:^|[^A-Z0-9.!#$%&'' @ sq @ ''*+?^_'' @ bq @ ''{|}~-])([A-Z0-9.!#$%&'' @ sq @ ''*+?^_'' @ bq @
     ''{|}~-]{1,64}@[A-Z0-9.-]{1,253}'' @ bs @ ''.[A-Z]{2,63})(?:$|[^A-Z0-9.-])''"

definition phone_regex :: string where
  "phone_regex =
     ''(?:^|[^0-9+])((?:'' @ bs @ ''+[1-9][0-9 .()-]{7,24}[0-9]))(?:$|[^0-9])''"

definition find_char :: "(char \<Rightarrow> bool) \<Rightarrow> string \<Rightarrow> nat option" where
  "find_char p s = (if list_ex p s then Some (length (takeWhile (\<lambda>c. \<not> p c) s)) else None)"

definition rfind_char :: "(char \<Rightarrow> bool) \<Rightarrow> string \<Rightarrow> nat option" where
  "rfind_char p s = map_option (\<lambda>i. length s - 1 - i) (find_char p (rev s))"

definition authority_end :: "string \<Rightarrow> nat \<Rightarrow> nat" where
  "authority_end raw authority_start =
     (case find_char (\<lambda>c. c \<in> {CHR ''/'', CHR ''?'', CHR ''#''}) (drop authority_start raw) of
        None \<Rightarrow> length raw
      | Some i \<Rightarrow> authority_start + i)"

definition password_offsets :: "string \<Rightarrow> (nat \<times> nat) option" where
  "password_offsets raw =
     Option.bind (map_option (\<lambda>index. index + 3) (str_find ''://'' raw)) (\<lambda>authority_start.
       let authority = str_slice raw authority_start (authority_end raw authority_start)
       in Option.bind (rfind_char (\<lambda>c. c = CHR ''@'') authority) (\<lambda>at'.
       let user_info = take at' authority
       in Option.bind (find_char (\<lambda>c. c = CHR '':'') user_info) (\<lambda>colon.
       if colon + 1 = length user_info then None
       else Some (authority_start + colon + 1, authority_start + length user_info))))"

definition credential_url_finding :: "DetEnv \<Rightarrow> string \<Rightarrow> nat \<times> nat \<Rightarrow> DetFinding option" where
  "credential_url_finding env input cand =
     (let raw = str_slice input (fst cand) (snd cand) in
      if \<not> de_url_has_password env raw then None
      else Option.bind (password_offsets raw) (\<lambda>(s, e).
        mk_finding DK_CredentialUrl Conf_Certain ''structured.credential_url''
          (fst cand + s) (fst cand + e)))"

definition detect_credential_urls :: "DetEnv \<Rightarrow> string \<Rightarrow> DetFinding list" where
  "detect_credential_urls env input =
     List.map_filter (\<lambda>m. Option.bind (re_get m 0) (credential_url_finding env input))
       (de_regex env url_regex input)"

definition detect_emails :: "DetEnv \<Rightarrow> string \<Rightarrow> DetFinding list" where
  "detect_emails env input =
     List.map_filter
       (\<lambda>m. Option.bind (re_get m 1) (\<lambda>(a, b).
          if \<not> de_email_valid env (str_slice input a b) then None
          else mk_finding DK_EmailAddress Conf_High ''structured.email_address'' a b))
       (de_regex env email_regex input)"

definition detect_phone_numbers :: "DetEnv \<Rightarrow> string \<Rightarrow> DetFinding list" where
  "detect_phone_numbers env input =
     List.map_filter
       (\<lambda>m. Option.bind (re_get m 1) (\<lambda>(a, b).
          if \<not> de_phone_valid env (str_slice input a b) then None
          else mk_finding DK_PhoneNumber Conf_High ''structured.phone_number'' a b))
       (de_regex env phone_regex input)"

definition StructuredDetector_detect :: "DetEnv \<Rightarrow> string \<Rightarrow> DetFinding list" where
  "StructuredDetector_detect env input =
     detect_credential_urls env input @ detect_emails env input @ detect_phone_numbers env input"

section \<open>Contextual assignments\<close>

definition assignment_regex :: string where
  "assignment_regex =
     ''(?m)(?:^|[,{;'' @ bs @ ''s])([A-Za-z][-A-Za-z0-9_.]{1,63})[ '' @ bs @ ''t]*(?:=|:)[ '' @ bs @ ''t]*''"

fun quote_end :: "char \<Rightarrow> bool \<Rightarrow> nat \<Rightarrow> string \<Rightarrow> nat option" where
  "quote_end q escaped offset [] = None"
| "quote_end q escaped offset (c # cs) =
     (if escaped then quote_end q False (Suc offset) cs
      else if c = CHR 0x5C then quote_end q True (Suc offset) cs
      else if c = q then (if offset > 0 then Some offset else None)
      else if c = CHR 0x0D \<or> c = CHR 0x0A then None
      else quote_end q False (Suc offset) cs)"

definition is_value_delimiter :: "char \<Rightarrow> bool" where
  "is_value_delimiter c \<longleftrightarrow>
     byte c \<in> {9, 10, 12, 13, 32} \<or> c \<in> {CHR '','', CHR '';'', CHR ''}'', CHR '']''}"

definition assignment_value_span :: "string \<Rightarrow> nat \<Rightarrow> (nat \<times> nat) option" where
  "assignment_value_span input start =
     (if start > length input \<or> \<not> is_char_boundary input start then None
      else case drop start input of
        [] \<Rightarrow> None
      | first # rest \<Rightarrow>
          if first = CHR 0x22 \<or> first = CHR 0x27 then
            map_option (\<lambda>offset. (start + 1, start + 1 + offset)) (quote_end first False 0 rest)
          else
            let end' = (case find_char is_value_delimiter (first # rest) of
                          Some offset \<Rightarrow> start + offset
                        | None \<Rightarrow> length input)
            in if end' > start then Some (start, end') else None)"

definition classify_context :: "string \<Rightarrow> (DetKind \<times> Confidence) option" where
  "classify_context name =
     (if str_contains ''aws_secret_access_key'' name \<or> name = ''aws.secretaccesskey''
      then Some (DK_AwsSecretAccessKey, Conf_High)
      else if str_contains ''password'' name \<or> str_contains ''passwd'' name \<or> ends_with ''_pwd'' name
      then Some (DK_Password, Conf_Contextual)
      else if str_contains ''api_key'' name \<or> str_contains ''apikey'' name \<or> str_contains ''secret_key'' name
      then Some (DK_ApiKey, Conf_Contextual)
      else if str_contains ''oauth'' name \<or> str_contains ''access_token'' name
           \<or> str_contains ''refresh_token'' name \<or> ends_with ''_token'' name \<or> name = ''token''
      then Some (DK_Token, Conf_Contextual)
      else None)"

fun minimum_context_length :: "DetKind \<Rightarrow> nat" where
  "minimum_context_length DK_Password = 16"
| "minimum_context_length DK_AwsSecretAccessKey = 32"
| "minimum_context_length _ = 20"

definition has_character_variety :: "string \<Rightarrow> bool" where
  "has_character_variety v \<longleftrightarrow>
     length (filter (\<lambda>present. present)
       [list_ex is_ascii_lowercase v,
        list_ex (\<lambda>b. \<not> is_ascii_lowercase b \<and> is_ascii_uppercase b) v,
        list_ex (\<lambda>b. \<not> is_ascii_lowercase b \<and> \<not> is_ascii_uppercase b \<and> is_ascii_digit b) v,
        list_ex (\<lambda>b. \<not> is_ascii_lowercase b \<and> \<not> is_ascii_uppercase b \<and> \<not> is_ascii_digit b) v]) \<ge> 3"

definition byte_count :: "string \<Rightarrow> nat \<Rightarrow> nat" where
  "byte_count v b = min (length (filter (\<lambda>c. byte c = b) v)) 65535"

definition shannon_entropy :: "(real \<Rightarrow> real) \<Rightarrow> string \<Rightarrow> real" where
  "shannon_entropy log2 v =
     (if length v \<ge> 2 ^ 32 then 0
      else (\<Sum>count \<leftarrow> filter (\<lambda>n. n \<noteq> 0) (map (byte_count v) [0..<256]).
              let probability = real count / real (length v)
              in - probability * log2 probability))"

definition context_finding :: "DetEnv \<Rightarrow> string \<Rightarrow> re_match \<Rightarrow> DetFinding option" where
  "context_finding env input m =
     Option.bind (re_get m 0) (\<lambda>assignment.
     Option.bind (re_get m 1) (\<lambda>name.
     Option.bind (classify_context (to_ascii_lowercase (str_slice input (fst name) (snd name)))) (\<lambda>(kind, confidence).
     Option.bind (assignment_value_span input (snd assignment)) (\<lambda>(start, end').
     if \<not> (is_char_boundary input start \<and> is_char_boundary input end' \<and> start \<le> end' \<and> end' \<le> length input)
     then None
     else let candidate = str_slice input start end' in
       if length candidate > 512 then None
       else if length candidate < minimum_context_length kind
            \<or> \<not> has_character_variety candidate
            \<or> shannon_entropy (de_log2 env) candidate < 3.5
       then None
       else mk_finding kind confidence ''context.assignment'' start end'))))"

definition ContextualDetector_detect :: "DetEnv \<Rightarrow> string \<Rightarrow> DetFinding list" where
  "ContextualDetector_detect env input =
     List.map_filter (context_finding env input) (de_regex env assignment_regex input)"

section \<open>Detector sets\<close>

type_synonym Detector = "string \<Rightarrow> DetFinding list"
type_synonym DetectorSet = "Detector list"

definition DetectorSet_new :: "DetEnv \<Rightarrow> DetectorSet" where
  "DetectorSet_new env =
     [KnownFormats_detect env, StructuredDetector_detect env, ContextualDetector_detect env]"

definition DetectorSet_push :: "DetectorSet \<Rightarrow> Detector \<Rightarrow> DetectorSet" where
  "DetectorSet_push ds d = ds @ [d]"

definition DetectorSet_detect :: "DetectorSet \<Rightarrow> string \<Rightarrow> DetFinding list" where
  "DetectorSet_detect ds input = resolve_overlaps (concat (map (\<lambda>d. d input) ds))"

section \<open>Lemmas\<close>

lemma mk_finding_some:
  "mk_finding k c n a b = Some f \<longleftrightarrow>
     a < b \<and> f = \<lparr>df_kind = k, df_span = \<lparr>span_start = a, span_end = b\<rparr>, df_confidence = c, df_detector = n\<rparr>"
  by (auto simp: mk_finding_def Span_new_def split: sum.splits if_splits)

lemma re_get_some: "re_get m i = Some x \<Longrightarrow> Some x \<in> set m"
  by (auto simp: re_get_def split: if_splits) (metis nth_mem)

lemma map_filter_in_iff: "y \<in> set (List.map_filter f xs) \<longleftrightarrow> (\<exists>x\<in>set xs. f x = Some y)"
  by (force simp: List.map_filter_def)

lemma find_char_some:
  "find_char p s = Some i \<Longrightarrow> i < length s \<and> p (s ! i) \<and> (\<forall>j<i. \<not> p (s ! j))"
proof -
  assume "find_char p s = Some i"
  then have ex: "\<exists>c\<in>set s. p c" and i: "i = length (takeWhile (\<lambda>c. \<not> p c) s)"
    by (auto simp: find_char_def list_ex_iff split: if_splits)
  have "i < length s"
    using ex i by (metis in_set_conv_nth length_takeWhile_less_P_nth linorder_not_le nat_less_le length_takeWhile_le
        takeWhile_eq_all_conv takeWhile_eq_take take_all)
  moreover from this have "p (s ! i)" using i nth_length_takeWhile[of "\<lambda>c. \<not> p c" s] by simp
  moreover have "\<not> p (s ! j)" if "j < i" for j
    using that i by (metis nth_mem set_takeWhileD takeWhile_nth)
  ultimately show ?thesis by blast
qed

lemma find_char_none: "find_char p s = None \<longleftrightarrow> (\<forall>c\<in>set s. \<not> p c)"
  by (auto simp: find_char_def list_ex_iff)

lemma rfind_char_some: "rfind_char p s = Some i \<Longrightarrow> i < length s \<and> p (s ! i)"
  by (auto simp: rfind_char_def rev_nth dest!: find_char_some)

lemma utf8_from_after_ascii:
  "utf8_from b s \<Longrightarrow> i < length s \<Longrightarrow> (if i = 0 then b else byte (s ! (i - 1)) < 128) \<Longrightarrow>
     \<not> is_continuation (s ! i)"
proof (induction b s arbitrary: i rule: utf8_from.induct)
  case (2 b c cs)
  then show ?case by (cases i; cases "i - 1") (auto split: if_splits)
qed simp

lemma boundary_after_ascii:
  assumes "utf8_ok s" "i < length s" "byte (s ! i) < 128"
  shows "is_char_boundary s (Suc i)"
  using assms utf8_from_after_ascii[of True s "Suc i"]
  by (auto simp: utf8_ok_def is_char_boundary_def)

lemma boundary_at_ascii: "i < length s \<Longrightarrow> byte (s ! i) < 128 \<Longrightarrow> is_char_boundary s i"
  by (simp add: is_char_boundary_def is_continuation_def)

lemma nth_str_slice: "j < b - a \<Longrightarrow> b \<le> length s \<Longrightarrow> str_slice s a b ! j = s ! (a + j)"
  by (simp add: str_slice_def)

lemma byte_simps:
  "byte (CHR ''@'') = 64" "byte (CHR '':'') = 58" "byte (CHR 0x22) = 34" "byte (CHR 0x27) = 39"
  "byte (CHR '','') = 44" "byte (CHR '';'') = 59" "byte (CHR ''}'') = 125" "byte (CHR '']'') = 93"
  "byte (CHR 0x5C) = 92" "byte (CHR 0x0D) = 13" "byte (CHR 0x0A) = 10"
  by (simp_all add: byte_def)

lemma authority_end_bounds: "a \<le> length raw \<Longrightarrow> a \<le> authority_end raw a \<and> authority_end raw a \<le> length raw"
  by (auto simp: authority_end_def dest!: find_char_some split: option.splits)

lemma password_offsets_some:
  assumes "password_offsets raw = Some (s, e)"
  shows "0 < s \<and> s < e \<and> e < length raw \<and> raw ! (s - 1) = CHR '':'' \<and> raw ! e = CHR ''@''"
proof -
  from assms obtain i at' colon where
    i: "str_find ''://'' raw = Some i" and
    at: "rfind_char (\<lambda>c. c = CHR ''@'') (str_slice raw (i + 3) (authority_end raw (i + 3))) = Some at'" and
    colon: "find_char (\<lambda>c. c = CHR '':'') (take at' (str_slice raw (i + 3) (authority_end raw (i + 3)))) = Some colon" and
    ne: "colon + 1 \<noteq> length (take at' (str_slice raw (i + 3) (authority_end raw (i + 3))))" and
    s: "s = i + 3 + colon + 1" and
    e: "e = i + 3 + length (take at' (str_slice raw (i + 3) (authority_end raw (i + 3))))"
    by (auto simp: password_offsets_def Let_def bind_eq_Some_conv split: if_splits)
  let ?ae = "authority_end raw (i + 3)"
  let ?au = "str_slice raw (i + 3) ?ae"
  have ae: "?ae \<le> length raw" using str_find_some[OF i] by (intro conjunct2[OF authority_end_bounds]) simp
  have la: "length ?au = ?ae - (i + 3)" using ae by (rule length_str_slice)
  have at1: "at' < length ?au" "?au ! at' = CHR ''@''" using rfind_char_some[OF at] by auto
  have co: "colon < at'" "?au ! colon = CHR '':''" using find_char_some[OF colon] at1 by auto
  have nth: "?au ! j = raw ! (i + 3 + j)" if "j < length ?au" for j
    using that la ae by (intro nth_str_slice) auto
  have "e = i + 3 + at'" using e at1 by simp
  moreover have "s - 1 = i + 3 + colon" using s by linarith
  moreover have "raw ! (i + 3 + colon) = CHR '':''" "raw ! (i + 3 + at') = CHR ''@''"
    using co at1 nth[of at'] nth[of colon] by simp_all
  moreover have "i + 3 + at' < length raw" using at1 la ae by linarith
  moreover have "s < i + 3 + at'" "0 < s" using s ne at1 co by auto
  ultimately show ?thesis by metis
qed

lemma credential_url_finding_span:
  assumes "credential_url_finding env input (a, b) = Some f" "utf8_ok input" "b \<le> length input"
  shows "span_in input (df_span f)"
proof -
  let ?raw = "str_slice input a b"
  from assms(1) obtain s e where se: "password_offsets ?raw = Some (s, e)"
    and f: "df_span f = \<lparr>span_start = a + s, span_end = a + e\<rparr>"
    by (auto simp: credential_url_finding_def Let_def bind_eq_Some_conv mk_finding_some split: if_splits)
  note po = password_offsets_some[OF se]
  have lr: "length ?raw = b - a" using assms(3) by (simp add: length_str_slice)
  have le: "a + e < length input" "a + (s - 1) < length input" using po lr assms(3) by linarith+
  have ch: "input ! (a + (s - 1)) = CHR '':''" "input ! (a + e) = CHR ''@''"
    using po lr assms(3) nth_str_slice[of "s - 1" b a input] nth_str_slice[of e b a input] by auto
  have "is_char_boundary input (a + e)" using le ch by (intro boundary_at_ascii) (simp_all add: byte_simps)
  moreover have "is_char_boundary input (Suc (a + (s - 1)))"
    using le ch assms(2) by (intro boundary_after_ascii) (simp_all add: byte_simps)
  ultimately show ?thesis using f po le by (simp add: span_in_def)
qed

lemma quote_end_some:
  "quote_end q esc i cs = Some j \<Longrightarrow> q \<noteq> CHR 0x5C \<Longrightarrow>
     i \<le> j \<and> 0 < j \<and> j - i < length cs \<and> cs ! (j - i) = q"
proof (induction q esc i cs arbitrary: j rule: quote_end.induct)
  case (2 q esc i c cs)
  show ?case
  proof (cases "\<not> esc \<and> c = q")
    case True
    then show ?thesis using 2(4,5) by (auto split: if_splits)
  next
    case False
    then obtain esc' where "quote_end q esc' (Suc i) cs = Some j"
      using 2(4) by (auto split: if_splits)
    then have "Suc i \<le> j \<and> 0 < j \<and> j - Suc i < length cs \<and> cs ! (j - Suc i) = q"
      using 2 False by (auto split: if_splits)
    moreover from this have "j - i = Suc (j - Suc i)" by linarith
    ultimately show ?thesis by auto
  qed
qed simp

lemma assignment_value_span_some:
  assumes "assignment_value_span input start = Some (a, b)" and "utf8_ok input"
  shows "a < b \<and> b \<le> length input \<and> is_char_boundary input a \<and> is_char_boundary input b"
proof -
  have st: "start \<le> length input" "is_char_boundary input start"
    using assms(1) by (auto simp: assignment_value_span_def split: if_splits)
  obtain first rest where fr: "drop start input = first # rest"
    using assms(1) by (auto simp: assignment_value_span_def split: if_splits list.splits)
  have sl: "start < length input" using fr by (metis drop_eq_Nil linorder_not_le list.distinct(1))
  have nth: "(first # rest) ! j = input ! (start + j)" for j
    using fr sl by (metis nth_drop less_imp_le)
  have len: "length (first # rest) = length input - start" using fr by (metis length_drop)
  show ?thesis
  proof (cases "first = CHR 0x22 \<or> first = CHR 0x27")
    case True
    then obtain o' where q: "quote_end first False 0 rest = Some o'" and ab: "a = start + 1" "b = start + 1 + o'"
      using assms(1) st fr by (auto simp: assignment_value_span_def)
    have o: "0 < o'" "o' < length rest" "rest ! o' = first"
      using quote_end_some[OF q] True by auto
    have "input ! start = first" "input ! b = first" using nth[of 0] nth[of "Suc o'"] o ab by auto
    moreover have "b < length input" using o len ab by simp
    moreover have "byte first < 128" using True by (auto simp: byte_simps)
    ultimately have "is_char_boundary input (Suc start)" "is_char_boundary input b"
      using sl assms(2) boundary_after_ascii boundary_at_ascii by auto
    then show ?thesis using ab o \<open>b < length input\<close> by simp
  next
    case False
    show ?thesis
    proof (cases "find_char is_value_delimiter (first # rest)")
      case None
      then show ?thesis
        using assms(1) st fr False by (auto simp: assignment_value_span_def is_char_boundary_def split: if_splits)
    next
      case (Some o')
      then have ab: "a = start" "b = start + o'" "a < b"
        using assms(1) st fr False by (auto simp: assignment_value_span_def split: if_splits)
      have d: "o' < length (first # rest)" "is_value_delimiter (input ! b)"
        using find_char_some[OF Some] nth[of o'] ab by auto
      then have "b < length input" "byte (input ! b) < 128"
        using len ab by (auto simp: is_value_delimiter_def byte_simps)
      then show ?thesis using ab st boundary_at_ascii by auto
    qed
  qed
qed

lemma regex_group_ok:
  "regex_spans_ok re \<Longrightarrow> utf8_ok s \<Longrightarrow> m \<in> set (re e s) \<Longrightarrow> re_get m i = Some (a, b) \<Longrightarrow>
     a \<le> b \<and> b \<le> length s \<and> is_char_boundary s a \<and> is_char_boundary s b"
  using re_get_some unfolding regex_spans_ok_def by metis

lemma context_finding_some:
  assumes "context_finding env input m = Some f"
  obtains start where "assignment_value_span input start = Some (span_start (df_span f), span_end (df_span f))"
    "Span_len (df_span f) \<le> 512" "minimum_context_length (df_kind f) \<le> Span_len (df_span f)"
  using assms
  by (auto simp: context_finding_def bind_eq_Some_conv Let_def mk_finding_some length_str_slice Span_len_def
      split: if_splits)

lemma builtin_spans:
  assumes "regex_spans_ok (de_regex env)" and "utf8_ok input"
  shows "f \<in> set (KnownFormats_detect env input) \<Longrightarrow> span_in input (df_span f)"
    and "f \<in> set (StructuredDetector_detect env input) \<Longrightarrow> span_in input (df_span f)"
    and "f \<in> set (ContextualDetector_detect env input) \<Longrightarrow> span_in input (df_span f)"
proof -
  note ok = regex_group_ok[OF assms]
  show "span_in input (df_span f)" if "f \<in> set (KnownFormats_detect env input)"
    using that
    by (auto simp: KnownFormats_detect_def Pattern_detect_def map_filter_in_iff bind_eq_Some_conv
        mk_finding_some span_in_def dest!: ok)
  show "span_in input (df_span f)" if "f \<in> set (StructuredDetector_detect env input)"
    using that assms(2)
    by (auto simp: StructuredDetector_detect_def detect_credential_urls_def detect_emails_def
        detect_phone_numbers_def map_filter_in_iff bind_eq_Some_conv mk_finding_some span_in_def
        dest!: ok credential_url_finding_span split: if_splits)
  show "span_in input (df_span f)" if "f \<in> set (ContextualDetector_detect env input)"
    using that assms(2)
    by (auto simp: ContextualDetector_detect_def map_filter_in_iff span_in_def
        dest: assignment_value_span_some elim!: context_finding_some)
qed

text \<open>What the redactor needs of a detector set: every span it reports can be cut out of the input.\<close>

definition detectors_ok :: "DetectorSet \<Rightarrow> string \<Rightarrow> bool" where
  "detectors_ok ds input \<longleftrightarrow> list_all (\<lambda>d. list_all (\<lambda>f. span_in input (df_span f)) (d input)) ds"

lemma DetectorSet_new_ok:
  "regex_spans_ok (de_regex env) \<Longrightarrow> utf8_ok input \<Longrightarrow> detectors_ok (DetectorSet_new env) input"
  by (simp add: detectors_ok_def DetectorSet_new_def list_all_iff builtin_spans)

lemma DetectorSet_detect_ok:
  assumes "detectors_ok ds input"
  shows "(\<forall>f\<in>set (DetectorSet_detect ds input). span_in input (df_span f)) \<and>
         sorted_wrt span_before (DetectorSet_detect ds input)"
proof -
  have all: "\<forall>f\<in>set (concat (map (\<lambda>d. d input) ds)). span_in input (df_span f)"
    using assms by (auto simp: detectors_ok_def list_all_iff)
  then have "\<forall>f\<in>set (concat (map (\<lambda>d. d input) ds)). span_wf (df_span f)"
    unfolding span_in_def span_wf_def by blast
  then show ?thesis
    unfolding DetectorSet_detect_def
    using ro.resolve_wf[OF all] ro.resolve_ordered by blast
qed

section \<open>Properties\<close>

text \<open>
  C5. The built-in detectors report only usable spans: given a regular-expression engine whose
  match positions lie in the input on character boundaries, every finding of the built-in set
  covers at least one byte, lies inside the input, starts and ends on a character boundary, and
  the findings follow one another without overlap.  This holds for the positions the code
  computes itself, inside credential URLs and assignments, too.
\<close>

theorem DetectorSet_new_spans:
  assumes "regex_spans_ok (de_regex env)" and "utf8_ok input"
  shows "(\<forall>f\<in>set (DetectorSet_detect (DetectorSet_new env) input).
            span_start (df_span f) < span_end (df_span f) \<and> span_end (df_span f) \<le> length input \<and>
            is_char_boundary input (span_start (df_span f)) \<and> is_char_boundary input (span_end (df_span f))) \<and>
         sorted_wrt (\<lambda>a b. span_end (df_span a) \<le> span_start (df_span b)) (DetectorSet_detect (DetectorSet_new env) input)"
  using DetectorSet_detect_ok[OF DetectorSet_new_ok[OF assms]]
  by (simp add: span_in_def span_before_def[abs_def])

theorem DetectorSet_new_spans_witness:
  "let env = \<lparr>de_regex = (\<lambda>e s. if e = url_regex then [[Some (0, length s)]] else []),
              de_url_has_password = (\<lambda>_. True), de_email_valid = (\<lambda>_. False), de_phone_valid = (\<lambda>_. False), de_log2 = (\<lambda>_. 0)\<rparr>
   in map df_span (DetectorSet_detect (DetectorSet_new env) ''db://u:pw@h/x'') = [\<lparr>span_start = 7, span_end = 9\<rparr>] \<and>
      (\<forall>f\<in>set (DetectorSet_detect (DetectorSet_new env) ''db://u:pw@h/x''). span_end (df_span f) \<le> length ''db://u:pw@h/x'')"
proof -
  let ?env = "\<lparr>de_regex = (\<lambda>e s. if e = url_regex then [[Some (0, length s)]] else []),
              de_url_has_password = (\<lambda>_. True), de_email_valid = (\<lambda>_. False), de_phone_valid = (\<lambda>_. False), de_log2 = (\<lambda>_. 0)\<rparr>"
  have "regex_spans_ok (de_regex ?env)"
    by (auto simp: regex_spans_ok_def is_char_boundary_def split: if_splits)
  moreover have "utf8_ok ''db://u:pw@h/x''" by code_simp
  moreover have "map df_span (DetectorSet_detect (DetectorSet_new ?env) ''db://u:pw@h/x'') = [\<lparr>span_start = 7, span_end = 9\<rparr>]"
    by code_simp
  ultimately show ?thesis
    unfolding Let_def using DetectorSet_new_spans[of ?env "''db://u:pw@h/x''"] by blast
qed

end
