(* ===== verification/Redaction.thy ===== *)
theory Redaction
  imports Detectors "HOL-Library.List_Lexorder" "HOL-Library.Char_ord" "HOL-Library.AList"
begin

text \<open>
  Redaction of detected values (\<open>crates/blindfold-detectors/src/redaction.rs\<close>): the dotenv
  catalogue and \<open>Redactor::redact\<close> in its five modes.  The catalogue is an association list from
  values to variable names.  The operating system's randomness (\<open>None\<close> when it fails) and the
  keyed hash of the \<open>blake3\<close> crate are parameters.
\<close>

section \<open>Dotenv catalogue\<close>

type_synonym DotenvCatalog = "(string \<times> string) list"

definition valid_env_name :: "string \<Rightarrow> bool" where
  "valid_env_name name =
     (case name of
        [] \<Rightarrow> False
      | first # rest \<Rightarrow>
          (is_ascii_alphabetic first \<or> first = CHR ''_'') \<and>
          list_all (\<lambda>b. is_ascii_alphanumeric b \<or> b = CHR ''_'') rest)"

definition parse_dotenv_value :: "string \<Rightarrow> string" where
  "parse_dotenv_value v =
     (if length v \<ge> 2 \<and>
         (hd v = CHR 0x22 \<and> last v = CHR 0x22 \<or> hd v = CHR 0x27 \<and> last v = CHR 0x27)
      then str_slice v 1 (length v - 1)
      else trim_end (case str_find '' #'' v of None \<Rightarrow> v | Some i \<Rightarrow> take i v))"

definition dotenv_assignment :: "string \<Rightarrow> (string \<times> string) option" where
  "dotenv_assignment line =
     (let trimmed = str_trim line in
      if trimmed = [] \<or> starts_with ''#'' trimmed then None
      else
        let assignment = (case strip_prefix ''export '' trimmed of None \<Rightarrow> trimmed | Some r \<Rightarrow> r)
        in Option.bind (split_once (CHR ''='') assignment) (\<lambda>(name, raw_value).
          let name = str_trim name in
          if \<not> valid_env_name name then None
          else let v = parse_dotenv_value (str_trim raw_value) in
            if v = [] then None else Some (name, v)))"

definition dotenv_insert :: "DotenvCatalog \<Rightarrow> string \<times> string \<Rightarrow> DotenvCatalog" where
  "dotenv_insert m nv =
     (case map_of m (snd nv) of
        Some existing \<Rightarrow> if fst nv < existing then AList.update (snd nv) (fst nv) m else m
      | None \<Rightarrow> AList.update (snd nv) (fst nv) m)"

definition DotenvCatalog_parse :: "string \<Rightarrow> DotenvCatalog" where
  "DotenvCatalog_parse input =
     foldl dotenv_insert [] (List.map_filter dotenv_assignment (str_lines input))"

definition name_for :: "DotenvCatalog \<Rightarrow> string \<Rightarrow> string option" where
  "name_for c v = map_of c v"

definition DotenvCatalog_len :: "DotenvCatalog \<Rightarrow> nat" where
  "DotenvCatalog_len c = length c"

section \<open>Redaction\<close>

datatype RedactionMode = RM_EnvRef | RM_SchemaOnly | RM_Placeholder | RM_Surrogate | RM_Block

record RedactionOptions =
  ro_mode :: RedactionMode
  ro_dotenv :: "DotenvCatalog option"

record RedactionOutput =
  out_text :: string
  out_findings :: "DetFinding list"

datatype RedactionError = RE_Blocked | RE_InvalidSpan | RE_RandomnessUnavailable

definition write_placeholder :: "DetKind \<Rightarrow> string" where
  "write_placeholder kind = ''[REDACTED:'' @ DetKind_label kind @ '']''"

definition push_hex :: "string \<Rightarrow> string" where
  "push_hex bytes =
     concat (map (\<lambda>b. [''0123456789abcdef'' ! (byte b div 16), ''0123456789abcdef'' ! (byte b mod 16)]) bytes)"

definition write_replacement ::
  "(string \<Rightarrow> string \<Rightarrow> string) \<Rightarrow> string \<Rightarrow> DetFinding \<Rightarrow> RedactionOptions \<Rightarrow> string option \<Rightarrow> string"
where
  "write_replacement keyed_hash raw finding options surrogate_key =
     (case ro_mode options of
        RM_EnvRef \<Rightarrow>
          (case Option.bind (ro_dotenv options) (\<lambda>dotenv. name_for dotenv raw) of
             Some name \<Rightarrow> ''${'' @ name @ ''}''
           | None \<Rightarrow> write_placeholder (df_kind finding))
      | RM_SchemaOnly \<Rightarrow> ''<'' @ DetKind_label (df_kind finding) @ ''>''
      | RM_Placeholder \<Rightarrow> write_placeholder (df_kind finding)
      | RM_Surrogate \<Rightarrow>
          (case surrogate_key of
             None \<Rightarrow> []
           | Some key \<Rightarrow>
               ''{{BLINDFOLD:SURROGATE:v1:'' @ DetKind_label (df_kind finding) @ '':'' @
               push_hex (take 12 (keyed_hash key raw)) @ ''}}'')
      | RM_Block \<Rightarrow> raw)"

fun redact_loop ::
  "(string \<Rightarrow> DetFinding \<Rightarrow> string) \<Rightarrow> string \<Rightarrow> string \<Rightarrow> nat \<Rightarrow> DetFinding list \<Rightarrow> RedactionError + string"
where
  "redact_loop replacement input output cursor [] =
     (case str_get input cursor (length input) of
        None \<Rightarrow> Err RE_InvalidSpan
      | Some rest \<Rightarrow> Ok (output @ rest))"
| "redact_loop replacement input output cursor (f # fs) =
     (case str_get input cursor (span_start (df_span f)) of
        None \<Rightarrow> Err RE_InvalidSpan
      | Some before \<Rightarrow>
        (case str_get input (span_start (df_span f)) (span_end (df_span f)) of
           None \<Rightarrow> Err RE_InvalidSpan
         | Some raw \<Rightarrow>
             redact_loop replacement input (output @ before @ replacement raw f) (span_end (df_span f)) fs))"

definition redact ::
  "string option \<Rightarrow> (string \<Rightarrow> string \<Rightarrow> string) \<Rightarrow> DetectorSet \<Rightarrow> string \<Rightarrow> RedactionOptions \<Rightarrow>
     RedactionError + RedactionOutput"
where
  "redact random keyed_hash detectors input options =
     (let findings = DetectorSet_detect detectors input in
      if ro_mode options = RM_Block \<and> findings \<noteq> [] then Err RE_Blocked
      else
        res_bind
          (if ro_mode options = RM_Surrogate \<and> findings \<noteq> []
           then res_map Some (ok_or random RE_RandomnessUnavailable)
           else Ok None) (\<lambda>surrogate_key.
        res_bind
          (redact_loop (\<lambda>raw f. write_replacement keyed_hash raw f options surrogate_key) input [] 0 findings)
          (\<lambda>text. Ok \<lparr>out_text = text, out_findings = findings\<rparr>)))"

fun RedactionError_fmt :: "RedactionError \<Rightarrow> string" where
  "RedactionError_fmt RE_Blocked = ''input blocked because sensitive content was detected''"
| "RedactionError_fmt RE_InvalidSpan = ''detector returned an invalid input span''"
| "RedactionError_fmt RE_RandomnessUnavailable = ''secure randomness is unavailable for surrogate redaction''"

section \<open>Lemmas: the catalogue\<close>

lemma name_for_insert:
  "map_of (dotenv_insert m (n, v)) w =
     (if v = w then Some (case map_of m v of None \<Rightarrow> n | Some e \<Rightarrow> min n e) else map_of m w)"
  by (auto simp: dotenv_insert_def update_conv min_def split: option.splits)

definition names_of :: "(string \<times> string) list \<Rightarrow> string \<Rightarrow> string set" where
  "names_of nvs v = {n. (n, v) \<in> set nvs}"

lemma finite_names_of [simp]: "finite (names_of nvs v)"
proof -
  have "names_of nvs v \<subseteq> fst ` set nvs" by (force simp: names_of_def)
  then show ?thesis by (rule finite_subset) simp
qed

lemma names_of_Cons: "names_of ((n, w) # nvs) v = (if w = v then insert n (names_of nvs v) else names_of nvs v)"
  by (auto simp: names_of_def)

lemma Min_insert_min: "finite A \<Longrightarrow> Min (insert (min a b) A) = Min (insert a (insert b (A :: 'a::linorder set)))"
  by (cases "A = {}") (simp_all add: min.assoc)

lemma min_Min_swap: "finite A \<Longrightarrow> min a (Min (insert b A)) = min b (Min (insert a (A :: 'a::linorder set)))"
  by (cases "A = {}") (simp_all add: min.left_commute min.commute)

lemma dotenv_fold:
  "map_of (foldl dotenv_insert m nvs) v =
     (let N = names_of nvs v \<union> set_option (map_of m v) in if N = {} then None else Some (Min N))"
proof (induction nvs arbitrary: m)
  case Nil
  then show ?case by (cases "map_of m v") (simp_all add: names_of_def)
next
  case (Cons nv nvs)
  obtain n w where nv: "nv = (n, w)" by force
  show ?case
    using Cons[of "dotenv_insert m nv"]
    by (cases "w = v"; cases "map_of m v")
      (simp_all add: nv name_for_insert names_of_Cons Min_insert_min min_Min_swap[of _ n] Let_def)
qed

section \<open>Lemmas: the loop\<close>

text \<open>The bytes outside and inside the spans, in order.\<close>

fun gaps :: "string \<Rightarrow> nat \<Rightarrow> DetFinding list \<Rightarrow> string list" where
  "gaps input cursor [] = [drop cursor input]"
| "gaps input cursor (f # fs) =
     str_slice input cursor (span_start (df_span f)) # gaps input (span_end (df_span f)) fs"

definition secrets :: "string \<Rightarrow> DetFinding list \<Rightarrow> string list" where
  "secrets input fs = map (\<lambda>f. str_slice input (span_start (df_span f)) (span_end (df_span f))) fs"

fun interleave :: "string list \<Rightarrow> string list \<Rightarrow> string" where
  "interleave (g # gs) (s # ss) = g @ s @ interleave gs ss"
| "interleave gs ss = concat gs"

lemma redact_loop_ok:
  assumes "\<forall>f\<in>set fs. span_in input (df_span f)" and "sorted_wrt span_before fs"
    and "\<forall>f\<in>set fs. cursor \<le> span_start (df_span f)"
    and "cursor \<le> length input" and "is_char_boundary input cursor"
  shows "redact_loop r input out cursor fs =
           Ok (out @ interleave (gaps input cursor fs) (map2 r (secrets input fs) fs))"
  using assms
proof (induction fs arbitrary: out cursor)
  case Nil
  then show ?case by (simp add: str_get_def is_char_boundary_def str_slice_to_end)
next
  case (Cons f fs)
  then show ?case
    by (simp add: str_get_def span_in_def span_before_def secrets_def)
qed

lemma interleave_input:
  assumes "\<forall>f\<in>set fs. span_in input (df_span f)" and "sorted_wrt span_before fs"
    and "\<forall>f\<in>set fs. cursor \<le> span_start (df_span f)" and "cursor \<le> length input"
  shows "interleave (gaps input cursor fs) (secrets input fs) = drop cursor input"
  using assms
proof (induction fs arbitrary: cursor)
  case (Cons f fs)
  let ?a = "span_start (df_span f)" and ?b = "span_end (df_span f)"
  have "interleave (gaps input ?b fs) (secrets input fs) = drop ?b input"
    using Cons.prems by (intro Cons.IH) (auto simp: span_before_def span_in_def)
  moreover have "drop cursor input = str_slice input cursor (length input)"
    by (simp add: str_slice_to_end)
  moreover have "\<dots> = (str_slice input cursor ?a @ str_slice input ?a ?b) @ str_slice input ?b (length input)"
    using Cons.prems by (simp add: str_slice_append span_in_def)
  ultimately show ?case by (simp add: secrets_def str_slice_to_end)
qed (simp add: secrets_def)

lemma redact_outcome:
  assumes "detectors_ok ds input"
  shows "redact random kh ds input opts =
    (let fs = DetectorSet_detect ds input;
         key = (if ro_mode opts = RM_Surrogate \<and> fs \<noteq> [] then random else None)
     in if ro_mode opts = RM_Block \<and> fs \<noteq> [] then Err RE_Blocked
        else if ro_mode opts = RM_Surrogate \<and> fs \<noteq> [] \<and> random = None then Err RE_RandomnessUnavailable
        else Ok \<lparr>out_text = interleave (gaps input 0 fs)
                   (map2 (\<lambda>raw f. write_replacement kh raw f opts key) (secrets input fs) fs),
                 out_findings = fs\<rparr>)"
proof -
  let ?fs = "DetectorSet_detect ds input"
  have loop: "redact_loop r input [] 0 ?fs = Ok (interleave (gaps input 0 ?fs) (map2 r (secrets input ?fs) ?fs))" for r
    using DetectorSet_detect_ok[OF assms] redact_loop_ok[of ?fs input 0 r "[]"]
    by (simp add: is_char_boundary_def)
  show ?thesis
    unfolding redact_def by (cases random) (auto simp: Let_def loop)
qed

lemma gaps_secrets_input:
  "detectors_ok ds input \<Longrightarrow>
     interleave (gaps input 0 (DetectorSet_detect ds input)) (secrets input (DetectorSet_detect ds input)) = input"
  using DetectorSet_detect_ok[of ds input] interleave_input[of "DetectorSet_detect ds input" input 0] by simp

section \<open>Properties\<close>

text \<open>
  The dotenv catalogue answers, for every value, the lexicographically smallest of the valid
  variable names that the file assigns that value to, and nothing for a value the file does not
  assign.
\<close>

theorem DotenvCatalog_smallest_name:
  "name_for (DotenvCatalog_parse input) v =
     (let names = {n. (n, v) \<in> set (List.map_filter dotenv_assignment (str_lines input))}
      in if names = {} then None else Some (Min names))"
  using dotenv_fold[of "[]" "List.map_filter dotenv_assignment (str_lines input)" v]
  by (simp add: name_for_def DotenvCatalog_parse_def names_of_def Let_def)

text \<open>
  C6. Redaction is total and exact on a detector set whose spans are usable: the input splits
  into the bytes outside the findings and the bytes of the findings; the output keeps the former
  in place and puts the replacement of its finding for each of the latter.  The only failures are
  block mode with a finding and surrogate mode with a finding and no randomness; an invalid span
  is never reported.
\<close>

theorem redact_exact:
  assumes "detectors_ok ds input"
  shows "let fs = DetectorSet_detect ds input in
    interleave (gaps input 0 fs) (secrets input fs) = input \<and>
    (case redact random kh ds input opts of
       Inl e \<Rightarrow> fs \<noteq> [] \<and>
         (e = RE_Blocked \<and> ro_mode opts = RM_Block \<or>
          e = RE_RandomnessUnavailable \<and> ro_mode opts = RM_Surrogate \<and> random = None)
     | Inr out \<Rightarrow> out_findings out = fs \<and> (ro_mode opts = RM_Block \<longrightarrow> fs = []) \<and>
         out_text out = interleave (gaps input 0 fs)
           (map2 (\<lambda>raw f. write_replacement kh raw f opts
               (if ro_mode opts = RM_Surrogate \<and> fs \<noteq> [] then random else None)) (secrets input fs) fs))"
  using gaps_secrets_input[OF assms] unfolding redact_outcome[OF assms] by (auto simp: Let_def)

theorem redact_exact_witness:
  "let ds = [\<lambda>s. [\<lparr>df_kind = DK_Token, df_span = \<lparr>span_start = 2, span_end = 4\<rparr>,
                   df_confidence = Conf_High, df_detector = ''t''\<rparr>]];
       opts = \<lparr>ro_mode = RM_SchemaOnly, ro_dotenv = None\<rparr>
   in redact None (\<lambda>_ _. []) ds ''a xy b'' opts =
        Ok \<lparr>out_text = ''a <token> b'', out_findings = DetectorSet_detect ds ''a xy b''\<rparr>"
proof -
  let ?ds = "[\<lambda>s. [\<lparr>df_kind = DK_Token, df_span = \<lparr>span_start = 2, span_end = 4\<rparr>,
                   df_confidence = Conf_High, df_detector = ''t''\<rparr>]] :: DetectorSet"
  have ok: "detectors_ok ?ds ''a xy b''"
    by (simp add: detectors_ok_def span_in_def is_char_boundary_def is_continuation_def byte_def)
  have fs: "DetectorSet_detect ?ds ''a xy b'' = (?ds ! 0) ''a xy b''"
    by (simp add: DetectorSet_detect_def resolve_overlaps_def)
  show ?thesis
    using redact_exact[OF ok, of "\<lparr>ro_mode = RM_SchemaOnly, ro_dotenv = None\<rparr>" None "\<lambda>_ _. []"]
    unfolding fs Let_def
    by (auto simp: write_replacement_def secrets_def str_slice_def split: sum.splits)
qed

text \<open>
  Redaction does not depend on the secrets: in schema-only and placeholder mode, two inputs
  that agree outside their findings, and whose findings have the same kinds in the same order,
  are redacted to the same text, whatever the protected bytes are and however long.
\<close>

theorem redact_noninterference:
  assumes "detectors_ok ds input" and "detectors_ok ds' input'"
    and "ro_mode opts = RM_SchemaOnly \<or> ro_mode opts = RM_Placeholder"
    and "gaps input 0 (DetectorSet_detect ds input) = gaps input' 0 (DetectorSet_detect ds' input')"
    and "map df_kind (DetectorSet_detect ds input) = map df_kind (DetectorSet_detect ds' input')"
  shows "res_map out_text (redact random kh ds input opts) = res_map out_text (redact random' kh' ds' input' opts)"
proof -
  have rep: "map2 (\<lambda>raw f. write_replacement h raw f opts k) (secrets s fs) fs =
      map (\<lambda>kind. if ro_mode opts = RM_SchemaOnly then ''<'' @ DetKind_label kind @ ''>'' else write_placeholder kind)
        (map df_kind fs)" for h s k fs
    using assms(3) by (induction fs) (auto simp: secrets_def write_replacement_def)
  show ?thesis
    unfolding redact_outcome[OF assms(1)] redact_outcome[OF assms(2)] Let_def rep assms(4,5)
    using assms(3) by auto
qed

theorem redact_noninterference_witness:
  "let mk = (\<lambda>n. [\<lambda>s. [\<lparr>df_kind = DK_Token, df_span = \<lparr>span_start = 1, span_end = n\<rparr>,
                   df_confidence = Conf_High, df_detector = ''t''\<rparr>]]);
       opts = \<lparr>ro_mode = RM_Placeholder, ro_dotenv = None\<rparr>
   in res_map out_text (redact None (\<lambda>_ _. []) (mk 2) ''=x'' opts) =
      res_map out_text (redact None (\<lambda>_ _. []) (mk 4) ''=yzw'' opts)"
  unfolding Let_def
  by (rule redact_noninterference)
    (simp_all add: detectors_ok_def span_in_def is_char_boundary_def is_continuation_def byte_def
      DetectorSet_detect_def resolve_overlaps_def str_slice_def)

end
