(* ===== verification/Stream_Redactor.thy ===== *)
theory Stream_Redactor
  imports Core
begin

text \<open>
  Streaming removal of exact secret values from captured output
  (\<open>crates/blindfold-exec/src/redactor.rs\<close>).  Bytes arrive in chunks of any size; the redactor
  keeps the last \<open>maximum_pattern_length - 1\<close> bytes back until it knows whether a secret starts
  in them.  The loop of \<open>process\<close> does not end on an empty pattern, so it is a partial function;
  it is shown total on the non-empty patterns that \<open>SecretBinding::new\<close> admits.
\<close>

section \<open>State and operations\<close>

record BoundedOutput =
  bo_bytes :: string
  bo_limit :: nat
  bo_truncated :: bool

definition BoundedOutput_new :: "nat \<Rightarrow> BoundedOutput" where
  "BoundedOutput_new limit = \<lparr>bo_bytes = [], bo_limit = limit, bo_truncated = False\<rparr>"

definition BoundedOutput_push :: "BoundedOutput \<Rightarrow> string \<Rightarrow> BoundedOutput" where
  "BoundedOutput_push o' bytes =
     (let available = bo_limit o' - length (bo_bytes o');
          retained = min available (length bytes)
      in o'\<lparr>bo_bytes := bo_bytes o' @ take retained bytes,
            bo_truncated := bo_truncated o' \<or> retained < length bytes\<rparr>)"

record StreamingRedactor =
  sd_patterns :: "string list"
  sd_maximum_pattern_length :: nat
  sd_pending :: string
  sd_output :: BoundedOutput
  sd_bytes_read :: "64 word"
  sd_redactions :: "64 word"

record RedactionSummary =
  sum_output :: string
  sum_bytes_read :: "64 word"
  sum_redactions :: "64 word"
  sum_truncated :: bool

definition StreamingRedactor_new :: "string list \<Rightarrow> nat \<Rightarrow> StreamingRedactor" where
  "StreamingRedactor_new patterns output_limit =
     (let patterns = remdups_adj (sort_key (\<lambda>p. Reverse (length p)) patterns) in
      \<lparr>sd_patterns = patterns,
       sd_maximum_pattern_length = (if patterns = [] then 1 else Max (set (map length patterns))),
       sd_pending = [], sd_output = BoundedOutput_new output_limit,
       sd_bytes_read = 0, sd_redactions = 0\<rparr>)"

definition match_length :: "string list \<Rightarrow> string \<Rightarrow> nat \<Rightarrow> nat option" where
  "match_length patterns pending offset =
     map_option length (find (\<lambda>p. starts_with p (drop offset pending)) patterns)"

partial_function (option) process_loop ::
  "string list \<Rightarrow> string \<Rightarrow> nat \<Rightarrow> nat \<Rightarrow> BoundedOutput \<Rightarrow> 64 word \<Rightarrow> (nat \<times> BoundedOutput \<times> 64 word) option"
where
  "process_loop patterns pending process_before cursor output redactions =
     (if cursor < process_before then
        (case match_length patterns pending cursor of
           Some pattern_length \<Rightarrow>
             process_loop patterns pending process_before (cursor + pattern_length)
               (BoundedOutput_push output REDACTED) (saturating_add redactions 1)
         | None \<Rightarrow>
             process_loop patterns pending process_before (cursor + 1)
               (BoundedOutput_push output [pending ! cursor]) redactions)
      else Some (cursor, output, redactions))"

definition StreamingRedactor_process :: "bool \<Rightarrow> StreamingRedactor \<Rightarrow> StreamingRedactor option" where
  "StreamingRedactor_process at_end r =
     (let process_before =
            (if at_end then length (sd_pending r)
             else length (sd_pending r) - (sd_maximum_pattern_length r - 1))
      in map_option
           (\<lambda>(cursor, output, redactions).
              r\<lparr>sd_pending := drop cursor (sd_pending r), sd_output := output, sd_redactions := redactions\<rparr>)
           (process_loop (sd_patterns r) (sd_pending r) process_before 0 (sd_output r) (sd_redactions r)))"

definition u64_of_len :: "nat \<Rightarrow> 64 word" where
  "u64_of_len n = (if n < 2 ^ 64 then of_nat n else - 1)"

definition StreamingRedactor_push :: "StreamingRedactor \<Rightarrow> string \<Rightarrow> StreamingRedactor option" where
  "StreamingRedactor_push r bytes =
     StreamingRedactor_process False
       (r\<lparr>sd_bytes_read := saturating_add (sd_bytes_read r) (u64_of_len (length bytes)),
          sd_pending := sd_pending r @ bytes\<rparr>)"

definition StreamingRedactor_finish :: "StreamingRedactor \<Rightarrow> RedactionSummary option" where
  "StreamingRedactor_finish r =
     map_option
       (\<lambda>r. \<lparr>sum_output = bo_bytes (sd_output r), sum_bytes_read = sd_bytes_read r,
              sum_redactions = sd_redactions r, sum_truncated = bo_truncated (sd_output r)\<rparr>)
       (StreamingRedactor_process True r)"

primrec push_chunks :: "StreamingRedactor \<Rightarrow> string list \<Rightarrow> StreamingRedactor option" where
  "push_chunks r [] = Some r"
| "push_chunks r (c # cs) = Option.bind (StreamingRedactor_push r c) (\<lambda>r'. push_chunks r' cs)"

definition redact_stream :: "string list \<Rightarrow> nat \<Rightarrow> string list \<Rightarrow> RedactionSummary option" where
  "redact_stream patterns limit chunks =
     Option.bind (push_chunks (StreamingRedactor_new patterns limit) chunks) StreamingRedactor_finish"

section \<open>Reference: redaction of the whole stream at once\<close>

datatype token = Lit char | Mark

definition longest_match :: "string list \<Rightarrow> string \<Rightarrow> nat option" where
  "longest_match patterns s =
     (let ls = map length (filter (\<lambda>p. starts_with p s) patterns)
      in if ls = [] then None else Some (Max (set ls)))"

function tokens :: "string list \<Rightarrow> string \<Rightarrow> token list" where
  "tokens ps [] = []"
| "tokens ps (c # cs) =
     (case longest_match ps (c # cs) of
        Some n \<Rightarrow> Mark # tokens ps (drop (n - 1) cs)
      | None \<Rightarrow> Lit c # tokens ps cs)"
  by pat_completeness auto
termination
  by (relation "measure (\<lambda>(ps, s). length s)") auto

fun render :: "token list \<Rightarrow> string" where
  "render [] = []"
| "render (Lit c # ts) = c # render ts"
| "render (Mark # ts) = REDACTED @ render ts"

definition marks :: "token list \<Rightarrow> nat" where
  "marks ts = length (filter (\<lambda>t. t = Mark) ts)"

definition reference_summary :: "string list \<Rightarrow> nat \<Rightarrow> string \<Rightarrow> RedactionSummary" where
  "reference_summary patterns limit s =
     (let ts = tokens patterns s in
      \<lparr>sum_output = take limit (render ts),
       sum_bytes_read = u64_of_len (length s),
       sum_redactions = u64_of_len (marks ts),
       sum_truncated = (limit < length (render ts))\<rparr>)"

section \<open>Bounded output\<close>

definition bounded :: "nat \<Rightarrow> string \<Rightarrow> BoundedOutput" where
  "bounded limit s = \<lparr>bo_bytes = take limit s, bo_limit = limit, bo_truncated = (limit < length s)\<rparr>"

lemma bounded_push: "BoundedOutput_push (bounded l s) t = bounded l (s @ t)"
  by (auto simp: BoundedOutput_push_def bounded_def Let_def min_def)

lemma bounded_new: "BoundedOutput_new l = bounded l []"
  by (simp add: bounded_def BoundedOutput_new_def)

lemma u64_of_len_add: "saturating_add (u64_of_len m) (u64_of_len n) = u64_of_len (m + n)"
proof -
  have u: "unat (u64_of_len k) = min k (2 ^ 64 - 1)" for k
    by (auto simp: u64_of_len_def unat_of_nat min_def unsigned_minus_1_eq_mask mask_eq_exp_minus_1)
  have "unat (saturating_add (u64_of_len m) (u64_of_len n)) = unat (u64_of_len (m + n))"
    by (auto simp: unat_saturating_add u min_def)
  then show ?thesis by (simp add: word_unat_eq_iff)
qed

lemma u64_of_len_Suc: "saturating_add (u64_of_len m) 1 = u64_of_len (Suc m)"
  using u64_of_len_add[of m 1] by (simp add: u64_of_len_def)

lemma u64_of_len_0 [simp]: "u64_of_len 0 = 0"
  by (simp add: u64_of_len_def)

lemma render_append: "render (ts @ us) = render ts @ render us"
  by (induction ts rule: render.induct) auto

lemma marks_append: "marks (ts @ us) = marks ts + marks us"
  by (simp add: marks_def)

section \<open>Matching\<close>

lemma find_map_length:
  assumes "sorted_wrt (\<lambda>a b. length b \<le> length a) ps"
  shows "map_option length (find (\<lambda>p. starts_with p s) ps) = longest_match ps s"
  using assms
proof (induction ps)
  case (Cons p ps)
  show ?case
  proof (cases "starts_with p s")
    case True
    have "Max (insert (length p) (length ` {x \<in> set ps. starts_with x s})) = length p"
      using Cons.prems by (intro Max_eqI) auto
    then show ?thesis using True by (simp add: longest_match_def)
  next
    case False
    then show ?thesis using Cons by (simp add: longest_match_def)
  qed
qed (simp add: longest_match_def)

lemma longest_match_set:
  "set ps = set qs \<Longrightarrow> longest_match ps s = longest_match qs s"
  unfolding longest_match_def Let_def by (simp add: filter_empty_conv)

lemma tokens_cong: "longest_match ps = longest_match qs \<Longrightarrow> tokens ps s = tokens qs s"
  by (induction ps s rule: tokens.induct) (auto split: option.splits)

lemma tokens_set: "set ps = set qs \<Longrightarrow> tokens ps s = tokens qs s"
  by (rule tokens_cong) (rule ext, rule longest_match_set)

lemma longest_match_some:
  "longest_match ps s = Some n \<Longrightarrow> \<exists>p\<in>set ps. length p = n \<and> starts_with p s"
proof -
  assume h: "longest_match ps s = Some n"
  let ?ls = "map length (filter (\<lambda>p. starts_with p s) ps)"
  have "?ls \<noteq> []" "n = Max (set ?ls)" using h by (auto simp: longest_match_def Let_def split: if_splits)
  moreover from this have "Max (set ?ls) \<in> set ?ls" by (intro Max_in) (simp_all only: List.finite_set set_empty, simp)
  ultimately show ?thesis by auto
qed

lemma longest_match_none: "longest_match ps s = None \<longleftrightarrow> (\<forall>p\<in>set ps. \<not> starts_with p s)"
  by (auto simp: longest_match_def Let_def filter_empty_conv)

text \<open>With enough bytes at hand, later bytes do not change the match.\<close>

lemma starts_with_future: "length p \<le> length s \<Longrightarrow> starts_with p (s @ y) \<longleftrightarrow> starts_with p s"
  by (simp add: starts_with_take)

lemma longest_match_future:
  "\<forall>p\<in>set ps. length p \<le> length s \<Longrightarrow> longest_match ps (s @ y) = longest_match ps s"
  unfolding longest_match_def by (simp add: starts_with_future cong: filter_cong)

section \<open>The loop\<close>

lemma tokens_step:
  "s \<noteq> [] \<Longrightarrow> \<forall>p\<in>set ps. p \<noteq> [] \<Longrightarrow>
     tokens ps s = (case longest_match ps s of
        Some n \<Rightarrow> Mark # tokens ps (drop n s)
      | None \<Rightarrow> Lit (hd s) # tokens ps (tl s))"
proof -
  assume s: "s \<noteq> []" and ne: "\<forall>p\<in>set ps. p \<noteq> []"
  then obtain c cs where cs: "s = c # cs" by (cases s) auto
  have "drop n s = drop (n - 1) cs" if "longest_match ps s = Some n" for n
    using longest_match_some[OF that] ne cs by (cases n) auto
  then show ?thesis using cs by (auto split: option.splits)
qed

text \<open>
  One run of the loop, from any cursor: it stops, at a cursor not before the requested one and
  inside the pending bytes, and what it emitted is what the reference emits for the consumed
  bytes, whatever follows the pending bytes.
\<close>

definition enough :: "string list \<Rightarrow> string \<Rightarrow> nat \<Rightarrow> string \<Rightarrow> bool" where
  "enough ps pending before y \<longleftrightarrow>
     before \<le> length pending \<and> (y = [] \<or> (\<forall>p\<in>set ps. before + length p \<le> length pending + 1))"

lemma match_length_reference:
  assumes "sorted_wrt (\<lambda>a b. length b \<le> length a) ps" and "enough ps pending before y" and "cursor < before"
  shows "match_length ps pending cursor = longest_match ps (drop cursor pending @ y)"
proof -
  have "longest_match ps (drop cursor pending @ y) = longest_match ps (drop cursor pending)"
  proof (cases "y = []")
    case False
    then have "\<forall>p\<in>set ps. length p \<le> length (drop cursor pending)"
      using assms(2,3) unfolding enough_def by auto
    then show ?thesis by (rule longest_match_future)
  qed simp
  then show ?thesis
    using find_map_length[OF assms(1)] by (simp add: match_length_def)
qed

definition step_length :: "string list \<Rightarrow> string \<Rightarrow> nat \<Rightarrow> nat" where
  "step_length ps pending cursor = (case match_length ps pending cursor of None \<Rightarrow> 1 | Some n \<Rightarrow> n)"

definition step_token :: "string list \<Rightarrow> string \<Rightarrow> nat \<Rightarrow> token" where
  "step_token ps pending cursor =
     (case match_length ps pending cursor of None \<Rightarrow> Lit (pending ! cursor) | Some _ \<Rightarrow> Mark)"

lemma step_length_bounds:
  assumes "\<forall>p\<in>set ps. p \<noteq> []" and "cursor < length pending"
  shows "0 < step_length ps pending cursor \<and> cursor + step_length ps pending cursor \<le> length pending"
proof (cases "match_length ps pending cursor")
  case None
  then show ?thesis using assms(2) by (simp add: step_length_def)
next
  case (Some m)
  then obtain p where "p \<in> set ps" "length p = m" "starts_with p (drop cursor pending)"
    by (auto simp: match_length_def find_Some_iff dest: nth_mem)
  then show ?thesis
    using assms Some by (auto simp: step_length_def starts_with_iff dest!: arg_cong[of "drop _ _" _ length])
qed

lemma tokens_consume:
  assumes "\<forall>p\<in>set ps. p \<noteq> []" and "sorted_wrt (\<lambda>a b. length b \<le> length a) ps"
    and "enough ps pending before y" and "cursor < before"
  shows "tokens ps (drop cursor pending @ y) =
           step_token ps pending cursor # tokens ps (drop (cursor + step_length ps pending cursor) pending @ y)"
proof -
  have lt: "cursor < length pending" using assms(3,4) by (simp add: enough_def)
  have dr: "drop cursor pending = pending ! cursor # drop (Suc cursor) pending"
    using lt by (simp add: Cons_nth_drop_Suc)
  have ref: "longest_match ps (drop cursor pending @ y) = match_length ps pending cursor"
    using match_length_reference[OF assms(2-4)] by simp
  have "drop n (drop cursor pending @ y) = drop (cursor + n) pending @ y"
    if "match_length ps pending cursor = Some n" for n
    using step_length_bounds[OF assms(1) lt] that by (simp add: step_length_def add.commute)
  then show ?thesis
    using tokens_step[of "drop cursor pending @ y" ps] assms(1) dr ref
    by (auto simp: step_length_def step_token_def split: option.splits)
qed

lemma process_loop_step:
  "cursor < before \<Longrightarrow>
   process_loop ps pending before cursor (bounded l out) (u64_of_len k) =
     process_loop ps pending before (cursor + step_length ps pending cursor)
       (bounded l (out @ render [step_token ps pending cursor]))
       (u64_of_len (k + marks [step_token ps pending cursor]))"
  by (subst process_loop.simps)
    (simp add: step_length_def step_token_def bounded_push u64_of_len_Suc marks_def split: option.splits)

lemma process_loop_total:
  assumes "\<forall>p\<in>set ps. p \<noteq> []" and "sorted_wrt (\<lambda>a b. length b \<le> length a) ps"
    and "before \<le> length pending" and "cursor \<le> length pending"
  shows "\<exists>cursor' ts. cursor' \<le> length pending \<and> before \<le> cursor' \<and>
     (\<forall>y. enough ps pending before y \<longrightarrow>
        tokens ps (drop cursor pending @ y) = ts @ tokens ps (drop cursor' pending @ y)) \<and>
     process_loop ps pending before cursor (bounded l out) (u64_of_len k) =
       Some (cursor', bounded l (out @ render ts), u64_of_len (k + marks ts))"
  using assms(4)
proof (induction "length pending - cursor" arbitrary: cursor out k rule: less_induct)
  case less
  show ?case
  proof (cases "cursor < before")
    case False
    then show ?thesis
      using less.prems by (intro exI[of _ cursor] exI[of _ "[]"]) (simp add: process_loop.simps marks_def)
  next
    case True
    then have lt: "cursor < length pending" using assms(3) by simp
    let ?n = "step_length ps pending cursor" and ?t = "step_token ps pending cursor"
    have n: "0 < ?n" "cursor + ?n \<le> length pending" using step_length_bounds[OF assms(1) lt] by auto
    then have dec: "length pending - (cursor + ?n) < length pending - cursor" using lt by linarith
    from less.hyps[OF dec n(2), of "out @ render [?t]" "k + marks [?t]"]
    obtain cursor' ts where ih: "cursor' \<le> length pending" "before \<le> cursor'"
      "\<forall>y. enough ps pending before y \<longrightarrow>
        tokens ps (drop (cursor + ?n) pending @ y) = ts @ tokens ps (drop cursor' pending @ y)"
      "process_loop ps pending before (cursor + ?n) (bounded l (out @ render [?t])) (u64_of_len (k + marks [?t])) =
        Some (cursor', bounded l ((out @ render [?t]) @ render ts), u64_of_len ((k + marks [?t]) + marks ts))"
      by blast
    have "render (?t # ts) = render [?t] @ render ts" "marks (?t # ts) = marks [?t] + marks ts"
      using render_append[of "[?t]" ts] marks_append[of "[?t]" ts] by auto
    then show ?thesis
      using ih process_loop_step[OF True] tokens_consume[OF assms(1,2) _ True]
      by (intro exI[of _ cursor'] exI[of _ "?t # ts"]) (simp add: add.assoc)
  qed
qed

section \<open>The stream invariant\<close>

text \<open>
  After the bytes \<open>x\<close>, some tokens \<open>ts\<close> have been emitted, and whatever bytes \<open>y\<close> follow, the
  reference on \<open>x @ y\<close> is \<open>ts\<close> followed by the reference on what is pending and \<open>y\<close>.
\<close>

definition stream_inv :: "string list \<Rightarrow> nat \<Rightarrow> string \<Rightarrow> StreamingRedactor \<Rightarrow> bool" where
  "stream_inv ps l x r \<longleftrightarrow>
     sd_patterns r = remdups_adj (sort_key (\<lambda>p. Reverse (length p)) ps) \<and>
     (\<forall>p\<in>set ps. length p \<le> sd_maximum_pattern_length r) \<and>
     sd_bytes_read r = u64_of_len (length x) \<and>
     (\<exists>ts. sd_output r = bounded l (render ts) \<and> sd_redactions r = u64_of_len (marks ts) \<and>
        (\<forall>y. tokens ps (x @ y) = ts @ tokens ps (sd_pending r @ y)))"

lemma set_remdups_sort: "set (remdups_adj (sort_key k ps)) = set ps"
  by simp

lemma sorted_wrt_remdups_adj: "sorted_wrt R xs \<Longrightarrow> sorted_wrt R (remdups_adj xs)"
  by (induction xs rule: remdups_adj.induct) auto

lemma sorted_patterns:
  "sorted_wrt (\<lambda>a b. length b \<le> length a) (remdups_adj (sort_key (\<lambda>p. Reverse (length p)) ps))"
proof -
  have "sorted_wrt (\<lambda>a b. length b \<le> length a) (sort_key (\<lambda>p. Reverse (length p)) ps)"
    using sorted_sort_key[of "\<lambda>p. Reverse (length p)" ps]
    by (simp add: sorted_map less_eq_Reverse_def)
  then show ?thesis by (rule sorted_wrt_remdups_adj)
qed

lemma process_run:
  assumes "\<forall>p\<in>set ps. p \<noteq> []" and "stream_inv ps l x r" and "before \<le> length (sd_pending r)"
  shows "\<exists>ts c. c \<le> length (sd_pending r) \<and> before \<le> c \<and>
     process_loop (sd_patterns r) (sd_pending r) before 0 (sd_output r) (sd_redactions r) =
       Some (c, bounded l (render ts), u64_of_len (marks ts)) \<and>
     (\<forall>y. enough (sd_patterns r) (sd_pending r) before y \<longrightarrow>
        tokens ps (x @ y) = ts @ tokens ps (drop c (sd_pending r) @ y))"
proof -
  let ?ps = "sd_patterns r"
  from assms(2) obtain ts where inv: "?ps = remdups_adj (sort_key (\<lambda>p. Reverse (length p)) ps)"
    "sd_output r = bounded l (render ts)" "sd_redactions r = u64_of_len (marks ts)"
    "\<And>y. tokens ps (x @ y) = ts @ tokens ps (sd_pending r @ y)"
    unfolding stream_inv_def by blast
  have sets: "set ?ps = set ps" using inv(1) by simp
  have ne: "\<forall>p\<in>set ?ps. p \<noteq> []" using assms(1) sets by simp
  have srt: "sorted_wrt (\<lambda>a b. length b \<le> length a) ?ps" using inv(1) sorted_patterns by simp
  note tk = tokens_set[OF sets]
  from process_loop_total[OF ne srt assms(3), of 0 l "render ts" "marks ts"]
  obtain c us where "c \<le> length (sd_pending r)" "before \<le> c"
    "\<forall>y. enough ?ps (sd_pending r) before y \<longrightarrow>
      tokens ?ps (sd_pending r @ y) = us @ tokens ?ps (drop c (sd_pending r) @ y)"
    "process_loop ?ps (sd_pending r) before 0 (sd_output r) (sd_redactions r) =
      Some (c, bounded l (render ts @ render us), u64_of_len (marks ts + marks us))"
    unfolding inv(2,3) by auto
  then show ?thesis
    using inv(4) tk by (intro exI[of _ "ts @ us"] exI[of _ c]) (simp add: render_append marks_append)
qed

lemma process_inv:
  assumes "\<forall>p\<in>set ps. p \<noteq> []" and "stream_inv ps l x r"
  shows "\<exists>r'. StreamingRedactor_process False r = Some r' \<and> stream_inv ps l x r'"
proof -
  let ?before = "length (sd_pending r) - (sd_maximum_pattern_length r - 1)"
  have inv: "sd_patterns r = remdups_adj (sort_key (\<lambda>p. Reverse (length p)) ps)"
    "\<forall>p\<in>set ps. length p \<le> sd_maximum_pattern_length r" "sd_bytes_read r = u64_of_len (length x)"
    using assms(2) by (auto simp: stream_inv_def)
  show ?thesis
  proof (cases "?before = 0")
    case True
    then have "StreamingRedactor_process False r = Some r"
      by (simp add: StreamingRedactor_process_def process_loop.simps)
    then show ?thesis using assms(2) by blast
  next
    case False
    obtain ts c where c: "process_loop (sd_patterns r) (sd_pending r) ?before 0 (sd_output r) (sd_redactions r) =
        Some (c, bounded l (render ts), u64_of_len (marks ts))"
      "\<forall>y. enough (sd_patterns r) (sd_pending r) ?before y \<longrightarrow>
        tokens ps (x @ y) = ts @ tokens ps (drop c (sd_pending r) @ y)"
      using process_run[OF assms, of ?before] by auto
    have "enough (sd_patterns r) (sd_pending r) ?before y" for y
      using False inv(1,2) assms(1) unfolding enough_def by fastforce
    then have "\<forall>y. tokens ps (x @ y) = ts @ tokens ps (drop c (sd_pending r) @ y)"
      using c(2) by blast
    then show ?thesis
      using c(1) inv by (auto simp: StreamingRedactor_process_def stream_inv_def)
  qed
qed

lemma process_at_end:
  assumes "\<forall>p\<in>set ps. p \<noteq> []" and "stream_inv ps l x r"
  shows "\<exists>r'. StreamingRedactor_process True r = Some r' \<and> sd_bytes_read r' = u64_of_len (length x) \<and>
           sd_output r' = bounded l (render (tokens ps x)) \<and> sd_redactions r' = u64_of_len (marks (tokens ps x))"
proof -
  let ?before = "length (sd_pending r)"
  obtain ts c where c: "c \<le> ?before" "?before \<le> c"
    "process_loop (sd_patterns r) (sd_pending r) ?before 0 (sd_output r) (sd_redactions r) =
      Some (c, bounded l (render ts), u64_of_len (marks ts))"
    "\<forall>y. enough (sd_patterns r) (sd_pending r) ?before y \<longrightarrow>
      tokens ps (x @ y) = ts @ tokens ps (drop c (sd_pending r) @ y)"
    using process_run[OF assms, of ?before] by auto
  have "tokens ps x = ts" using spec[OF c(4), of "[]"] c(1,2) by (simp add: enough_def)
  then show ?thesis
    using c(3) assms(2) by (simp add: StreamingRedactor_process_def stream_inv_def)
qed

lemma new_inv: "stream_inv ps l [] (StreamingRedactor_new ps l)"
proof -
  have "length p \<le> Max (length ` set ps)" if "p \<in> set ps" for p
    using that by (intro Max_ge) auto
  moreover have "sort_key k ps = [] \<longleftrightarrow> ps = []" for k :: "string \<Rightarrow> nat Reverse"
    by (metis set_empty set_sort)
  ultimately show ?thesis
    by (auto simp: stream_inv_def StreamingRedactor_new_def Let_def bounded_new marks_def
        intro!: exI[of _ "[]"])
qed

lemma push_inv:
  assumes "\<forall>p\<in>set ps. p \<noteq> []" and "stream_inv ps l x r"
  shows "\<exists>r'. StreamingRedactor_push r c = Some r' \<and> stream_inv ps l (x @ c) r'"
  unfolding StreamingRedactor_push_def
  using assms(2) by (intro process_inv[OF assms(1)]) (auto simp: stream_inv_def u64_of_len_add)

lemma push_chunks_inv:
  assumes "\<forall>p\<in>set ps. p \<noteq> []" and "stream_inv ps l x r"
  shows "\<exists>r'. push_chunks r cs = Some r' \<and> stream_inv ps l (x @ concat cs) r'"
  using assms(2)
proof (induction cs arbitrary: x r)
  case (Cons c cs)
  obtain r1 where r1: "StreamingRedactor_push r c = Some r1" "stream_inv ps l (x @ c) r1"
    using push_inv[OF assms(1) Cons.prems, of c] by blast
  then show ?case using Cons.IH[OF r1(2)] by simp
qed simp

lemma redact_stream_reference:
  assumes "\<forall>p\<in>set ps. p \<noteq> []"
  shows "redact_stream ps l cs = Some (reference_summary ps l (concat cs))"
proof -
  obtain r where r: "push_chunks (StreamingRedactor_new ps l) cs = Some r" "stream_inv ps l (concat cs) r"
    using push_chunks_inv[OF assms new_inv, of l cs] by auto
  then show ?thesis
    using process_at_end[OF assms r(2)]
    by (auto simp: redact_stream_def StreamingRedactor_finish_def reference_summary_def bounded_def Let_def)
qed

section \<open>No secret survives between two markers\<close>

lemma tokens_suffix: "tokens ps s = us @ vs \<Longrightarrow> \<exists>t. tokens ps t = vs"
proof (induction us arbitrary: s)
  case (Cons u us)
  then obtain c cs where s: "s = c # cs" by (cases s) auto
  have "\<exists>t. tokens ps t = us @ vs"
    using Cons.prems s by (auto split: option.splits)
  then show ?case using Cons.IH by blast
qed auto

lemma tokens_literals: "tokens ps t = map Lit xs @ vs \<Longrightarrow> \<exists>t'. t = xs @ t'"
proof (induction xs arbitrary: t)
  case (Cons x xs)
  then obtain c cs where t: "t = c # cs" by (cases t) auto
  then have "c = x" "tokens ps cs = map Lit xs @ vs"
    using Cons.prems by (auto split: option.splits)
  then show ?case using Cons.IH t by auto
qed simp

lemma literal_run_clean:
  assumes "\<forall>p\<in>set ps. p \<noteq> []" and "tokens ps s = us @ map Lit xs @ vs" and "p \<in> set ps"
  shows "\<not> sublist p xs"
proof
  assume "sublist p xs"
  then obtain a b where xs: "xs = a @ p @ b" by (auto simp: sublist_def)
  then have "tokens ps s = (us @ map Lit a) @ map Lit p @ (map Lit b @ vs)" using assms(2) by simp
  then obtain t where t: "tokens ps t = map Lit p @ (map Lit b @ vs)" using tokens_suffix by blast
  then obtain t' where t': "t = p @ t'" using tokens_literals by blast
  have "longest_match ps t \<noteq> None"
    using assms(3) t' by (auto simp: longest_match_none starts_with_iff)
  moreover obtain c cs where p: "p = c # cs" using assms(1,3) by (cases p) auto
  ultimately show False using t t' by (auto split: option.splits)
qed

section \<open>Properties\<close>

text \<open>
  C7. Streaming redaction is independent of chunking: for non-empty secrets, whatever pieces the
  stream arrives in, the redactor terminates and its summary is the one of redacting the whole
  stream at once from the left with the longest secret at each position, the output cut at the
  limit, truncation reported exactly when something was cut, and the counters saturating at 64
  bits.
\<close>

theorem redact_stream_chunking:
  assumes "\<forall>p\<in>set patterns. p \<noteq> []"
  shows "redact_stream patterns limit chunks = Some (reference_summary patterns limit (concat chunks))"
  by (rule redact_stream_reference[OF assms])

theorem redact_stream_chunking_witness:
  "redact_stream [''top'', ''topsecret''] 20 [''a topse'', ''cretx t'', ''op''] =
     Some \<lparr>sum_output = ''a [REDACTED]x [REDAC'', sum_bytes_read = 16, sum_redactions = 2, sum_truncated = True\<rparr>"
  unfolding redact_stream_chunking[of "[''top'', ''topsecret'']" 20 "[''a topse'', ''cretx t'', ''op'']", simplified]
  by (simp add: reference_summary_def longest_match_def starts_with_def REDACTED_def marks_def u64_of_len_def Let_def)

text \<open>
  C8. No exact secret survives: the sanitised output is the rendering of the stream's tokens,
  copied bytes and redaction markers, cut at the limit, and no run of copied bytes between
  markers contains an injected secret.
\<close>

theorem redact_stream_no_secret:
  assumes "\<forall>p\<in>set patterns. p \<noteq> []"
  shows "map_option sum_output (redact_stream patterns limit chunks) =
           Some (take limit (render (tokens patterns (concat chunks)))) \<and>
         (\<forall>us xs vs. tokens patterns (concat chunks) = us @ map Lit xs @ vs \<longrightarrow>
            (\<forall>p\<in>set patterns. \<not> sublist p xs))"
  using redact_stream_reference[OF assms] literal_run_clean[OF assms, of "concat chunks"]
  by (auto simp: reference_summary_def Let_def)

theorem redact_stream_no_secret_witness:
  "map_option sum_output (redact_stream [''pw''] 9 [''p'', ''w!'']) = Some ''[REDACTED''"
  using redact_stream_no_secret[of "[''pw'']" 9 "[''p'', ''w!'']"]
  by (simp add: longest_match_def starts_with_def REDACTED_def)

end
