(* ===== verification/Rust_Map.thy ===== *)
theory Rust_Map
  imports Prelude
begin

text \<open>
  Rust's \<open>BTreeMap\<close> as an association list in strictly ascending key order.  The laws its clients
  use are the locale \<open>map_interface\<close>, interpreted here on the list operations; iteration order is
  the list itself.
\<close>

section \<open>Operations\<close>

fun bt_insert :: "'k::linorder \<Rightarrow> 'v \<Rightarrow> ('k \<times> 'v) list \<Rightarrow> ('k \<times> 'v) list" where
  "bt_insert k v [] = [(k, v)]"
| "bt_insert k v ((k', v') # m) =
     (if k < k' then (k, v) # (k', v') # m
      else if k = k' then (k, v) # m
      else (k', v') # bt_insert k v m)"

fun bt_remove :: "'k::linorder \<Rightarrow> ('k \<times> 'v) list \<Rightarrow> ('k \<times> 'v) list" where
  "bt_remove k [] = []"
| "bt_remove k ((k', v') # m) = (if k = k' then m else (k', v') # bt_remove k m)"

definition bt_get :: "('k \<times> 'v) list \<Rightarrow> 'k \<Rightarrow> 'v option" where
  "bt_get m k = map_of m k"

definition bt_retain :: "('k \<Rightarrow> 'v \<Rightarrow> bool) \<Rightarrow> ('k \<times> 'v) list \<Rightarrow> ('k \<times> 'v) list" where
  "bt_retain p m = filter (\<lambda>(k, v). p k v) m"

abbreviation bt_inv :: "('k::linorder \<times> 'v) list \<Rightarrow> bool" where
  "bt_inv m \<equiv> sorted_wrt (<) (map fst m)"

section \<open>The contract\<close>

locale map_interface =
  fixes empty :: 'm
    and put :: "'k \<Rightarrow> 'v \<Rightarrow> 'm \<Rightarrow> 'm"
    and del :: "'k \<Rightarrow> 'm \<Rightarrow> 'm"
    and lookup :: "'m \<Rightarrow> 'k \<Rightarrow> 'v option"
    and inv :: "'m \<Rightarrow> bool"
  assumes inv_empty: "inv empty"
    and inv_put: "inv m \<Longrightarrow> inv (put k v m)"
    and inv_del: "inv m \<Longrightarrow> inv (del k m)"
    and lookup_empty: "lookup empty k = None"
    and lookup_put: "inv m \<Longrightarrow> lookup (put k v m) k' = (if k' = k then Some v else lookup m k')"
    and lookup_del: "inv m \<Longrightarrow> lookup (del k m) k' = (if k' = k then None else lookup m k')"
begin

definition put_all :: "('k \<times> 'v) list \<Rightarrow> 'm \<Rightarrow> 'm" where
  "put_all kvs m = foldl (\<lambda>m (k, v). put k v m) m kvs"

lemma put_all_simps [simp]:
  "put_all [] m = m" "put_all ((k, v) # kvs) m = put_all kvs (put k v m)"
  by (simp_all add: put_all_def)

lemma inv_put_all: "inv m \<Longrightarrow> inv (put_all kvs m)"
  by (induction kvs arbitrary: m) (auto simp: inv_put)

text \<open>After a sequence of insertions the last binding of a key wins.\<close>

lemma lookup_put_all:
  "inv m \<Longrightarrow> lookup (put_all kvs m) k =
     (case map_of (rev kvs) k of Some v \<Rightarrow> Some v | None \<Rightarrow> lookup m k)"
proof (induction kvs arbitrary: m)
  case (Cons kv kvs)
  then show ?case
    by (cases kv) (auto simp: inv_put lookup_put map_add_def split: option.splits)
qed simp

lemma put_put_same: "inv m \<Longrightarrow> lookup (put k v (put k w m)) = lookup (put k v m)"
  by (auto simp: inv_put lookup_put)

end

section \<open>The list implements the contract\<close>

lemma bt_insert_keys: "fst ` set (bt_insert k v m) = insert k (fst ` set m)"
  by (induction k v m rule: bt_insert.induct) auto

lemma bt_inv_insert: "bt_inv m \<Longrightarrow> bt_inv (bt_insert k v m)"
proof (induction k v m rule: bt_insert.induct)
  case (2 k v k' v' m)
  have keys: "set (map fst (bt_insert k v m)) = insert k (fst ` set m)"
    by (simp add: bt_insert_keys)
  show ?case
    using 2 keys by (auto dest: order.strict_trans)
qed simp

lemma bt_remove_subset: "set (bt_remove k m) \<subseteq> set m"
  by (induction k m rule: bt_remove.induct) auto

lemma bt_inv_remove: "bt_inv m \<Longrightarrow> bt_inv (bt_remove k m)"
  using bt_remove_subset by (induction k m rule: bt_remove.induct) fastforce+

lemma bt_inv_distinct: "bt_inv m \<Longrightarrow> distinct (map fst m)"
  by (simp add: strict_sorted_iff)

lemma bt_get_insert: "bt_inv m \<Longrightarrow> bt_get (bt_insert k v m) k' = (if k' = k then Some v else bt_get m k')"
  by (induction k v m rule: bt_insert.induct) (auto simp: bt_get_def)

lemma bt_get_remove: "bt_inv m \<Longrightarrow> bt_get (bt_remove k m) k' = (if k' = k then None else bt_get m k')"
proof (induction k m rule: bt_remove.induct)
  case (2 k k0 v0 m)
  have "bt_get m k0 = None" using 2(2) by (auto simp: bt_get_def map_of_eq_None_iff)
  then show ?case using 2 by (cases "k' = k") (auto simp: bt_get_def)
qed (simp add: bt_get_def)

lemma bt_inv_retain: "bt_inv m \<Longrightarrow> bt_inv (bt_retain p m)"
  by (simp add: bt_retain_def sorted_wrt_map sorted_wrt_filter)

lemma bt_get_retain:
  "bt_inv m \<Longrightarrow> bt_get (bt_retain p m) k =
     (case bt_get m k of None \<Rightarrow> None | Some v \<Rightarrow> if p k v then Some v else None)"
proof (induction m)
  case (Cons kv m)
  obtain k0 v0 where kv: "kv = (k0, v0)" by force
  have "bt_get m k0 = None" using Cons.prems by (auto simp: kv bt_get_def map_of_eq_None_iff)
  then show ?case using Cons by (auto simp: kv bt_get_def bt_retain_def split: option.splits)
qed (simp add: bt_get_def bt_retain_def)

lemma bt_get_in: "bt_get m k = Some v \<Longrightarrow> (k, v) \<in> set m"
  by (simp add: bt_get_def map_of_SomeD)

lemma bt_in_get: "bt_inv m \<Longrightarrow> (k, v) \<in> set m \<Longrightarrow> bt_get m k = Some v"
  by (simp add: bt_get_def bt_inv_distinct)

interpretation bt: map_interface "[]" bt_insert bt_remove bt_get bt_inv
  by unfold_locales
    (simp_all add: bt_inv_insert bt_inv_remove bt_get_insert bt_get_remove, simp add: bt_get_def)

end
