(* ===== verification/Exec.thy ===== *)
theory Exec
  imports Stream_Redactor Rust_Map "HOL-Library.List_Lexorder" "HOL-Library.Char_ord"
begin

text \<open>
  Isolated child execution (\<open>crates/blindfold-exec/src/lib.rs\<close>): request validation, the child
  environment, waiting with a timeout, capture of both output streams through the streaming
  redactor, and the audit metadata.  The operating system is a parameter: \<open>ChildOs\<close> records what
  spawning, polling, killing and reading would answer.
\<close>

section \<open>Requests\<close>

datatype ExecutionError =
    EE_InvalidEnvironmentName | EE_EmptySecret | EE_DuplicateEnvironmentName | EE_SecretInArguments
  | EE_SecretInMetadata | EE_SpawnFailed | EE_ProcessControlFailed | EE_OutputReadFailed
  | EE_OutputWorkerFailed

type_synonym EnvironmentName = string

definition EnvironmentName_new :: "string \<Rightarrow> ExecutionError + EnvironmentName" where
  "EnvironmentName_new name =
     (case name of
        [] \<Rightarrow> Err EE_InvalidEnvironmentName
      | first # rest \<Rightarrow>
          if length name > 128
             \<or> \<not> (is_ascii_alphabetic first \<or> first = CHR ''_'')
             \<or> \<not> list_all (\<lambda>b. is_ascii_alphanumeric b \<or> b = CHR ''_'') rest
          then Err EE_InvalidEnvironmentName
          else Ok name)"

record SecretBinding =
  sb_name :: EnvironmentName
  sb_secret :: SecretValue

definition SecretBinding_new :: "EnvironmentName \<Rightarrow> SecretValue \<Rightarrow> ExecutionError + SecretBinding" where
  "SecretBinding_new name v =
     (if SecretValue_is_empty v then Err EE_EmptySecret else Ok \<lparr>sb_name = name, sb_secret = v\<rparr>)"

record EnvironmentPolicy =
  ep_baseline :: "(EnvironmentName \<times> string) list"
  ep_passthrough :: "(EnvironmentName \<times> unit) list"

definition EnvironmentPolicy_new :: EnvironmentPolicy where
  "EnvironmentPolicy_new = \<lparr>ep_baseline = [], ep_passthrough = []\<rparr>"

definition set_baseline :: "EnvironmentPolicy \<Rightarrow> EnvironmentName \<Rightarrow> string \<Rightarrow> EnvironmentPolicy" where
  "set_baseline p name v = p\<lparr>ep_baseline := bt_insert name v (ep_baseline p)\<rparr>"

definition allow_passthrough :: "EnvironmentPolicy \<Rightarrow> EnvironmentName \<Rightarrow> EnvironmentPolicy" where
  "allow_passthrough p name = p\<lparr>ep_passthrough := bt_insert name () (ep_passthrough p)\<rparr>"

record CommandSpec =
  cs_program :: string
  cs_arguments :: "string list"
  cs_working_directory :: "string option"

record ExecutionLimits =
  el_output_bytes_per_stream :: nat
  el_timeout :: "nat option"

definition ExecutionLimits_new :: ExecutionLimits where
  "ExecutionLimits_new = \<lparr>el_output_bytes_per_stream = 1024 * 1024, el_timeout = None\<rparr>"

record ExecutionRequest =
  er_command :: CommandSpec
  er_environment :: EnvironmentPolicy
  er_secrets :: "SecretBinding list"
  er_limits :: ExecutionLimits

definition ExecutionRequest_new :: "CommandSpec \<Rightarrow> ExecutionRequest" where
  "ExecutionRequest_new c =
     \<lparr>er_command = c, er_environment = EnvironmentPolicy_new, er_secrets = [], er_limits = ExecutionLimits_new\<rparr>"

definition add_secret :: "ExecutionRequest \<Rightarrow> SecretBinding \<Rightarrow> ExecutionRequest" where
  "add_secret r s = r\<lparr>er_secrets := er_secrets r @ [s]\<rparr>"

section \<open>Results\<close>

record ExitStatus =
  es_code :: "int option"
  es_signal :: "int option"

record ExitMetadata =
  em_code :: "int option"
  em_signal :: "int option"
  em_timed_out :: bool

definition exit_metadata :: "ExitStatus \<Rightarrow> bool \<Rightarrow> ExitMetadata" where
  "exit_metadata status timed_out =
     \<lparr>em_code = es_code status, em_signal = es_signal status, em_timed_out = timed_out\<rparr>"

definition ExitMetadata_success :: "ExitMetadata \<Rightarrow> bool" where
  "ExitMetadata_success m \<longleftrightarrow> em_code m = Some 0 \<and> \<not> em_timed_out m"

record ExecutionAudit =
  ea_argument_count :: nat
  ea_working_directory_set :: bool
  ea_secret_names :: "EnvironmentName list"
  ea_baseline_names :: "EnvironmentName list"
  ea_passthrough_names :: "EnvironmentName list"
  ea_duration :: nat
  ea_exit :: ExitMetadata
  ea_stdout_bytes_read :: "64 word"
  ea_stderr_bytes_read :: "64 word"
  ea_stdout_redactions :: "64 word"
  ea_stderr_redactions :: "64 word"
  ea_stdout_truncated :: bool
  ea_stderr_truncated :: bool

record ExecutionResult =
  ex_stdout :: string
  ex_stderr :: string
  ex_audit :: ExecutionAudit

section \<open>Validation and environment\<close>

fun windows :: "nat \<Rightarrow> 'a list \<Rightarrow> 'a list list" where
  "windows n [] = (if n = 0 then [[]] else [])"
| "windows n (c # cs) = (if n \<le> length (c # cs) then [take n (c # cs)] else []) @ windows n cs"

definition contains_bytes :: "string \<Rightarrow> string \<Rightarrow> bool" where
  "contains_bytes haystack needle \<longleftrightarrow>
     needle \<noteq> [] \<and> length needle \<le> length haystack \<and>
     list_ex (\<lambda>candidate. candidate = needle) (windows (length needle) haystack)"

definition os_str_contains :: "string \<Rightarrow> string \<Rightarrow> bool" where
  "os_str_contains v needle = contains_bytes v needle"

definition environment_names :: "ExecutionRequest \<Rightarrow> EnvironmentName list" where
  "environment_names request =
     map fst (ep_baseline (er_environment request)) @
     map fst (ep_passthrough (er_environment request)) @
     map sb_name (er_secrets request)"

fun insert_names :: "string set \<Rightarrow> string list \<Rightarrow> ExecutionError + unit" where
  "insert_names names [] = Ok ()"
| "insert_names names (n # ns) =
     (if n \<in> names then Err EE_DuplicateEnvironmentName else insert_names (insert n names) ns)"

definition validate_secret :: "ExecutionRequest \<Rightarrow> SecretBinding \<Rightarrow> ExecutionError + unit" where
  "validate_secret request secret =
     (let v = expose_secret (sb_secret secret) in
      if os_str_contains (cs_program (er_command request)) v
         \<or> list_ex (\<lambda>argument. os_str_contains argument v) (cs_arguments (er_command request))
      then Err EE_SecretInArguments
      else if list_ex (\<lambda>name. contains_bytes name v) (environment_names request)
      then Err EE_SecretInMetadata
      else Ok ())"

definition validate_request :: "ExecutionRequest \<Rightarrow> ExecutionError + unit" where
  "validate_request request =
     res_bind (insert_names {} (environment_names request))
       (\<lambda>_. try_all (validate_secret request) (er_secrets request))"

record Command =
  cmd_program :: string
  cmd_args :: "string list"
  cmd_env :: "(string \<times> string) list"
  cmd_current_dir :: "string option"
  cmd_process_group :: int
  cmd_stdin_null :: bool

definition build_command :: "(string \<Rightarrow> string option) \<Rightarrow> ExecutionRequest \<Rightarrow> Command" where
  "build_command parent request =
     (let env = [];
          env = foldl (\<lambda>e (name, v). bt_insert name v e) env (ep_baseline (er_environment request));
          env = foldl (\<lambda>e (name, _). case parent name of Some v \<Rightarrow> bt_insert name v e | None \<Rightarrow> e) env
                  (ep_passthrough (er_environment request));
          env = foldl (\<lambda>e secret. bt_insert (sb_name secret) (expose_secret (sb_secret secret)) e) env
                  (er_secrets request)
      in \<lparr>cmd_program = cs_program (er_command request), cmd_args = cs_arguments (er_command request),
          cmd_env = env, cmd_current_dir = cs_working_directory (er_command request),
          cmd_process_group = 0, cmd_stdin_null = True\<rparr>)"

section \<open>Waiting and capture\<close>

datatype TryWait = TW_Error | TW_Running | TW_Exited ExitStatus

datatype ReadResult = Read_Error | Read_Bytes string

record ChildOs =
  os_spawns :: "Command \<Rightarrow> bool"
  os_has_stdout :: bool
  os_has_stderr :: bool
  os_stdout_worker :: bool
  os_stderr_worker :: bool
  os_deadline :: "nat \<Rightarrow> nat option"
  os_polls :: "(TryWait \<times> nat) list"
  os_kill_ok :: bool
  os_wait :: "ExitStatus option"
  os_stdout :: "ReadResult list"
  os_stderr :: "ReadResult list"
  os_elapsed :: nat

datatype ChildEffect = KillGroup | WaitChild

text \<open>
  Polling with a deadline.  Each element of \<open>polls\<close> is what \<open>try_wait\<close> answers and the time read
  after it; \<open>None\<close> is a child that is still being polled when the list ends.
\<close>

fun poll_child ::
  "bool \<Rightarrow> ExitStatus option \<Rightarrow> nat \<Rightarrow> (TryWait \<times> nat) list \<Rightarrow>
     ((ExecutionError + ExitStatus \<times> bool) \<times> ChildEffect list) option"
where
  "poll_child kill_ok wait deadline [] = None"
| "poll_child kill_ok wait deadline ((r, now) # polls) =
     (case r of
        TW_Error \<Rightarrow> Some (Err EE_ProcessControlFailed, [])
      | TW_Exited status \<Rightarrow> Some (Ok (status, False), [KillGroup])
      | TW_Running \<Rightarrow>
          if now \<ge> deadline then
            Some (if \<not> kill_ok then (Err EE_ProcessControlFailed, [KillGroup])
                  else case wait of
                    None \<Rightarrow> (Err EE_ProcessControlFailed, [KillGroup, WaitChild])
                  | Some status \<Rightarrow> (Ok (status, True), [KillGroup, WaitChild]))
          else poll_child kill_ok wait deadline polls)"

definition wait_for_child ::
  "ChildOs \<Rightarrow> nat option \<Rightarrow> ((ExecutionError + ExitStatus \<times> bool) \<times> ChildEffect list) option"
where
  "wait_for_child os timeout =
     (case timeout of
        None \<Rightarrow>
          Some (case os_wait os of
              None \<Rightarrow> (Err EE_ProcessControlFailed, [WaitChild])
            | Some status \<Rightarrow> (Ok (status, False), [WaitChild]))
      | Some t \<Rightarrow>
          (case os_deadline os t of
             None \<Rightarrow> Some (Err EE_ProcessControlFailed, [])
           | Some deadline \<Rightarrow> poll_child (os_kill_ok os) (os_wait os) deadline (os_polls os)))"

text \<open>A stream as the results of successive reads; reading past the list is the end of the stream.\<close>

fun capture_loop :: "StreamingRedactor \<Rightarrow> ReadResult list \<Rightarrow> (ExecutionError + RedactionSummary) option" where
  "capture_loop r [] = map_option Ok (StreamingRedactor_finish r)"
| "capture_loop r (Read_Error # rs) = Some (Err EE_OutputReadFailed)"
| "capture_loop r (Read_Bytes bytes # rs) =
     (if bytes = [] then map_option Ok (StreamingRedactor_finish r)
      else Option.bind (StreamingRedactor_push r bytes) (\<lambda>r'. capture_loop r' rs))"

definition capture_stream :: "ReadResult list \<Rightarrow> string list \<Rightarrow> nat \<Rightarrow> (ExecutionError + RedactionSummary) option" where
  "capture_stream stream patterns limit = capture_loop (StreamingRedactor_new patterns limit) stream"

definition execution_result ::
  "ChildOs \<Rightarrow> ExecutionRequest \<Rightarrow> ExitStatus \<times> bool \<Rightarrow> RedactionSummary \<Rightarrow> RedactionSummary \<Rightarrow> ExecutionResult"
where
  "execution_result os request exit stdout stderr =
     \<lparr>ex_stdout = sum_output stdout, ex_stderr = sum_output stderr,
      ex_audit =
        \<lparr>ea_argument_count = length (cs_arguments (er_command request)),
         ea_working_directory_set = (cs_working_directory (er_command request) \<noteq> None),
         ea_secret_names = map sb_name (er_secrets request),
         ea_baseline_names = map fst (ep_baseline (er_environment request)),
         ea_passthrough_names = map fst (ep_passthrough (er_environment request)),
         ea_duration = os_elapsed os,
         ea_exit = exit_metadata (fst exit) (snd exit),
         ea_stdout_bytes_read = sum_bytes_read stdout, ea_stderr_bytes_read = sum_bytes_read stderr,
         ea_stdout_redactions = sum_redactions stdout, ea_stderr_redactions = sum_redactions stderr,
         ea_stdout_truncated = sum_truncated stdout, ea_stderr_truncated = sum_truncated stderr\<rparr>\<rparr>"

definition execute ::
  "(string \<Rightarrow> string option) \<Rightarrow> ChildOs \<Rightarrow> ExecutionRequest \<Rightarrow> (ExecutionError + ExecutionResult) option"
where
  "execute parent os request =
     (case validate_request request of
        Inl e \<Rightarrow> Some (Err e)
      | Inr _ \<Rightarrow>
        (let patterns = map (\<lambda>s. expose_secret (sb_secret s)) (er_secrets request);
             limit = el_output_bytes_per_stream (er_limits request)
         in if \<not> os_spawns os (build_command parent request) then Some (Err EE_SpawnFailed)
            else if \<not> os_has_stdout os \<or> \<not> os_has_stderr os then Some (Err EE_SpawnFailed)
            else if \<not> os_stdout_worker os \<or> \<not> os_stderr_worker os then Some (Err EE_OutputWorkerFailed)
            else Option.bind (wait_for_child os (el_timeout (er_limits request))) (\<lambda>(outcome, _).
              case outcome of
                Inl e \<Rightarrow> Some (Err e)
              | Inr exit \<Rightarrow>
                  Option.bind (capture_stream (os_stdout os) patterns limit) (\<lambda>stdout.
                  Option.bind (capture_stream (os_stderr os) patterns limit) (\<lambda>stderr.
                  Some (res_bind stdout (\<lambda>stdout. res_bind stderr (\<lambda>stderr.
                    Ok (execution_result os request exit stdout stderr)))))))))"

section \<open>Well-formed requests\<close>

definition request_wf :: "ExecutionRequest \<Rightarrow> bool" where
  "request_wf r \<longleftrightarrow>
     bt_inv (ep_baseline (er_environment r)) \<and> bt_inv (ep_passthrough (er_environment r)) \<and>
     list_all (\<lambda>s. expose_secret (sb_secret s) \<noteq> []) (er_secrets r)"

lemma ExecutionRequest_new_wf: "request_wf (ExecutionRequest_new c)"
  by (simp add: request_wf_def ExecutionRequest_new_def EnvironmentPolicy_new_def)

lemma set_baseline_wf:
  "request_wf r \<Longrightarrow> request_wf (r\<lparr>er_environment := set_baseline (er_environment r) n v\<rparr>)"
  by (simp add: request_wf_def set_baseline_def bt_inv_insert)

lemma allow_passthrough_wf:
  "request_wf r \<Longrightarrow> request_wf (r\<lparr>er_environment := allow_passthrough (er_environment r) n\<rparr>)"
  by (simp add: request_wf_def allow_passthrough_def bt_inv_insert)

lemma add_secret_wf:
  "request_wf r \<Longrightarrow> SecretBinding_new n v = Ok s \<Longrightarrow> request_wf (add_secret r s)"
  by (auto simp: request_wf_def add_secret_def SecretBinding_new_def SecretValue_is_empty_def split: if_splits)

section \<open>Lemmas\<close>

lemma windows_in_iff: "w \<in> set (windows (length w) s) \<longleftrightarrow> sublist w s"
proof (induction s)
  case (Cons c cs)
  have "take (length w) (c # cs) = w \<longleftrightarrow> prefix w (c # cs)"
    by (metis append_eq_conv_conj prefix_def take_is_prefix)
  moreover have "prefix w (c # cs) \<Longrightarrow> length w \<le> length (c # cs)" by (rule prefix_length_le)
  ultimately show ?case using Cons by (auto simp: sublist_Cons_right)
qed auto

lemma contains_bytes_iff: "contains_bytes h n \<longleftrightarrow> n \<noteq> [] \<and> sublist n h"
proof -
  have "list_ex (\<lambda>c. c = n) (windows (length n) h) \<longleftrightarrow> sublist n h"
    using windows_in_iff[of n h] by (auto simp: list_ex_iff)
  then show ?thesis using sublist_length_le[of n h] by (auto simp: contains_bytes_def)
qed

lemma insert_names_ok_iff [res_simps]:
  "insert_names names ns = Ok u \<longleftrightarrow> distinct ns \<and> set ns \<inter> names = {}"
  by (induction names ns rule: insert_names.induct) auto

lemma validate_request_ok_iff:
  "validate_request r = Ok () \<longleftrightarrow>
     distinct (environment_names r) \<and>
     (\<forall>s\<in>set (er_secrets r). let v = expose_secret (sb_secret s) in
        \<not> contains_bytes (cs_program (er_command r)) v \<and>
        (\<forall>a\<in>set (cs_arguments (er_command r)). \<not> contains_bytes a v) \<and>
        (\<forall>n\<in>set (environment_names r). \<not> contains_bytes n v))"
  by (auto simp: validate_request_def res_bind_ok_iff insert_names_ok_iff try_all_ok_iff
      validate_secret_def os_str_contains_def Let_def list_ex_iff)

lemma foldl_passthrough:
  "foldl (\<lambda>e (name, _). case parent name of Some v \<Rightarrow> bt_insert name v e | None \<Rightarrow> e) m ps =
     bt.put_all (List.map_filter (\<lambda>(n, _). map_option (Pair n) (parent n)) ps) m"
  by (induction ps arbitrary: m) (auto simp: List.map_filter_def split: option.splits)

lemma foldl_secrets:
  "foldl (\<lambda>e secret. bt_insert (sb_name secret) (expose_secret (sb_secret secret)) e) m ss =
     bt.put_all (map (\<lambda>s. (sb_name s, expose_secret (sb_secret s))) ss) m"
  by (induction ss arbitrary: m) auto

lemma foldl_baseline: "foldl (\<lambda>e (name, v). bt_insert name v e) m kvs = bt.put_all kvs m"
  by (simp add: bt.put_all_def)

lemma map_of_passthrough:
  "map_of (List.map_filter (\<lambda>(n, _). map_option (Pair n) (parent n)) ps) n =
     (if n \<in> fst ` set ps then parent n else None)"
  by (induction ps) (auto simp: List.map_filter_def split: option.splits)

lemma fst_passthrough:
  "map fst (List.map_filter (\<lambda>(n, _). map_option (Pair n) (parent n)) ps) = filter (\<lambda>n. parent n \<noteq> None) (map fst ps)"
  by (induction ps) (auto simp: List.map_filter_def split: option.splits)

lemma map_of_rev_distinct: "distinct (map fst kvs) \<Longrightarrow> map_of (rev kvs) = map_of kvs"
  by (rule map_of_eqI) (auto simp: distinct_map map_of_eq_Some_iff simp flip: rev_map)

lemma build_command_env:
  assumes "request_wf r" and "distinct (environment_names r)"
  shows "bt_get (cmd_env (build_command parent r)) n =
    (case map_of (map (\<lambda>s. (sb_name s, expose_secret (sb_secret s))) (er_secrets r)) n of
       Some v \<Rightarrow> Some v
     | None \<Rightarrow>
        if n \<in> fst ` set (ep_passthrough (er_environment r)) then parent n
        else bt_get (ep_baseline (er_environment r)) n)"
proof -
  let ?b = "ep_baseline (er_environment r)" and ?p = "ep_passthrough (er_environment r)"
  let ?pk = "List.map_filter (\<lambda>(n, _). map_option (Pair n) (parent n)) ?p"
  let ?sk = "map (\<lambda>s. (sb_name s, expose_secret (sb_secret s))) (er_secrets r)"
  have d: "distinct (map fst ?b)" "distinct (map fst ?p)" "distinct (map fst ?sk)"
    "fst ` set ?p \<inter> fst ` set ?b = {}"
    using assms(2) by (auto simp: environment_names_def comp_def)
  have env: "cmd_env (build_command parent r) = bt.put_all ?sk (bt.put_all ?pk (bt.put_all ?b []))"
    by (simp add: build_command_def Let_def foldl_passthrough foldl_secrets foldl_baseline)
  have rev: "map_of (rev ?sk) = map_of ?sk" "map_of (rev ?pk) = map_of ?pk" "map_of (rev ?b) = map_of ?b"
    using d by (simp_all only: map_of_rev_distinct fst_passthrough distinct_filter)
  note i0 = bt.inv_empty
  note i1 = bt.inv_put_all[OF i0, of ?b]
  note i2 = bt.inv_put_all[OF i1, of ?pk]
  have "bt_get (cmd_env (build_command parent r)) n =
      (case map_of ?sk n of Some v \<Rightarrow> Some v | None \<Rightarrow>
        (case map_of ?pk n of Some v \<Rightarrow> Some v | None \<Rightarrow> map_of ?b n))"
    unfolding env bt.lookup_put_all[OF i2] bt.lookup_put_all[OF i1] bt.lookup_put_all[OF i0] rev
    by (simp add: bt.lookup_empty split: option.splits)
  moreover have "map_of ?b n = None" if "n \<in> fst ` set ?p"
    using that d(4) by (auto simp: map_of_eq_None_iff)
  ultimately show ?thesis
    by (simp add: map_of_passthrough bt_get_def split: option.splits)
qed

fun read_chunks :: "ReadResult list \<Rightarrow> string list option" where
  "read_chunks [] = Some []"
| "read_chunks (Read_Error # rs) = None"
| "read_chunks (Read_Bytes b # rs) = (if b = [] then Some [] else map_option (Cons b) (read_chunks rs))"

lemma capture_loop_chunks:
  assumes "\<forall>p\<in>set ps. p \<noteq> []" and "stream_inv ps l x r"
  shows "capture_loop r rs =
    (case read_chunks rs of
       None \<Rightarrow> Some (Err EE_OutputReadFailed)
     | Some cs \<Rightarrow> map_option Ok (Option.bind (push_chunks r cs) StreamingRedactor_finish))"
  using assms(2)
proof (induction rs arbitrary: x r rule: read_chunks.induct)
  case (3 b rs)
  show ?case
  proof (cases "b = []")
    case False
    obtain r1 where r1: "StreamingRedactor_push r b = Some r1" "stream_inv ps l (x @ b) r1"
      using push_inv[OF assms(1) 3(2)] by blast
    then show ?thesis
      using 3(1)[OF False r1(2)] False by (auto split: option.splits)
  qed simp
qed simp_all

lemma capture_stream_reference:
  assumes "\<forall>p\<in>set ps. p \<noteq> []"
  shows "capture_stream rs ps l =
    Some (case read_chunks rs of
       None \<Rightarrow> Err EE_OutputReadFailed
     | Some cs \<Rightarrow> Ok (reference_summary ps l (concat cs)))"
  using redact_stream_reference[OF assms, of l] capture_loop_chunks[OF assms new_inv, of l rs]
  by (auto simp: capture_stream_def redact_stream_def split: option.splits)

lemma execute_ok_cases:
  assumes "\<forall>p\<in>set (map (\<lambda>s. expose_secret (sb_secret s)) (er_secrets r)). p \<noteq> []"
    and "validate_request r = Ok ()" and "execute parent os r = Some (Ok result)"
  shows "\<exists>exit out err. read_chunks (os_stdout os) = Some out \<and> read_chunks (os_stderr os) = Some err \<and>
    result = execution_result os r exit
      (reference_summary (map (\<lambda>s. expose_secret (sb_secret s)) (er_secrets r))
         (el_output_bytes_per_stream (er_limits r)) (concat out))
      (reference_summary (map (\<lambda>s. expose_secret (sb_secret s)) (er_secrets r))
         (el_output_bytes_per_stream (er_limits r)) (concat err))"
proof -
  obtain outcome eff where w: "wait_for_child os (el_timeout (er_limits r)) = Some (outcome, eff)"
    using assms(2,3) by (auto simp: execute_def Let_def bind_eq_Some_conv split: if_splits)
  show ?thesis
  proof (cases outcome)
    case (Inl e)
    then show ?thesis using assms(2,3) w by (auto simp: execute_def Let_def split: if_splits)
  next
    case (Inr exit)
    then show ?thesis
      using assms(2,3) w
      by (cases exit) (auto simp: execute_def Let_def capture_stream_reference[OF assms(1)] res_bind_ok_iff
          split: if_splits option.splits)
  qed
qed

section \<open>Properties\<close>

text \<open>
  C9. The child environment is exactly what the request configures: for a validated request, a
  variable of the child is the secret bound to its name, or the parent's value of a named
  passthrough, or the baseline value, and no other variable of the parent is visible.
\<close>

theorem child_environment_isolated:
  assumes "request_wf r" and "validate_request r = Ok ()"
  shows "bt_get (cmd_env (build_command parent r)) n =
    (case map_of (map (\<lambda>s. (sb_name s, expose_secret (sb_secret s))) (er_secrets r)) n of
       Some v \<Rightarrow> Some v
     | None \<Rightarrow>
        if n \<in> fst ` set (ep_passthrough (er_environment r)) then parent n
        else bt_get (ep_baseline (er_environment r)) n)"
  using build_command_env[OF assms(1)] assms(2) by (simp add: validate_request_ok_iff)

theorem child_environment_isolated_witness:
  "let r = add_secret (ExecutionRequest_new \<lparr>cs_program = ''sh'', cs_arguments = [], cs_working_directory = None\<rparr>)
             \<lparr>sb_name = ''KEY'', sb_secret = SecretValue ''s3cret''\<rparr>
   in bt_get (cmd_env (build_command (\<lambda>n. Some ''parent'') r)) ''KEY'' = Some ''s3cret'' \<and>
      bt_get (cmd_env (build_command (\<lambda>n. Some ''parent'') r)) ''HOME'' = None"
proof -
  let ?r = "add_secret (ExecutionRequest_new \<lparr>cs_program = ''sh'', cs_arguments = [], cs_working_directory = None\<rparr>)
             \<lparr>sb_name = ''KEY'', sb_secret = SecretValue ''s3cret''\<rparr>"
  have "request_wf ?r" by (rule add_secret_wf[OF ExecutionRequest_new_wf, of "''KEY''" "SecretValue ''s3cret''"])
      (simp add: SecretBinding_new_def SecretValue_is_empty_def)
  moreover have "validate_request ?r = Ok ()"
    by (simp add: validate_request_def validate_secret_def environment_names_def add_secret_def ExecutionRequest_new_def
        EnvironmentPolicy_new_def os_str_contains_def contains_bytes_def)
  ultimately show ?thesis
    using child_environment_isolated[of ?r "\<lambda>n. Some ''parent''" "''KEY''"]
      child_environment_isolated[of ?r "\<lambda>n. Some ''parent''" "''HOME''"]
    by (simp add: Let_def add_secret_def ExecutionRequest_new_def EnvironmentPolicy_new_def bt_get_def)
qed

text \<open>
  C10. A completed execution is sanitised: if \<open>execute\<close> succeeds, no injected secret occurs in the
  executable, in an argument or in an environment name kept for audit, and the captured standard
  output and error are the reference redaction of what the child wrote, each cut at the
  configured limit, whatever sizes the reads had.
\<close>

theorem execute_sanitised:
  assumes "request_wf r" and "execute parent os r = Some (Ok result)"
  shows "let patterns = map (\<lambda>s. expose_secret (sb_secret s)) (er_secrets r);
             limit = el_output_bytes_per_stream (er_limits r)
         in list_all (\<lambda>v. list_all (\<lambda>t. \<not> sublist v t)
              (cs_program (er_command r) # cs_arguments (er_command r) @ ea_secret_names (ex_audit result) @
               ea_baseline_names (ex_audit result) @ ea_passthrough_names (ex_audit result))) patterns \<and>
            (\<exists>out err. read_chunks (os_stdout os) = Some out \<and> read_chunks (os_stderr os) = Some err \<and>
              ex_stdout result = take limit (render (tokens patterns (concat out))) \<and>
              ex_stderr result = take limit (render (tokens patterns (concat err))))"
proof -
  let ?ps = "map (\<lambda>s. expose_secret (sb_secret s)) (er_secrets r)"
  have ne: "\<forall>p\<in>set ?ps. p \<noteq> []" using assms(1) by (auto simp: request_wf_def list_all_iff)
  have v: "validate_request r = Ok ()"
    using assms(2) by (auto simp: execute_def split: sum.splits)
  then have clean: "list_all (\<lambda>v. list_all (\<lambda>t. \<not> sublist v t)
      (cs_program (er_command r) # cs_arguments (er_command r) @ environment_names r)) ?ps"
    using ne by (auto simp: validate_request_ok_iff contains_bytes_iff list_all_iff Let_def)
  obtain exit out err where
    out: "read_chunks (os_stdout os) = Some out" and err: "read_chunks (os_stderr os) = Some err"
    and res: "result = execution_result os r exit
        (reference_summary ?ps (el_output_bytes_per_stream (er_limits r)) (concat out))
        (reference_summary ?ps (el_output_bytes_per_stream (er_limits r)) (concat err))"
    using execute_ok_cases[OF ne v assms(2)] by blast
  have names: "ea_secret_names (ex_audit result) = map sb_name (er_secrets r)"
    "ea_baseline_names (ex_audit result) = map fst (ep_baseline (er_environment r))"
    "ea_passthrough_names (ex_audit result) = map fst (ep_passthrough (er_environment r))"
    by (simp_all add: res execution_result_def)
  have outs: "ex_stdout result = take (el_output_bytes_per_stream (er_limits r)) (render (tokens ?ps (concat out)))"
    "ex_stderr result = take (el_output_bytes_per_stream (er_limits r)) (render (tokens ?ps (concat err)))"
    by (simp_all add: res execution_result_def reference_summary_def Let_def)
  have "list_all (\<lambda>v. list_all (\<lambda>t. \<not> sublist v t)
      (cs_program (er_command r) # cs_arguments (er_command r) @ map sb_name (er_secrets r) @
       map fst (ep_baseline (er_environment r)) @ map fst (ep_passthrough (er_environment r)))) ?ps"
    by (rule list.pred_mono_strong[OF clean]) (simp add: environment_names_def)
  then show ?thesis unfolding Let_def names using out err outs by blast
qed

theorem execute_sanitised_witness:
  "let r = add_secret (ExecutionRequest_new \<lparr>cs_program = ''sh'', cs_arguments = [], cs_working_directory = None\<rparr>)
             \<lparr>sb_name = ''KEY'', sb_secret = SecretValue ''s3''\<rparr>;
       os = \<lparr>os_spawns = (\<lambda>_. True), os_has_stdout = True, os_has_stderr = True, os_stdout_worker = True,
             os_stderr_worker = True, os_deadline = Some, os_polls = [], os_kill_ok = True,
             os_wait = Some \<lparr>es_code = Some 0, es_signal = None\<rparr>,
             os_stdout = [Read_Bytes ''a s'', Read_Bytes ''3''], os_stderr = [], os_elapsed = 1\<rparr>
   in map_option (res_map ex_stdout) (execute (\<lambda>_. None) os r) = Some (Ok ''a [REDACTED]'')"
proof -
  let ?r = "add_secret (ExecutionRequest_new \<lparr>cs_program = ''sh'', cs_arguments = [], cs_working_directory = None\<rparr>)
             \<lparr>sb_name = ''KEY'', sb_secret = SecretValue ''s3''\<rparr>"
  let ?os = "\<lparr>os_spawns = (\<lambda>_. True), os_has_stdout = True, os_has_stderr = True, os_stdout_worker = True,
             os_stderr_worker = True, os_deadline = Some, os_polls = [], os_kill_ok = True,
             os_wait = Some \<lparr>es_code = Some 0, es_signal = None\<rparr>,
             os_stdout = [Read_Bytes ''a s'', Read_Bytes ''3''], os_stderr = [], os_elapsed = 1\<rparr>"
  note defs = add_secret_def ExecutionRequest_new_def EnvironmentPolicy_new_def ExecutionLimits_new_def
  have wf: "request_wf ?r" by (simp add: request_wf_def defs)
  have "validate_request ?r = Ok ()"
    by (simp add: validate_request_def validate_secret_def environment_names_def defs
        os_str_contains_def contains_bytes_def)
  then obtain result where res: "execute (\<lambda>_. None) ?os ?r = Some (Ok result)"
    by (simp add: execute_def wait_for_child_def capture_stream_reference defs Let_def)
  have "ex_stdout result = ''a [REDACTED]''"
    using execute_sanitised[OF wf res]
    by (simp add: Let_def defs longest_match_def starts_with_def REDACTED_def)
  then show ?thesis using res by (simp add: Let_def)
qed

end
