(* ===== verification/Fs_Model.thy ===== *)
theory Fs_Model
  imports Rust_Str
begin

text \<open>
  The file system as the storage crates use it.  A path is the list of its components; a node is a
  symbolic link, a directory with a mode, or a file with its bytes and mode.  Which system calls
  succeed on which path is up to the environment (\<open>fs_allows\<close>), so every I/O error branch of the
  code has inputs.  A fallible operation is a function from the file system to a result and the
  file system it leaves behind.

  The operations of \<open>crates/blindfold-vault/src/fs.rs\<close> are here; \<open>crates/blindfold-trace/src/lib.rs\<close>
  has its own copies of them with its own error type, so they take the error to report.
\<close>

section \<open>File system state\<close>

type_synonym path = "string list"

datatype node = NSymlink | NDir nat | NFile string nat

datatype FsOp = Op_Stat | Op_Chmod | Op_Open | Op_Lock | Op_Read | Op_Write | Op_Rename | Op_Remove | Op_Mkdir

record Fs =
  fs_nodes :: "path \<Rightarrow> node option"
  fs_allows :: "FsOp \<Rightarrow> path \<Rightarrow> bool"
  fs_dir_mode :: nat

type_synonym ('e, 'a) fsm = "Fs \<Rightarrow> ('e + 'a) \<times> Fs"

definition fs_ret :: "'a \<Rightarrow> ('e, 'a) fsm" where
  "fs_ret x = (\<lambda>s. (Ok x, s))"

definition fs_err :: "'e \<Rightarrow> ('e, 'a) fsm" where
  "fs_err e = (\<lambda>s. (Err e, s))"

definition fs_bind :: "('e, 'a) fsm \<Rightarrow> ('a \<Rightarrow> ('e, 'b) fsm) \<Rightarrow> ('e, 'b) fsm" where
  "fs_bind m f = (\<lambda>s. case m s of (Inl e, s') \<Rightarrow> (Err e, s') | (Inr x, s') \<Rightarrow> f x s')"

definition fs_lift :: "'e + 'a \<Rightarrow> ('e, 'a) fsm" where
  "fs_lift r = (\<lambda>s. (r, s))"

definition fs_get :: "(Fs \<Rightarrow> 'a) \<Rightarrow> ('e, 'a) fsm" where
  "fs_get f = (\<lambda>s. (Ok (f s), s))"

definition set_node :: "path \<Rightarrow> node option \<Rightarrow> Fs \<Rightarrow> Fs" where
  "set_node p n s = s\<lparr>fs_nodes := (fs_nodes s)(p := n)\<rparr>"

lemma fs_simps [simp]:
  "fs_ret x s = (Ok x, s)" "fs_err e s = (Err e, s)" "fs_lift r s = (r, s)" "fs_get g s = (Ok (g s), s)"
  "fs_bind m f s = (case m s of (Inl e, s') \<Rightarrow> (Err e, s') | (Inr x, s') \<Rightarrow> f x s')"
  by (simp_all add: fs_ret_def fs_err_def fs_lift_def fs_get_def fs_bind_def)

lemma set_node_simps [simp]:
  "fs_nodes (set_node p n s) q = (if q = p then n else fs_nodes s q)"
  "fs_allows (set_node p n s) = fs_allows s"
  "fs_dir_mode (set_node p n s) = fs_dir_mode s"
  by (simp_all add: set_node_def)

section \<open>System calls\<close>

definition os_chmod :: "'e \<Rightarrow> path \<Rightarrow> nat \<Rightarrow> ('e, unit) fsm" where
  "os_chmod e p mode = (\<lambda>s.
     if \<not> fs_allows s Op_Chmod p then (Err e, s)
     else case fs_nodes s p of
       Some (NFile b _) \<Rightarrow> (Ok (), set_node p (Some (NFile b mode)) s)
     | Some (NDir _) \<Rightarrow> (Ok (), set_node p (Some (NDir mode)) s)
     | _ \<Rightarrow> (Err e, s))"

text \<open>Opening with \<open>create\<close>: a missing file is created empty with the given mode.\<close>

definition os_open_create :: "'e \<Rightarrow> path \<Rightarrow> nat \<Rightarrow> ('e, unit) fsm" where
  "os_open_create e p mode = (\<lambda>s.
     if \<not> fs_allows s Op_Open p then (Err e, s)
     else case fs_nodes s p of
       None \<Rightarrow> (Ok (), set_node p (Some (NFile [] mode)) s)
     | Some (NFile _ _) \<Rightarrow> (Ok (), s)
     | _ \<Rightarrow> (Err e, s))"

definition os_append :: "'e \<Rightarrow> path \<Rightarrow> string \<Rightarrow> ('e, unit) fsm" where
  "os_append e p bytes = (\<lambda>s.
     if \<not> fs_allows s Op_Write p then (Err e, s)
     else case fs_nodes s p of
       Some (NFile b m) \<Rightarrow> (Ok (), set_node p (Some (NFile (b @ bytes) m)) s)
     | _ \<Rightarrow> (Err e, s))"

text \<open>\<open>None\<close> is the \<open>NotFound\<close> answer.\<close>

definition os_read :: "'e \<Rightarrow> path \<Rightarrow> ('e, string option) fsm" where
  "os_read e p = (\<lambda>s.
     if \<not> fs_allows s Op_Read p then (Err e, s)
     else case fs_nodes s p of
       None \<Rightarrow> (Ok None, s)
     | Some (NFile b _) \<Rightarrow> (Ok (Some b), s)
     | _ \<Rightarrow> (Err e, s))"

definition os_rename :: "'e \<Rightarrow> path \<Rightarrow> path \<Rightarrow> ('e, bool) fsm" where
  "os_rename e p q = (\<lambda>s.
     if \<not> fs_allows s Op_Rename p then (Err e, s)
     else case fs_nodes s p of
       None \<Rightarrow> (Ok False, s)
     | Some n \<Rightarrow> (Ok True, set_node q (Some n) (set_node p None s)))"

definition os_remove :: "'e \<Rightarrow> path \<Rightarrow> ('e, bool) fsm" where
  "os_remove e p = (\<lambda>s.
     if \<not> fs_allows s Op_Remove p then (Err e, s)
     else case fs_nodes s p of
       None \<Rightarrow> (Ok False, s)
     | Some (NDir _) \<Rightarrow> (Err e, s)
     | Some _ \<Rightarrow> (Ok True, set_node p None s))"

text \<open>Writing a temporary file and renaming it over the target.\<close>

definition os_write_atomic :: "'e \<Rightarrow> path \<Rightarrow> string \<Rightarrow> nat \<Rightarrow> ('e, unit) fsm" where
  "os_write_atomic e p bytes mode = (\<lambda>s.
     if \<not> fs_allows s Op_Write p then (Err e, s)
     else case fs_nodes s p of
       Some (NDir _) \<Rightarrow> (Err e, s)
     | _ \<Rightarrow> (Ok (), set_node p (Some (NFile bytes mode)) s))"

fun mkdir_steps :: "'e \<Rightarrow> path list \<Rightarrow> ('e, unit) fsm" where
  "mkdir_steps e [] s = (Ok (), s)"
| "mkdir_steps e (p # ps) s =
     (case fs_nodes s p of
        None \<Rightarrow> if fs_allows s Op_Mkdir p then mkdir_steps e ps (set_node p (Some (NDir (fs_dir_mode s))) s) else (Err e, s)
      | Some (NFile _ _) \<Rightarrow> (Err e, s)
      | Some _ \<Rightarrow> mkdir_steps e ps s)"

definition create_dir_all :: "'e \<Rightarrow> path \<Rightarrow> ('e, unit) fsm" where
  "create_dir_all e p = mkdir_steps e (map (\<lambda>n. take n p) [1..<Suc (length p)])"

section \<open>The storage helpers (fs.rs)\<close>

datatype PathState = PathState_Missing | PathState_Present

definition reject_symlink :: "'e \<Rightarrow> path \<Rightarrow> ('e, PathState) fsm" where
  "reject_symlink e p = (\<lambda>s.
     if \<not> fs_allows s Op_Stat p then (Err e, s)
     else case fs_nodes s p of
       None \<Rightarrow> (Ok PathState_Missing, s)
     | Some NSymlink \<Rightarrow> (Err e, s)
     | Some _ \<Rightarrow> (Ok PathState_Present, s))"

definition restrict_file :: "'e \<Rightarrow> path \<Rightarrow> ('e, unit) fsm" where
  "restrict_file e p =
     fs_bind (reject_symlink e p) (\<lambda>st.
       if st = PathState_Present then os_chmod e p 0x180 else fs_ret ())"

definition restrict_dir :: "'e \<Rightarrow> path \<Rightarrow> ('e, unit) fsm" where
  "restrict_dir e p = fs_bind (reject_symlink e p) (\<lambda>_. os_chmod e p 0x1C0)"

definition prepare_parent :: "'e \<Rightarrow> 'e \<Rightarrow> path \<Rightarrow> ('e, unit) fsm" where
  "prepare_parent invalid unavailable p =
     (if p = [] then fs_err invalid
      else let parent = butlast p in
        fs_bind (reject_symlink unavailable parent) (\<lambda>st.
        fs_bind (create_dir_all unavailable parent) (\<lambda>_.
        fs_bind (reject_symlink unavailable parent) (\<lambda>_.
        if st = PathState_Missing then restrict_dir unavailable parent else fs_ret ()))))"

definition open_lock :: "'e \<Rightarrow> path \<Rightarrow> ('e, unit) fsm" where
  "open_lock e p =
     fs_bind (reject_symlink e p) (\<lambda>_.
     fs_bind (os_open_create e p 0x180) (\<lambda>_.
     fs_bind (reject_symlink e p) (\<lambda>_.
     fs_bind (restrict_file e p) (\<lambda>_.
     (\<lambda>s. if fs_allows s Op_Lock p then (Ok (), s) else (Err e, s))))))"

section \<open>Adjacent paths\<close>

definition adjacent_path :: "'e \<Rightarrow> path \<Rightarrow> string \<Rightarrow> 'e + path" where
  "adjacent_path e p suffix' =
     (if p = [] \<or> last p = ''..'' then Err e
      else Ok (butlast p @ [last p @ ''.'' @ suffix']))"

definition rotated_path :: "'e \<Rightarrow> path \<Rightarrow> nat \<Rightarrow> 'e + path" where
  "rotated_path e p generation = adjacent_path e p (nat_str generation)"

lemma adjacent_path_ok_iff [res_simps]:
  "adjacent_path e p x = Ok q \<longleftrightarrow> p \<noteq> [] \<and> last p \<noteq> ''..'' \<and> q = butlast p @ [last p @ ''.'' @ x]"
  by (auto simp: adjacent_path_def)

lemma adjacent_path_ne: "adjacent_path e p x = Ok q \<Longrightarrow> q \<noteq> p"
proof
  assume "adjacent_path e p x = Ok q" "q = p"
  then have "p \<noteq> []" "last p = last p @ ''.'' @ x"
    by (metis adjacent_path_ok_iff, metis adjacent_path_ok_iff last_snoc)
  then show False by simp
qed

lemma adjacent_path_inject:
  "adjacent_path e p x = Ok q \<Longrightarrow> adjacent_path e p y = Ok r \<Longrightarrow> q = r \<longleftrightarrow> x = y"
  by (simp add: adjacent_path_ok_iff)

section \<open>A file system where nothing fails\<close>

text \<open>
  \<open>plain s p\<close>: the system performs every call, and \<open>p\<close> is missing or a regular file.
\<close>

definition fs_working :: "Fs \<Rightarrow> bool" where
  "fs_working s \<longleftrightarrow> (\<forall>op p. fs_allows s op p)"

definition plain :: "Fs \<Rightarrow> path \<Rightarrow> bool" where
  "plain s p \<longleftrightarrow> (case fs_nodes s p of None \<Rightarrow> True | Some (NFile _ _) \<Rightarrow> True | _ \<Rightarrow> False)"

definition content :: "Fs \<Rightarrow> path \<Rightarrow> string option" where
  "content s p = (case fs_nodes s p of Some (NFile b _) \<Rightarrow> Some b | _ \<Rightarrow> None)"

lemma fs_working_set_node [simp]: "fs_working (set_node p n s) = fs_working s"
  by (simp add: fs_working_def)

lemma content_set_node [simp]:
  "content (set_node p (Some (NFile b m)) s) q = (if q = p then Some b else content s q)"
  "content (set_node p None s) q = (if q = p then None else content s q)"
  by (auto simp: content_def)

lemma plain_set_node [simp]:
  "plain (set_node p (Some (NFile b m)) s) q \<longleftrightarrow> q = p \<or> plain s q"
  "plain (set_node p None s) q \<longleftrightarrow> q = p \<or> plain s q"
  by (auto simp: plain_def)

lemma plain_cases:
  assumes "plain s p"
  obtains "fs_nodes s p = None" "content s p = None"
  | b m where "fs_nodes s p = Some (NFile b m)" "content s p = Some b"
  using assms by (auto simp: plain_def content_def split: option.splits node.splits)

lemma reject_symlink_plain:
  "fs_working s \<Longrightarrow> plain s p \<Longrightarrow>
     reject_symlink e p s = (Ok (if content s p = None then PathState_Missing else PathState_Present), s)"
  by (erule plain_cases) (auto simp: reject_symlink_def fs_working_def)

text \<open>Two file systems that differ only in modes, outside a set of paths.\<close>

definition same_files :: "path set \<Rightarrow> Fs \<Rightarrow> Fs \<Rightarrow> bool" where
  "same_files ps s s' \<longleftrightarrow>
     (\<forall>q. q \<notin> ps \<longrightarrow> content s' q = content s q \<and> plain s' q = plain s q) \<and> fs_allows s' = fs_allows s"

lemma same_files_refl [simp]: "same_files ps s s"
  by (simp add: same_files_def)

lemma same_files_trans: "same_files ps s t \<Longrightarrow> same_files ps t u \<Longrightarrow> same_files ps s u"
  by (simp add: same_files_def)

lemma restrict_file_plain:
  assumes "fs_working s" and "plain s p"
  obtains s' where "restrict_file e p s = (Ok (), s')" "same_files {} s s'"
    "fs_working s'" "\<forall>b m. fs_nodes s' p = Some (NFile b m) \<longrightarrow> m = 0x180"
  using assms(2)
proof (cases rule: plain_cases)
  case 1
  then have "restrict_file e p s = (Ok (), s)"
    using reject_symlink_plain[OF assms, of e] by (simp add: restrict_file_def)
  then show ?thesis using that[of s] 1 assms(1) by simp
next
  case (2 b m)
  then have "restrict_file e p s = (Ok (), set_node p (Some (NFile b 0x180)) s)"
    using reject_symlink_plain[OF assms, of e] assms(1)
    by (simp add: restrict_file_def os_chmod_def fs_working_def)
  then show ?thesis
    using that[of "set_node p (Some (NFile b 0x180)) s"] 2 assms
    by (auto simp: same_files_def)
qed

lemma os_open_create_plain:
  assumes "fs_working s" and "plain s p"
  obtains s' where "os_open_create e p m s = (Ok (), s')" "same_files {p} s s'" "fs_working s'" "plain s' p"
    "content s' p = Some (case content s p of None \<Rightarrow> [] | Some b \<Rightarrow> b)"
  using assms(2)
proof (cases rule: plain_cases)
  case 1
  then have "os_open_create e p m s = (Ok (), set_node p (Some (NFile [] m)) s)"
    using assms(1) by (simp add: os_open_create_def fs_working_def)
  then show ?thesis
    using that[of "set_node p (Some (NFile [] m)) s"] 1 assms(1) by (simp add: same_files_def)
next
  case (2 b m')
  then have "os_open_create e p m s = (Ok (), s)"
    using assms(1) by (simp add: os_open_create_def fs_working_def)
  then show ?thesis using that[of s] 2 assms by simp
qed

lemma open_lock_plain:
  assumes "fs_working s" and "plain s p"
  obtains s' where "open_lock e p s = (Ok (), s')" "same_files {p} s s'" "fs_working s'" "plain s' p"
proof -
  obtain s1 where s1: "os_open_create e p 0x180 s = (Ok (), s1)" "same_files {p} s s1" "fs_working s1" "plain s1 p"
    by (rule os_open_create_plain[OF assms])
  obtain s2 where s2: "restrict_file e p s1 = (Ok (), s2)" "same_files {} s1 s2" "fs_working s2"
    by (rule restrict_file_plain[OF s1(3,4)])
  have "fs_allows s2 Op_Lock p" using s2(3) by (simp add: fs_working_def)
  then have lock: "open_lock e p s = (Ok (), s2)"
    unfolding open_lock_def
    by (simp add: reject_symlink_plain[OF assms] reject_symlink_plain[OF s1(3,4)] s1(1) s2(1))
  have "same_files {p} s s2" "plain s2 p"
    using s1(2,4) s2(2) by (simp_all add: same_files_def)
  then show ?thesis using that[of s2] lock s2(3) by simp
qed

lemma open_lock_symlink:
  "fs_nodes s p = Some NSymlink \<Longrightarrow> open_lock e p s = (Err e, s)"
  by (simp add: open_lock_def reject_symlink_def)

end
