(* ===== verification/Vault.thy ===== *)
theory Vault
  imports Safe_Ref Fs_Model Rust_Map "HOL-Library.List_Lexorder" "HOL-Library.Char_ord"
begin

text \<open>
  The encrypted vault (\<open>crates/blindfold-vault/src/vault.rs\<close>, \<open>error.rs\<close>).  Every operation takes
  the file system and returns it; the lock is taken as the code takes it.  The cipher, the JSON
  codec of the state and the random bytes are parameters (\<open>VaultEnv\<close> and the tapes of \<open>store\<close>);
  a tape that ends is a source of randomness that fails.  Times are nanoseconds since the epoch
  and may lie before it; the seconds the code computes are 64-bit words.  A panic is \<open>None\<close>.
\<close>

section \<open>Data\<close>

datatype VaultError =
  VE_InvalidInput | VE_StorageUnavailable | VE_RandomnessUnavailable | VE_CorruptOrWrongKey | VE_ReferenceRejected

fun VaultError_fmt :: "VaultError \<Rightarrow> string" where
  "VaultError_fmt VE_InvalidInput = ''vault input is invalid''"
| "VaultError_fmt VE_StorageUnavailable = ''protected storage is unavailable''"
| "VaultError_fmt VE_RandomnessUnavailable = ''secure randomness is unavailable''"
| "VaultError_fmt VE_CorruptOrWrongKey = ''vault authentication failed''"
| "VaultError_fmt VE_ReferenceRejected = ''safe reference was rejected''"

definition MAGIC :: string where "MAGIC = ''BFVAULT1''"
definition FORMAT_VERSION :: char where "FORMAT_VERSION = CHR 0x01"
definition NONCE_LEN :: nat where "NONCE_LEN = 24"
definition HEADER_LEN :: nat where "HEADER_LEN = length MAGIC + 1 + NONCE_LEN"
definition MAX_SCOPE_COMPONENT_LEN :: nat where "MAX_SCOPE_COMPONENT_LEN = 256"

record Scope =
  scope_project :: string
  scope_session :: string

record DiskRecord =
  dr_kind :: "8 word"
  dr_project :: string
  dr_session :: string
  dr_created_at :: "64 word"
  dr_expires_at :: "64 word"
  dr_secret :: string

record DiskState =
  ds_records :: "(string \<times> DiskRecord) list"

record EntryMetadata =
  me_safe_ref :: SafeRef
  me_scope :: Scope
  me_created_at :: int
  me_expires_at :: int

record Vault =
  v_path :: path
  v_lock_path :: path
  v_key :: string

record VaultEnv =
  ve_encrypt :: "string \<Rightarrow> string \<Rightarrow> string \<Rightarrow> string \<Rightarrow> string option"
  ve_decrypt :: "string \<Rightarrow> string \<Rightarrow> string \<Rightarrow> string \<Rightarrow> string option"
  ve_to_vec :: "DiskState \<Rightarrow> string option"
  ve_from_slice :: "string \<Rightarrow> DiskState option"

text \<open>
  What the code relies on: decryption undoes encryption, decoding undoes encoding, and a decoded
  map has its keys in order, as every \<open>BTreeMap\<close> has.
\<close>

definition vault_env_ok :: "VaultEnv \<Rightarrow> bool" where
  "vault_env_ok env \<longleftrightarrow>
     (\<forall>k n a m c. ve_encrypt env k n a m = Some c \<longrightarrow> ve_decrypt env k n a c = Some m) \<and>
     (\<forall>st b. bt_inv (ds_records st) \<longrightarrow> ve_to_vec env st = Some b \<longrightarrow> ve_from_slice env b = Some st) \<and>
     (\<forall>b st. ve_from_slice env b = Some st \<longrightarrow> bt_inv (ds_records st))"

lemma vault_env_okD:
  assumes "vault_env_ok env"
  shows "ve_encrypt env k n a m = Some c \<Longrightarrow> ve_decrypt env k n a c = Some m"
    and "bt_inv (ds_records st) \<Longrightarrow> ve_to_vec env st = Some b \<Longrightarrow> ve_from_slice env b = Some st"
    and "ve_from_slice env b = Some st \<Longrightarrow> bt_inv (ds_records st)"
  using assms unfolding vault_env_ok_def by blast+

section \<open>Helpers\<close>

definition validate_scope_component :: "string \<Rightarrow> VaultError + unit" where
  "validate_scope_component v =
     (if v = [] \<or> length v > MAX_SCOPE_COMPONENT_LEN \<or> has_control v then Err VE_InvalidInput else Ok ())"

definition Scope_new :: "string \<Rightarrow> string \<Rightarrow> VaultError + Scope" where
  "Scope_new project session =
     res_bind (validate_scope_component project) (\<lambda>_.
     res_bind (validate_scope_component session) (\<lambda>_.
     Ok \<lparr>scope_project = project, scope_session = session\<rparr>))"

definition unix_seconds :: "int \<Rightarrow> VaultError + 64 word" where
  "unix_seconds t = (if t < 0 then Err VE_InvalidInput else Ok (word_of_int (t div 1000000000)))"

fun kind_code :: "SafeRefKind \<Rightarrow> VaultError + 8 word" where
  "kind_code SRK_Secret = Ok 1"
| "kind_code SRK_Environment = Ok 2"
| "kind_code SRK_PersonallyIdentifiableInformation = Ok 3"
| "kind_code SRK_PrivateKey = Ok 4"
| "kind_code SRK_Certificate = Ok 5"

definition decode_kind :: "8 word \<Rightarrow> VaultError + SafeRefKind" where
  "decode_kind code =
     (if code = 1 then Ok SRK_Secret
      else if code = 2 then Ok SRK_Environment
      else if code = 3 then Ok SRK_PersonallyIdentifiableInformation
      else if code = 4 then Ok SRK_PrivateKey
      else if code = 5 then Ok SRK_Certificate
      else Err VE_CorruptOrWrongKey)"

text \<open>\<open>rsplit_once\<close>: split at the last occurrence.\<close>

definition rsplit_once :: "'a \<Rightarrow> 'a list \<Rightarrow> ('a list \<times> 'a list) option" where
  "rsplit_once d s = map_option (\<lambda>(a, b). (rev b, rev a)) (split_once d (rev s))"

definition reference_id :: "SafeRef \<Rightarrow> VaultError + string" where
  "reference_id r =
     ok_or (Option.bind (strip_suffix ''}}'' (sr_encoded r))
              (\<lambda>v. map_option snd (rsplit_once (CHR '':'') v)))
       VE_ReferenceRejected"

definition encode_hex :: "string \<Rightarrow> string" where
  "encode_hex bytes =
     concat (map (\<lambda>b. [''0123456789abcdef'' ! (byte b div 16), ''0123456789abcdef'' ! (byte b mod 16)]) bytes)"

text \<open>\<open>UNIX_EPOCH + Duration::from_secs\<close> panics beyond the range of \<open>SystemTime\<close>, a signed 64-bit
  number of seconds.\<close>

definition epoch_plus :: "64 word \<Rightarrow> int option" where
  "epoch_plus secs = (if unat secs < 2 ^ 63 then Some (int (unat secs) * 1000000000) else None)"

definition metadata :: "string \<Rightarrow> DiskRecord \<Rightarrow> (VaultError + EntryMetadata) option" where
  "metadata i rec =
     (case decode_kind (dr_kind rec) of
        Inl e \<Rightarrow> Some (Err e)
      | Inr kind \<Rightarrow>
        (case SafeRef_from_id kind i of
           Inl _ \<Rightarrow> Some (Err VE_CorruptOrWrongKey)
         | Inr r \<Rightarrow>
             Option.bind (epoch_plus (dr_created_at rec)) (\<lambda>created.
             Option.bind (epoch_plus (dr_expires_at rec)) (\<lambda>expires.
             Some (Ok \<lparr>me_safe_ref = r,
                       me_scope = \<lparr>scope_project = dr_project rec, scope_session = dr_session rec\<rparr>,
                       me_created_at = created, me_expires_at = expires\<rparr>)))))"

section \<open>The encrypted file\<close>

definition decode_vault :: "VaultEnv \<Rightarrow> string \<Rightarrow> string \<Rightarrow> VaultError + DiskState" where
  "decode_vault env key bytes =
     (if length bytes < HEADER_LEN \<or> take (length MAGIC) bytes \<noteq> MAGIC then Err VE_CorruptOrWrongKey
      else if bytes ! length MAGIC \<noteq> FORMAT_VERSION then Err VE_CorruptOrWrongKey
      else
        let nonce_start = length MAGIC + 1; nonce_end = nonce_start + NONCE_LEN in
        res_bind (ok_or (ve_decrypt env key (str_slice bytes nonce_start nonce_end) (take nonce_start bytes)
                           (drop nonce_end bytes)) VE_CorruptOrWrongKey) (\<lambda>plaintext.
        ok_or (ve_from_slice env plaintext) VE_CorruptOrWrongKey))"

definition encode_vault :: "VaultEnv \<Rightarrow> string \<Rightarrow> string option \<Rightarrow> DiskState \<Rightarrow> VaultError + string" where
  "encode_vault env key random st =
     res_bind (ok_or (ve_to_vec env st) VE_CorruptOrWrongKey) (\<lambda>plaintext.
     res_bind (ok_or random VE_RandomnessUnavailable) (\<lambda>nonce.
     let header = MAGIC @ [FORMAT_VERSION] @ nonce in
     res_bind (ok_or (ve_encrypt env key nonce (take (length MAGIC + 1) header) plaintext) VE_CorruptOrWrongKey)
       (\<lambda>ciphertext. Ok (header @ ciphertext))))"

definition read_state :: "VaultEnv \<Rightarrow> Vault \<Rightarrow> (VaultError, DiskState) fsm" where
  "read_state env v =
     fs_bind (reject_symlink VE_StorageUnavailable (v_path v)) (\<lambda>_.
     fs_bind (os_read VE_StorageUnavailable (v_path v)) (\<lambda>bytes.
     case bytes of
       None \<Rightarrow> fs_ret \<lparr>ds_records = []\<rparr>
     | Some bytes \<Rightarrow> fs_lift (decode_vault env (v_key v) bytes)))"

definition write_state :: "VaultEnv \<Rightarrow> Vault \<Rightarrow> string option \<Rightarrow> DiskState \<Rightarrow> (VaultError, unit) fsm" where
  "write_state env v random st =
     fs_bind (reject_symlink VE_StorageUnavailable (v_path v)) (\<lambda>_.
     fs_bind (fs_lift (encode_vault env (v_key v) random st)) (\<lambda>bytes.
     fs_bind (\<lambda>s. if fs_allows s Op_Open (v_path v) then (Ok (), s) else (Err VE_StorageUnavailable, s)) (\<lambda>_.
     fs_bind (reject_symlink VE_StorageUnavailable (v_path v)) (\<lambda>_.
     fs_bind (os_write_atomic VE_StorageUnavailable (v_path v) bytes 0x180) (\<lambda>_.
     fs_bind (reject_symlink VE_StorageUnavailable (v_path v)) (\<lambda>_.
     restrict_file VE_StorageUnavailable (v_path v)))))))"

section \<open>Operations\<close>

definition Vault_open :: "VaultEnv \<Rightarrow> path \<Rightarrow> string \<Rightarrow> (VaultError, Vault) fsm" where
  "Vault_open env p key =
     fs_bind (prepare_parent VE_InvalidInput VE_StorageUnavailable p) (\<lambda>_.
     fs_bind (fs_lift (adjacent_path VE_InvalidInput p ''lock'')) (\<lambda>lock_path.
     fs_bind (reject_symlink VE_StorageUnavailable p) (\<lambda>_.
     fs_bind (restrict_file VE_StorageUnavailable p) (\<lambda>_.
     let v = \<lparr>v_path = p, v_lock_path = lock_path, v_key = key\<rparr> in
     fs_bind (open_lock VE_StorageUnavailable lock_path) (\<lambda>_.
     fs_bind (read_state env v) (\<lambda>_. fs_ret v))))))"

fun fresh_id :: "DiskState \<Rightarrow> SafeRefKind \<Rightarrow> string option list \<Rightarrow> VaultError + (string \<times> SafeRef)" where
  "fresh_id st kind [] = Err VE_RandomnessUnavailable"
| "fresh_id st kind (None # tape) = Err VE_RandomnessUnavailable"
| "fresh_id st kind (Some id_bytes # tape) =
     (let i = encode_hex id_bytes in
      if bt_get (ds_records st) i = None
      then res_map (Pair i) (map_err (\<lambda>_. VE_InvalidInput) (SafeRef_from_id kind i))
      else fresh_id st kind tape)"

definition live :: "64 word \<Rightarrow> DiskRecord \<Rightarrow> bool" where
  "live now r \<longleftrightarrow> dr_expires_at r > now"

definition in_scope :: "Scope \<Rightarrow> DiskRecord \<Rightarrow> bool" where
  "in_scope sc r \<longleftrightarrow> dr_project r = scope_project sc \<and> dr_session r = scope_session sc"

definition store_times :: "int \<Rightarrow> nat \<Rightarrow> VaultError + (64 word \<times> 64 word)" where
  "store_times clock ttl =
     res_bind (unix_seconds clock) (\<lambda>now.
     res_bind (ok_or (checked_add now (of_nat (ttl div 1000000000))) VE_InvalidInput) (\<lambda>expires_at.
     if expires_at = now then Err VE_InvalidInput else Ok (now, expires_at)))"

definition stored_record :: "64 word \<Rightarrow> 64 word \<Rightarrow> 8 word \<Rightarrow> Scope \<Rightarrow> SecretValue \<Rightarrow> DiskRecord" where
  "stored_record now expires_at code sc secret =
     \<lparr>dr_kind = code, dr_project = scope_project sc, dr_session = scope_session sc,
      dr_created_at = now, dr_expires_at = expires_at, dr_secret = expose_secret secret\<rparr>"

definition store_locked ::
  "VaultEnv \<Rightarrow> Vault \<Rightarrow> string option list \<Rightarrow> string option \<Rightarrow> SafeRefKind \<Rightarrow> Scope \<Rightarrow> SecretValue \<Rightarrow> 64 word \<times> 64 word \<Rightarrow>
     DiskState \<Rightarrow> (VaultError, SafeRef) fsm"
where
  "store_locked env v ids nonce kind sc secret nx st =
     (let st = st\<lparr>ds_records := bt_retain (\<lambda>_ r. live (fst nx) r) (ds_records st)\<rparr> in
      fs_bind (fs_lift (fresh_id st kind ids)) (\<lambda>(i, safe_ref).
      fs_bind (fs_lift (kind_code kind)) (\<lambda>code.
      fs_bind (write_state env v nonce
          (st\<lparr>ds_records := bt_insert i (stored_record (fst nx) (snd nx) code sc secret) (ds_records st)\<rparr>)) (\<lambda>_.
      fs_ret safe_ref))))"

definition store ::
  "VaultEnv \<Rightarrow> Vault \<Rightarrow> int \<Rightarrow> string option list \<Rightarrow> string option \<Rightarrow> SafeRefKind \<Rightarrow> Scope \<Rightarrow> SecretValue \<Rightarrow> nat \<Rightarrow>
     (VaultError, SafeRef) fsm"
where
  "store env v clock ids nonce kind sc secret ttl =
     (if SecretValue_is_empty secret \<or> ttl = 0 then fs_err VE_InvalidInput
      else
        fs_bind (fs_lift (store_times clock ttl)) (\<lambda>nx.
        fs_bind (open_lock VE_StorageUnavailable (v_lock_path v)) (\<lambda>_.
        fs_bind (read_state env v) (store_locked env v ids nonce kind sc secret nx))))"

definition resolve_record :: "DiskState \<Rightarrow> SafeRef \<Rightarrow> Scope \<Rightarrow> int \<Rightarrow> VaultError + SecretValue" where
  "resolve_record st safe_ref sc clock =
     res_bind (reference_id safe_ref) (\<lambda>i.
     res_bind (ok_or (bt_get (ds_records st) i) VE_ReferenceRejected) (\<lambda>rec.
     res_bind (unix_seconds clock) (\<lambda>now.
     if dr_expires_at rec \<le> now then Err VE_ReferenceRejected
     else if dr_project rec \<noteq> scope_project sc then Err VE_ReferenceRejected
     else if dr_session rec \<noteq> scope_session sc then Err VE_ReferenceRejected
     else res_bind (kind_code (sr_kind safe_ref)) (\<lambda>code.
       if dr_kind rec \<noteq> code then Err VE_ReferenceRejected
       else Ok (SecretValue (dr_secret rec))))))"

definition resolve :: "VaultEnv \<Rightarrow> Vault \<Rightarrow> int \<Rightarrow> SafeRef \<Rightarrow> Scope \<Rightarrow> (VaultError, SecretValue) fsm" where
  "resolve env v clock safe_ref sc =
     fs_bind (open_lock VE_StorageUnavailable (v_lock_path v)) (\<lambda>_.
     fs_bind (read_state env v) (\<lambda>st.
     fs_lift (resolve_record st safe_ref sc clock)))"

fun collect_metadata :: "(string \<times> DiskRecord) list \<Rightarrow> (VaultError + EntryMetadata list) option" where
  "collect_metadata [] = Some (Ok [])"
| "collect_metadata ((i, r) # rs) =
     Option.bind (metadata i r) (\<lambda>m.
       case m of
         Inl e \<Rightarrow> Some (Err e)
       | Inr x \<Rightarrow> map_option (res_map (Cons x)) (collect_metadata rs))"

definition list_entries :: "VaultEnv \<Rightarrow> Vault \<Rightarrow> int \<Rightarrow> Scope \<Rightarrow> Fs \<Rightarrow> (VaultError + EntryMetadata list) option \<times> Fs" where
  "list_entries env v clock sc s =
     (case fs_bind (open_lock VE_StorageUnavailable (v_lock_path v)) (\<lambda>_.
           fs_bind (read_state env v) (\<lambda>st.
           fs_bind (fs_lift (unix_seconds clock)) (\<lambda>now. fs_ret (st, now)))) s of
        (Inl e, s') \<Rightarrow> (Some (Err e), s')
      | (Inr (st, now), s') \<Rightarrow>
          (collect_metadata (filter (\<lambda>(i, r). live now r \<and> in_scope sc r) (ds_records st)), s'))"

text \<open>The common end of \<open>clear\<close> and \<open>purge_expired\<close>: keep the records that satisfy a
  predicate, and write the state only when something was removed.\<close>

definition retain_records :: "VaultEnv \<Rightarrow> Vault \<Rightarrow> string option \<Rightarrow> (string \<Rightarrow> DiskRecord \<Rightarrow> bool) \<Rightarrow> DiskState \<Rightarrow> (VaultError, nat) fsm" where
  "retain_records env v nonce p st =
     (let before = length (ds_records st);
          st = st\<lparr>ds_records := bt_retain p (ds_records st)\<rparr>;
          removed = before - length (ds_records st)
      in if removed \<noteq> 0 then fs_bind (write_state env v nonce st) (\<lambda>_. fs_ret removed) else fs_ret removed)"

definition clear :: "VaultEnv \<Rightarrow> Vault \<Rightarrow> string option \<Rightarrow> Scope \<Rightarrow> (VaultError, nat) fsm" where
  "clear env v nonce sc =
     fs_bind (open_lock VE_StorageUnavailable (v_lock_path v)) (\<lambda>_.
     fs_bind (read_state env v) (
     retain_records env v nonce (\<lambda>_ r. dr_project r \<noteq> scope_project sc \<or> dr_session r \<noteq> scope_session sc)))"

definition purge_expired :: "VaultEnv \<Rightarrow> Vault \<Rightarrow> int \<Rightarrow> string option \<Rightarrow> (VaultError, nat) fsm" where
  "purge_expired env v clock nonce =
     fs_bind (open_lock VE_StorageUnavailable (v_lock_path v)) (\<lambda>_.
     fs_bind (read_state env v) (\<lambda>st.
     fs_bind (fs_lift (unix_seconds clock)) (\<lambda>now.
     retain_records env v nonce (\<lambda>_ r. live now r) st)))"

section \<open>References and identifiers\<close>

lemma rsplit_once_some_iff [str_simps]:
  "rsplit_once d s = Some (a, b) \<longleftrightarrow> s = a @ d # b \<and> d \<notin> set b"
proof -
  have "rsplit_once d s = Some (a, b) \<longleftrightarrow> split_once d (rev s) = Some (rev b, rev a)"
    by (auto simp: rsplit_once_def)
  also have "\<dots> \<longleftrightarrow> rev s = rev b @ d # rev a \<and> d \<notin> set b"
    by (simp add: split_once_some_iff)
  also have "\<dots> \<longleftrightarrow> s = a @ d # b \<and> d \<notin> set b"
    by (metis append.assoc append_Cons append_Nil rev.simps(2) rev_append rev_rev_ident)
  finally show ?thesis .
qed

lemma hex_digit_ok:
  "n < 16 \<Longrightarrow> is_ascii_hexdigit (''0123456789abcdef'' ! n) \<and> \<not> is_ascii_uppercase (''0123456789abcdef'' ! n)"
proof -
  have "list_all (\<lambda>n. is_ascii_hexdigit (''0123456789abcdef'' ! n) \<and> \<not> is_ascii_uppercase (''0123456789abcdef'' ! n)) [0..<16]"
    by code_simp
  then show "n < 16 \<Longrightarrow> ?thesis" by (simp add: list_all_iff)
qed

lemma length_encode_hex: "length (encode_hex b) = 2 * length b"
  by (induction b) (simp_all add: encode_hex_def)

lemma encode_hex_wf: "length b = 16 \<Longrightarrow> lower_hex_id (encode_hex b)"
proof -
  have "byte c div 16 < 16" for c using byte_less[of c] by simp
  then have "list_all (\<lambda>c. is_ascii_hexdigit c \<and> \<not> is_ascii_uppercase c) (encode_hex b)"
    using hex_digit_ok by (auto simp: encode_hex_def list_all_iff)
  then show "length b = 16 \<Longrightarrow> ?thesis"
    by (simp add: lower_hex_id_def length_encode_hex ID_LENGTH_def)
qed

lemma lower_hex_no_colon: "lower_hex_id i \<Longrightarrow> CHR '':'' \<notin> set i"
  by (auto simp: lower_hex_id_def list_all_iff is_ascii_hexdigit_def is_ascii_digit_def byte_def)

lemma reference_id_from_id:
  assumes "SafeRef_from_id k i = Ok r"
  shows "reference_id r = Ok i" and "sr_kind r = k"
proof -
  have r: "lower_hex_id i" "sr_encoded r = (PREFIX @ SafeRefKind_as_str k @ '':'' @ i) @ ''}}''" "sr_kind r = k"
    using assms by (auto simp: SafeRef_from_id_ok_iff SUFFIX_def)
  have "strip_suffix ''}}'' (sr_encoded r) = Some (PREFIX @ SafeRefKind_as_str k @ '':'' @ i)"
    unfolding r(2) by (rule strip_suffix_append)
  moreover have "rsplit_once (CHR '':'') (PREFIX @ SafeRefKind_as_str k @ '':'' @ i) = Some (PREFIX @ SafeRefKind_as_str k, i)"
    using lower_hex_no_colon[OF r(1)] by (simp add: rsplit_once_some_iff)
  ultimately show "reference_id r = Ok i" by (simp add: reference_id_def)
  show "sr_kind r = k" by (rule r(3))
qed

lemma kind_code_total: "\<exists>c. kind_code k = Ok c"
  by (cases k) auto

lemma decode_kind_code: "kind_code k = Ok c \<Longrightarrow> decode_kind c = Ok k"
  by (cases k) (auto simp: decode_kind_def)

lemma fresh_id_ok:
  "fresh_id st kind tape = Ok (i, r) \<Longrightarrow> bt_get (ds_records st) i = None \<and> SafeRef_from_id kind i = Ok r"
  by (induction st kind tape rule: fresh_id.induct)
    (auto simp: Let_def res_map_ok_iff map_err_ok_iff split: if_splits)

section \<open>The file holds the state\<close>

definition nonce_ok :: "string option \<Rightarrow> bool" where
  "nonce_ok n = (case n of None \<Rightarrow> True | Some b \<Rightarrow> length b = NONCE_LEN)"

lemma decode_encode_vault:
  assumes "vault_env_ok env" and "nonce_ok n" and "bt_inv (ds_records st)" and "encode_vault env key n st = Ok b"
  shows "decode_vault env key b = Ok st"
proof -
  obtain plain' nonce c where enc: "ve_to_vec env st = Some plain'" "n = Some nonce"
    "ve_encrypt env key nonce (MAGIC @ [FORMAT_VERSION]) plain' = Some c"
    "b = (MAGIC @ [FORMAT_VERSION]) @ nonce @ c"
    using assms(4) by (auto simp: encode_vault_def res_bind_ok_iff ok_or_ok_iff Let_def)
  have len: "length nonce = NONCE_LEN" using assms(2) enc(2) by (simp add: nonce_ok_def)
  have dec: "ve_decrypt env key nonce (MAGIC @ [FORMAT_VERSION]) c = Some plain'" "ve_from_slice env plain' = Some st"
    using vault_env_okD[OF assms(1)] assms(3) enc(1,3) by blast+
  have "take (length MAGIC) b = MAGIC" "b ! length MAGIC = FORMAT_VERSION"
    "take (length MAGIC + 1) b = MAGIC @ [FORMAT_VERSION]"
    "str_slice b (length MAGIC + 1) (length MAGIC + 1 + NONCE_LEN) = nonce"
    "drop (length MAGIC + 1 + NONCE_LEN) b = c" "\<not> length b < HEADER_LEN"
    using len by (simp_all add: enc(4) str_slice_def nth_append HEADER_LEN_def)
  then show ?thesis using dec by (simp add: decode_vault_def Let_def)
qed

definition vault_ready :: "Vault \<Rightarrow> Fs \<Rightarrow> bool" where
  "vault_ready v s \<longleftrightarrow>
     fs_working s \<and> plain s (v_path v) \<and> plain s (v_lock_path v) \<and> v_path v \<noteq> v_lock_path v"

definition vault_state :: "VaultEnv \<Rightarrow> Vault \<Rightarrow> Fs \<Rightarrow> VaultError + DiskState" where
  "vault_state env v s =
     (case content s (v_path v) of
        None \<Rightarrow> Ok \<lparr>ds_records = []\<rparr>
      | Some bytes \<Rightarrow> decode_vault env (v_key v) bytes)"

lemma read_state_ready: "vault_ready v s \<Longrightarrow> read_state env v s = (vault_state env v s, s)"
proof -
  assume r: "vault_ready v s"
  then have w: "fs_working s" "plain s (v_path v)" by (auto simp: vault_ready_def)
  show ?thesis
    using w(2)
  proof (cases rule: plain_cases)
    case 1
    then show ?thesis
      using w(1) unfolding read_state_def
      by (simp add: reject_symlink_plain[OF w] os_read_def vault_state_def fs_working_def)
  next
    case (2 b m)
    then show ?thesis
      using w(1) unfolding read_state_def
      by (simp add: reject_symlink_plain[OF w] os_read_def vault_state_def fs_working_def)
  qed
qed

lemma lock_ready:
  assumes "vault_ready v s"
  obtains s' where "open_lock VE_StorageUnavailable (v_lock_path v) s = (Ok (), s')" "vault_ready v s'"
    "content s' (v_path v) = content s (v_path v)"
proof -
  obtain s' where s': "open_lock VE_StorageUnavailable (v_lock_path v) s = (Ok (), s')"
    "same_files {v_lock_path v} s s'" "fs_working s'" "plain s' (v_lock_path v)"
    using assms by (auto simp: vault_ready_def elim: open_lock_plain)
  have "vault_ready v s'" "content s' (v_path v) = content s (v_path v)"
    using s' assms by (auto simp: vault_ready_def same_files_def)
  then show ?thesis using that s'(1) by blast
qed

lemma write_state_ready:
  assumes "vault_ready v s" and "encode_vault env (v_key v) n st = Ok b"
  obtains s' where "write_state env v n st s = (Ok (), s')" "vault_ready v s'" "content s' (v_path v) = Some b"
    "\<exists>b. fs_nodes s' (v_path v) = Some (NFile b 0x180)"
proof -
  let ?p = "v_path v" and ?s1 = "set_node (v_path v) (Some (NFile b 0x180)) s"
  have w: "fs_working s" "plain s ?p" using assms(1) by (auto simp: vault_ready_def)
  have atomic: "os_write_atomic e ?p b 0x180 s = (Ok (), ?s1)" for e :: VaultError
    using w by (auto simp: os_write_atomic_def fs_working_def plain_def split: option.splits node.splits)
  have w1: "fs_working ?s1" "plain ?s1 ?p" using w by simp_all
  have restrict: "restrict_file e ?p ?s1 = (Ok (), set_node ?p (Some (NFile b 0x180)) ?s1)" for e :: VaultError
    using reject_symlink_plain[OF w1, of e] w(1) by (simp add: restrict_file_def os_chmod_def fs_working_def)
  have "fs_allows s Op_Open ?p" using w(1) by (simp add: fs_working_def)
  then have "write_state env v n st s = (Ok (), set_node ?p (Some (NFile b 0x180)) ?s1)"
    using assms(2) unfolding write_state_def
    by (simp add: reject_symlink_plain[OF w] reject_symlink_plain[OF w1] atomic restrict)
  then show ?thesis
    using that[of "set_node ?p (Some (NFile b 0x180)) ?s1"] assms(1) by (auto simp: vault_ready_def)
qed

lemma store_times_ok:
  assumes "store_times clock ttl = Ok (now, expires)"
  shows "unix_seconds clock = Ok now" and "now < expires"
proof -
  have h: "unix_seconds clock = Ok now" "checked_add now (of_nat (ttl div 1000000000)) = Some expires" "expires \<noteq> now"
    using assms by (auto simp: store_times_def res_bind_ok_iff ok_or_ok_iff split: if_splits)
  show "unix_seconds clock = Ok now" by (rule h(1))
  have "now \<le> expires" using checked_add_some[OF h(2)] by (simp add: word_le_nat_alt)
  then show "now < expires" using h(3) by simp
qed

section \<open>What the operations do to the stored state\<close>

lemma fs_bind_ok_iff:
  "fs_bind m f s = (Ok y, s2) \<longleftrightarrow> (\<exists>x s1. m s = (Ok x, s1) \<and> f x s1 = (Ok y, s2))"
  by (auto split: prod.splits sum.splits)

lemma decode_vault_inv:
  assumes "vault_env_ok env" and "decode_vault env key b = Ok st"
  shows "bt_inv (ds_records st)"
proof -
  obtain p where "ve_from_slice env p = Some st"
    using assms(2) by (auto simp: decode_vault_def Let_def res_bind_ok_iff ok_or_ok_iff split: if_splits)
  then show ?thesis by (rule vault_env_okD(3)[OF assms(1)])
qed

lemma vault_state_inv:
  "vault_env_ok env \<Longrightarrow> vault_state env v s = Ok st \<Longrightarrow> bt_inv (ds_records st)"
  using decode_vault_inv by (auto simp: vault_state_def split: option.splits)

lemma write_state_ok:
  assumes "vault_ready v s" and "vault_env_ok env" and "nonce_ok n" and "bt_inv (ds_records st)"
    and "write_state env v n st s = (Ok u, s')"
  shows "vault_ready v s' \<and> vault_state env v s' = Ok st"
proof -
  have w: "fs_working s" "plain s (v_path v)" using assms(1) by (auto simp: vault_ready_def)
  obtain b where b: "encode_vault env (v_key v) n st = Ok b"
    using assms(5) unfolding write_state_def fs_bind_ok_iff
    by (auto simp: reject_symlink_plain[OF w])
  obtain s1 where s1: "write_state env v n st s = (Ok (), s1)" "vault_ready v s1" "content s1 (v_path v) = Some b"
    by (rule write_state_ready[OF assms(1) b])
  then show ?thesis
    using assms(5) decode_encode_vault[OF assms(2-4) b] by (simp add: vault_state_def)
qed

lemma store_ok:
  assumes "vault_ready v s" and "vault_env_ok env" and "nonce_ok nonce"
    and "store env v clock ids nonce kind sc secret ttl s = (Ok r, s')"
  obtains st i now expires code where
    "vault_state env v s = Ok st" "store_times clock ttl = Ok (now, expires)"
    "kind_code kind = Ok code" "SafeRef_from_id kind i = Ok r"
    "bt_get (bt_retain (\<lambda>_. live now) (ds_records st)) i = None"
    "vault_ready v s'" "expose_secret secret \<noteq> []"
    "vault_state env v s' = Ok (st\<lparr>ds_records := bt_insert i (stored_record now expires code sc secret)
        (bt_retain (\<lambda>_. live now) (ds_records st))\<rparr>)"
proof -
  have guard: "\<not> SecretValue_is_empty secret" "ttl \<noteq> 0"
    using assms(4) by (auto simp: store_def split: if_splits)
  obtain s1 where s1: "open_lock VE_StorageUnavailable (v_lock_path v) s = (Ok (), s1)" "vault_ready v s1"
    "content s1 (v_path v) = content s (v_path v)"
    by (rule lock_ready[OF assms(1)])
  have rd: "read_state env v s1 = (vault_state env v s, s1)"
    using read_state_ready[OF s1(2)] s1(3) by (simp add: vault_state_def)
  obtain now expires where times: "store_times clock ttl = Ok (now, expires)"
    using assms(4) guard by (cases "store_times clock ttl") (auto simp: store_def)
  obtain st where st: "vault_state env v s = Ok st"
    using assms(4) guard times rd s1(1) by (cases "vault_state env v s") (auto simp: store_def)
  let ?live = "bt_retain (\<lambda>_ r. live now r) (ds_records st)"
  obtain i r0 where i: "fresh_id (st\<lparr>ds_records := ?live\<rparr>) kind ids = Ok (i, r0)"
    using assms(4) guard times rd s1(1) st
    by (cases "fresh_id (st\<lparr>ds_records := ?live\<rparr>) kind ids") (auto simp: store_def store_locked_def Let_def)
  obtain code where code: "kind_code kind = Ok code" using kind_code_total by blast
  let ?st' = "st\<lparr>ds_records := bt_insert i (stored_record now expires code sc secret) ?live\<rparr>"
  have wr: "write_state env v nonce ?st' s1 = (Ok (), s')" "r = r0"
    using assms(4) guard times rd s1(1) st i code
    by (auto simp: store_def store_locked_def Let_def split: prod.splits sum.splits)
  have "bt_inv (ds_records ?st')"
    using vault_state_inv[OF assms(2) st] by (simp add: bt_inv_insert bt_inv_retain)
  from write_state_ok[OF s1(2) assms(2,3) this wr(1)] fresh_id_ok[OF i]
  show ?thesis
    by (intro that[of st now expires code i])
      (use st times code guard(1) wr(2) in \<open>simp_all add: SecretValue_is_empty_def\<close>)
qed

lemma resolve_ready:
  assumes "vault_ready v s"
  shows "\<exists>s'. resolve env v clock r sc s =
    (res_bind (vault_state env v s) (\<lambda>st. resolve_record st r sc clock), s') \<and>
    vault_ready v s' \<and> vault_state env v s' = vault_state env v s"
proof -
  obtain s1 where s1: "open_lock VE_StorageUnavailable (v_lock_path v) s = (Ok (), s1)" "vault_ready v s1"
    "content s1 (v_path v) = content s (v_path v)"
    by (rule lock_ready[OF assms])
  have same: "vault_state env v s1 = vault_state env v s" using s1(3) by (simp add: vault_state_def)
  then show ?thesis
    using s1 read_state_ready[OF s1(2), of env]
    by (cases "vault_state env v s") (auto simp: resolve_def)
qed

lemma resolve_record_ok_iff:
  "resolve_record st r sc clock = Ok v \<longleftrightarrow>
     (\<exists>i rec now code. reference_id r = Ok i \<and> bt_get (ds_records st) i = Some rec \<and>
        unix_seconds clock = Ok now \<and> now < dr_expires_at rec \<and> in_scope sc rec \<and>
        kind_code (sr_kind r) = Ok code \<and> dr_kind rec = code \<and> v = SecretValue (dr_secret rec))"
proof (cases "reference_id r")
  case (Inr i)
  show ?thesis
  proof (cases "bt_get (ds_records st) i")
    case (Some rec)
    obtain code where "kind_code (sr_kind r) = Ok code" using kind_code_total by blast
    then show ?thesis
      using Inr Some by (cases "unix_seconds clock") (auto simp: resolve_record_def in_scope_def not_le)
  qed (simp add: Inr resolve_record_def)
qed (simp add: resolve_record_def)

section \<open>Properties\<close>

text \<open>
  C11. Store and resolve round trip: when \<open>store\<close> succeeds, resolving the reference it returned
  before its expiry yields exactly the stored secret under the same project and session, and a
  rejection under any other scope.
\<close>

theorem vault_store_resolve:
  assumes "vault_ready v s" and "vault_env_ok env" and "nonce_ok nonce"
    and "store env v clock ids nonce kind sc secret ttl s = (Ok r, s')"
    and "store_times clock ttl = Ok (now, expires)"
    and "unix_seconds clock' = Ok now'" and "now' < expires"
  shows "fst (resolve env v clock' r sc' s') = (if sc' = sc then Ok secret else Err VE_ReferenceRejected)"
proof -
  obtain st i now2 expires2 code where st: "vault_state env v s = Ok st" "store_times clock ttl = Ok (now2, expires2)"
    "kind_code kind = Ok code" "SafeRef_from_id kind i = Ok r" "vault_ready v s'"
    "vault_state env v s' = Ok (st\<lparr>ds_records := bt_insert i (stored_record now2 expires2 code sc secret)
        (bt_retain (\<lambda>_. live now2) (ds_records st))\<rparr>)"
    by (rule store_ok[OF assms(1-4)])
  have eq: "now2 = now" "expires2 = expires" using st(2) assms(5) by auto
  let ?rs = "bt_insert i (stored_record now expires code sc secret) (bt_retain (\<lambda>_. live now) (ds_records st))"
  have "bt_get ?rs i = Some (stored_record now expires code sc secret)"
    using vault_state_inv[OF assms(2) st(1)] by (simp add: bt_get_insert bt_inv_retain)
  then have "resolve_record (st\<lparr>ds_records := ?rs\<rparr>) r sc' clock' =
      (if sc' = sc then Ok secret else Err VE_ReferenceRejected)"
    using reference_id_from_id[OF st(4)] assms(6,7) st(3)
    by (cases sc; cases sc'; cases secret) (auto simp: resolve_record_def stored_record_def not_le)
  then show ?thesis
    using resolve_ready[OF st(5), of env clock' r sc'] st(6) eq by auto
qed

text \<open>
  A concrete vault on an empty file system, with an identity cipher and a codec for the empty
  state and one state with one record.
\<close>

definition wit_id :: string where
  "wit_id = replicate 32 (CHR ''0'')"

definition wit_scope :: Scope where
  "wit_scope = \<lparr>scope_project = ''p'', scope_session = ''s''\<rparr>"

definition wit_ref :: SafeRef where
  "wit_ref = \<lparr>sr_kind = SRK_Secret, sr_encoded = PREFIX @ ''SECRET:'' @ wit_id @ SUFFIX\<rparr>"

definition wit_state :: "64 word \<Rightarrow> DiskState" where
  "wit_state expires = \<lparr>ds_records = [(wit_id, stored_record 5 expires 1 wit_scope (SecretValue ''pw''))]\<rparr>"

definition wit_env :: "64 word \<Rightarrow> VaultEnv" where
  "wit_env expires =
     \<lparr>ve_encrypt = (\<lambda>k n a m. Some m), ve_decrypt = (\<lambda>k n a c. Some c),
      ve_to_vec = (\<lambda>st. if st = wit_state expires then Some ''x'' else if st = \<lparr>ds_records = []\<rparr> then Some ''e'' else None),
      ve_from_slice = (\<lambda>b. if b = ''x'' then Some (wit_state expires) else if b = ''e'' then Some \<lparr>ds_records = []\<rparr> else None)\<rparr>"

definition wit_vault :: Vault where
  "wit_vault = \<lparr>v_path = [''v''], v_lock_path = [''v.lock''], v_key = ''k''\<rparr>"

definition wit_fs :: Fs where
  "wit_fs = \<lparr>fs_nodes = (\<lambda>_. None), fs_allows = (\<lambda>_ _. True), fs_dir_mode = 0x1ED\<rparr>"

definition wit_nonce :: "string option" where
  "wit_nonce = Some (replicate 24 (CHR ''n''))"

definition wit_ids :: "string option list" where
  "wit_ids = [Some (replicate 16 (CHR 0x00))]"

lemma wit_ready: "vault_ready wit_vault wit_fs" "vault_env_ok (wit_env x)" "nonce_ok wit_nonce"
  by (auto simp: vault_ready_def wit_vault_def wit_fs_def fs_working_def plain_def vault_env_ok_def
      wit_env_def wit_state_def wit_nonce_def nonce_ok_def NONCE_LEN_def split: if_splits)

lemma wit_empty: "vault_state env wit_vault wit_fs = Ok \<lparr>ds_records = []\<rparr>"
  by (simp add: vault_state_def wit_fs_def content_def)

lemma wit_fresh: "fresh_id \<lparr>ds_records = []\<rparr> SRK_Secret wit_ids = Ok (wit_id, wit_ref)"
  by code_simp

lemma wit_store:
  assumes "store_times clock ttl = Ok (5, expires)" and "ttl \<noteq> 0"
  shows "\<exists>s'. store (wit_env expires) wit_vault clock wit_ids wit_nonce SRK_Secret wit_scope (SecretValue ''pw'') ttl wit_fs =
     (Ok wit_ref, s')"
proof -
  let ?env = "wit_env expires"
  obtain s1 where s1: "open_lock VE_StorageUnavailable (v_lock_path wit_vault) wit_fs = (Ok (), s1)"
    "vault_ready wit_vault s1" "content s1 (v_path wit_vault) = content wit_fs (v_path wit_vault)"
    by (rule lock_ready[OF wit_ready(1)])
  have rd: "read_state ?env wit_vault s1 = (Ok \<lparr>ds_records = []\<rparr>, s1)"
    using read_state_ready[OF s1(2)] s1(3) by (simp add: vault_state_def wit_fs_def content_def)
  have "\<exists>b. encode_vault ?env (v_key wit_vault) wit_nonce (wit_state expires) = Ok b"
    by (simp add: encode_vault_def wit_env_def wit_nonce_def)
  then obtain b where "encode_vault ?env (v_key wit_vault) wit_nonce (wit_state expires) = Ok b" by blast
  from write_state_ready[OF s1(2) this]
  obtain s2 where "write_state ?env wit_vault wit_nonce (wit_state expires) s1 = (Ok (), s2)"
    by blast
  then show ?thesis
    using s1(1) rd assms wit_fresh
    by (simp add: store_def store_locked_def SecretValue_is_empty_def bt_retain_def Let_def wit_state_def)
qed

theorem vault_store_resolve_witness:
  "\<exists>r s'. store (wit_env 8) wit_vault 5000000000 wit_ids wit_nonce SRK_Secret wit_scope (SecretValue ''pw'') 3000000000 wit_fs = (Ok r, s') \<and>
   fst (resolve (wit_env 8) wit_vault 7000000000 r wit_scope s') = Ok (SecretValue ''pw'') \<and>
   fst (resolve (wit_env 8) wit_vault 7000000000 r (wit_scope\<lparr>scope_session := ''t''\<rparr>) s') = Err VE_ReferenceRejected"
proof -
  have times: "store_times 5000000000 3000000000 = Ok (5, 8)"
    by (simp add: store_times_def unix_seconds_def checked_add_def)
  obtain s' where st: "store (wit_env 8) wit_vault 5000000000 wit_ids wit_nonce SRK_Secret wit_scope (SecretValue ''pw'')
      3000000000 wit_fs = (Ok wit_ref, s')"
    using wit_store[OF times] by auto
  have "unix_seconds 7000000000 = Ok 7" by (simp add: unix_seconds_def)
  from vault_store_resolve[OF wit_ready st times this]
  have "fst (resolve (wit_env 8) wit_vault 7000000000 wit_ref sc' s') =
      (if sc' = wit_scope then Ok (SecretValue ''pw'') else Err VE_ReferenceRejected)" for sc'
    by simp
  moreover have "wit_scope\<lparr>scope_session := ''t''\<rparr> \<noteq> wit_scope" by (simp add: wit_scope_def)
  ultimately show ?thesis using st by auto
qed

text \<open>
  C12. Resolution is exactly authorised access to the authenticated state: it returns a secret if
  and only if the decrypted state holds, under the identifier of the reference, a record that
  has not expired, of the same project, session and kind; every other reference, forged ones
  included, is rejected.
\<close>

theorem vault_resolve_iff:
  assumes "vault_ready v s" and "vault_state env v s = Ok st" and "unix_seconds clock = Ok now"
  shows "fst (resolve env v clock r sc s) = Ok secret \<longleftrightarrow>
     (\<exists>i rec. reference_id r = Ok i \<and> bt_get (ds_records st) i = Some rec \<and>
        now < dr_expires_at rec \<and> dr_project rec = scope_project sc \<and> dr_session rec = scope_session sc \<and>
        kind_code (sr_kind r) = Ok (dr_kind rec) \<and> secret = SecretValue (dr_secret rec))"
  using resolve_ready[OF assms(1), of env clock r sc] assms(2,3)
  by (auto simp: resolve_record_ok_iff in_scope_def)

theorem vault_resolve_iff_witness:
  "fst (resolve (wit_env 8) wit_vault 0 wit_ref wit_scope wit_fs) \<noteq> Ok (SecretValue ''pw'')"
proof -
  have "unix_seconds 0 = Ok 0" by (simp add: unix_seconds_def)
  then show ?thesis
    using vault_resolve_iff[OF wit_ready(1) wit_empty] by (auto simp: bt_get_def)
qed

lemma unauthenticated_op:
  assumes "vault_ready v s" and "vault_state env v s = Err e"
  shows "\<exists>s'. fs_bind (open_lock VE_StorageUnavailable (v_lock_path v)) (\<lambda>_. fs_bind (read_state env v) f) s = (Err e, s') \<and>
           content s' (v_path v) = content s (v_path v)"
proof -
  obtain s1 where s1: "open_lock VE_StorageUnavailable (v_lock_path v) s = (Ok (), s1)" "vault_ready v s1"
    "content s1 (v_path v) = content s (v_path v)"
    by (rule lock_ready[OF assms(1)])
  have "read_state env v s1 = (Err e, s1)"
    using read_state_ready[OF s1(2)] s1(3) assms(2) by (simp add: vault_state_def)
  then show ?thesis using s1 by simp
qed

lemma decode_vault_error: "decode_vault env key b = Err e \<Longrightarrow> e = VE_CorruptOrWrongKey"
  by (auto simp: decode_vault_def Let_def res_bind_err_iff ok_or_err_iff split: if_splits)

lemma unauthenticated_closed:
  assumes "vault_ready v s" and "content s (v_path v) = Some bytes"
    and "\<forall>st. decode_vault env (v_key v) bytes \<noteq> Ok st"
    and "m = fs_bind (open_lock VE_StorageUnavailable (v_lock_path v)) (\<lambda>_. fs_bind (read_state env v) f) s"
  shows "fst m = Err VE_CorruptOrWrongKey \<and> content (snd m) (v_path v) = Some bytes"
proof -
  have "decode_vault env (v_key v) bytes = Err VE_CorruptOrWrongKey"
    using assms(3) decode_vault_error by (cases "decode_vault env (v_key v) bytes") auto
  then have "vault_state env v s = Err VE_CorruptOrWrongKey"
    using assms(2) by (simp add: vault_state_def)
  from unauthenticated_op[OF assms(1) this, of f] show ?thesis using assms(2,4) by (metis fst_conv snd_conv)
qed



lemma retain_op_ok:
  assumes "vault_ready v s" and "vault_env_ok env" and "nonce_ok nonce" and "bt_inv (ds_records st)"
    and "vault_state env v s = Ok st"
    and "retain_records env v nonce p st s = (Ok n, s')"
  shows "\<exists>st'. vault_state env v s' = Ok st' \<and> n = length (filter (\<lambda>(i, r). \<not> p i r) (ds_records st)) \<and>
    (\<forall>i. bt_get (ds_records st') i = Option.bind (bt_get (ds_records st) i) (\<lambda>r. if p i r then Some r else None))"
proof -
  let ?st' = "st\<lparr>ds_records := bt_retain p (ds_records st)\<rparr>"
  have len: "length (ds_records st) - length (ds_records ?st') = length (filter (\<lambda>(i, r). \<not> p i r) (ds_records st))"
    using sum_length_filter_compl[of "\<lambda>(i, r). p i r" "ds_records st"]
    by (simp add: bt_retain_def case_prod_unfold)
  have get: "bt_get (ds_records ?st') i = Option.bind (bt_get (ds_records st) i) (\<lambda>r. if p i r then Some r else None)" for i
    using assms(4) by (simp add: bt_get_retain split: option.splits)
  show ?thesis
  proof (cases "length (filter (\<lambda>(i, r). \<not> p i r) (ds_records st)) = 0")
    case True
    then have "bt_retain p (ds_records st) = ds_records st"
      by (auto simp: bt_retain_def filter_empty_conv filter_id_conv)
    then show ?thesis using assms(5,6) len get True by (auto simp: retain_records_def Let_def)
  next
    case False
    then have "retain_records env v nonce p st s =
        fs_bind (write_state env v nonce ?st') (\<lambda>_. fs_ret (length (filter (\<lambda>(i, r). \<not> p i r) (ds_records st)))) s"
      unfolding retain_records_def Let_def len by (simp only: if_True refl not_False_eq_True)
    then have w: "write_state env v nonce ?st' s = (Ok (), s')"
      and n: "n = length (filter (\<lambda>(i, r). \<not> p i r) (ds_records st))"
      using assms(6) by (auto split: prod.splits sum.splits)
    have "vault_state env v s' = Ok ?st'"
      using write_state_ok[OF assms(1-3) _ w] assms(4) by (simp add: bt_inv_retain)
    then show ?thesis using get n by blast
  qed
qed

text \<open>
  Clearing a scope removes exactly the records of that project and session and reports how
  many they were; purging removes exactly the expired ones.  Every other record keeps its value.
\<close>

theorem vault_clear_purge:
  assumes "vault_ready v s" and "vault_env_ok env" and "nonce_ok nonce" and "vault_state env v s = Ok st"
  shows "(\<forall>n s'. clear env v nonce sc s = (Ok n, s') \<longrightarrow>
           (\<exists>st'. vault_state env v s' = Ok st' \<and>
              n = length (filter (\<lambda>(i, r). in_scope sc r) (ds_records st)) \<and>
              (\<forall>i. bt_get (ds_records st') i =
                 Option.bind (bt_get (ds_records st) i) (\<lambda>r. if in_scope sc r then None else Some r)))) \<and>
         (\<forall>n s' now. purge_expired env v clock nonce s = (Ok n, s') \<and> unix_seconds clock = Ok now \<longrightarrow>
           (\<exists>st'. vault_state env v s' = Ok st' \<and>
              n = length (filter (\<lambda>(i, r). dr_expires_at r \<le> now) (ds_records st)) \<and>
              (\<forall>i. bt_get (ds_records st') i =
                 Option.bind (bt_get (ds_records st) i) (\<lambda>r. if dr_expires_at r \<le> now then None else Some r))))"
proof -
  obtain s1 where s1: "open_lock VE_StorageUnavailable (v_lock_path v) s = (Ok (), s1)" "vault_ready v s1"
    "content s1 (v_path v) = content s (v_path v)"
    by (rule lock_ready[OF assms(1)])
  have st1: "vault_state env v s1 = Ok st" using s1(3) assms(4) by (simp add: vault_state_def)
  have rd: "read_state env v s1 = (Ok st, s1)" using read_state_ready[OF s1(2)] st1 by simp
  have inv: "bt_inv (ds_records st)" by (rule vault_state_inv[OF assms(2,4)])
  note op = retain_op_ok[OF s1(2) assms(2,3) inv st1]
  have scope: "(dr_project r \<noteq> scope_project sc \<or> dr_session r \<noteq> scope_session sc) \<longleftrightarrow> \<not> in_scope sc r" for r
    by (auto simp: in_scope_def)
  have neg: "(if \<not> b then x else y) = (if b then y else x)" for b and x y :: "DiskRecord option" by simp
  have c: "\<exists>st'. vault_state env v s' = Ok st' \<and> n = length (filter (\<lambda>(i, r). in_scope sc r) (ds_records st)) \<and>
      (\<forall>i. bt_get (ds_records st') i =
         Option.bind (bt_get (ds_records st) i) (\<lambda>r. if in_scope sc r then None else Some r))"
    if "clear env v nonce sc s = (Ok n, s')" for n s'
    using op[of "\<lambda>_ r. \<not> in_scope sc r" n s'] that s1(1) rd
    unfolding clear_def scope by (simp add: neg)
  have p: "\<exists>st'. vault_state env v s' = Ok st' \<and>
      n = length (filter (\<lambda>(i, r). dr_expires_at r \<le> now) (ds_records st)) \<and>
      (\<forall>i. bt_get (ds_records st') i =
         Option.bind (bt_get (ds_records st) i) (\<lambda>r. if dr_expires_at r \<le> now then None else Some r))"
    if "purge_expired env v clock nonce s = (Ok n, s')" "unix_seconds clock = Ok now" for n s' now
    using op[of "\<lambda>_ r. \<not> dr_expires_at r \<le> now" n s'] that s1(1) rd
    unfolding purge_expired_def live_def not_le[symmetric] by (simp only: neg not_not) simp
  show ?thesis using c p by blast
qed

theorem vault_clear_purge_witness:
  "\<exists>s'. purge_expired (wit_env 8) wit_vault 9000000000 wit_nonce wit_fs = (Ok 0, s') \<and>
     (\<exists>st'. vault_state (wit_env 8) wit_vault s' = Ok st' \<and> bt_get (ds_records st') wit_id = None)"
proof -
  obtain s1 where s1: "open_lock VE_StorageUnavailable (v_lock_path wit_vault) wit_fs = (Ok (), s1)"
    "vault_ready wit_vault s1" "content s1 (v_path wit_vault) = content wit_fs (v_path wit_vault)"
    by (rule lock_ready[OF wit_ready(1)])
  have "read_state (wit_env 8) wit_vault s1 = (Ok \<lparr>ds_records = []\<rparr>, s1)"
    using read_state_ready[OF s1(2)] s1(3) by (simp add: vault_state_def wit_fs_def content_def)
  then have p: "purge_expired (wit_env 8) wit_vault 9000000000 wit_nonce wit_fs = (Ok 0, s1)"
    using s1(1) by (simp add: purge_expired_def retain_records_def bt_retain_def unix_seconds_def Let_def)
  have "unix_seconds 9000000000 = Ok 9" by (simp add: unix_seconds_def)
  with vault_clear_purge[OF wit_ready wit_empty, THEN conjunct2, rule_format, OF conjI[OF p]]
  obtain st' where "vault_state (wit_env 8) wit_vault s1 = Ok st'"
    "\<forall>i. bt_get (ds_records st') i = Option.bind (bt_get [] i) (\<lambda>r. if dr_expires_at r \<le> 9 then None else Some r)"
    by auto
  then show ?thesis using p by (simp add: bt_get_def)
qed

text \<open>
  A lifetime the vault accepts can make \<open>list\<close> panic: when a secret is stored in a fresh vault
  with an expiry beyond the range of \<open>SystemTime\<close>, \<open>store\<close> succeeds, and listing that scope then
  panics in the conversion of the expiry, instead of returning the entry or an error.
\<close>

theorem vault_list_overflow:
  assumes "vault_ready v s" and "vault_env_ok env" and "nonce_ok nonce" and "content s (v_path v) = None"
    and "store env v clock ids nonce kind sc secret ttl s = (Ok r, s')"
    and "store_times clock ttl = Ok (now, expires)" and "2 ^ 63 \<le> unat expires"
  shows "fst (list_entries env v clock sc s') = None"
proof -
  obtain st i now2 expires2 code where st: "vault_state env v s = Ok st" "store_times clock ttl = Ok (now2, expires2)"
    "kind_code kind = Ok code" "SafeRef_from_id kind i = Ok r" "vault_ready v s'"
    "vault_state env v s' = Ok (st\<lparr>ds_records := bt_insert i (stored_record now2 expires2 code sc secret)
        (bt_retain (\<lambda>_. live now2) (ds_records st))\<rparr>)"
    by (rule store_ok[OF assms(1-3,5)])
  let ?rec = "stored_record now expires code sc secret"
  have eq: "now2 = now" "expires2 = expires" using st(2) assms(6) by auto
  have "st = \<lparr>ds_records = []\<rparr>" using st(1) assms(4) by (simp add: vault_state_def)
  then have st': "vault_state env v s' = Ok \<lparr>ds_records = [(i, ?rec)]\<rparr>"
    using st(6) eq by (simp add: bt_retain_def)
  note now = store_times_ok[OF assms(6)]
  have "metadata i ?rec = None"
    using decode_kind_code[OF st(3)] st(4) assms(7)
    by (auto simp: metadata_def stored_record_def epoch_plus_def bind_eq_None_conv)
  moreover have "live now ?rec" "in_scope sc ?rec"
    using now(2) by (simp_all add: live_def in_scope_def stored_record_def)
  moreover obtain s1 where "open_lock VE_StorageUnavailable (v_lock_path v) s' = (Ok (), s1)" "vault_ready v s1"
    "content s1 (v_path v) = content s' (v_path v)"
    by (rule lock_ready[OF st(5)])
  ultimately show ?thesis
    using read_state_ready[of v s1 env] st' now(1) by (simp add: list_entries_def vault_state_def)
qed

theorem vault_list_overflow_witness:
  "\<exists>s'. store (wit_env (2 ^ 63 + 5)) wit_vault 5000000000 wit_ids wit_nonce SRK_Secret wit_scope (SecretValue ''pw'')
      (2 ^ 63 * 1000000000) wit_fs = (Ok wit_ref, s') \<and>
    fst (list_entries (wit_env (2 ^ 63 + 5)) wit_vault 5000000000 wit_scope s') = None"
proof -
  have times: "store_times 5000000000 (2 ^ 63 * 1000000000) = Ok (5, 2 ^ 63 + 5)"
    by (simp add: store_times_def unix_seconds_def checked_add_def)
  obtain s' where st: "store (wit_env (2 ^ 63 + 5)) wit_vault 5000000000 wit_ids wit_nonce SRK_Secret wit_scope
      (SecretValue ''pw'') (2 ^ 63 * 1000000000) wit_fs = (Ok wit_ref, s')"
    using wit_store[OF times] by auto
  have "content wit_fs (v_path wit_vault) = None" by (simp add: wit_fs_def content_def)
  from vault_list_overflow[OF wit_ready this st times] st show ?thesis by auto
qed

end
