(* ===== verification/Rotating_Log.thy ===== *)
theory Rotating_Log
  imports Fs_Model
begin

text \<open>
  Size-rotated line logs.  \<open>AuditLog\<close> (\<open>crates/blindfold-vault/src/audit.rs\<close>) and the trace
  \<open>Store\<close> (\<open>crates/blindfold-trace/src/lib.rs\<close>) contain the same rotation and append code, each
  with its own error type; here it takes the two errors it can report.  The active file is
  generation 0, the archives are generations 1 to the retained count.  What a client may rely on
  is the locale \<open>rotating_log\<close>.
\<close>

section \<open>Rotation\<close>

definition log_remove :: "'e \<Rightarrow> path \<Rightarrow> ('e, unit) fsm" where
  "log_remove e p = fs_bind (reject_symlink e p) (\<lambda>_. fs_bind (os_remove e p) (\<lambda>_. fs_ret ()))"

definition log_rename :: "'e \<Rightarrow> path \<Rightarrow> path \<Rightarrow> ('e, bool) fsm" where
  "log_rename e p q =
     fs_bind (reject_symlink e p) (\<lambda>_. fs_bind (reject_symlink e q) (\<lambda>_. os_rename e p q))"

fun shift_generations :: "'e \<Rightarrow> 'e \<Rightarrow> path \<Rightarrow> nat \<Rightarrow> ('e, unit) fsm" where
  "shift_generations invalid unavailable p 0 = fs_ret ()"
| "shift_generations invalid unavailable p (Suc g) =
     fs_bind (fs_lift (rotated_path invalid p (Suc g))) (\<lambda>source.
     fs_bind (fs_lift (rotated_path invalid p (Suc g + 1))) (\<lambda>destination.
     fs_bind (log_rename unavailable source destination) (\<lambda>_.
     shift_generations invalid unavailable p g)))"

definition rotate_log :: "'e \<Rightarrow> 'e \<Rightarrow> path \<Rightarrow> nat \<Rightarrow> ('e, unit) fsm" where
  "rotate_log invalid unavailable p retained =
     fs_bind (fs_lift (rotated_path invalid p retained)) (\<lambda>oldest.
     fs_bind (log_remove unavailable oldest) (\<lambda>_.
     fs_bind (shift_generations invalid unavailable p (retained - 1)) (\<lambda>_.
     fs_bind (fs_lift (rotated_path invalid p 1)) (\<lambda>destination.
     fs_bind (log_rename unavailable p destination) (\<lambda>renamed.
     if renamed then fs_ret () else fs_err unavailable)))))"

section \<open>Appending\<close>

definition file_len :: "'e \<Rightarrow> path \<Rightarrow> ('e, 64 word) fsm" where
  "file_len e p =
     fs_bind (reject_symlink e p) (\<lambda>st.
       case st of
         PathState_Missing \<Rightarrow> fs_ret 0
       | PathState_Present \<Rightarrow>
           (\<lambda>s. case fs_nodes s p of
              Some (NFile b _) \<Rightarrow> if fs_allows s Op_Stat p then (Ok (of_nat (length b)), s) else (Err e, s)
            | _ \<Rightarrow> (Err e, s)))"

definition line_length :: "'e \<Rightarrow> string \<Rightarrow> 'e + 64 word" where
  "line_length invalid line =
     ok_or (if length line < 2 ^ 64 then checked_add (of_nat (length line)) 1 else None) invalid"

definition append_line :: "'e \<Rightarrow> path \<Rightarrow> string \<Rightarrow> ('e, unit) fsm" where
  "append_line unavailable p line =
     fs_bind (reject_symlink unavailable p) (\<lambda>_.
     fs_bind (os_open_create unavailable p 0x180) (\<lambda>_.
     fs_bind (reject_symlink unavailable p) (\<lambda>_.
     fs_bind (restrict_file unavailable p) (\<lambda>_.
     fs_bind (os_append unavailable p line) (\<lambda>_.
     os_append unavailable p nl)))))"

definition rotate_and_append ::
  "'e \<Rightarrow> 'e \<Rightarrow> path \<Rightarrow> 64 word \<Rightarrow> nat \<Rightarrow> string \<Rightarrow> 64 word \<Rightarrow> 64 word \<Rightarrow> ('e, unit) fsm" where
  "rotate_and_append invalid unavailable p max_bytes retained line line_len current_len =
     fs_bind (if current_len \<noteq> 0 \<and> saturating_add current_len line_len > max_bytes
              then rotate_log invalid unavailable p retained else fs_ret ()) (\<lambda>_.
     append_line unavailable p line)"

section \<open>Reading\<close>

text \<open>\<open>None\<close>: the file is missing.  At most one byte more than the limit is read.\<close>

definition read_bounded :: "'e \<Rightarrow> path \<Rightarrow> 64 word \<Rightarrow> ('e, string option) fsm" where
  "read_bounded unavailable p max_bytes =
     fs_bind (reject_symlink unavailable p) (\<lambda>st.
     if st = PathState_Missing then fs_ret None
     else
       fs_bind (file_len unavailable p) (\<lambda>len.
       if len > max_bytes then fs_err unavailable
       else
         fs_bind (os_read unavailable p) (\<lambda>file.
         fs_bind (fs_lift (ok_or file unavailable)) (\<lambda>bytes.
         fs_bind (reject_symlink unavailable p) (\<lambda>_.
         let contents = take (unat (saturating_add max_bytes 1)) bytes in
         if length contents > unat max_bytes then fs_err unavailable else fs_ret (Some contents))))))"

definition log_lines :: "string \<Rightarrow> string list" where
  "log_lines b = filter (\<lambda>l. l \<noteq> []) (split_on (CHR 0x0A) b)"

section \<open>Generations\<close>

fun gen_path :: "path \<Rightarrow> nat \<Rightarrow> path" where
  "gen_path p 0 = p"
| "gen_path p (Suc i) = butlast p @ [last p @ ''.'' @ nat_str (Suc i)]"

definition gen :: "path \<Rightarrow> Fs \<Rightarrow> nat \<Rightarrow> string option" where
  "gen p s i = content s (gen_path p i)"

definition log_path :: "path \<Rightarrow> bool" where
  "log_path p \<longleftrightarrow> p \<noteq> [] \<and> last p \<noteq> ''..''"

definition lock_path :: "path \<Rightarrow> path" where
  "lock_path p = butlast p @ [last p @ ''.lock'']"

text \<open>Every generation is a plain file or missing, and archives are numbered without gaps.\<close>

definition log_ok :: "path \<Rightarrow> nat \<Rightarrow> Fs \<Rightarrow> bool" where
  "log_ok p k s \<longleftrightarrow>
     log_path p \<and> 0 < k \<and> fs_working s \<and> plain s (lock_path p) \<and> (\<forall>i. plain s (gen_path p i)) \<and>
     (\<forall>i>0. gen p s i = None \<longrightarrow> gen p s (Suc i) = None) \<and> (\<forall>i>k. gen p s i = None)"

lemma rotated_path_gen: "log_path p \<Longrightarrow> 0 < i \<Longrightarrow> rotated_path e p i = Ok (gen_path p i)"
  by (cases i) (auto simp: rotated_path_def adjacent_path_def log_path_def)

lemma adjacent_lock: "log_path p \<Longrightarrow> adjacent_path e p ''lock'' = Ok (lock_path p)"
  by (simp add: adjacent_path_def log_path_def lock_path_def)

lemma gen_path_inject [simp]: "log_path p \<Longrightarrow> gen_path p i = gen_path p j \<longleftrightarrow> i = j"
proof -
  assume p: "log_path p"
  have ne: "gen_path p (Suc n) \<noteq> p" for n
  proof
    assume "gen_path p (Suc n) = p"
    then have "last p = last p @ ''.'' @ nat_str (Suc n)" by (metis gen_path.simps(2) last_snoc)
    then show False by simp
  qed
  show ?thesis using ne[of "i - 1"] ne[of "j - 1"] by (cases i; cases j) auto
qed

lemma lock_not_gen: "log_path p \<Longrightarrow> gen_path p i \<noteq> lock_path p"
proof
  assume p: "log_path p" and eq: "gen_path p i = lock_path p"
  show False
  proof (cases i)
    case 0
    then have "last p = last p @ ''.lock''" using eq by (metis gen_path.simps(1) last_snoc lock_path_def)
    then show False by simp
  next
    case (Suc n)
    then have "nat_str (Suc n) = ''lock''" using eq by (simp add: lock_path_def)
    then show False using nat_str_digits[of "CHR ''l''" "Suc n"] by (simp add: byte_def)
  qed
qed

text \<open>A file system in which one generation has been replaced.\<close>

definition set_gen :: "path \<Rightarrow> nat \<Rightarrow> node option \<Rightarrow> Fs \<Rightarrow> Fs" where
  "set_gen p i n s = set_node (gen_path p i) n s"

lemma gen_set_gen [simp]:
  "log_path p \<Longrightarrow> gen p (set_gen p i (Some (NFile b m)) s) j = (if j = i then Some b else gen p s j)"
  "log_path p \<Longrightarrow> gen p (set_gen p i None s) j = (if j = i then None else gen p s j)"
  by (simp_all add: gen_def set_gen_def)

definition gens_plain :: "path \<Rightarrow> Fs \<Rightarrow> bool" where
  "gens_plain p s \<longleftrightarrow> log_path p \<and> fs_working s \<and> plain s (lock_path p) \<and> (\<forall>i. plain s (gen_path p i))"

lemma gens_plain_reject:
  "gens_plain p s \<Longrightarrow> \<exists>st. reject_symlink e (gen_path p i) s = (Ok st, s)"
  by (auto simp: gens_plain_def reject_symlink_plain)

lemma gens_plain_set_gen:
  "gens_plain p s \<Longrightarrow> gens_plain p (set_gen p i None s)"
  "gens_plain p s \<Longrightarrow> gens_plain p (set_gen p i (Some (NFile b m)) s)"
  by (auto simp: gens_plain_def set_gen_def)

lemma os_remove_gen:
  assumes "gens_plain p s"
  obtains s' where "os_remove e (gen_path p i) s = (Ok (gen p s i \<noteq> None), s')" "gens_plain p s'"
    "\<And>j. gen p s' j = (if j = i then None else gen p s j)"
proof -
  have lp: "log_path p" and w: "fs_working s" and pl: "plain s (gen_path p i)"
    using assms by (auto simp: gens_plain_def)
  from pl show ?thesis
  proof (cases rule: plain_cases)
    case 1
    then show ?thesis using that[of s] w assms by (auto simp: os_remove_def fs_working_def gen_def)
  next
    case (2 b m)
    then show ?thesis
      using that[of "set_gen p i None s"] w lp gens_plain_set_gen(1)[OF assms]
      by (auto simp: os_remove_def fs_working_def set_gen_def[symmetric] gen_def[of p s i])
  qed
qed

lemma log_remove_gen:
  assumes "gens_plain p s"
  obtains s' where "log_remove e (gen_path p i) s = (Ok (), s')" "gens_plain p s'"
    "\<And>j. gen p s' j = (if j = i then None else gen p s j)"
proof -
  obtain st where rs: "reject_symlink e (gen_path p i) s = (Ok st, s)"
    using gens_plain_reject[OF assms, of e i] by blast
  obtain s' where "os_remove e (gen_path p i) s = (Ok (gen p s i \<noteq> None), s')" "gens_plain p s'"
    "\<And>j. gen p s' j = (if j = i then None else gen p s j)"
    by (rule os_remove_gen[OF assms, where e = e and i = i]) auto
  then show ?thesis using that[of s'] rs by (simp add: log_remove_def)
qed

lemma log_rename_gen:
  assumes "gens_plain p s" and "i \<noteq> j"
  obtains s' where "log_rename e (gen_path p i) (gen_path p j) s = (Ok (gen p s i \<noteq> None), s')" "gens_plain p s'"
    "\<And>g. gen p s' g = (if gen p s i = None then gen p s g
                       else if g = i then None else if g = j then gen p s i else gen p s g)"
proof -
  have lp: "log_path p" and w: "fs_working s" and pl: "plain s (gen_path p i)"
    using assms by (auto simp: gens_plain_def)
  obtain st where rs: "reject_symlink e (gen_path p i) s = (Ok st, s)"
    using gens_plain_reject[OF assms(1), of e i] by blast
  obtain st' where rs': "reject_symlink e (gen_path p j) s = (Ok st', s)"
    using gens_plain_reject[OF assms(1), of e j] by blast
  from pl show ?thesis
  proof (cases rule: plain_cases)
    case 1
    then show ?thesis
      using that[of s] rs rs' w assms(1) by (auto simp: log_rename_def os_rename_def fs_working_def gen_def)
  next
    case (2 b m)
    have r: "log_rename e (gen_path p i) (gen_path p j) s =
        (Ok True, set_gen p j (Some (NFile b m)) (set_gen p i None s))"
      using 2 rs rs' w by (simp add: log_rename_def os_rename_def fs_working_def set_gen_def)
    have gi: "gen p s i = Some b" using 2 by (simp add: gen_def)
    show ?thesis
      using r gi lp assms(2) gens_plain_set_gen(2)[OF gens_plain_set_gen(1)[OF assms(1)]]
      by (intro that[of "set_gen p j (Some (NFile b m)) (set_gen p i None s)"]) auto
  qed
qed

text \<open>Moving every archive up by one, from the oldest to the newest.\<close>

declare gen_path.simps [simp del]

lemma shift_generations_gen:
  assumes "gens_plain p s" and "gen p s (Suc g) = None" and "\<forall>i. 0 < i \<and> i < g \<longrightarrow> gen p s i = None \<longrightarrow> gen p s (Suc i) = None"
  shows "\<exists>s'. shift_generations bad una p g s = (Ok (), s') \<and> gens_plain p s' \<and>
    (\<forall>i. gen p s' i = (if i = 0 \<or> Suc g < i then gen p s i else if i = 1 then None else gen p s (i - 1)))"
  using assms
proof (induction g arbitrary: s)
  case 0
  have "gen p s i = (if i = 0 \<or> Suc 0 < i then gen p s i else if i = 1 then None else gen p s (i - 1))" for i
    using 0(2) by (cases "i = 1") (auto simp: not_less)
  then show ?case using 0(1) by (intro exI[of _ s]) simp
next
  case (Suc g)
  have lp: "log_path p" using Suc.prems(1) by (simp add: gens_plain_def)
  obtain s1 where s1: "log_rename una (gen_path p (Suc g)) (gen_path p (Suc g + 1)) s = (Ok (gen p s (Suc g) \<noteq> None), s1)"
    "gens_plain p s1"
    "\<And>i. gen p s1 i = (if gen p s (Suc g) = None then gen p s i
        else if i = Suc g then None else if i = Suc g + 1 then gen p s (Suc g) else gen p s i)"
    by (rule log_rename_gen[OF Suc.prems(1), of "Suc g" "Suc g + 1" una]) auto
  have g1: "gen p s1 i = (if i = Suc g then None else if i = Suc (Suc g) then gen p s (Suc g) else gen p s i)" for i
    using s1(3)[of i] Suc.prems(2) by auto
  have "\<exists>s'. shift_generations bad una p g s1 = (Ok (), s') \<and> gens_plain p s' \<and>
    (\<forall>i. gen p s' i = (if i = 0 \<or> Suc g < i then gen p s1 i else if i = 1 then None else gen p s1 (i - 1)))"
    using s1(2) g1 Suc.prems(3) by (intro Suc.IH) auto
  then obtain s' where s': "shift_generations bad una p g s1 = (Ok (), s')" "gens_plain p s'"
    "\<And>i. gen p s' i = (if i = 0 \<or> Suc g < i then gen p s1 i else if i = 1 then None else gen p s1 (i - 1))"
    by blast
  have "shift_generations bad una p (Suc g) s = (Ok (), s')"
    using s1(1) s'(1) rotated_path_gen[OF lp, of "Suc g" bad] rotated_path_gen[OF lp, of "Suc g + 1" bad] by simp
  moreover have "gen p s' i = (if i = 0 \<or> Suc (Suc g) < i then gen p s i else if i = 1 then None else gen p s (i - 1))" for i
    using s'(3)[of i] g1[of i] g1[of "i - 1"] by (auto split: if_splits)
  ultimately show ?case using s'(2) by blast
qed

lemma rotate_log_gen:
  assumes "log_ok p k s" and "gen p s 0 \<noteq> None"
  shows "\<exists>s'. rotate_log bad una p k s = (Ok (), s') \<and> log_ok p k s' \<and>
    gen p s' 0 = None \<and> (\<forall>i<k. gen p s' (Suc i) = gen p s i)"
proof -
  have lp: "log_path p" and k: "0 < k" and gp: "gens_plain p s"
    and gaps: "\<forall>i>0. gen p s i = None \<longrightarrow> gen p s (Suc i) = None" and top: "\<forall>i>k. gen p s i = None"
    using assms(1) by (auto simp: log_ok_def gens_plain_def)
  obtain s1 where s1: "log_remove una (gen_path p k) s = (Ok (), s1)" "gens_plain p s1"
    "\<And>j. gen p s1 j = (if j = k then None else gen p s j)"
    by (rule log_remove_gen[OF gp, where e = una and i = k]) auto
  have "\<exists>s2. shift_generations bad una p (k - 1) s1 = (Ok (), s2) \<and> gens_plain p s2 \<and>
    (\<forall>i. gen p s2 i = (if i = 0 \<or> Suc (k - 1) < i then gen p s1 i else if i = 1 then None else gen p s1 (i - 1)))"
    using s1(2,3) k gaps by (intro shift_generations_gen) auto
  then obtain s2 where s2: "shift_generations bad una p (k - 1) s1 = (Ok (), s2)" "gens_plain p s2"
    "\<And>i. gen p s2 i = (if i = 0 \<or> k < i then gen p s1 i else if i = 1 then None else gen p s1 (i - 1))"
    using k by auto
  have g2: "gen p s2 0 = gen p s 0" using s2(3)[of 0] s1(3)[of 0] k by simp
  obtain s3 where s3: "log_rename una (gen_path p 0) (gen_path p 1) s2 = (Ok (gen p s2 0 \<noteq> None), s3)" "gens_plain p s3"
    "\<And>g. gen p s3 g = (if gen p s2 0 = None then gen p s2 g
        else if g = 0 then None else if g = 1 then gen p s2 0 else gen p s2 g)"
    by (rule log_rename_gen[OF s2(2), of 0 1 una]) auto
  have run: "rotate_log bad una p k s = (Ok (), s3)"
    using s1(1) s2(1) s3(1) g2 assms(2) k rotated_path_gen[OF lp, of k bad] rotated_path_gen[OF lp, of 1 bad]
    by (simp add: rotate_log_def gen_path.simps(1))
  have g3: "gen p s3 g = (if g = 0 then None else if g \<le> k then gen p s (g - 1) else None)" for g
    using s3(3)[of g] s2(3)[of g] s1(3)[of "g - 1"] s1(3)[of g] g2 assms(2) k top
    by (auto split: if_splits)
  have gaps3: "gen p s3 (Suc i) = None" if "0 < i" "gen p s3 i = None" for i
    using that g3[of i] g3[of "Suc i"] gaps[rule_format, of "i - 1"] assms(2)
    by (cases "i = 1") (auto split: if_splits)
  have "log_ok p k s3"
    using s3(2) k gaps3 g3 by (auto simp: log_ok_def gens_plain_def)
  then show ?thesis using run g3 by auto
qed

section \<open>Appending one line\<close>

definition gen_text :: "path \<Rightarrow> Fs \<Rightarrow> nat \<Rightarrow> string" where
  "gen_text p s i = (case gen p s i of None \<Rightarrow> [] | Some b \<Rightarrow> b)"

definition active_len :: "path \<Rightarrow> Fs \<Rightarrow> 64 word" where
  "active_len p s = of_nat (length (gen_text p s 0))"

lemma content_SomeE:
  assumes "content s p = Some b"
  obtains m where "fs_nodes s p = Some (NFile b m)"
  using assms by (auto simp: content_def split: option.splits node.splits)

lemma append_line_gen:
  assumes "log_ok p k s"
  shows "\<exists>s'. append_line una p l s = (Ok (), s') \<and> log_ok p k s' \<and>
    gen p s' 0 = Some (gen_text p s 0 @ l @ nl) \<and> (\<forall>i>0. gen p s' i = gen p s i)"
proof -
  have lp: "log_path p" using assms by (simp add: log_ok_def)
  have w: "fs_working s" "plain s p" using assms by (auto simp: log_ok_def dest: spec[of _ 0] simp: gen_path.simps(1))
  obtain s1 where s1: "os_open_create una p 0x180 s = (Ok (), s1)" "same_files {p} s s1" "fs_working s1" "plain s1 p"
    "content s1 p = Some (case content s p of None \<Rightarrow> [] | Some b \<Rightarrow> b)"
    by (rule os_open_create_plain[OF w])
  obtain s2 where s2: "restrict_file una p s1 = (Ok (), s2)" "same_files {} s1 s2" "fs_working s2"
    by (rule restrict_file_plain[OF s1(3,4)])
  let ?b = "case content s p of None \<Rightarrow> [] | Some b \<Rightarrow> b"
  have "content s2 p = Some ?b" using s1(5) s2(2) by (simp add: same_files_def)
  then obtain m where m: "fs_nodes s2 p = Some (NFile ?b m)" by (rule content_SomeE)
  let ?s3 = "set_node p (Some (NFile ((?b @ l) @ nl) m)) (set_node p (Some (NFile (?b @ l) m)) s2)"
  have run: "append_line una p l s = (Ok (), ?s3)"
    using s1(1) s2(1,3) m unfolding append_line_def
    by (simp add: reject_symlink_plain[OF w] reject_symlink_plain[OF s1(3,4)] os_append_def fs_working_def)
  have other: "content ?s3 q = content s q \<and> plain ?s3 q = plain s q" if "q \<noteq> p" for q
    using that s1(2) s2(2) by (simp add: same_files_def)
  have g0: "gen p ?s3 0 = Some (gen_text p s 0 @ l @ nl)"
    by (simp add: gen_text_def gen_def gen_path.simps(1))
  have gi: "gen p ?s3 i = gen p s i" if "0 < i" for i
    using that other[of "gen_path p i"] gen_path_inject[OF lp, of i 0] by (simp add: gen_def gen_path.simps(1))
  have "plain ?s3 q" if "plain s q" for q using that other[of q] by (cases "q = p") simp_all
  then have "log_ok p k ?s3" using assms gi s2(3) by (auto simp: log_ok_def)
  then show ?thesis using run g0 gi by blast
qed

lemma file_len_gen:
  assumes "log_ok p k s"
  shows "file_len una p s = (Ok (active_len p s), s)"
proof -
  have w: "fs_working s" "plain s p" using assms by (auto simp: log_ok_def dest: spec[of _ 0] simp: gen_path.simps(1))
  from w(2) show ?thesis
  proof (cases rule: plain_cases)
    case 1
    then show ?thesis
      by (simp add: file_len_def reject_symlink_plain[OF w] active_len_def gen_text_def gen_def gen_path.simps(1))
  next
    case (2 b m)
    then show ?thesis
      using w(1)
      by (simp add: file_len_def reject_symlink_plain[OF w] active_len_def gen_text_def gen_def gen_path.simps(1) fs_working_def)
  qed
qed

text \<open>
  The effect of one append on the generations: the file is rotated first exactly when it is not
  empty and the line would take it over the limit, and rotation loses only the oldest archive.
\<close>

definition must_rotate :: "path \<Rightarrow> 64 word \<Rightarrow> 64 word \<Rightarrow> Fs \<Rightarrow> bool" where
  "must_rotate p lim len s \<longleftrightarrow> active_len p s \<noteq> 0 \<and> saturating_add (active_len p s) len > lim"

definition appended :: "path \<Rightarrow> nat \<Rightarrow> bool \<Rightarrow> string \<Rightarrow> Fs \<Rightarrow> Fs \<Rightarrow> bool" where
  "appended p k rotated l s s' \<longleftrightarrow>
     (if rotated then gen p s' 0 = Some (l @ nl) \<and> (\<forall>i<k. gen p s' (Suc i) = gen p s i)
      else gen p s' 0 = Some (gen_text p s 0 @ l @ nl) \<and> (\<forall>i>0. gen p s' i = gen p s i))"

lemma rotate_and_append_gen:
  assumes "log_ok p k s"
  shows "\<exists>s'. rotate_and_append bad una p lim k l len (active_len p s) s = (Ok (), s') \<and> log_ok p k s' \<and>
    appended p k (must_rotate p lim len s) l s s'"
proof (cases "must_rotate p lim len s")
  case True
  then have "gen p s 0 \<noteq> None" by (cases "gen p s 0") (auto simp: must_rotate_def active_len_def gen_text_def)
  then obtain s1 where s1: "rotate_log bad una p k s = (Ok (), s1)" "log_ok p k s1" "gen p s1 0 = None"
    "\<forall>i<k. gen p s1 (Suc i) = gen p s i"
    using rotate_log_gen[OF assms, of bad una] by blast
  obtain s2 where s2: "append_line una p l s1 = (Ok (), s2)" "log_ok p k s2"
    "gen p s2 0 = Some (l @ nl)" "\<forall>i>0. gen p s2 i = gen p s1 i"
    using append_line_gen[OF s1(2), of una l] s1(3) by (auto simp: gen_text_def)
  show ?thesis
    using True s1 s2 by (intro exI[of _ s2]) (auto simp: rotate_and_append_def appended_def must_rotate_def)
next
  case False
  then show ?thesis
    using append_line_gen[OF assms, of una l] by (auto simp: rotate_and_append_def appended_def must_rotate_def)
qed

section \<open>Reading a generation\<close>

lemma read_bounded_gen:
  assumes "log_ok p k s" and "length (gen_text p s i) \<le> unat lim"
  shows "read_bounded una (gen_path p i) lim s = (Ok (gen p s i), s)"
proof -
  have w: "fs_working s" "plain s (gen_path p i)" using assms(1) by (auto simp: log_ok_def)
  from w(2) show ?thesis
  proof (cases rule: plain_cases)
    case 1
    then show ?thesis by (simp add: read_bounded_def reject_symlink_plain[OF w] gen_def)
  next
    case (2 b m)
    have le: "length b \<le> unat lim" using assms(2) 2 by (simp add: gen_text_def gen_def)
    moreover have "unat lim < 2 ^ 64" using unsigned_less[of lim, where ?'a = nat] by simp
    ultimately have "unat (of_nat (length b) :: 64 word) = length b" by (simp add: unat_of_nat)
    then have "\<not> lim < of_nat (length b)" using le by (simp add: word_less_nat_alt)
    moreover have "unat lim \<le> unat (saturating_add lim 1)"
      using \<open>unat lim < 2 ^ 64\<close> by (simp add: unat_saturating_add)
    ultimately show ?thesis
      using 2 w(1) le
      by (simp add: read_bounded_def reject_symlink_plain[OF w] file_len_def os_read_def fs_working_def gen_def)
  qed
qed

lemma read_bounded_too_long:
  assumes "log_ok p k s" and "unat lim < length (gen_text p s i)" and "length (gen_text p s i) < 2 ^ 64"
  shows "read_bounded una (gen_path p i) lim s = (Err una, s)"
proof -
  have w: "fs_working s" "plain s (gen_path p i)" using assms(1) by (auto simp: log_ok_def)
  obtain b where b: "gen p s i = Some b" using assms(2) by (cases "gen p s i") (auto simp: gen_text_def)
  then obtain m where m: "fs_nodes s (gen_path p i) = Some (NFile b m)" unfolding gen_def by (rule content_SomeE)
  have "unat (of_nat (length b) :: 64 word) = length b" using assms(3) b by (simp add: gen_text_def unat_of_nat)
  then have "lim < of_nat (length b)" using assms(2) b by (simp add: word_less_nat_alt gen_text_def)
  then show ?thesis
    using m w(1) b
    by (simp add: read_bounded_def reject_symlink_plain[OF w] file_len_def fs_working_def gen_def)
qed

lemma log_ok_gens_plain: "log_ok p k s \<Longrightarrow> gens_plain p s"
  by (simp add: log_ok_def gens_plain_def)

lemma open_lock_log:
  assumes "log_ok p k s"
  obtains s' where "open_lock e (lock_path p) s = (Ok (), s')" "log_ok p k s'" "\<And>i. gen p s' i = gen p s i"
proof -
  have w: "fs_working s" "plain s (lock_path p)" and lp: "log_path p" using assms by (auto simp: log_ok_def)
  obtain s' where s': "open_lock e (lock_path p) s = (Ok (), s')" "same_files {lock_path p} s s'" "fs_working s'"
    "plain s' (lock_path p)"
    by (rule open_lock_plain[OF w])
  have "gen p s' i = gen p s i \<and> plain s' (gen_path p i) = plain s (gen_path p i)" for i
    using s'(2) lock_not_gen[OF lp, of i] by (simp add: same_files_def gen_def)
  then show ?thesis using that[of s'] s' assms by (auto simp: log_ok_def)
qed

lemma log_ok_same_files:
  "log_ok p k s \<Longrightarrow> same_files {} s s' \<Longrightarrow> log_ok p k s' \<and> (\<forall>i. gen p s' i = gen p s i)"
  by (auto simp: log_ok_def same_files_def gen_def fs_working_def)

text \<open>Opening a log whose directory exists.\<close>

definition parent_dirs :: "path \<Rightarrow> Fs \<Rightarrow> bool" where
  "parent_dirs p s \<longleftrightarrow> (\<forall>n\<in>{1..<length p}. case fs_nodes s (take n p) of Some (NDir _) \<Rightarrow> True | _ \<Rightarrow> False)"

lemma mkdir_steps_dirs:
  "(\<forall>q\<in>set qs. \<exists>m. fs_nodes s q = Some (NDir m)) \<Longrightarrow> mkdir_steps e qs s = (Ok (), s)"
  by (induction qs) auto

lemma parent_dirs_node:
  assumes "parent_dirs p s" and "1 \<le> n" and "n < length p"
  shows "\<exists>m. fs_nodes s (take n p) = Some (NDir m)"
  using assms(1)[unfolded parent_dirs_def, rule_format, of n] assms(2,3) by (auto split: option.splits node.splits)

lemma parent_dirs_parent:
  assumes "parent_dirs p s" and "2 \<le> length p"
  shows "\<exists>m. fs_nodes s (butlast p) = Some (NDir m)"
proof -
  have "1 \<le> length p - 1" "length p - 1 < length p" using assms(2) by linarith+
  then show ?thesis using parent_dirs_node[OF assms(1), of "length p - 1"] by (simp add: butlast_conv_take)
qed

lemma create_dir_all_dirs:
  assumes "parent_dirs p s" and "2 \<le> length p"
  shows "create_dir_all e (butlast p) s = (Ok (), s)"
proof -
  have "take n (butlast p) = take n p" if "n < length p" for n using that by (simp add: butlast_conv_take min_def) linarith
  then show ?thesis
    using parent_dirs_node[OF assms(1)] parent_dirs_parent[OF assms] unfolding create_dir_all_def
    by (intro mkdir_steps_dirs) auto
qed

lemma prepare_parent_dirs:
  assumes "fs_working s" and "parent_dirs p s" and "2 \<le> length p"
  shows "prepare_parent bad una p s = (Ok (), s)"
proof -
  obtain m where "fs_nodes s (butlast p) = Some (NDir m)" using parent_dirs_parent[OF assms(2,3)] by blast
  then have "reject_symlink una (butlast p) s = (Ok PathState_Present, s)"
    using assms(1) by (simp add: reject_symlink_def fs_working_def)
  then show ?thesis using assms(3) by (auto simp: prepare_parent_def Let_def create_dir_all_dirs[OF assms(2,3)])
qed

section \<open>Lines\<close>

definition retained_lines :: "path \<Rightarrow> nat \<Rightarrow> Fs \<Rightarrow> string list" where
  "retained_lines p k s = concat (map (\<lambda>i. log_lines (gen_text p s i)) (rev [0..<Suc k]))"

definition closed_text :: "string \<Rightarrow> bool" where
  "closed_text b \<longleftrightarrow> b = [] \<or> last b = CHR 0x0A"

definition line_ok :: "string \<Rightarrow> bool" where
  "line_ok l \<longleftrightarrow> l \<noteq> [] \<and> CHR 0x0A \<notin> set l"

lemma log_lines_line: "line_ok l \<Longrightarrow> log_lines (l @ nl) = [l]"
  by (simp add: log_lines_def nl_def line_ok_def split_on_append split_on_free)

lemma log_lines_append: "closed_text b \<Longrightarrow> log_lines (b @ c) = log_lines b @ log_lines c"
proof (cases "b = []")
  case False
  moreover assume "closed_text b"
  ultimately obtain a where a: "b = a @ [CHR 0x0A]" by (metis closed_text_def append_butlast_last_id)
  show ?thesis by (simp add: a log_lines_def split_on_append)
qed (simp add: log_lines_def)

lemma closed_text_line [simp]: "closed_text (b @ nl)" "closed_text []"
  by (simp_all add: closed_text_def nl_def)

lemma retained_lines_snoc:
  "retained_lines p k s = concat (map (\<lambda>i. log_lines (gen_text p s (Suc i))) (rev [0..<k])) @ log_lines (gen_text p s 0)"
proof -
  have "rev [0..<Suc k] = map Suc (rev [0..<k]) @ [0]"
    by (simp add: map_Suc_upt rev_map[symmetric] upt_conv_Cons del: upt_Suc)
  then show ?thesis by (simp add: retained_lines_def comp_def del: upt_Suc)
qed

lemma retained_lines_Cons:
  "retained_lines p k s = log_lines (gen_text p s k) @ concat (map (\<lambda>i. log_lines (gen_text p s i)) (rev [0..<k]))"
  by (simp add: retained_lines_def)

lemma appended_lines:
  assumes "appended p k rot l s s'" and "line_ok l" and "closed_text (gen_text p s 0)"
  shows "retained_lines p k s @ [l] = (if rot then log_lines (gen_text p s k) else []) @ retained_lines p k s'"
    and "retained_lines p k s' \<noteq> []" and "last (retained_lines p k s') = l"
proof -
  let ?old = "concat (map (\<lambda>i. log_lines (gen_text p s' (Suc i))) (rev [0..<k]))"
  show "retained_lines p k s @ [l] = (if rot then log_lines (gen_text p s k) else []) @ retained_lines p k s'"
  proof (cases rot)
    case True
    then have a: "gen_text p s' 0 = l @ nl" "\<forall>i<k. gen_text p s' (Suc i) = gen_text p s i"
      using assms(1) by (auto simp: appended_def gen_text_def)
    have "?old = concat (map (\<lambda>i. log_lines (gen_text p s i)) (rev [0..<k]))"
      using a(2) by (intro arg_cong[where f = concat] map_cong) auto
    then show ?thesis
      using True a(1) by (simp add: retained_lines_snoc[of p k s'] retained_lines_Cons[of p k s] log_lines_line[OF assms(2)])
  next
    case False
    then have a: "gen_text p s' 0 = gen_text p s 0 @ l @ nl" "\<forall>i>0. gen_text p s' i = gen_text p s i"
      using assms(1) by (auto simp: appended_def gen_text_def)
    then show ?thesis
      using False by (simp add: retained_lines_snoc log_lines_append[OF assms(3)] log_lines_line[OF assms(2)])
  qed
  have "\<exists>b. closed_text b \<and> gen_text p s' 0 = b @ l @ nl"
    using assms(1,3) closed_text_line(2) by (auto simp: appended_def gen_text_def[of p s'] split: if_splits)
  then obtain b where "closed_text b" "gen_text p s' 0 = b @ l @ nl" by blast
  then have "retained_lines p k s' = (?old @ log_lines b) @ [l]"
    by (simp add: retained_lines_snoc log_lines_append log_lines_line[OF assms(2)])
  then show "retained_lines p k s' \<noteq> []" "last (retained_lines p k s') = l" by simp_all
qed

text \<open>Where the text of a generation comes from.\<close>

lemma appended_gen_cases:
  assumes "appended p k rot l s s'" and "log_ok p k s'"
  obtains "i = 0" "rot" "gen_text p s' i = l @ nl"
  | "i = 0" "\<not> rot" "gen_text p s' i = gen_text p s 0 @ l @ nl"
  | j where "gen_text p s' i = gen_text p s j"
  | "gen_text p s' i = []"
proof (cases i)
  case 0
  then show ?thesis using assms(1) that(1,2) by (cases rot) (auto simp: appended_def gen_text_def[of p s'])
next
  case (Suc n)
  have "gen p s' (Suc n) = gen p s n \<or> gen p s' (Suc n) = gen p s (Suc n) \<or> gen p s' (Suc n) = None"
    using assms(1,2) by (cases "n < k") (auto simp: appended_def log_ok_def split: if_splits)
  then show ?thesis using that(3)[of n] that(3)[of "Suc n"] that(4) Suc by (auto simp: gen_text_def)
qed

lemma appended_closed:
  assumes "appended p k rot l s s'" and "log_ok p k s'" and "\<forall>i. closed_text (gen_text p s i)"
  shows "closed_text (gen_text p s' i)"
  using assms(1,2)
proof (cases rule: appended_gen_cases[where i = i])
  case 2
  then show ?thesis using closed_text_line(1)[of "gen_text p s 0 @ l"] by simp
qed (use assms(3) closed_text_line in auto)

lemma appended_gen_lines:
  assumes "appended p k rot l s s'" and "log_ok p k s'" and "line_ok l" and "closed_text (gen_text p s 0)"
    and "x \<in> set (log_lines (gen_text p s' i))"
  shows "x = l \<or> (\<exists>j. x \<in> set (log_lines (gen_text p s j)))"
  using assms(1,2)
proof (cases rule: appended_gen_cases[where i = i])
  case 2
  then show ?thesis
    using assms(5) log_lines_append[OF assms(4)] log_lines_line[OF assms(3)] by auto
qed (use assms(5) log_lines_line[OF assms(3)] in \<open>auto simp: log_lines_def[of "[]"]\<close>)

text \<open>Everything above depends on the generations only.\<close>

lemma same_gens:
  assumes "\<And>i. gen p s' i = gen p s i"
  shows "gen_text p s' = gen_text p s" and "active_len p s' = active_len p s"
    and "must_rotate p lim len s' = must_rotate p lim len s" and "appended p k rot l s' = appended p k rot l s"
    and "retained_lines p k s' = retained_lines p k s"
  using assms
  by (auto simp: gen_text_def fun_eq_iff active_len_def must_rotate_def appended_def retained_lines_def)

lemma line_length_ok:
  assumes "length l + 1 < 2 ^ 64"
  obtains n where "line_length e l = Ok n" "unat n = length l + 1"
proof -
  have u: "unat (of_nat (length l) :: 64 word) = length l" using assms by (simp add: unat_of_nat)
  then have "checked_add (of_nat (length l)) 1 = Some (of_nat (length l) + 1)"
    using assms by (simp add: checked_add_def)
  then have "line_length e l = Ok (of_nat (length l) + 1)" using assms by (simp add: line_length_def)
  moreover have "unat (of_nat (length l) + 1 :: 64 word) = length l + 1"
    using checked_add_some[OF \<open>checked_add (of_nat (length l)) 1 = _\<close>] u by simp
  ultimately show ?thesis by (rule that)
qed

text \<open>After an append the active file is within the limit exactly when the line is.\<close>

lemma appended_active_length:
  assumes "appended p k (must_rotate p lim len s) l s s'" and "unat len = length l + 1"
    and "length (gen_text p s 0) + length l + 1 < 2 ^ 64"
  shows "length (gen_text p s' 0) < 2 ^ 64"
    and "length (gen_text p s' 0) \<le> unat lim \<longleftrightarrow> length l + 1 \<le> unat lim"
proof -
  have u: "unat (active_len p s) = length (gen_text p s 0)" using assms(3) by (simp add: active_len_def unat_of_nat)
  have sum: "unat (saturating_add (active_len p s) len) = length (gen_text p s 0) + length l + 1"
    using assms(2,3) u by (simp add: unat_saturating_add)
  have zero: "active_len p s = 0 \<longleftrightarrow> gen_text p s 0 = []" using u by (simp add: unat_eq_0[symmetric])
  have "length (gen_text p s' 0) < 2 ^ 64 \<and> (length (gen_text p s' 0) \<le> unat lim \<longleftrightarrow> length l + 1 \<le> unat lim)"
  proof (cases "must_rotate p lim len s")
    case True
    then have "length (gen_text p s' 0) = length l + 1"
      using assms(1) by (simp add: appended_def gen_text_def[of p s'] nl_def)
    then show ?thesis using assms(3) by simp
  next
    case False
    then have "length (gen_text p s' 0) = length (gen_text p s 0) + length l + 1"
      using assms(1) by (simp add: appended_def gen_text_def[of p s'] nl_def)
    moreover have "gen_text p s 0 = [] \<or> length (gen_text p s 0) + length l + 1 \<le> unat lim"
      using False sum zero by (auto simp: must_rotate_def word_less_nat_alt not_less)
    ultimately show ?thesis using assms(3) by auto
  qed
  then show "length (gen_text p s' 0) < 2 ^ 64"
    and "length (gen_text p s' 0) \<le> unat lim \<longleftrightarrow> length l + 1 \<le> unat lim" by blast+
qed

text \<open>A limit below the largest number keeps the active file within it.\<close>

lemma appended_bounded:
  assumes "appended p k (must_rotate p lim len s) l s s'" and "log_ok p k s'" and "unat len = length l + 1"
    and "length l + 1 \<le> unat lim" and "unat lim < 2 ^ 64 - 1" and "\<forall>i. length (gen_text p s i) \<le> unat lim"
  shows "length (gen_text p s' i) \<le> unat lim"
  using assms(1,2)
proof (cases rule: appended_gen_cases[where i = i])
  case 1
  then show ?thesis using assms(4) by (simp add: nl_def)
next
  case 2
  have le: "length (gen_text p s 0) \<le> unat lim" using assms(6) by simp
  then have u: "unat (active_len p s) = length (gen_text p s 0)" using assms(5) by (simp add: active_len_def unat_of_nat)
  have "gen_text p s 0 = [] \<or> length (gen_text p s 0) + (length l + 1) \<le> unat lim"
    using 2(2) u assms(3,5)
    by (auto simp: must_rotate_def word_less_nat_alt not_less unat_saturating_add min_def unat_eq_0[symmetric] split: if_splits)
  then show ?thesis using 2(3) assms(4) by (auto simp: nl_def)
qed (use assms(6) in auto)

section \<open>What a client of a rotating log may rely on\<close>

text \<open>
  A log of lines that may forget only from its old end: an append succeeds, adds its line at the
  new end and drops some of the oldest lines.
\<close>

fun append_each :: "('r \<Rightarrow> ('e, unit) fsm) \<Rightarrow> 'r list \<Rightarrow> ('e, unit) fsm" where
  "append_each f [] = fs_ret ()"
| "append_each f (r # rs) = fs_bind (f r) (\<lambda>_. append_each f rs)"

locale rotating_log =
  fixes append_item :: "'r \<Rightarrow> ('e, unit) fsm"
    and item_line :: "'r \<Rightarrow> 'l"
    and accepted :: "'r \<Rightarrow> bool"
    and log_wf :: "Fs \<Rightarrow> bool"
    and held :: "Fs \<Rightarrow> 'l list"
  assumes append_law: "log_wf s \<Longrightarrow> accepted r \<Longrightarrow>
      \<exists>s' dropped. append_item r s = (Ok (), s') \<and> log_wf s' \<and>
        held s @ [item_line r] = dropped @ held s' \<and> held s' \<noteq> []"
begin

lemma append_each_suffix:
  assumes "log_wf s" and "\<forall>r\<in>set rs. accepted r"
  shows "\<exists>s' dropped. append_each append_item rs s = (Ok (), s') \<and> log_wf s' \<and>
    held s @ map item_line rs = dropped @ held s' \<and> (rs \<noteq> [] \<longrightarrow> held s' \<noteq> [] \<and> last (held s') = item_line (last rs))"
  using assms
proof (induction rs arbitrary: s)
  case (Cons r rs)
  obtain s1 d1 where 1: "append_item r s = (Ok (), s1)" "log_wf s1" "held s @ [item_line r] = d1 @ held s1" "held s1 \<noteq> []"
    using append_law[of s r] Cons.prems by auto
  obtain s2 d2 where 2: "append_each append_item rs s1 = (Ok (), s2)" "log_wf s2" "held s1 @ map item_line rs = d2 @ held s2"
    "rs \<noteq> [] \<longrightarrow> held s2 \<noteq> [] \<and> last (held s2) = item_line (last rs)"
    using Cons.IH[OF 1(2)] Cons.prems(2) by auto
  have "held s @ map item_line (r # rs) = (held s @ [item_line r]) @ map item_line rs" by simp
  also have "\<dots> = (d1 @ d2) @ held s2" using 1(3) 2(3) by simp
  finally have h: "held s @ map item_line (r # rs) = (d1 @ d2) @ held s2" .
  have "held s2 \<noteq> [] \<and> last (held s2) = item_line (last (r # rs))"
  proof (cases "rs = []")
    case True
    then have "s2 = s1" using 2(1) by simp
    then show ?thesis using 1(3,4) True by (metis last.simps last_appendR snoc_eq_iff_butlast)
  qed (use 2(4) in simp)
  then show ?case using 1(1) 2(1,2) h by (intro exI[of _ s2] exI[of _ "d1 @ d2"]) simp
qed simp

end

text \<open>A file system that holds one empty private directory.\<close>

definition wit_dir :: Fs where
  "wit_dir = \<lparr>fs_nodes = (\<lambda>p. if p = [''home''] then Some (NDir 0x1C0) else None), fs_allows = (\<lambda>_ _. True), fs_dir_mode = 0x1ED\<rparr>"

lemma wit_dir_ok:
  "fs_working wit_dir" "parent_dirs [''home'', n] wit_dir" "plain wit_dir (lock_path [''home'', n])"
  "fs_nodes wit_dir (gen_path [''home'', n] i) = None"
  by (auto simp: fs_working_def parent_dirs_def plain_def wit_dir_def lock_path_def) (cases i; simp add: gen_path.simps)

end
