(* ===== verification/Audit_Log.thy ===== *)
theory Audit_Log
  imports Vault Rotating_Log
begin

text \<open>
  The safe audit log (\<open>crates/blindfold-vault/src/audit.rs\<close>): closed events, size limits, opening,
  appending and reading.  Rotation and the byte-level append are the shared operations of
  \<open>Rotating_Log\<close>.  The JSON codec of one event is a parameter.  The handle keeps the lock path the
  code keeps; the lock is taken at the same point of each operation.
\<close>

section \<open>Events\<close>

datatype AuditAction = AA_Store | AA_Resolve | AA_List | AA_Clear | AA_PurgeExpired

datatype AuditOutcome = AO_Succeeded | AO_Rejected | AO_Failed

record AuditEvent =
  ae_timestamp :: int
  ae_action :: AuditAction
  ae_outcome :: AuditOutcome
  ae_safe_ref :: "SafeRef option"

definition AuditEvent_now :: "int \<Rightarrow> AuditAction \<Rightarrow> AuditOutcome \<Rightarrow> SafeRef option \<Rightarrow> AuditEvent" where
  "AuditEvent_now clock action outcome safe_ref =
     \<lparr>ae_timestamp = clock, ae_action = action, ae_outcome = outcome, ae_safe_ref = safe_ref\<rparr>"

record RotationPolicy =
  rp_max_bytes :: "64 word"
  rp_retained_files :: nat

definition RotationPolicy_new :: "64 word \<Rightarrow> nat \<Rightarrow> VaultError + RotationPolicy" where
  "RotationPolicy_new max_bytes retained_files =
     (if max_bytes = 0 \<or> retained_files = 0 then Err VE_InvalidInput
      else Ok \<lparr>rp_max_bytes = max_bytes, rp_retained_files = retained_files\<rparr>)"

record AuditLog =
  al_path :: path
  al_lock_path :: path
  al_rotation :: RotationPolicy

record DiskEvent =
  de_version :: "8 word"
  de_timestamp :: "64 word"
  de_action :: AuditAction
  de_outcome :: AuditOutcome
  de_safe_ref :: "string option"

type_synonym StoredEvent = DiskEvent

record AuditCodec =
  ac_to_vec :: "DiskEvent \<Rightarrow> string option"
  ac_from_slice :: "string \<Rightarrow> StoredEvent option"
  ac_to_string :: "StoredEvent \<Rightarrow> string option"

text \<open>
  What the code relies on: an event is written as one non-empty line, reading the line gives the
  event back, and both writers agree.
\<close>

definition audit_codec_ok :: "AuditCodec \<Rightarrow> bool" where
  "audit_codec_ok c \<longleftrightarrow>
     (\<forall>e b. ac_to_vec c e = Some b \<longrightarrow> line_ok b \<and> ac_from_slice c b = Some e \<and> ac_to_string c e = Some b)"

section \<open>Operations\<close>

definition AuditLog_open :: "path \<Rightarrow> RotationPolicy \<Rightarrow> (VaultError, AuditLog) fsm" where
  "AuditLog_open p rotation =
     fs_bind (prepare_parent VE_InvalidInput VE_StorageUnavailable p) (\<lambda>_.
     fs_bind (fs_lift (adjacent_path VE_InvalidInput p ''lock'')) (\<lambda>lock_path.
     fs_bind (reject_symlink VE_StorageUnavailable p) (\<lambda>_.
     fs_bind (open_lock VE_StorageUnavailable lock_path) (\<lambda>_.
     fs_bind (restrict_file VE_StorageUnavailable p) (\<lambda>_.
     fs_ret \<lparr>al_path = p, al_lock_path = lock_path, al_rotation = rotation\<rparr>)))))"

definition disk_event :: "64 word \<Rightarrow> AuditEvent \<Rightarrow> DiskEvent" where
  "disk_event timestamp e =
     \<lparr>de_version = 1, de_timestamp = timestamp, de_action = ae_action e, de_outcome = ae_outcome e,
      de_safe_ref = map_option sr_encoded (ae_safe_ref e)\<rparr>"

definition AuditLog_append :: "AuditCodec \<Rightarrow> AuditLog \<Rightarrow> AuditEvent \<Rightarrow> (VaultError, unit) fsm" where
  "AuditLog_append c log event =
     fs_bind (fs_lift (unix_seconds (ae_timestamp event))) (\<lambda>timestamp.
     fs_bind (fs_lift (ok_or (ac_to_vec c (disk_event timestamp event)) VE_StorageUnavailable)) (\<lambda>line.
     fs_bind (open_lock VE_StorageUnavailable (al_lock_path log)) (\<lambda>_.
     fs_bind (file_len VE_StorageUnavailable (al_path log)) (\<lambda>current_len.
     fs_bind (fs_lift (line_length VE_InvalidInput line)) (\<lambda>line_len.
     rotate_and_append VE_InvalidInput VE_StorageUnavailable (al_path log) (rp_max_bytes (al_rotation log))
       (rp_retained_files (al_rotation log)) line line_len current_len)))))"

definition read_event :: "AuditCodec \<Rightarrow> string \<Rightarrow> VaultError + string" where
  "read_event c line =
     res_bind (ok_or (ac_from_slice c line) VE_StorageUnavailable) (\<lambda>event.
     if de_version event \<noteq> 1 then Err VE_StorageUnavailable
     else
       res_bind (case de_safe_ref event of
                   Some reference \<Rightarrow> res_map (\<lambda>_. ()) (map_err (\<lambda>_. VE_StorageUnavailable) (SafeRef_parse reference))
                 | None \<Rightarrow> Ok ()) (\<lambda>_.
       ok_or (ac_to_string c event) VE_StorageUnavailable))"

definition read_lines :: "AuditCodec \<Rightarrow> AuditLog \<Rightarrow> (VaultError, string list) fsm" where
  "read_lines c log =
     fs_bind (open_lock VE_StorageUnavailable (al_lock_path log)) (\<lambda>_.
     fs_bind (read_bounded VE_StorageUnavailable (al_path log) (rp_max_bytes (al_rotation log))) (\<lambda>file.
     case file of
       None \<Rightarrow> fs_ret []
     | Some contents \<Rightarrow> fs_lift (try_map (read_event c) (log_lines contents))))"

section \<open>Invariant\<close>

text \<open>
  The handle belongs to a log whose generations are files of complete lines, each of them a
  canonical event.
\<close>

definition audit_wf :: "AuditCodec \<Rightarrow> AuditLog \<Rightarrow> Fs \<Rightarrow> bool" where
  "audit_wf c log s \<longleftrightarrow>
     audit_codec_ok c \<and> al_lock_path log = lock_path (al_path log) \<and>
     log_ok (al_path log) (rp_retained_files (al_rotation log)) s \<and>
     (\<forall>i. closed_text (gen_text (al_path log) s i) \<and>
          (\<forall>l\<in>set (log_lines (gen_text (al_path log) s i)). read_event c l = Ok l))"

definition event_line :: "AuditCodec \<Rightarrow> AuditEvent \<Rightarrow> string" where
  "event_line c e =
     (case res_bind (unix_seconds (ae_timestamp e)) (\<lambda>t. ok_or (ac_to_vec c (disk_event t e)) VE_StorageUnavailable) of
        Inl _ \<Rightarrow> [] | Inr l \<Rightarrow> l)"

text \<open>Events the log can hold: not before the epoch, with an encoding and a reference as the
  constructors make them.\<close>

definition event_ok :: "AuditCodec \<Rightarrow> AuditEvent \<Rightarrow> bool" where
  "event_ok c e \<longleftrightarrow>
     0 \<le> ae_timestamp e \<and> ac_to_vec c (disk_event (word_of_int (ae_timestamp e div 1000000000)) e) \<noteq> None \<and>
     (case ae_safe_ref e of None \<Rightarrow> True | Some r \<Rightarrow> SafeRef_parse (sr_encoded r) = Ok r) \<and>
     length (event_line c e) + 1 < 2 ^ 64"

lemma event_okD:
  assumes "event_ok c e"
  obtains t where "unix_seconds (ae_timestamp e) = Ok t" "ac_to_vec c (disk_event t e) = Some (event_line c e)"
  using assms that by (auto simp: event_ok_def unix_seconds_def event_line_def not_less)

lemma event_line_canonical:
  assumes "audit_codec_ok c" and "event_ok c e"
  shows "line_ok (event_line c e)" and "read_event c (event_line c e) = Ok (event_line c e)"
proof -
  obtain t where t: "ac_to_vec c (disk_event t e) = Some (event_line c e)" using assms(2) by (rule event_okD)
  then have c: "line_ok (event_line c e)" "ac_from_slice c (event_line c e) = Some (disk_event t e)"
    "ac_to_string c (disk_event t e) = Some (event_line c e)"
    using assms(1) by (auto simp: audit_codec_ok_def)
  show "line_ok (event_line c e)" by (fact c(1))
  show "read_event c (event_line c e) = Ok (event_line c e)"
    using c(2,3) assms(2) by (auto simp: read_event_def disk_event_def event_ok_def split: option.splits)
qed

lemma audit_append:
  assumes "audit_wf c log s" and "event_ok c e"
  shows "\<exists>s' len. AuditLog_append c log e s = (Ok (), s') \<and> audit_wf c log s' \<and>
    unat len = length (event_line c e) + 1 \<and>
    appended (al_path log) (rp_retained_files (al_rotation log))
      (must_rotate (al_path log) (rp_max_bytes (al_rotation log)) len s) (event_line c e) s s'"
proof -
  let ?p = "al_path log" and ?k = "rp_retained_files (al_rotation log)" and ?l = "event_line c e"
  let ?lim = "rp_max_bytes (al_rotation log)"
  have wf: "audit_codec_ok c" "al_lock_path log = lock_path ?p" "log_ok ?p ?k s"
    and closed: "\<forall>i. closed_text (gen_text ?p s i)"
    and canon: "\<And>i l. l \<in> set (log_lines (gen_text ?p s i)) \<Longrightarrow> read_event c l = Ok l"
    using assms(1) by (auto simp: audit_wf_def)
  obtain t where t: "unix_seconds (ae_timestamp e) = Ok t" "ac_to_vec c (disk_event t e) = Some ?l"
    using assms(2) by (rule event_okD)
  have "length ?l + 1 < 2 ^ 64" using assms(2) by (simp add: event_ok_def)
  then obtain len where len: "line_length VE_InvalidInput ?l = Ok len" "unat len = length ?l + 1"
    by (rule line_length_ok)
  obtain s1 where s1: "open_lock VE_StorageUnavailable (lock_path ?p) s = (Ok (), s1)" "log_ok ?p ?k s1"
    "\<And>i. gen ?p s1 i = gen ?p s i"
    by (rule open_lock_log[OF wf(3), where e = VE_StorageUnavailable]) auto
  obtain s2 where s2: "rotate_and_append VE_InvalidInput VE_StorageUnavailable ?p ?lim ?k ?l len (active_len ?p s1) s1 = (Ok (), s2)"
    "log_ok ?p ?k s2" "appended ?p ?k (must_rotate ?p ?lim len s1) ?l s1 s2"
    using rotate_and_append_gen[OF s1(2), of VE_InvalidInput VE_StorageUnavailable ?lim ?l len] by blast
  have app: "appended ?p ?k (must_rotate ?p ?lim len s) ?l s s2"
    using s2(3) by (simp add: same_gens[OF s1(3)])
  have "read_event c l = Ok l" if "l \<in> set (log_lines (gen_text ?p s2 i))" for i l
    using appended_gen_lines[OF app s2(2) event_line_canonical(1)[OF wf(1) assms(2)]] closed that
      event_line_canonical(2)[OF wf(1) assms(2)] canon by blast
  then have "audit_wf c log s2"
    using wf s2(2) appended_closed[OF app s2(2) closed] by (simp add: audit_wf_def)
  moreover have "AuditLog_append c log e s = (Ok (), s2)"
    using t s1(1) len(1) s2(1) wf(2) by (simp add: AuditLog_append_def file_len_gen[OF s1(2)])
  ultimately show ?thesis using app len(2) by blast
qed

section \<open>The log as a rotating log\<close>

definition audit_lines :: "AuditLog \<Rightarrow> Fs \<Rightarrow> string list" where
  "audit_lines log s = retained_lines (al_path log) (rp_retained_files (al_rotation log)) s"

interpretation audit: rotating_log "AuditLog_append c log" "event_line c" "event_ok c" "audit_wf c log" "audit_lines log"
proof
  fix s e
  assume wf: "audit_wf c log s" and ok: "event_ok c e"
  obtain s' len where s': "AuditLog_append c log e s = (Ok (), s')" "audit_wf c log s'"
    "appended (al_path log) (rp_retained_files (al_rotation log))
      (must_rotate (al_path log) (rp_max_bytes (al_rotation log)) len s) (event_line c e) s s'"
    using audit_append[OF wf ok] by blast
  have "line_ok (event_line c e)" "closed_text (gen_text (al_path log) s 0)"
    using wf ok event_line_canonical(1) by (auto simp: audit_wf_def)
  then show "\<exists>s' dropped. AuditLog_append c log e s = (Ok (), s') \<and> audit_wf c log s' \<and>
      audit_lines log s @ [event_line c e] = dropped @ audit_lines log s' \<and> audit_lines log s' \<noteq> []"
    using s' appended_lines(1,2)[OF s'(3)] by (auto simp: audit_lines_def)
qed

lemma read_lines_wf:
  assumes "audit_wf c log s" and "length (gen_text (al_path log) s 0) < 2 ^ 64"
  shows "fst (read_lines c log s) =
    (if length (gen_text (al_path log) s 0) \<le> unat (rp_max_bytes (al_rotation log))
     then Ok (log_lines (gen_text (al_path log) s 0)) else Err VE_StorageUnavailable)"
proof -
  let ?p = "al_path log" and ?k = "rp_retained_files (al_rotation log)" and ?lim = "rp_max_bytes (al_rotation log)"
  have wf: "al_lock_path log = lock_path ?p" "log_ok ?p ?k s"
    and canon: "\<And>l. l \<in> set (log_lines (gen_text ?p s 0)) \<Longrightarrow> read_event c l = Ok l"
    using assms(1) by (auto simp: audit_wf_def)
  obtain s1 where s1: "open_lock VE_StorageUnavailable (lock_path ?p) s = (Ok (), s1)" "log_ok ?p ?k s1"
    "\<And>i. gen ?p s1 i = gen ?p s i"
    by (rule open_lock_log[OF wf(2), where e = VE_StorageUnavailable]) auto
  note gt = same_gens(1)[OF s1(3)]
  have all: "try_map (read_event c) (log_lines (gen_text ?p s 0)) = Ok (log_lines (gen_text ?p s 0))"
    using canon by (simp add: try_map_ok_iff list_all2_same)
  show ?thesis
  proof (cases "length (gen_text ?p s 0) \<le> unat ?lim")
    case True
    have "read_bounded VE_StorageUnavailable ?p ?lim s1 = (Ok (gen ?p s 0), s1)"
      using read_bounded_gen[OF s1(2), of 0 ?lim VE_StorageUnavailable] True gt s1(3) by (simp add: gen_path.simps(1))
    then show ?thesis
      using True wf(1) s1(1) all by (auto simp: read_lines_def gen_text_def log_lines_def split: option.splits)
  next
    case False
    have "read_bounded VE_StorageUnavailable ?p ?lim s1 = (Err VE_StorageUnavailable, s1)"
      using read_bounded_too_long[OF s1(2), of ?lim 0 VE_StorageUnavailable] False gt assms(2) by (simp add: gen_path.simps(1))
    then show ?thesis using False wf(1) s1(1) by (simp add: read_lines_def)
  qed
qed

lemma audit_open_fresh:
  assumes "audit_codec_ok c" and "fs_working s" and "parent_dirs p s" and "2 \<le> length p" and "log_path p"
    and "RotationPolicy_new lim k = Ok rot" and "plain s (lock_path p)" and "\<forall>i. fs_nodes s (gen_path p i) = None"
  shows "\<exists>log s'. AuditLog_open p rot s = (Ok log, s') \<and> audit_wf c log s' \<and> audit_lines log s' = [] \<and>
     al_path log = p \<and> al_rotation log = rot \<and> gen_text p s' 0 = []"
proof -
  have k: "0 < k" "rp_retained_files rot = k" using assms(6) by (auto simp: RotationPolicy_new_def split: if_splits)
  have none: "gen p s i = None" for i using assms(8) by (simp add: gen_def content_def)
  then have ok: "log_ok p k s" using assms by (auto simp: log_ok_def plain_def k(1))
  obtain s1 where s1: "open_lock VE_StorageUnavailable (lock_path p) s = (Ok (), s1)" "log_ok p k s1"
    "\<And>i. gen p s1 i = gen p s i"
    by (rule open_lock_log[OF ok, where e = VE_StorageUnavailable]) auto
  have w: "fs_working s1" "plain s1 p" using s1(2) by (auto simp: log_ok_def dest: spec[of _ 0] simp: gen_path.simps(1))
  obtain s2 where s2: "restrict_file VE_StorageUnavailable p s1 = (Ok (), s2)" "same_files {} s1 s2"
    by (rule restrict_file_plain[OF w])
  have g2: "log_ok p k s2" "gen p s2 i = None" for i
    using log_ok_same_files[OF s1(2) s2(2)] s1(3) none by auto
  let ?log = "\<lparr>al_path = p, al_lock_path = lock_path p, al_rotation = rot\<rparr>"
  have p0: "plain s p" using ok by (auto simp: log_ok_def dest: spec[of _ 0] simp: gen_path.simps(1))
  have "AuditLog_open p rot s = (Ok ?log, s2)"
    using s1(1) s2(1)
    by (simp add: AuditLog_open_def prepare_parent_dirs[OF assms(2-4)] adjacent_lock[OF assms(5)] reject_symlink_plain[OF assms(2) p0])
  moreover have "audit_wf c ?log s2"
    using assms(1) g2 k by (simp add: audit_wf_def gen_text_def log_lines_def)
  moreover have "audit_lines ?log s2 = []"
    using g2(2) by (simp add: audit_lines_def retained_lines_def gen_text_def log_lines_def)
  moreover have "gen_text p s2 0 = []" using g2(2) by (simp add: gen_text_def)
  ultimately show ?thesis by fastforce
qed

section \<open>Properties\<close>

text \<open>A codec and an event for the witnesses.\<close>

definition wit_codec :: AuditCodec where
  "wit_codec = \<lparr>ac_to_vec = (\<lambda>e. if e = disk_event 1 \<lparr>ae_timestamp = 0, ae_action = AA_Clear, ae_outcome = AO_Succeeded, ae_safe_ref = None\<rparr>
                                then Some ''clear'' else None),
     ac_from_slice = (\<lambda>b. if b = ''clear'' then Some (disk_event 1 \<lparr>ae_timestamp = 0, ae_action = AA_Clear, ae_outcome = AO_Succeeded, ae_safe_ref = None\<rparr>) else None),
     ac_to_string = (\<lambda>_. Some ''clear'')\<rparr>"

definition wit_event :: AuditEvent where
  "wit_event = AuditEvent_now 1500000000 AA_Clear AO_Succeeded None"

lemma wit_codec_ok: "audit_codec_ok wit_codec"
  by (simp add: audit_codec_ok_def wit_codec_def line_ok_def)

lemma wit_event_ok: "event_ok wit_codec wit_event" "event_line wit_codec wit_event = ''clear''"
proof -
  show "event_line wit_codec wit_event = ''clear''"
    by (simp add: event_line_def wit_event_def AuditEvent_now_def unix_seconds_def wit_codec_def disk_event_def)
  then show "event_ok wit_codec wit_event"
    by (simp add: event_ok_def wit_event_def AuditEvent_now_def wit_codec_def disk_event_def)
qed

text \<open>
  The audit log forgets only from its old end.  Appending any sequence of events to a
  well-formed log succeeds, keeps it well-formed, and what the log then holds, over the active
  file and every archive, is the history (what it held, then the new lines in order) without some
  of its oldest lines; the last event is always there.
\<close>

theorem audit_history:
  assumes "audit_wf c log s" and "\<forall>e\<in>set es. event_ok c e"
  shows "\<exists>s' dropped. append_each (AuditLog_append c log) es s = (Ok (), s') \<and> audit_wf c log s' \<and>
    audit_lines log s @ map (event_line c) es = dropped @ audit_lines log s' \<and>
    (es \<noteq> [] \<longrightarrow> audit_lines log s' \<noteq> [] \<and> last (audit_lines log s') = event_line c (last es))"
  using assms by (rule audit.append_each_suffix)

theorem audit_history_witness:
  "\<exists>rot log s s' dropped. RotationPolicy_new 8 2 = Ok rot \<and>
     AuditLog_open [''home'', ''audit''] rot wit_dir = (Ok log, s) \<and>
     append_each (AuditLog_append wit_codec log) [wit_event, wit_event, wit_event] s = (Ok (), s') \<and>
     [''clear'', ''clear'', ''clear''] = dropped @ audit_lines log s' \<and> last (audit_lines log s') = ''clear''"
proof -
  obtain rot where rot: "RotationPolicy_new 8 2 = Ok rot" by (simp add: RotationPolicy_new_def)
  have "log_path [''home'', ''audit'']" by (simp add: log_path_def)
  from audit_open_fresh[OF wit_codec_ok wit_dir_ok(1,2) _ this rot wit_dir_ok(3)]
  obtain log s where log: "AuditLog_open [''home'', ''audit''] rot wit_dir = (Ok log, s)" "audit_wf wit_codec log s"
    "audit_lines log s = []"
    using wit_dir_ok(4) by auto
  from audit_history[OF log(2), of "[wit_event, wit_event, wit_event]"]
  show ?thesis using rot log(1,3) wit_event_ok by auto
qed

text \<open>
  What a reader sees after an append.  If the event with its newline fits the limit, reading
  the active file succeeds and the last line read is that event.  If it does not fit, the append
  still succeeds, and reading the log fails until the next rotation.
\<close>

theorem audit_append_read:
  assumes "audit_wf c log s" and "event_ok c e" and "length (gen_text (al_path log) s 0) + length (event_line c e) + 1 < 2 ^ 64"
  shows "\<exists>s' ls. AuditLog_append c log e s = (Ok (), s') \<and>
    fst (read_lines c log s') =
      (if length (event_line c e) + 1 \<le> unat (rp_max_bytes (al_rotation log)) then Ok (ls @ [event_line c e])
       else Err VE_StorageUnavailable)"
proof -
  let ?p = "al_path log" and ?l = "event_line c e"
  obtain s' len where s': "AuditLog_append c log e s = (Ok (), s')" "audit_wf c log s'" "unat len = length ?l + 1"
    and app: "appended ?p (rp_retained_files (al_rotation log)) (must_rotate ?p (rp_max_bytes (al_rotation log)) len s) ?l s s'"
    using audit_append[OF assms(1,2)] by blast
  note len = appended_active_length[OF app s'(3) assms(3)]
  have c: "line_ok ?l" "closed_text (gen_text ?p s 0)"
    using assms(1,2) event_line_canonical(1) by (auto simp: audit_wf_def)
  have "\<exists>b. closed_text b \<and> gen_text ?p s' 0 = b @ ?l @ nl"
    using app c(2) closed_text_line(2) by (auto simp: appended_def gen_text_def[of ?p s'] split: if_splits)
  then obtain b where "closed_text b" "gen_text ?p s' 0 = b @ ?l @ nl" by blast
  then have "log_lines (gen_text ?p s' 0) = log_lines b @ [?l]"
    by (simp add: log_lines_append log_lines_line[OF c(1)])
  then show ?thesis using s'(1) read_lines_wf[OF s'(2) len(1)] len(2) by auto
qed

theorem audit_append_read_witness:
  "\<exists>rot log s s'. RotationPolicy_new 3 1 = Ok rot \<and>
     AuditLog_open [''home'', ''audit''] rot wit_dir = (Ok log, s) \<and>
     AuditLog_append wit_codec log wit_event s = (Ok (), s') \<and>
     fst (read_lines wit_codec log s') = Err VE_StorageUnavailable"
proof -
  obtain rot where rot: "RotationPolicy_new 3 1 = Ok rot" "rp_max_bytes rot = 3" by (simp add: RotationPolicy_new_def)
  have "log_path [''home'', ''audit'']" by (simp add: log_path_def)
  from audit_open_fresh[OF wit_codec_ok wit_dir_ok(1,2) _ this rot(1) wit_dir_ok(3)]
  obtain log s where log: "AuditLog_open [''home'', ''audit''] rot wit_dir = (Ok log, s)" "audit_wf wit_codec log s"
    "audit_lines log s = []" "al_path log = [''home'', ''audit'']" "al_rotation log = rot" "gen_text [''home'', ''audit''] s 0 = []"
    using wit_dir_ok(4) by auto
  have "length (gen_text (al_path log) s 0) + length (event_line wit_codec wit_event) + 1 < 2 ^ 64"
    using log(4,6) wit_event_ok(2) by simp
  from audit_append_read[OF log(2) wit_event_ok(1) this]
  show ?thesis using rot log(1,5) wit_event_ok(2) by auto
qed

end
