(* ===== verification/Trace.thy ===== *)
theory Trace
  imports Rotating_Log
begin

text \<open>
  Payload-free request tracing (\<open>crates/blindfold-trace/src/lib.rs\<close>): the closed record schema and
  its validation, and the owner-only rotating store.  Rotation, the byte-level append and the file
  helpers are those of \<open>Rotating_Log\<close> and \<open>Fs_Model\<close> with this crate's errors.  The JSON codec of a
  record is a parameter.
\<close>

section \<open>Records\<close>

datatype TraceError = TE_InvalidInput | TE_StorageUnavailable

fun TraceError_fmt :: "TraceError \<Rightarrow> string" where
  "TraceError_fmt TE_InvalidInput = ''trace metadata is invalid''"
| "TraceError_fmt TE_StorageUnavailable = ''trace storage is unavailable''"

datatype Route =
    Route_OpenAi | Route_Anthropic | Route_Unknown | Route_Redact | Route_Mask | Route_Scan | Route_Exec
  | Route_Call | Route_Policy | Route_DiffCheck | Route_Vault | Route_Audit | Route_Proxy | Route_Egress
  | Route_Mcp | Route_RunClaude | Route_RunCodex | Route_RunOpencode | Route_Init | Route_Doctor

datatype Coverage = Cov_Protected | Cov_Degraded | Cov_Unprotected

datatype Outcome = Out_Observed | Out_Succeeded | Out_Rejected | Out_Failed | Out_TimedOut

datatype Issue =
    Issue_UnsupportedRequest | Issue_UnsupportedResponse | Issue_RequestTooLarge | Issue_ResponseTooLarge
  | Issue_InvalidPayload | Issue_ProxyLoop | Issue_RouteNotAllowed | Issue_UpstreamFailure | Issue_Timeout
  | Issue_DirectFilesystemUnmediated

datatype Category =
    Cat_OpenAiApiKey | Cat_AnthropicApiKey | Cat_GitHubToken | Cat_StripeKey | Cat_SlackToken
  | Cat_AwsAccessKeyId | Cat_AwsSecretAccessKey | Cat_BearerToken | Cat_Jwt | Cat_OAuthToken
  | Cat_PemPrivateKey | Cat_CredentialUrl | Cat_EmailAddress | Cat_PhoneNumber | Cat_Password
  | Cat_ApiKey | Cat_Token | Cat_Sensitive

fun Category_label :: "Category \<Rightarrow> string" where
  "Category_label Cat_OpenAiApiKey = ''openai_api_key''"
| "Category_label Cat_AnthropicApiKey = ''anthropic_api_key''"
| "Category_label Cat_GitHubToken = ''github_token''"
| "Category_label Cat_StripeKey = ''stripe_key''"
| "Category_label Cat_SlackToken = ''slack_token''"
| "Category_label Cat_AwsAccessKeyId = ''aws_access_key_id''"
| "Category_label Cat_AwsSecretAccessKey = ''aws_secret_access_key''"
| "Category_label Cat_BearerToken = ''bearer_token''"
| "Category_label Cat_Jwt = ''jwt''"
| "Category_label Cat_OAuthToken = ''oauth_token''"
| "Category_label Cat_PemPrivateKey = ''pem_private_key''"
| "Category_label Cat_CredentialUrl = ''credential_url''"
| "Category_label Cat_EmailAddress = ''email_address''"
| "Category_label Cat_PhoneNumber = ''phone_number''"
| "Category_label Cat_Password = ''password''"
| "Category_label Cat_ApiKey = ''api_key''"
| "Category_label Cat_Token = ''token''"
| "Category_label Cat_Sensitive = ''sensitive''"

record Replacement =
  rep_id :: string
  rep_category :: Category
  rep_pointer :: string
  rep_occurrences :: "32 word"

definition Replacement_validate :: "Replacement \<Rightarrow> TraceError + unit" where
  "Replacement_validate r =
     (let valid_id = (case strip_prefix ''S'' (rep_id r) of
                        Some digits \<Rightarrow> digits \<noteq> [] \<and> list_all is_ascii_digit digits | None \<Rightarrow> False);
          valid_pointer = (length (rep_pointer r) \<le> 256 \<and> starts_with ''/'' (rep_pointer r) \<and>
             list_all (\<lambda>b. is_ascii_alphanumeric b \<or> b \<in> set ''/_-~*'') (rep_pointer r))
      in if valid_id \<and> valid_pointer \<and> rep_occurrences r > 0 then Ok () else Err TE_InvalidInput)"

definition Replacement_new :: "string \<Rightarrow> Category \<Rightarrow> string \<Rightarrow> 32 word \<Rightarrow> TraceError + Replacement" where
  "Replacement_new i category pointer occurrences =
     (let replacement = \<lparr>rep_id = i, rep_category = category, rep_pointer = pointer, rep_occurrences = occurrences\<rparr>
      in res_bind (Replacement_validate replacement) (\<lambda>_. Ok replacement))"

record Record =
  rec_version :: "8 word"
  rec_timestamp :: "64 word"
  rec_request_id :: string
  rec_route :: Route
  rec_coverage :: Coverage
  rec_outcome :: Outcome
  rec_request_bytes :: "64 word \<times> 64 word"
  rec_response_bytes :: "64 word \<times> 64 word"
  rec_replacements :: "Replacement list"
  rec_issue :: "Issue option"

definition Record_validate :: "Record \<Rightarrow> TraceError + unit" where
  "Record_validate r =
     (let valid_id = (length (rec_request_id r) \<le> 80 \<and>
            (case strip_prefix ''req_'' (rec_request_id r) of
               Some rest \<Rightarrow> rest \<noteq> [] \<and> list_all (\<lambda>b. is_ascii_hexdigit b \<or> b = CHR ''_'') rest | None \<Rightarrow> False));
          valid_state = ((rec_coverage r = Cov_Protected \<and> rec_issue r = None) \<or>
                         (rec_coverage r \<noteq> Cov_Protected \<and> rec_issue r \<noteq> None))
      in if rec_version r \<noteq> 1 \<or> \<not> valid_id \<or> \<not> valid_state \<or> length (rec_replacements r) > 1024 then Err TE_InvalidInput
         else try_all Replacement_validate (rec_replacements r))"

definition Record_now ::
  "int \<Rightarrow> string \<Rightarrow> Route \<Rightarrow> Coverage \<Rightarrow> Outcome \<Rightarrow> 64 word \<times> 64 word \<Rightarrow> 64 word \<times> 64 word \<Rightarrow> Replacement list \<Rightarrow>
     Issue option \<Rightarrow> TraceError + Record"
where
  "Record_now clock request_id route coverage outcome request_bytes response_bytes replacements issue =
     res_bind (if clock < 0 then Err TE_InvalidInput else Ok (word_of_int (clock div 1000000000))) (\<lambda>timestamp.
     let rec = \<lparr>rec_version = 1, rec_timestamp = timestamp, rec_request_id = request_id, rec_route = route,
                rec_coverage = coverage, rec_outcome = outcome, rec_request_bytes = request_bytes,
                rec_response_bytes = response_bytes, rec_replacements = replacements, rec_issue = issue\<rparr>
     in res_bind (Record_validate rec) (\<lambda>_. Ok rec))"

record TraceCodec =
  tc_to_string :: "Record \<Rightarrow> string option"
  tc_from_slice :: "string \<Rightarrow> Record option"

text \<open>What the code relies on: a record is written as one non-empty line that reads back as it.\<close>

definition trace_codec_ok :: "TraceCodec \<Rightarrow> bool" where
  "trace_codec_ok c \<longleftrightarrow> (\<forall>r b. tc_to_string c r = Some b \<longrightarrow> line_ok b \<and> tc_from_slice c b = Some r)"

definition to_json :: "TraceCodec \<Rightarrow> Record \<Rightarrow> TraceError + string" where
  "to_json c r = ok_or (tc_to_string c r) TE_StorageUnavailable"

section \<open>The store\<close>

record Store =
  ts_path :: path
  ts_lock_path :: path
  ts_max_bytes :: "64 word"
  ts_retained_files :: nat

text \<open>\<open>mode & 0o077\<close>: any permission of the group or of others.\<close>

definition reject_unsafe_dir :: "path \<Rightarrow> (TraceError, unit) fsm" where
  "reject_unsafe_dir p = (\<lambda>s.
     if \<not> fs_allows s Op_Stat p then (Err TE_StorageUnavailable, s)
     else case fs_nodes s p of
       Some (NDir mode) \<Rightarrow> if mode mod 64 \<noteq> 0 then (Err TE_StorageUnavailable, s) else (Ok (), s)
     | Some (NFile _ mode) \<Rightarrow> if mode mod 64 \<noteq> 0 then (Err TE_StorageUnavailable, s) else (Ok (), s)
     | _ \<Rightarrow> (Err TE_StorageUnavailable, s))"

definition trace_prepare_parent :: "path \<Rightarrow> (TraceError, unit) fsm" where
  "trace_prepare_parent p =
     (if p = [] then fs_err TE_InvalidInput
      else let parent = butlast p in
        fs_bind (reject_symlink TE_StorageUnavailable parent) (\<lambda>st.
        fs_bind (create_dir_all TE_StorageUnavailable parent) (\<lambda>_.
        fs_bind (reject_symlink TE_StorageUnavailable parent) (\<lambda>_.
        if st = PathState_Missing then restrict_dir TE_StorageUnavailable parent else reject_unsafe_dir parent))))"

definition Store_open :: "path \<Rightarrow> 64 word \<Rightarrow> nat \<Rightarrow> (TraceError, Store) fsm" where
  "Store_open p max_bytes retained_files =
     (if max_bytes = 0 \<or> retained_files = 0 then fs_err TE_InvalidInput
      else
        fs_bind (trace_prepare_parent p) (\<lambda>_.
        fs_bind (reject_symlink TE_StorageUnavailable p) (\<lambda>_.
        fs_bind (fs_lift (adjacent_path TE_InvalidInput p ''lock'')) (\<lambda>lock_path.
        fs_bind (open_lock TE_StorageUnavailable lock_path) (\<lambda>_.
        fs_bind (restrict_file TE_StorageUnavailable p) (\<lambda>_.
        fs_ret \<lparr>ts_path = p, ts_lock_path = lock_path, ts_max_bytes = max_bytes, ts_retained_files = retained_files\<rparr>))))))"

definition Store_append :: "TraceCodec \<Rightarrow> Store \<Rightarrow> Record \<Rightarrow> (TraceError, unit) fsm" where
  "Store_append c st r =
     fs_bind (fs_lift (Record_validate r)) (\<lambda>_.
     fs_bind (fs_lift (to_json c r)) (\<lambda>line.
     fs_bind (fs_lift (line_length TE_InvalidInput line)) (\<lambda>line_len.
     if line_len > ts_max_bytes st then fs_err TE_InvalidInput
     else
       fs_bind (open_lock TE_StorageUnavailable (ts_lock_path st)) (\<lambda>_.
       fs_bind (file_len TE_StorageUnavailable (ts_path st)) (\<lambda>current_len.
       rotate_and_append TE_InvalidInput TE_StorageUnavailable (ts_path st) (ts_max_bytes st) (ts_retained_files st)
         line line_len current_len)))))"

definition read_record :: "TraceCodec \<Rightarrow> string \<Rightarrow> TraceError + Record" where
  "read_record c line =
     res_bind (ok_or (tc_from_slice c line) TE_StorageUnavailable) (\<lambda>r.
     res_bind (map_err (\<lambda>_. TE_StorageUnavailable) (Record_validate r)) (\<lambda>_. Ok r))"

definition read_path :: "TraceCodec \<Rightarrow> Store \<Rightarrow> path \<Rightarrow> Record list \<Rightarrow> (TraceError, Record list) fsm" where
  "read_path c st p records =
     fs_bind (read_bounded TE_StorageUnavailable p (ts_max_bytes st)) (\<lambda>file.
     case file of
       None \<Rightarrow> fs_ret records
     | Some contents \<Rightarrow> fs_lift (res_map (\<lambda>rs. records @ rs) (try_map (read_record c) (log_lines contents))))"

fun read_generations :: "TraceCodec \<Rightarrow> Store \<Rightarrow> nat list \<Rightarrow> Record list \<Rightarrow> (TraceError, Record list) fsm" where
  "read_generations c st [] records = fs_ret records"
| "read_generations c st (g # gs) records =
     fs_bind (fs_lift (rotated_path TE_InvalidInput (ts_path st) g)) (\<lambda>p.
     fs_bind (read_path c st p records) (read_generations c st gs))"

definition read_all :: "TraceCodec \<Rightarrow> Store \<Rightarrow> (TraceError, Record list) fsm" where
  "read_all c st =
     fs_bind (open_lock TE_StorageUnavailable (ts_lock_path st)) (\<lambda>_.
     fs_bind (read_generations c st (rev [1..<Suc (ts_retained_files st)]) []) (
     read_path c st (ts_path st)))"

fun clear_generations :: "Store \<Rightarrow> nat list \<Rightarrow> nat \<Rightarrow> (TraceError, nat) fsm" where
  "clear_generations st [] removed = fs_ret removed"
| "clear_generations st (g # gs) removed =
     fs_bind (fs_lift (if g = 0 then Ok (ts_path st) else rotated_path TE_InvalidInput (ts_path st) g)) (\<lambda>p.
     fs_bind (reject_symlink TE_StorageUnavailable p) (\<lambda>_.
     fs_bind (os_remove TE_StorageUnavailable p) (\<lambda>found.
     clear_generations st gs (if found then removed + 1 else removed))))"

definition Store_clear :: "Store \<Rightarrow> (TraceError, nat) fsm" where
  "Store_clear st =
     fs_bind (open_lock TE_StorageUnavailable (ts_lock_path st)) (\<lambda>_.
     clear_generations st [0..<Suc (ts_retained_files st)] 0)"

section \<open>Validation\<close>

definition closed_replacement :: "Replacement \<Rightarrow> bool" where
  "closed_replacement r \<longleftrightarrow>
     (\<exists>ds. rep_id r = CHR ''S'' # ds \<and> ds \<noteq> [] \<and> list_all is_ascii_digit ds) \<and>
     (\<exists>q. rep_pointer r = CHR ''/'' # q) \<and> length (rep_pointer r) \<le> 256 \<and>
     list_all (\<lambda>b. is_ascii_alphanumeric b \<or> b \<in> set ''/_-~*'') (rep_pointer r) \<and> rep_occurrences r \<noteq> 0"

definition closed_record :: "Record \<Rightarrow> bool" where
  "closed_record r \<longleftrightarrow>
     rec_version r = 1 \<and> length (rec_request_id r) \<le> 80 \<and>
     (\<exists>x. rec_request_id r = ''req_'' @ x \<and> x \<noteq> [] \<and> list_all (\<lambda>b. is_ascii_hexdigit b \<or> b = CHR ''_'') x) \<and>
     (rec_issue r = None \<longleftrightarrow> rec_coverage r = Cov_Protected) \<and>
     length (rec_replacements r) \<le> 1024 \<and> list_all closed_replacement (rec_replacements r)"

lemma Replacement_validate_iff [res_simps]: "Replacement_validate r = Ok u \<longleftrightarrow> closed_replacement r"
  by (simp add: Replacement_validate_def closed_replacement_def case_strip_prefix starts_with_iff word_neq_0_conv)

lemma Record_validate_iff [res_simps]: "Record_validate r = Ok u \<longleftrightarrow> closed_record r"
  by (auto simp: Record_validate_def closed_record_def Let_def case_strip_prefix try_all_ok_iff Replacement_validate_iff list_all_iff)

lemma Record_validate_err: "Record_validate r \<noteq> Ok () \<Longrightarrow> Record_validate r = Err TE_InvalidInput"
proof -
  assume "Record_validate r \<noteq> Ok ()"
  then obtain e where e: "Record_validate r = Err e" by (cases "Record_validate r") auto
  have "Replacement_validate q = Err e \<Longrightarrow> e = TE_InvalidInput" for q
    by (auto simp: Replacement_validate_def Let_def split: if_splits)
  then show ?thesis using e try_all_err_ex[of Replacement_validate "rec_replacements r" e]
    by (auto simp: Record_validate_def Let_def split: if_splits)
qed

section \<open>Invariant\<close>

definition trace_wf :: "TraceCodec \<Rightarrow> Store \<Rightarrow> Fs \<Rightarrow> bool" where
  "trace_wf c st s \<longleftrightarrow>
     trace_codec_ok c \<and> ts_lock_path st = lock_path (ts_path st) \<and> unat (ts_max_bytes st) < 2 ^ 64 - 1 \<and>
     log_ok (ts_path st) (ts_retained_files st) s \<and>
     (\<forall>i. closed_text (gen_text (ts_path st) s i)) \<and>
     (\<forall>i. length (gen_text (ts_path st) s i) \<le> unat (ts_max_bytes st)) \<and>
     (\<forall>i. \<forall>l\<in>set (log_lines (gen_text (ts_path st) s i)). \<exists>r. read_record c l = Ok r)"

definition line_records :: "TraceCodec \<Rightarrow> string list \<Rightarrow> Record list" where
  "line_records c ls = concat (map (\<lambda>l. case read_record c l of Inl _ \<Rightarrow> [] | Inr r \<Rightarrow> [r]) ls)"

definition trace_records :: "TraceCodec \<Rightarrow> Store \<Rightarrow> Fs \<Rightarrow> Record list" where
  "trace_records c st s = line_records c (retained_lines (ts_path st) (ts_retained_files st) s)"

definition record_ok :: "TraceCodec \<Rightarrow> Store \<Rightarrow> Record \<Rightarrow> bool" where
  "record_ok c st r \<longleftrightarrow>
     closed_record r \<and> (case tc_to_string c r of None \<Rightarrow> False | Some l \<Rightarrow> length l + 1 \<le> unat (ts_max_bytes st))"

lemma line_records_append [simp]: "line_records c (a @ b) = line_records c a @ line_records c b"
  by (simp add: line_records_def)

lemma try_map_line_records:
  "\<forall>l\<in>set ls. \<exists>r. read_record c l = Ok r \<Longrightarrow> try_map (read_record c) ls = Ok (line_records c ls)"
  by (induction ls) (auto simp: line_records_def)

lemma store_append_wf:
  assumes "trace_wf c st s" and "record_ok c st r"
  shows "\<exists>s' l rot. Store_append c st r s = (Ok (), s') \<and> trace_wf c st s' \<and> line_ok l \<and> read_record c l = Ok r \<and>
    closed_text (gen_text (ts_path st) s 0) \<and> appended (ts_path st) (ts_retained_files st) rot l s s'"
proof -
  let ?p = "ts_path st" and ?k = "ts_retained_files st" and ?lim = "ts_max_bytes st"
  have wf: "trace_codec_ok c" "ts_lock_path st = lock_path ?p" "unat ?lim < 2 ^ 64 - 1" "log_ok ?p ?k s"
    and closed: "\<forall>i. closed_text (gen_text ?p s i)" and small: "\<forall>i. length (gen_text ?p s i) \<le> unat ?lim"
    and reads: "\<And>i l. l \<in> set (log_lines (gen_text ?p s i)) \<Longrightarrow> \<exists>r. read_record c l = Ok r"
    using assms(1) by (auto simp: trace_wf_def)
  obtain l where l: "tc_to_string c r = Some l" "length l + 1 \<le> unat ?lim" and valid: "Record_validate r = Ok ()"
    using assms(2) by (auto simp: record_ok_def Record_validate_iff split: option.splits)
  have lr: "line_ok l" "read_record c l = Ok r"
    using wf(1) l(1) valid by (auto simp: trace_codec_ok_def read_record_def)
  have "length l + 1 < 2 ^ 64" using l(2) wf(3) by simp
  then obtain len where len: "line_length TE_InvalidInput l = Ok len" "unat len = length l + 1"
    by (rule line_length_ok)
  obtain s1 where s1: "open_lock TE_StorageUnavailable (lock_path ?p) s = (Ok (), s1)" "log_ok ?p ?k s1"
    "\<And>i. gen ?p s1 i = gen ?p s i"
    by (rule open_lock_log[OF wf(4), where e = TE_StorageUnavailable]) auto
  obtain s2 where s2: "rotate_and_append TE_InvalidInput TE_StorageUnavailable ?p ?lim ?k l len (active_len ?p s1) s1 = (Ok (), s2)"
    "log_ok ?p ?k s2" "appended ?p ?k (must_rotate ?p ?lim len s1) l s1 s2"
    using rotate_and_append_gen[OF s1(2), of TE_InvalidInput TE_StorageUnavailable ?lim l len] by blast
  have app: "appended ?p ?k (must_rotate ?p ?lim len s) l s s2" using s2(3) by (simp add: same_gens[OF s1(3)])
  have "\<exists>r. read_record c x = Ok r" if "x \<in> set (log_lines (gen_text ?p s2 i))" for i x
    using appended_gen_lines[OF app s2(2) lr(1)] closed that lr(2) reads by blast
  then have "trace_wf c st s2"
    using wf s2(2) appended_closed[OF app s2(2) closed] appended_bounded[OF app s2(2) len(2) l(2) wf(3) small]
    by (auto simp: trace_wf_def)
  moreover have "Store_append c st r s = (Ok (), s2)"
    using l valid len s1(1) s2(1) wf(2)
    by (simp add: Store_append_def to_json_def file_len_gen[OF s1(2)] word_less_nat_alt)
  ultimately show ?thesis using lr closed app by blast
qed

interpretation trace: rotating_log "Store_append c st" "\<lambda>r. r" "record_ok c st" "trace_wf c st" "trace_records c st"
proof
  fix s r
  assume "trace_wf c st s" "record_ok c st r"
  from store_append_wf[OF this]
  obtain s' l rot where s': "Store_append c st r s = (Ok (), s')" "trace_wf c st s'" "line_ok l" "read_record c l = Ok r"
    and app: "appended (ts_path st) (ts_retained_files st) rot l s s'" and cl: "closed_text (gen_text (ts_path st) s 0)"
    by blast
  let ?held = "retained_lines (ts_path st) (ts_retained_files st)"
  note a = appended_lines[OF app s'(3) cl]
  have "line_records c (?held s @ [l]) = trace_records c st s @ [r]"
    using s'(4) by (simp add: trace_records_def line_records_def)
  then have 1: "trace_records c st s @ [r] =
      line_records c (if rot then log_lines (gen_text (ts_path st) s (ts_retained_files st)) else []) @ trace_records c st s'"
    using a(1) by (simp only: line_records_append trace_records_def)
  obtain ls where "?held s' = ls @ [l]" using a(2,3) by (metis append_butlast_last_id)
  then have "trace_records c st s' = line_records c ls @ [r]"
    using s'(4) by (simp add: trace_records_def) (simp add: line_records_def)
  then have "trace_records c st s' \<noteq> []" by simp
  then show "\<exists>s' dropped. Store_append c st r s = (Ok (), s') \<and> trace_wf c st s' \<and>
      trace_records c st s @ [r] = dropped @ trace_records c st s' \<and> trace_records c st s' \<noteq> []"
    using s'(1,2) 1 by blast
qed

section \<open>Reading and clearing\<close>

lemma trace_wf_same_gens:
  assumes "trace_wf c st s" and "log_ok (ts_path st) (ts_retained_files st) s'"
    and "\<And>i. gen (ts_path st) s' i = gen (ts_path st) s i"
  shows "trace_wf c st s'" and "trace_records c st s' = trace_records c st s"
  using assms(1,2) by (simp_all add: trace_wf_def trace_records_def same_gens[OF assms(3)])

lemma read_path_gen:
  assumes "trace_wf c st s"
  shows "read_path c st (gen_path (ts_path st) i) records s =
    (Ok (records @ line_records c (log_lines (gen_text (ts_path st) s i))), s)"
proof -
  let ?p = "ts_path st"
  have wf: "log_ok ?p (ts_retained_files st) s" "length (gen_text ?p s i) \<le> unat (ts_max_bytes st)"
    "\<forall>l\<in>set (log_lines (gen_text ?p s i)). \<exists>r. read_record c l = Ok r"
    using assms by (auto simp: trace_wf_def)
  show ?thesis
  proof (cases "gen ?p s i")
    case None
    then show ?thesis
      by (simp add: read_path_def read_bounded_gen[OF wf(1,2)] gen_text_def log_lines_def line_records_def)
  next
    case (Some b)
    then show ?thesis
      using try_map_line_records[OF wf(3)] by (simp add: read_path_def read_bounded_gen[OF wf(1,2)] gen_text_def)
  qed
qed

lemma read_generations_gen:
  assumes "trace_wf c st s" and "\<forall>g\<in>set gs. 0 < g"
  shows "read_generations c st gs records s =
    (Ok (records @ line_records c (concat (map (\<lambda>i. log_lines (gen_text (ts_path st) s i)) gs))), s)"
  using assms(2)
proof (induction gs arbitrary: records)
  case (Cons g gs)
  have "log_path (ts_path st)" using assms(1) by (simp add: trace_wf_def log_ok_def)
  then show ?case
    using Cons by (simp add: rotated_path_gen read_path_gen[OF assms(1)])
qed (simp add: line_records_def)

lemma read_all_wf:
  assumes "trace_wf c st s"
  shows "fst (read_all c st s) = Ok (trace_records c st s)"
proof -
  let ?p = "ts_path st" and ?k = "ts_retained_files st"
  have wf: "ts_lock_path st = lock_path ?p" "log_ok ?p ?k s" using assms by (auto simp: trace_wf_def)
  obtain s1 where s1: "open_lock TE_StorageUnavailable (lock_path ?p) s = (Ok (), s1)" "log_ok ?p ?k s1"
    "\<And>i. gen ?p s1 i = gen ?p s i"
    by (rule open_lock_log[OF wf(2), where e = TE_StorageUnavailable]) auto
  note wf1 = trace_wf_same_gens(1)[OF assms s1(2,3)]
  have "rev [0..<Suc ?k] = rev [1..<Suc ?k] @ [0]" by (simp add: upt_conv_Cons)
  then have "trace_records c st s1 =
      line_records c (concat (map (\<lambda>i. log_lines (gen_text ?p s1 i)) (rev [1..<Suc ?k]))) @ line_records c (log_lines (gen_text ?p s1 0))"
    by (simp add: trace_records_def retained_lines_def del: upt_Suc)
  moreover have "read_generations c st (rev [1..<Suc ?k]) [] s1 =
      (Ok ([] @ line_records c (concat (map (\<lambda>i. log_lines (gen_text ?p s1 i)) (rev [1..<Suc ?k])))), s1)"
    by (rule read_generations_gen[OF wf1]) auto
  ultimately show ?thesis
    using s1(1) wf(1) trace_wf_same_gens(2)[OF assms s1(2,3)] read_path_gen[OF wf1, of 0]
    by (simp add: read_all_def gen_path.simps(1) del: upt_Suc)
qed

lemma clear_generations_gen:
  assumes "gens_plain (ts_path st) s" and "distinct gs"
  shows "\<exists>s'. clear_generations st gs n s = (Ok (n + length (filter (\<lambda>i. gen (ts_path st) s i \<noteq> None) gs)), s') \<and>
    gens_plain (ts_path st) s' \<and> (\<forall>i. gen (ts_path st) s' i = (if i \<in> set gs then None else gen (ts_path st) s i))"
  using assms
proof (induction gs arbitrary: s n)
  case (Cons g gs)
  let ?p = "ts_path st"
  have lp: "log_path ?p" using Cons.prems(1) by (simp add: gens_plain_def)
  obtain x where rs: "reject_symlink TE_StorageUnavailable (gen_path ?p g) s = (Ok x, s)"
    using gens_plain_reject[OF Cons.prems(1), of TE_StorageUnavailable g] by blast
  obtain s1 where s1: "os_remove TE_StorageUnavailable (gen_path ?p g) s = (Ok (gen ?p s g \<noteq> None), s1)"
    "gens_plain ?p s1" "\<And>j. gen ?p s1 j = (if j = g then None else gen ?p s j)"
    by (rule os_remove_gen[OF Cons.prems(1), where e = TE_StorageUnavailable and i = g]) auto
  have "(if g = 0 then Ok ?p else rotated_path TE_InvalidInput ?p g) = Ok (gen_path ?p g)"
    using rotated_path_gen[OF lp, of g TE_InvalidInput] by (simp add: gen_path.simps(1))
  then have run: "clear_generations st (g # gs) n s =
      clear_generations st gs (if gen ?p s g \<noteq> None then n + 1 else n) s1"
    using rs s1(1) by simp
  have same: "filter (\<lambda>i. gen ?p s1 i \<noteq> None) gs = filter (\<lambda>i. gen ?p s i \<noteq> None) gs"
    using s1(3) Cons.prems(2) by (intro filter_cong) auto
  have "distinct gs" using Cons.prems(2) by simp
  from Cons.IH[OF s1(2) this, of "if gen ?p s g \<noteq> None then n + 1 else n"]
  obtain s2 where s2: "clear_generations st gs (if gen ?p s g \<noteq> None then n + 1 else n) s1 =
      (Ok ((if gen ?p s g \<noteq> None then n + 1 else n) + length (filter (\<lambda>i. gen ?p s i \<noteq> None) gs)), s2)"
    "gens_plain ?p s2" "\<forall>i. gen ?p s2 i = (if i \<in> set gs then None else gen ?p s1 i)"
    unfolding same by blast
  show ?case using run s2 s1(3) by (intro exI[of _ s2]) auto
qed simp

section \<open>Opening\<close>

lemma trace_prepare_parent_existing:
  assumes "fs_working s" and "parent_dirs p s" and "2 \<le> length p" and "fs_nodes s (butlast p) = Some (NDir mode)"
  shows "trace_prepare_parent p s = (if mode mod 64 = 0 then (Ok (), s) else (Err TE_StorageUnavailable, s))"
proof -
  have "create_dir_all TE_StorageUnavailable (butlast p) s = (Ok (), s)" by (rule create_dir_all_dirs[OF assms(2,3)])
  then show ?thesis
    using assms(1,3,4)
    by (auto simp: trace_prepare_parent_def Let_def reject_symlink_def reject_unsafe_dir_def fs_working_def)
qed

lemma trace_open_fresh:
  assumes "trace_codec_ok c" and "fs_working s" and "parent_dirs p s" and "2 \<le> length p" and "log_path p"
    and "fs_nodes s (butlast p) = Some (NDir mode)" and "mode mod 64 = 0"
    and "lim \<noteq> 0" and "unat lim < 2 ^ 64 - 1" and "0 < k"
    and "plain s (lock_path p)" and "\<forall>i. fs_nodes s (gen_path p i) = None"
  shows "\<exists>st s'. Store_open p lim k s = (Ok st, s') \<and> trace_wf c st s' \<and> trace_records c st s' = [] \<and> ts_max_bytes st = lim"
proof -
  have none: "gen p s i = None" for i using assms(12) by (simp add: gen_def content_def)
  then have ok: "log_ok p k s" using assms by (auto simp: log_ok_def plain_def)
  obtain s1 where s1: "open_lock TE_StorageUnavailable (lock_path p) s = (Ok (), s1)" "log_ok p k s1"
    "\<And>i. gen p s1 i = gen p s i"
    by (rule open_lock_log[OF ok, where e = TE_StorageUnavailable]) auto
  have w: "fs_working s1" "plain s1 p" using s1(2) by (auto simp: log_ok_def dest: spec[of _ 0] simp: gen_path.simps(1))
  obtain s2 where s2: "restrict_file TE_StorageUnavailable p s1 = (Ok (), s2)" "same_files {} s1 s2"
    by (rule restrict_file_plain[OF w])
  have g2: "log_ok p k s2" "gen p s2 i = None" for i
    using log_ok_same_files[OF s1(2) s2(2)] s1(3) none by auto
  let ?st = "\<lparr>ts_path = p, ts_lock_path = lock_path p, ts_max_bytes = lim, ts_retained_files = k\<rparr>"
  have p0: "plain s p" using ok by (auto simp: log_ok_def dest: spec[of _ 0] simp: gen_path.simps(1))
  have "Store_open p lim k s = (Ok ?st, s2)"
    using s1(1) s2(1) assms(7,8,10)
    by (simp add: Store_open_def trace_prepare_parent_existing[OF assms(2-4,6)] adjacent_lock[OF assms(5)]
        reject_symlink_plain[OF assms(2) p0])
  moreover have "trace_wf c ?st s2"
    using assms(1,9) g2 by (simp add: trace_wf_def gen_text_def log_lines_def)
  moreover have "trace_records c ?st s2 = []"
    using g2(2) by (simp add: trace_records_def retained_lines_def gen_text_def log_lines_def line_records_def)
  ultimately show ?thesis by fastforce
qed

section \<open>Properties\<close>

text \<open>A record, a codec that writes it, and an open store, for the witnesses.\<close>

definition wit_record :: Record where
  "wit_record = \<lparr>rec_version = 1, rec_timestamp = 0, rec_request_id = ''req_a1'', rec_route = Route_OpenAi,
     rec_coverage = Cov_Protected, rec_outcome = Out_Succeeded, rec_request_bytes = (3, 2), rec_response_bytes = (1, 1),
     rec_replacements = [], rec_issue = None\<rparr>"

definition wit_tcodec :: TraceCodec where
  "wit_tcodec = \<lparr>tc_to_string = (\<lambda>r. if r = wit_record then Some ''one'' else None),
     tc_from_slice = (\<lambda>b. if b = ''one'' then Some wit_record else None)\<rparr>"

lemma wit_tcodec_ok: "trace_codec_ok wit_tcodec"
  by (auto simp: trace_codec_ok_def wit_tcodec_def line_ok_def split: if_splits)

lemma wit_record_closed: "closed_record wit_record"
  by (simp add: closed_record_def wit_record_def is_ascii_hexdigit_def is_ascii_digit_def byte_def)

lemma wit_store_open:
  "\<exists>st s. Store_open [''home'', ''trace''] 8 2 wit_dir = (Ok st, s) \<and> trace_wf wit_tcodec st s \<and>
     trace_records wit_tcodec st s = [] \<and> record_ok wit_tcodec st wit_record"
proof -
  have "log_path [''home'', ''trace'']" by (simp add: log_path_def)
  from trace_open_fresh[OF wit_tcodec_ok wit_dir_ok(1,2) _ this, of "0x1C0" 8 2]
  have "\<exists>st s. Store_open [''home'', ''trace''] 8 2 wit_dir = (Ok st, s) \<and> trace_wf wit_tcodec st s \<and>
     trace_records wit_tcodec st s = [] \<and> ts_max_bytes st = 8"
    using wit_dir_ok(3,4) by (simp add: wit_dir_def)
  moreover have "record_ok wit_tcodec st wit_record" if "ts_max_bytes st = 8" for st
    using that wit_record_closed by (simp add: record_ok_def wit_tcodec_def)
  ultimately show ?thesis by blast
qed


text \<open>
  C15. The store remembers the newest records.  Appending any sequence of valid records whose lines
  fit the limit to a well-formed store succeeds, and reading the store then returns the whole
  history without some of its oldest records, oldest first; the last record is always there.
\<close>

theorem trace_history:
  assumes "trace_wf c st s" and "\<forall>r\<in>set rs. record_ok c st r"
  shows "\<exists>s' old new dropped. append_each (Store_append c st) rs s = (Ok (), s') \<and> trace_wf c st s' \<and>
    fst (read_all c st s) = Ok old \<and> fst (read_all c st s') = Ok new \<and> old @ rs = dropped @ new \<and>
    (rs \<noteq> [] \<longrightarrow> new \<noteq> [] \<and> last new = last rs)"
  using trace.append_each_suffix[OF assms] read_all_wf[OF assms(1)] read_all_wf[of c st] by auto

theorem trace_history_witness:
  "\<exists>st s s' new dropped. Store_open [''home'', ''trace''] 8 2 wit_dir = (Ok st, s) \<and>
     append_each (Store_append wit_tcodec st) [wit_record, wit_record] s = (Ok (), s') \<and>
     fst (read_all wit_tcodec st s') = Ok new \<and> [wit_record, wit_record] = dropped @ new \<and> last new = wit_record"
proof -
  obtain st s where st: "Store_open [''home'', ''trace''] 8 2 wit_dir = (Ok st, s)" "trace_wf wit_tcodec st s"
    "trace_records wit_tcodec st s = []" "record_ok wit_tcodec st wit_record"
    using wit_store_open by blast
  from trace_history[OF st(2), of "[wit_record, wit_record]"]
  show ?thesis using st(1,3,4) read_all_wf[OF st(2)] by auto
qed

text \<open>
  The store is bounded and refuses what it cannot hold.  In a well-formed store no generation
  is larger than the limit, and no generation beyond the retained count exists; a record that
  breaks the schema or whose line exceeds the limit is refused without touching the file system.
\<close>

theorem trace_bounded:
  assumes "trace_wf c st s"
  shows "length (gen_text (ts_path st) s i) \<le> unat (ts_max_bytes st) \<and>
    (ts_retained_files st < i \<longrightarrow> gen (ts_path st) s i = None) \<and>
    (\<not> closed_record r \<longrightarrow> Store_append c st r s = (Err TE_InvalidInput, s)) \<and>
    (tc_to_string c r = Some l \<and> unat (ts_max_bytes st) < length l + 1 \<longrightarrow> Store_append c st r s = (Err TE_InvalidInput, s)) \<and>
    (record_ok c st r \<longrightarrow> (\<exists>s'. Store_append c st r s = (Ok (), s') \<and> trace_wf c st s'))"
proof -
  have "Store_append c st r s = (Err TE_InvalidInput, s)" if "\<not> closed_record r"
    using that Record_validate_err[of r] by (simp add: Record_validate_iff Store_append_def)
  moreover have "Store_append c st r s = (Err TE_InvalidInput, s)"
    if l: "tc_to_string c r = Some l" "unat (ts_max_bytes st) < length l + 1" and v: "Record_validate r = Ok ()"
  proof (cases "line_length TE_InvalidInput l")
    case (Inl e)
    then have "e = TE_InvalidInput" by (simp add: line_length_def ok_or_err_iff)
    then show ?thesis using l v Inl by (simp add: Store_append_def to_json_def)
  next
    case (Inr len)
    then have "unat len = length l + 1"
      by (auto simp: line_length_def ok_or_ok_iff unat_of_nat dest!: checked_add_some split: if_splits)
    then show ?thesis using l v Inr by (simp add: Store_append_def to_json_def word_less_nat_alt)
  qed
  ultimately show ?thesis
    using assms store_append_wf[OF assms, of r] by (auto simp: trace_wf_def log_ok_def Record_validate_iff)
qed

theorem trace_bounded_witness:
  "\<exists>st s s'. Store_open [''home'', ''trace''] 8 2 wit_dir = (Ok st, s) \<and>
     Store_append wit_tcodec st (wit_record\<lparr>rec_issue := Some Issue_Timeout\<rparr>) s = (Err TE_InvalidInput, s) \<and>
     Store_append wit_tcodec st wit_record s = (Ok (), s')"
proof -
  obtain st s where st: "Store_open [''home'', ''trace''] 8 2 wit_dir = (Ok st, s)" "trace_wf wit_tcodec st s"
    "record_ok wit_tcodec st wit_record"
    using wit_store_open by blast
  have "\<not> closed_record (wit_record\<lparr>rec_issue := Some Issue_Timeout\<rparr>)" by (simp add: closed_record_def wit_record_def)
  then have "Store_append wit_tcodec st (wit_record\<lparr>rec_issue := Some Issue_Timeout\<rparr>) s = (Err TE_InvalidInput, s)"
    using trace_bounded[OF st(2)] by blast
  moreover have "\<exists>s'. Store_append wit_tcodec st wit_record s = (Ok (), s')"
    using trace_bounded[OF st(2), of 0 wit_record] st(3) by blast
  ultimately show ?thesis using st(1) by blast
qed

text \<open>
  Clearing removes every generation and nothing else, reports how many files it removed, and
  leaves a well-formed, empty store.
\<close>

theorem trace_clear:
  assumes "trace_wf c st s"
  shows "\<exists>s'. Store_clear st s =
      (Ok (length (filter (\<lambda>i. gen (ts_path st) s i \<noteq> None) [0..<Suc (ts_retained_files st)])), s') \<and>
    trace_wf c st s' \<and> (\<forall>i. gen (ts_path st) s' i = None) \<and> fst (read_all c st s') = Ok []"
proof -
  let ?p = "ts_path st" and ?k = "ts_retained_files st"
  have wf: "ts_lock_path st = lock_path ?p" "log_ok ?p ?k s" using assms by (auto simp: trace_wf_def)
  obtain s1 where s1: "open_lock TE_StorageUnavailable (lock_path ?p) s = (Ok (), s1)" "log_ok ?p ?k s1"
    "\<And>i. gen ?p s1 i = gen ?p s i"
    by (rule open_lock_log[OF wf(2), where e = TE_StorageUnavailable]) auto
  obtain s2 where s2: "clear_generations st [0..<Suc ?k] 0 s1 =
      (Ok (0 + length (filter (\<lambda>i. gen ?p s1 i \<noteq> None) [0..<Suc ?k])), s2)" "gens_plain ?p s2"
    "\<forall>i. gen ?p s2 i = (if i \<in> set [0..<Suc ?k] then None else gen ?p s1 i)"
    using clear_generations_gen[OF log_ok_gens_plain[OF s1(2)], of "[0..<Suc ?k]" 0] distinct_upt by blast
  have none: "gen ?p s2 i = None" for i using s2(3) s1(2) by (auto simp: log_ok_def)
  have wf2: "trace_wf c st s2"
    using assms s2(2) none by (auto simp: trace_wf_def log_ok_def gens_plain_def gen_text_def log_lines_def)
  have "trace_records c st s2 = []"
    using none by (simp add: trace_records_def retained_lines_def gen_text_def log_lines_def line_records_def)
  moreover have "Store_clear st s = (Ok (length (filter (\<lambda>i. gen ?p s i \<noteq> None) [0..<Suc ?k])), s2)"
    using s1(1,3) s2(1) wf(1) by (simp add: Store_clear_def del: upt_Suc)
  ultimately show ?thesis using wf2 none read_all_wf[OF wf2] by auto
qed

theorem trace_clear_witness:
  "\<exists>st s n s'. Store_open [''home'', ''trace''] 8 2 wit_dir = (Ok st, s) \<and> Store_clear st s = (Ok n, s') \<and>
     fst (read_all wit_tcodec st s') = Ok []"
  using wit_store_open trace_clear[of wit_tcodec] by metis

text \<open>
  The store fails closed on unsafe storage: it is not opened when its directory grants any
  permission to the group or to others, nor when the trace file or its lock file is a symbolic
  link; no file is created or changed in these cases.
\<close>

theorem trace_open_refuses:
  assumes "fs_working s" and "parent_dirs p s" and "2 \<le> length p" and "log_path p"
    and "fs_nodes s (butlast p) = Some (NDir mode)"
    and "mode mod 64 \<noteq> 0 \<or> fs_nodes s p = Some NSymlink \<or> fs_nodes s (lock_path p) = Some NSymlink"
  shows "\<exists>e. Store_open p lim k s = (Err e, s)"
proof (cases "lim = 0 \<or> k = 0 \<or> mode mod 64 \<noteq> 0 \<or> fs_nodes s p = Some NSymlink")
  case True
  then show ?thesis
    by (auto simp: Store_open_def trace_prepare_parent_existing[OF assms(1-3,5)] reject_symlink_def)
next
  case False
  then have "fs_nodes s (lock_path p) = Some NSymlink" using assms(6) by simp
  moreover have "\<exists>x. reject_symlink TE_StorageUnavailable p s = (Ok x, s)"
    using False assms(1) by (auto simp: reject_symlink_def fs_working_def split: option.splits node.splits)
  ultimately show ?thesis
    using False
    by (auto simp: Store_open_def trace_prepare_parent_existing[OF assms(1-3,5)] adjacent_lock[OF assms(4)] open_lock_symlink)
qed

theorem trace_open_refuses_witness:
  "\<exists>e. Store_open [''home'', ''trace''] 8 2 (set_node [''home'', ''trace''] (Some NSymlink) wit_dir) =
     (Err e, set_node [''home'', ''trace''] (Some NSymlink) wit_dir)"
  by (rule trace_open_refuses[where mode = "0x1C0"])
     (simp_all add: wit_dir_def fs_working_def parent_dirs_def log_path_def)

end
