(* ===== verification/Diff_Patch.thy ===== *)
theory Diff_Patch
  imports Rust_Str
begin

text \<open>
  Unified patches (\<open>crates/blindfold-diff/src/patch.rs\<close>): the data, the line-by-line parser with the
  two builders it fills, and its errors.  Line numbers are 64-bit and wrap, as \<open>usize\<close> does in a
  release build.  The reference for the parser is the text of a patch as Git writes it
  (\<open>render_patch\<close>).
\<close>

section \<open>Data\<close>

datatype FileChange = FC_Added | FC_Modified | FC_Deleted | FC_Renamed | FC_Binary

datatype PatchLineKind = PLK_Context | PLK_Added | PLK_Removed

record PatchLine =
  pl_kind :: PatchLineKind
  pl_old_line :: "64 word option"
  pl_new_line :: "64 word option"
  pl_content :: string

record Hunk =
  hk_old_start :: "64 word"
  hk_new_start :: "64 word"
  hk_lines :: "PatchLine list"

record FilePatch =
  fp_old_path :: "string option"
  fp_new_path :: "string option"
  fp_change :: FileChange
  fp_hunks :: "Hunk list"

record Patch =
  pt_files :: "FilePatch list"

datatype PatchError = PE_HunkWithoutFile | PE_InvalidHunkHeader | PE_InvalidHunkLine | PE_HunkCountMismatch | PE_NoFileSections

fun PatchError_fmt :: "PatchError \<Rightarrow> string" where
  "PatchError_fmt PE_HunkWithoutFile = ''patch hunk has no file section''"
| "PatchError_fmt PE_InvalidHunkHeader = ''patch contains an invalid hunk header''"
| "PatchError_fmt PE_InvalidHunkLine = ''patch contains an invalid hunk line''"
| "PatchError_fmt PE_HunkCountMismatch = ''patch hunk line counts do not match its header''"
| "PatchError_fmt PE_NoFileSections = ''input contains no recognizable patch sections''"

section \<open>Builders\<close>

record FileBuilder =
  fb_old_path :: "string option"
  fb_new_path :: "string option"
  fb_renamed :: bool
  fb_binary :: bool
  fb_hunks :: "Hunk list"

definition FileBuilder_new :: "string option \<Rightarrow> string option \<Rightarrow> FileBuilder" where
  "FileBuilder_new old_path new_path =
     \<lparr>fb_old_path = old_path, fb_new_path = new_path, fb_renamed = False, fb_binary = False, fb_hunks = []\<rparr>"

definition FileBuilder_finish :: "FileBuilder \<Rightarrow> FilePatch" where
  "FileBuilder_finish b =
     \<lparr>fp_old_path = fb_old_path b, fp_new_path = fb_new_path b,
      fp_change =
        (if fb_binary b then FC_Binary
         else if fb_renamed b then FC_Renamed
         else if fb_old_path b = None then FC_Added
         else if fb_new_path b = None then FC_Deleted
         else FC_Modified),
      fp_hunks = fb_hunks b\<rparr>"

record HunkBuilder =
  hb_old_start :: "64 word"
  hb_old_count :: "64 word"
  hb_new_start :: "64 word"
  hb_new_count :: "64 word"
  hb_old_seen :: "64 word"
  hb_new_seen :: "64 word"
  hb_lines :: "PatchLine list"

definition line_kind :: "string \<Rightarrow> PatchLineKind option" where
  "line_kind line =
     (case line of
        [] \<Rightarrow> None
      | c # _ \<Rightarrow>
          if c = CHR '' '' then Some PLK_Context
          else if c = CHR ''+'' then Some PLK_Added
          else if c = CHR ''-'' then Some PLK_Removed
          else None)"

definition HunkBuilder_add :: "HunkBuilder \<Rightarrow> PatchLineKind \<Rightarrow> string \<Rightarrow> HunkBuilder" where
  "HunkBuilder_add b kind content =
     (let in_old = (kind \<noteq> PLK_Added); in_new = (kind \<noteq> PLK_Removed) in
      b\<lparr>hb_old_seen := (if in_old then hb_old_seen b + 1 else hb_old_seen b),
        hb_new_seen := (if in_new then hb_new_seen b + 1 else hb_new_seen b),
        hb_lines := hb_lines b @
          [\<lparr>pl_kind = kind,
            pl_old_line = (if in_old then Some (hb_old_start b + hb_old_seen b) else None),
            pl_new_line = (if in_new then Some (hb_new_start b + hb_new_seen b) else None),
            pl_content = content\<rparr>]\<rparr>)"

definition HunkBuilder_push :: "HunkBuilder \<Rightarrow> string \<Rightarrow> PatchError + HunkBuilder" where
  "HunkBuilder_push b line =
     res_bind (ok_or (line_kind line) PE_InvalidHunkLine) (\<lambda>kind. Ok (HunkBuilder_add b kind (drop 1 line)))"

definition HunkBuilder_finish :: "HunkBuilder \<Rightarrow> PatchError + Hunk" where
  "HunkBuilder_finish b =
     (if hb_old_seen b \<noteq> hb_old_count b \<or> hb_new_seen b \<noteq> hb_new_count b then Err PE_HunkCountMismatch
      else Ok \<lparr>hk_old_start = hb_old_start b, hk_new_start = hb_new_start b, hk_lines = hb_lines b\<rparr>)"

section \<open>Headers\<close>

definition unquote_path :: "string \<Rightarrow> string" where
  "unquote_path p =
     (let inner = (case Option.bind (strip_prefix [CHR 0x22] p) (strip_suffix [CHR 0x22]) of None \<Rightarrow> p | Some v \<Rightarrow> v)
      in str_replace [CHR 0x5C, CHR 0x5C] [CHR 0x5C] (str_replace [CHR 0x5C, CHR 0x22] [CHR 0x22] inner))"

definition parse_git_path :: "string \<Rightarrow> string option" where
  "parse_git_path p =
     (if p = ''/dev/null'' then None
      else Some (unquote_path
        (case strip_prefix ''a/'' p of
           Some q \<Rightarrow> q
         | None \<Rightarrow> (case strip_prefix ''b/'' p of Some q \<Rightarrow> q | None \<Rightarrow> p))))"

definition parse_header_path :: "string \<Rightarrow> string option" where
  "parse_header_path p = parse_git_path (case split_once (CHR 0x09) p of None \<Rightarrow> p | Some (v, _) \<Rightarrow> v)"

definition parse_diff_paths :: "string \<Rightarrow> string option \<times> string option" where
  "parse_diff_paths line =
     (let body = (case strip_prefix ''diff --git '' line of None \<Rightarrow> [] | Some b \<Rightarrow> b);
          parts = split_whitespace body
      in (case parts of [] \<Rightarrow> None | p # _ \<Rightarrow> parse_git_path p,
          case parts of _ # q # _ \<Rightarrow> parse_git_path q | _ \<Rightarrow> None))"

definition parse_range :: "string \<Rightarrow> PatchError + (64 word \<times> 64 word)" where
  "parse_range r =
     (let (start, count) = (case split_once (CHR '','') r of None \<Rightarrow> (r, ''1'') | Some sc \<Rightarrow> sc) in
      res_bind (ok_or (parse_usize start) PE_InvalidHunkHeader) (\<lambda>start.
      res_bind (ok_or (parse_usize count) PE_InvalidHunkHeader) (\<lambda>count.
      Ok (start, count))))"

definition parse_hunk_header :: "string \<Rightarrow> PatchError + HunkBuilder" where
  "parse_hunk_header line =
     res_bind (ok_or (Option.bind (strip_prefix ''@@ -'' line) (\<lambda>rest. map_option fst (split_once_str '' @@'' rest)))
                PE_InvalidHunkHeader) (\<lambda>body.
     res_bind (ok_or (split_once_str '' +'' body) PE_InvalidHunkHeader) (\<lambda>(old, new).
     res_bind (parse_range old) (\<lambda>(old_start, old_count).
     res_bind (parse_range new) (\<lambda>(new_start, new_count).
     Ok \<lparr>hb_old_start = old_start, hb_old_count = old_count, hb_new_start = new_start, hb_new_count = new_count,
         hb_old_seen = 0, hb_new_seen = 0, hb_lines = []\<rparr>))))"

section \<open>The parser\<close>

record ParseState =
  ps_files :: "FilePatch list"
  ps_file :: "FileBuilder option"
  ps_hunk :: "HunkBuilder option"

definition finish_hunk :: "ParseState \<Rightarrow> PatchError + ParseState" where
  "finish_hunk s =
     (case ps_hunk s of
        None \<Rightarrow> Ok s
      | Some h \<Rightarrow>
          res_bind (ok_or (ps_file s) PE_HunkWithoutFile) (\<lambda>f.
          res_bind (HunkBuilder_finish h) (\<lambda>hunk.
          Ok (s\<lparr>ps_file := Some (f\<lparr>fb_hunks := fb_hunks f @ [hunk]\<rparr>), ps_hunk := None\<rparr>))))"

definition finish_file :: "ParseState \<Rightarrow> ParseState" where
  "finish_file s =
     (case ps_file s of
        None \<Rightarrow> s
      | Some f \<Rightarrow> s\<lparr>ps_files := ps_files s @ [FileBuilder_finish f], ps_file := None\<rparr>)"

definition no_newline_marker :: string where
  "no_newline_marker = CHR 0x5C # '' No newline at end of file''"

definition with_file :: "ParseState \<Rightarrow> (FileBuilder \<Rightarrow> FileBuilder) \<Rightarrow> ParseState" where
  "with_file s f = s\<lparr>ps_file := map_option f (ps_file s)\<rparr>"

definition open_file :: "ParseState \<Rightarrow> ParseState" where
  "open_file s = (if ps_file s = None then s\<lparr>ps_file := Some (FileBuilder_new None None)\<rparr> else s)"

text \<open>The lines between hunks: paths, renames and binary markers.\<close>

definition parse_file_header :: "ParseState \<Rightarrow> string \<Rightarrow> ParseState" where
  "parse_file_header s line =
     (case strip_prefix ''--- '' line of
        Some p \<Rightarrow> with_file (open_file s) (\<lambda>f. f\<lparr>fb_old_path := parse_header_path p\<rparr>)
      | None \<Rightarrow>
     (case strip_prefix ''+++ '' line of
        Some p \<Rightarrow> with_file (open_file s) (\<lambda>f. f\<lparr>fb_new_path := parse_header_path p\<rparr>)
      | None \<Rightarrow>
     (case strip_prefix ''rename from '' line of
        Some p \<Rightarrow> with_file s (\<lambda>f. f\<lparr>fb_old_path := Some (unquote_path p), fb_renamed := True\<rparr>)
      | None \<Rightarrow>
     (case strip_prefix ''rename to '' line of
        Some p \<Rightarrow> with_file s (\<lambda>f. f\<lparr>fb_new_path := Some (unquote_path p), fb_renamed := True\<rparr>)
      | None \<Rightarrow>
        if starts_with ''Binary files '' line \<or> line = ''GIT binary patch''
        then with_file s (\<lambda>f. f\<lparr>fb_binary := True\<rparr>) else s))))"

definition parse_line :: "ParseState \<Rightarrow> string \<Rightarrow> PatchError + ParseState" where
  "parse_line s line =
     (if starts_with ''diff --git '' line then
        res_bind (finish_hunk s) (\<lambda>s.
        let s = finish_file s; (old_path, new_path) = parse_diff_paths line in
        Ok (s\<lparr>ps_file := Some (FileBuilder_new old_path new_path)\<rparr>))
      else if starts_with ''@@ '' line then
        res_bind (finish_hunk s) (\<lambda>s.
        if ps_file s = None then Err PE_HunkWithoutFile
        else res_bind (parse_hunk_header line) (\<lambda>h. Ok (s\<lparr>ps_hunk := Some h\<rparr>)))
      else case ps_hunk s of
        Some h \<Rightarrow>
          if line = no_newline_marker then Ok s
          else res_bind (HunkBuilder_push h line) (\<lambda>h. Ok (s\<lparr>ps_hunk := Some h\<rparr>))
      | None \<Rightarrow> Ok (parse_file_header s line))"

definition parse_patch :: "string \<Rightarrow> PatchError + Patch" where
  "parse_patch input =
     res_bind (try_fold parse_line \<lparr>ps_files = [], ps_file = None, ps_hunk = None\<rparr> (str_lines input)) (\<lambda>s.
     res_bind (finish_hunk s) (\<lambda>s.
     let files = ps_files (finish_file s) in
     if files = [] \<and> str_trim input \<noteq> [] then Err PE_NoFileSections else Ok \<lparr>pt_files = files\<rparr>))"

section \<open>Patches as Git writes them\<close>

fun kind_prefix :: "PatchLineKind \<Rightarrow> char" where
  "kind_prefix PLK_Context = CHR '' ''"
| "kind_prefix PLK_Added = CHR ''+''"
| "kind_prefix PLK_Removed = CHR ''-''"

definition render_line :: "PatchLine \<Rightarrow> string" where
  "render_line l = kind_prefix (pl_kind l) # pl_content l"

definition old_len :: "PatchLine list \<Rightarrow> nat" where
  "old_len ls = length (filter (\<lambda>l. pl_kind l \<noteq> PLK_Added) ls)"

definition new_len :: "PatchLine list \<Rightarrow> nat" where
  "new_len ls = length (filter (\<lambda>l. pl_kind l \<noteq> PLK_Removed) ls)"

definition render_hunk :: "Hunk \<Rightarrow> string list" where
  "render_hunk h =
     (''@@ -'' @ nat_str (unat (hk_old_start h)) @ '','' @ nat_str (old_len (hk_lines h)) @ '' +'' @
      nat_str (unat (hk_new_start h)) @ '','' @ nat_str (new_len (hk_lines h)) @ '' @@'')
     # map render_line (hk_lines h)"

definition side_path :: "string \<Rightarrow> string option \<Rightarrow> string" where
  "side_path s p = (case p of None \<Rightarrow> ''/dev/null'' | Some q \<Rightarrow> s @ q)"

definition some_path :: "string option \<Rightarrow> string option \<Rightarrow> string" where
  "some_path p q = (case p of Some x \<Rightarrow> x | None \<Rightarrow> (case q of Some x \<Rightarrow> x | None \<Rightarrow> []))"

definition render_file :: "FilePatch \<Rightarrow> string list" where
  "render_file f =
     (let old = some_path (fp_old_path f) (fp_new_path f); new = some_path (fp_new_path f) (fp_old_path f) in
      [''diff --git a/'' @ old @ '' b/'' @ new] @
      (if fp_change f = FC_Renamed then [''rename from '' @ old, ''rename to '' @ new] else []) @
      (if fp_change f = FC_Binary then [''Binary files a/'' @ old @ '' and b/'' @ new @ '' differ'']
       else [''--- '' @ side_path ''a/'' (fp_old_path f), ''+++ '' @ side_path ''b/'' (fp_new_path f)]) @
      concat (map render_hunk (fp_hunks f)))"

definition render_patch :: "Patch \<Rightarrow> string" where
  "render_patch p = unlines (concat (map render_file (pt_files p)))"

text \<open>The numbers of the lines of a hunk, from its two start lines.\<close>

fun numbered :: "64 word \<Rightarrow> 64 word \<Rightarrow> PatchLine list \<Rightarrow> bool" where
  "numbered a b [] = True"
| "numbered a b (l # ls) =
     (pl_old_line l = (if pl_kind l \<noteq> PLK_Added then Some a else None) \<and>
      pl_new_line l = (if pl_kind l \<noteq> PLK_Removed then Some b else None) \<and>
      numbered (if pl_kind l \<noteq> PLK_Added then a + 1 else a) (if pl_kind l \<noteq> PLK_Removed then b + 1 else b) ls)"

definition path_ok :: "string \<Rightarrow> bool" where
  "path_ok p \<longleftrightarrow> p \<noteq> [] \<and> list_all is_ascii_graphic p \<and> CHR 0x22 \<notin> set p \<and> CHR 0x5C \<notin> set p"

definition wf_hunk :: "Hunk \<Rightarrow> bool" where
  "wf_hunk h \<longleftrightarrow>
     numbered (hk_old_start h) (hk_new_start h) (hk_lines h) \<and> length (hk_lines h) < 2 ^ 64 \<and>
     list_all (\<lambda>l. plain_line (pl_content l)) (hk_lines h)"

definition wf_file :: "FilePatch \<Rightarrow> bool" where
  "wf_file f \<longleftrightarrow>
     (case fp_old_path f of None \<Rightarrow> True | Some p \<Rightarrow> path_ok p) \<and>
     (case fp_new_path f of None \<Rightarrow> True | Some p \<Rightarrow> path_ok p) \<and>
     (fp_old_path f = None \<longleftrightarrow> fp_change f = FC_Added) \<and> (fp_new_path f = None \<longleftrightarrow> fp_change f = FC_Deleted) \<and>
     (fp_change f = FC_Binary \<longrightarrow> fp_hunks f = []) \<and> list_all wf_hunk (fp_hunks f)"

section \<open>Reading what was rendered\<close>

lemma str_find_skip: "\<forall>c\<in>set a. c \<noteq> p \<Longrightarrow> str_find (p # ps) (a @ s) = map_option ((+) (length a)) (str_find (p # ps) s)"
proof (induction a)
  case Nil
  then show ?case by (cases "str_find (p # ps) s") auto
next
  case (Cons c a)
  then show ?case by (cases "str_find (p # ps) s") (auto simp: starts_with_iff)
qed

lemma split_once_str_at: "str_find p (a @ p @ b) = Some (length a) \<Longrightarrow> split_once_str p (a @ p @ b) = Some (a, b)"
  by (simp add: split_once_str_def)

lemma split_once_str_free:
  assumes "\<forall>c\<in>set a. c \<noteq> p"
  shows "split_once_str (p # ps) (a @ (p # ps) @ b) = Some (a, b)"
proof (rule split_once_str_at)
  have "str_find (p # ps) ((p # ps) @ b) = Some 0" by (simp add: starts_with_iff)
  then show "str_find (p # ps) (a @ (p # ps) @ b) = Some (length a)"
    using str_find_skip[OF assms, of ps "(p # ps) @ b"] by simp
qed

lemma nat_str_no: "c \<in> set (nat_str n) \<Longrightarrow> byte d < 48 \<or> 57 < byte d \<Longrightarrow> c \<noteq> d"
  using nat_str_digits[of c n] by auto

lemma parse_range_render: "b < 2 ^ 64 \<Longrightarrow> parse_range (nat_str (unat (a :: 64 word)) @ '','' @ nat_str b) = Ok (a, of_nat b)"
proof -
  assume b: "b < 2 ^ 64"
  have "CHR '','' \<notin> set (nat_str (unat a))" using nat_str_no[of "CHR '',''" "unat a" "CHR '',''"] by (auto simp: byte_def)
  then have "split_once (CHR '','') (nat_str (unat a) @ '','' @ nat_str b) = Some (nat_str (unat a), nat_str b)"
    by (simp add: split_once_some_iff)
  moreover have "unat a < 2 ^ 64" using unsigned_less[of a, where ?'a = nat] by simp
  ultimately show ?thesis using b by (simp add: parse_range_def parse_usize_nat_str)
qed

lemma parse_hunk_header_render:
  assumes "length (hk_lines h) < 2 ^ 64"
  shows "parse_hunk_header (hd (render_hunk h)) =
    Ok \<lparr>hb_old_start = hk_old_start h, hb_old_count = of_nat (old_len (hk_lines h)),
        hb_new_start = hk_new_start h, hb_new_count = of_nat (new_len (hk_lines h)),
        hb_old_seen = 0, hb_new_seen = 0, hb_lines = []\<rparr>"
proof -
  let ?old = "nat_str (unat (hk_old_start h)) @ '','' @ nat_str (old_len (hk_lines h))"
  let ?new = "nat_str (unat (hk_new_start h)) @ '','' @ nat_str (new_len (hk_lines h))"
  have lens: "old_len (hk_lines h) < 2 ^ 64" "new_len (hk_lines h) < 2 ^ 64"
    using assms length_filter_le le_less_trans unfolding old_len_def new_len_def by blast+
  have free: "\<forall>c\<in>set ?old. c \<noteq> CHR '' ''" "\<forall>c\<in>set ?new. c \<noteq> CHR '' ''"
    using nat_str_no[where d = "CHR '' ''"] by (auto simp: byte_def)
  have "str_find '' @@'' (?old @ '' +'' @ ?new @ '' @@'') = Some (length (?old @ '' +'' @ ?new))"
    using str_find_skip[OF free(1), of "''@@''" "'' +'' @ ?new @ '' @@''"] str_find_skip[OF free(2), of "''@@''" "'' @@''"]
    by (simp add: starts_with_def)
  then have body: "split_once_str '' @@'' (?old @ '' +'' @ ?new @ '' @@'') = Some (?old @ '' +'' @ ?new, [])"
    using split_once_str_at[of "'' @@''" "?old @ '' +'' @ ?new" "[]"] by simp
  have "split_once_str '' +'' (?old @ '' +'' @ ?new) = Some (?old, ?new)" by (rule split_once_str_free[OF free(1)])
  moreover have "strip_prefix ''@@ -'' (hd (render_hunk h)) = Some (?old @ '' +'' @ ?new @ '' @@'')"
    by (simp add: render_hunk_def)
  ultimately show ?thesis
    using body parse_range_render[OF lens(1), of "hk_old_start h"] parse_range_render[OF lens(2), of "hk_new_start h"]
    by (simp add: parse_hunk_header_def del: append.simps append_assoc)
qed

lemma line_kind_render [simp]: "line_kind (kind_prefix k # c) = Some k"
  by (cases k) (simp_all add: line_kind_def)

lemma render_line_not_header:
  "\<not> starts_with ''diff --git '' (render_line l)" "\<not> starts_with ''@@ '' (render_line l)" "render_line l \<noteq> no_newline_marker"
  by (cases "pl_kind l"; simp add: render_line_def starts_with_def no_newline_marker_def)+

lemma parse_line_push:
  assumes "ps_hunk s = Some h"
  shows "parse_line s (render_line l) = Ok (s\<lparr>ps_hunk := Some (HunkBuilder_add h (pl_kind l) (pl_content l))\<rparr>)"
  using assms render_line_not_header[of l]
  by (simp add: parse_line_def HunkBuilder_push_def) (simp add: render_line_def)

definition add_lines :: "HunkBuilder \<Rightarrow> PatchLine list \<Rightarrow> HunkBuilder" where
  "add_lines h ls = foldl (\<lambda>h l. HunkBuilder_add h (pl_kind l) (pl_content l)) h ls"

lemma parse_lines_push:
  "ps_hunk s = Some h \<Longrightarrow> try_fold parse_line s (map render_line ls) = Ok (s\<lparr>ps_hunk := Some (add_lines h ls)\<rparr>)"
  by (induction ls arbitrary: s h) (simp_all add: add_lines_def parse_line_push)

lemma add_lines_numbered:
  "numbered (hb_old_start h + hb_old_seen h) (hb_new_start h + hb_new_seen h) ls \<Longrightarrow>
   add_lines h ls = h\<lparr>hb_old_seen := hb_old_seen h + of_nat (old_len ls), hb_new_seen := hb_new_seen h + of_nat (new_len ls),
                     hb_lines := hb_lines h @ ls\<rparr>"
proof (induction ls arbitrary: h)
  case (Cons l ls)
  let ?h = "HunkBuilder_add h (pl_kind l) (pl_content l)"
  have step: "hb_lines ?h = hb_lines h @ [l]"
    using Cons.prems by (cases l; cases "pl_kind l") (auto simp: HunkBuilder_add_def)
  have "numbered (hb_old_start ?h + hb_old_seen ?h) (hb_new_start ?h + hb_new_seen ?h) ls"
    using Cons.prems by (cases "pl_kind l") (simp_all add: HunkBuilder_add_def add.assoc)
  from Cons.IH[OF this] show ?case
    using step
    by (cases "pl_kind l") (simp_all add: add_lines_def HunkBuilder_add_def old_len_def new_len_def algebra_simps)
qed (simp add: add_lines_def old_len_def new_len_def)

lemma finish_hunk_closed: "finish_hunk s = Ok t \<Longrightarrow> ps_hunk t = None"
  by (auto simp: finish_hunk_def res_bind_ok_iff split: option.splits)

lemma render_hunk_fold:
  assumes "finish_hunk s = Ok t" and "ps_file t = Some f" and "wf_hunk h"
  shows "\<exists>s'. try_fold parse_line s (render_hunk h) = Ok s' \<and>
    finish_hunk s' = Ok (t\<lparr>ps_file := Some (f\<lparr>fb_hunks := fb_hunks f @ [h]\<rparr>)\<rparr>)"
proof -
  let ?b = "\<lparr>hb_old_start = hk_old_start h, hb_old_count = of_nat (old_len (hk_lines h)),
        hb_new_start = hk_new_start h, hb_new_count = of_nat (new_len (hk_lines h)),
        hb_old_seen = 0, hb_new_seen = 0, hb_lines = []\<rparr>"
  let ?s = "t\<lparr>ps_hunk := Some (add_lines ?b (hk_lines h))\<rparr>"
  have wf: "numbered (hk_old_start h) (hk_new_start h) (hk_lines h)" "length (hk_lines h) < 2 ^ 64"
    using assms(3) by (auto simp: wf_hunk_def)
  obtain hdr where hdr: "render_hunk h = hdr # map render_line (hk_lines h)" by (simp add: render_hunk_def)
  have "parse_hunk_header hdr = Ok ?b" using parse_hunk_header_render[OF wf(2)] hdr by simp
  moreover have "\<not> starts_with ''diff --git '' hdr" "starts_with ''@@ '' hdr"
    using hdr by (auto simp: render_hunk_def starts_with_def)
  ultimately have "parse_line s hdr = Ok (t\<lparr>ps_hunk := Some ?b\<rparr>)" using assms(1,2) by (simp add: parse_line_def)
  then have run: "try_fold parse_line s (render_hunk h) = Ok ?s"
    using parse_lines_push[of "t\<lparr>ps_hunk := Some ?b\<rparr>" ?b "hk_lines h"] hdr by simp
  have "HunkBuilder_finish (add_lines ?b (hk_lines h)) = Ok h"
    using add_lines_numbered[of ?b "hk_lines h"] wf(1) by (cases h) (simp add: HunkBuilder_finish_def)
  then have "finish_hunk ?s = Ok (t\<lparr>ps_file := Some (f\<lparr>fb_hunks := fb_hunks f @ [h]\<rparr>)\<rparr>)"
    using assms(2) finish_hunk_closed[OF assms(1)] by (cases t) (simp add: finish_hunk_def)
  then show ?thesis using run by blast
qed

lemma render_hunks_fold:
  assumes "finish_hunk s = Ok t" and "ps_file t = Some f" and "list_all wf_hunk hs"
  shows "\<exists>s'. try_fold parse_line s (concat (map render_hunk hs)) = Ok s' \<and>
    finish_hunk s' = Ok (t\<lparr>ps_file := Some (f\<lparr>fb_hunks := fb_hunks f @ hs\<rparr>)\<rparr>)"
  using assms
proof (induction hs arbitrary: s t f)
  case Nil
  then show ?case by (cases t) auto
next
  case (Cons h hs)
  obtain s1 where s1: "try_fold parse_line s (render_hunk h) = Ok s1"
    "finish_hunk s1 = Ok (t\<lparr>ps_file := Some (f\<lparr>fb_hunks := fb_hunks f @ [h]\<rparr>)\<rparr>)"
    using render_hunk_fold[OF Cons.prems(1,2)] Cons.prems(3) by auto
  from Cons.IH[OF s1(2)] Cons.prems(3)
  obtain s2 where "try_fold parse_line s1 (concat (map render_hunk hs)) = Ok s2"
    "finish_hunk s2 = Ok (t\<lparr>ps_file := Some (f\<lparr>fb_hunks := fb_hunks f @ h # hs\<rparr>)\<rparr>)"
    by auto
  then show ?case using s1(1) by (auto simp: try_fold_append)
qed

section \<open>File headers\<close>

lemma ws_len_graphic: "is_ascii_graphic c \<Longrightarrow> ws_len (c # s) = 0"
  by (auto simp: ws_len_def is_ascii_graphic_def is_ascii_ws_def is_ws2_def is_ws3_def split: list.splits)

lemma split_ws_word: "list_all is_ascii_graphic w \<Longrightarrow> split_ws acc (w @ s) = split_ws (acc @ w) s"
  by (induction w arbitrary: acc) (simp_all add: ws_len_graphic)

lemma unquote_path_ok:
  assumes "path_ok p"
  shows "unquote_path p = p"
proof -
  have "strip_prefix [CHR 0x22] p = None"
    using assms by (cases "strip_prefix [CHR 0x22] p") (auto simp: path_ok_def strip_prefix_some_iff)
  moreover have "\<not> str_contains [CHR 0x5C, CHR 0x22] p" "\<not> str_contains [CHR 0x5C, CHR 0x5C] p"
    using assms by (auto simp: path_ok_def str_contains_iff)
  ultimately show ?thesis by (simp add: unquote_path_def str_replace_no_match)
qed

lemma parse_git_path_side:
  assumes "path_ok p"
  shows "parse_git_path (''a/'' @ p) = Some p" "parse_git_path (''b/'' @ p) = Some p"
  using unquote_path_ok[OF assms] by (simp_all add: parse_git_path_def)

lemma parse_header_path_side:
  assumes "case q of None \<Rightarrow> True | Some p \<Rightarrow> path_ok p" and "s = ''a/'' \<or> s = ''b/''"
  shows "parse_header_path (side_path s q) = q"
proof (cases q)
  case None
  then show ?thesis by (simp add: parse_header_path_def side_path_def split_once_def parse_git_path_def)
next
  case (Some p)
  then have p: "path_ok p" using assms(1) by simp
  then have "\<not> is_ascii_graphic (CHR 0x09) \<and> list_all is_ascii_graphic p"
    by (simp add: path_ok_def is_ascii_graphic_def byte_def)
  then have "CHR 0x09 \<notin> set (s @ p)" using assms(2) by (auto simp: list_all_iff)
  then have "split_once (CHR 0x09) (s @ p) = None" by (simp add: split_once_none_iff)
  then show ?thesis using Some parse_git_path_side[OF p] assms(2) by (auto simp: parse_header_path_def side_path_def)
qed

lemma parse_diff_paths_render:
  assumes "path_ok a" and "path_ok b"
  shows "parse_diff_paths (''diff --git a/'' @ a @ '' b/'' @ b) = (Some a, Some b)"
proof -
  have g: "list_all is_ascii_graphic (''a/'' @ a)" "list_all is_ascii_graphic (''b/'' @ b)"
    using assms by (simp_all add: path_ok_def is_ascii_graphic_def byte_def)
  have "split_whitespace ((''a/'' @ a) @ '' '' @ (''b/'' @ b)) = [''a/'' @ a, ''b/'' @ b]"
    using split_ws_word[OF g(1), of "[]" "'' '' @ (''b/'' @ b)"] split_ws_word[OF g(2), of "[]" "[]"]
    by (simp add: split_whitespace_def ws_len_def is_ascii_ws_def byte_def)
  then show ?thesis using parse_git_path_side[OF assms(1)] parse_git_path_side[OF assms(2)] by (simp add: parse_diff_paths_def)
qed

definition file_headers :: "FilePatch \<Rightarrow> string list" where
  "file_headers f =
     (let old = some_path (fp_old_path f) (fp_new_path f); new = some_path (fp_new_path f) (fp_old_path f) in
      (if fp_change f = FC_Renamed then [''rename from '' @ old, ''rename to '' @ new] else []) @
      (if fp_change f = FC_Binary then [''Binary files a/'' @ old @ '' and b/'' @ new @ '' differ'']
       else [''--- '' @ side_path ''a/'' (fp_old_path f), ''+++ '' @ side_path ''b/'' (fp_new_path f)]))"

lemma parse_line_header:
  assumes "ps_hunk s = None" and "\<not> starts_with ''diff --git '' l" and "\<not> starts_with ''@@ '' l"
  shows "parse_line s l = Ok (parse_file_header s l)"
  using assms by (simp add: parse_line_def)

lemma file_headers_fold:
  assumes "wf_file f" and "ps_hunk s = None"
    and "ps_file s = Some (FileBuilder_new (Some (some_path (fp_old_path f) (fp_new_path f))) (Some (some_path (fp_new_path f) (fp_old_path f))))"
  shows "try_fold parse_line s (file_headers f) =
    Ok (s\<lparr>ps_file := Some \<lparr>fb_old_path = fp_old_path f, fb_new_path = fp_new_path f, fb_renamed = (fp_change f = FC_Renamed),
        fb_binary = (fp_change f = FC_Binary), fb_hunks = []\<rparr>\<rparr>)"
proof -
  have old: "parse_header_path (side_path ''a/'' (fp_old_path f)) = fp_old_path f"
    and new: "parse_header_path (side_path ''b/'' (fp_new_path f)) = fp_new_path f"
    using assms(1) by (auto simp: wf_file_def intro!: parse_header_path_side)
  show ?thesis
  proof (cases "fp_change f = FC_Binary \<or> fp_change f = FC_Renamed")
    case False
    then show ?thesis
      using assms(2,3) old new
      by (simp add: file_headers_def parse_line_header starts_with_def parse_file_header_def with_file_def open_file_def FileBuilder_new_def)
  next
    case True
    then obtain a b where ab: "fp_old_path f = Some a" "fp_new_path f = Some b" "path_ok a" "path_ok b"
      using assms(1) by (cases "fp_old_path f"; cases "fp_new_path f") (auto simp: wf_file_def)
    then show ?thesis
      using True assms(2,3) old new unquote_path_ok[OF ab(3)] unquote_path_ok[OF ab(4)]
      by (cases "fp_change f")
         (simp_all add: file_headers_def parse_line_header starts_with_def parse_file_header_def with_file_def open_file_def
           FileBuilder_new_def some_path_def)
  qed
qed

lemma render_file_fold:
  assumes "finish_hunk s = Ok t" and "wf_file f"
  shows "\<exists>s' t'. try_fold parse_line s (render_file f) = Ok s' \<and> finish_hunk s' = Ok t' \<and>
    ps_files (finish_file t') = ps_files (finish_file t) @ [f]"
proof -
  let ?old = "some_path (fp_old_path f) (fp_new_path f)" and ?new = "some_path (fp_new_path f) (fp_old_path f)"
  let ?t0 = "(finish_file t)\<lparr>ps_file := Some (FileBuilder_new (Some ?old) (Some ?new))\<rparr>"
  let ?b = "\<lparr>fb_old_path = fp_old_path f, fb_new_path = fp_new_path f, fb_renamed = (fp_change f = FC_Renamed),
        fb_binary = (fp_change f = FC_Binary), fb_hunks = []\<rparr>"
  have "path_ok ?old" "path_ok ?new"
    using assms(2) by (cases "fp_old_path f"; cases "fp_new_path f"; auto simp: wf_file_def some_path_def)+
  then have paths: "parse_diff_paths (''diff --git a/'' @ ?old @ '' b/'' @ ?new) = (Some ?old, Some ?new)"
    by (rule parse_diff_paths_render)
  have h0: "ps_hunk ?t0 = None" using finish_hunk_closed[OF assms(1)] by (auto simp: finish_file_def split: option.splits)
  have "parse_line s (''diff --git a/'' @ ?old @ '' b/'' @ ?new) = Ok ?t0"
    using assms(1) paths by (simp add: parse_line_def starts_with_def)
  moreover have "try_fold parse_line ?t0 (file_headers f) = Ok (?t0\<lparr>ps_file := Some ?b\<rparr>)"
    using file_headers_fold[OF assms(2) h0] by simp
  moreover have "finish_hunk (?t0\<lparr>ps_file := Some ?b\<rparr>) = Ok (?t0\<lparr>ps_file := Some ?b\<rparr>)" using h0 by (simp add: finish_hunk_def)
  from render_hunks_fold[OF this, of ?b "fp_hunks f"] assms(2)
  obtain s' where s': "try_fold parse_line (?t0\<lparr>ps_file := Some ?b\<rparr>) (concat (map render_hunk (fp_hunks f))) = Ok s'"
    "finish_hunk s' = Ok (?t0\<lparr>ps_file := Some (?b\<lparr>fb_hunks := fp_hunks f\<rparr>)\<rparr>)"
    by (auto simp: wf_file_def)
  moreover have "FileBuilder_finish (?b\<lparr>fb_hunks := fp_hunks f\<rparr>) = f"
    using assms(2) by (cases f; cases "fp_change f") (auto simp: FileBuilder_finish_def wf_file_def)
  then have "ps_files (finish_file (?t0\<lparr>ps_file := Some (?b\<lparr>fb_hunks := fp_hunks f\<rparr>)\<rparr>)) = ps_files (finish_file t) @ [f]"
    by (simp add: finish_file_def)
  moreover have "render_file f = (''diff --git a/'' @ ?old @ '' b/'' @ ?new) # file_headers f @ concat (map render_hunk (fp_hunks f))"
    by (simp add: render_file_def file_headers_def Let_def)
  ultimately show ?thesis by (auto simp: try_fold_append)
qed

lemma render_files_fold:
  assumes "finish_hunk s = Ok t" and "list_all wf_file fs"
  shows "\<exists>s' t'. try_fold parse_line s (concat (map render_file fs)) = Ok s' \<and> finish_hunk s' = Ok t' \<and>
    ps_files (finish_file t') = ps_files (finish_file t) @ fs"
  using assms
proof (induction fs arbitrary: s t)
  case (Cons f fs)
  obtain s1 t1 where 1: "try_fold parse_line s (render_file f) = Ok s1" "finish_hunk s1 = Ok t1"
    "ps_files (finish_file t1) = ps_files (finish_file t) @ [f]"
    using render_file_fold[OF Cons.prems(1), of f] Cons.prems(2) by auto
  obtain s2 t2 where 2: "try_fold parse_line s1 (concat (map render_file fs)) = Ok s2" "finish_hunk s2 = Ok t2"
    "ps_files (finish_file t2) = ps_files (finish_file t1) @ fs"
    using Cons.IH[OF 1(2)] Cons.prems(2) by auto
  show ?case using 1 2 by (auto simp: try_fold_append)
qed auto

lemma plain_line_graphic: "list_all (\<lambda>c. is_ascii_graphic c \<or> c = CHR '' '') l \<Longrightarrow> plain_line l"
proof -
  assume l: "list_all (\<lambda>c. is_ascii_graphic c \<or> c = CHR '' '') l"
  have "\<not> is_ascii_graphic (CHR 0x0A)" "\<not> is_ascii_graphic (CHR 0x0D)" by (simp_all add: is_ascii_graphic_def byte_def)
  then have "CHR 0x0A \<notin> set l" "CHR 0x0D \<notin> set l" using l by (auto simp: list_all_iff)
  then show ?thesis unfolding plain_line_def using last_in_set by metis
qed

lemma nat_str_graphic: "list_all is_ascii_graphic (nat_str n)"
  by (fastforce simp: list_all_iff is_ascii_graphic_def dest: nat_str_digits)

lemma some_path_ok: "wf_file f \<Longrightarrow> path_ok (some_path (fp_old_path f) (fp_new_path f)) \<and> path_ok (some_path (fp_new_path f) (fp_old_path f))"
  by (cases "fp_old_path f"; cases "fp_new_path f") (auto simp: wf_file_def some_path_def)

lemma render_hunk_plain:
  assumes "wf_hunk h" and "l \<in> set (render_hunk h)"
  shows "plain_line l"
proof -
  have "plain_line (hd (render_hunk h))"
    using nat_str_graphic by (intro plain_line_graphic) (auto simp: render_hunk_def list_all_iff is_ascii_graphic_def byte_def)
  moreover have "plain_line (render_line x)" if "x \<in> set (hk_lines h)" for x
    using that assms(1) by (cases "pl_kind x") (auto simp: wf_hunk_def render_line_def plain_line_def list_all_iff)
  ultimately show ?thesis using assms(2) by (auto simp: render_hunk_def)
qed

lemma render_file_plain:
  assumes "wf_file f" and "l \<in> set (render_file f)"
  shows "plain_line l"
proof -
  let ?g = "\<lambda>c. is_ascii_graphic c \<or> c = CHR '' ''"
  have p: "list_all ?g p" if "path_ok p" for p using that by (auto simp: path_ok_def list_all_iff)
  have sp: "list_all ?g (side_path s q)" if "list_all ?g s" "case q of None \<Rightarrow> True | Some p \<Rightarrow> path_ok p" for s q
    using that p by (auto simp: side_path_def is_ascii_graphic_def byte_def split: option.splits)
  have "plain_line l" if "l \<in> set (take 1 (render_file f) @ file_headers f)"
    using that p some_path_ok[OF assms(1)] sp[of "''a/''" "fp_old_path f"] sp[of "''b/''" "fp_new_path f"] assms(1)
    by (intro plain_line_graphic)
       (auto simp: render_file_def file_headers_def Let_def wf_file_def is_ascii_graphic_def byte_def split: if_splits)
  moreover have "plain_line l" if "h \<in> set (fp_hunks f)" "l \<in> set (render_hunk h)" for h
    using that assms(1) render_hunk_plain by (auto simp: wf_file_def list_all_iff)
  ultimately show ?thesis using assms(2) by (auto simp: render_file_def file_headers_def Let_def)
qed

section \<open>Numbering\<close>

text \<open>In every state of the parser the hunks are numbered from their start lines.\<close>

definition builder_ok :: "HunkBuilder \<Rightarrow> bool" where
  "builder_ok h \<longleftrightarrow>
     numbered (hb_old_start h) (hb_new_start h) (hb_lines h) \<and>
     hb_old_seen h = of_nat (old_len (hb_lines h)) \<and> hb_new_seen h = of_nat (new_len (hb_lines h))"

definition hunks_ok :: "Hunk list \<Rightarrow> bool" where
  "hunks_ok hs \<longleftrightarrow> list_all (\<lambda>h. numbered (hk_old_start h) (hk_new_start h) (hk_lines h)) hs"

definition parse_inv :: "ParseState \<Rightarrow> bool" where
  "parse_inv s \<longleftrightarrow>
     list_all (\<lambda>f. hunks_ok (fp_hunks f)) (ps_files s) \<and>
     (case ps_file s of None \<Rightarrow> True | Some f \<Rightarrow> hunks_ok (fb_hunks f)) \<and>
     (case ps_hunk s of None \<Rightarrow> True | Some h \<Rightarrow> builder_ok h)"

lemma numbered_append:
  "numbered a b (xs @ ys) \<longleftrightarrow> numbered a b xs \<and> numbered (a + of_nat (old_len xs)) (b + of_nat (new_len xs)) ys"
  by (induction xs arbitrary: a b) (auto simp: old_len_def new_len_def algebra_simps)

lemma builder_ok_push: "builder_ok h \<Longrightarrow> HunkBuilder_push h line = Ok h' \<Longrightarrow> builder_ok h'"
  by (auto simp: builder_ok_def HunkBuilder_push_def HunkBuilder_add_def Let_def res_bind_ok_iff numbered_append
      old_len_def new_len_def)

lemma builder_ok_header: "parse_hunk_header l = Ok h \<Longrightarrow> builder_ok h"
  by (auto simp: parse_hunk_header_def res_bind_ok_iff builder_ok_def old_len_def new_len_def)

lemma finish_hunk_inv: "parse_inv s \<Longrightarrow> finish_hunk s = Ok t \<Longrightarrow> parse_inv t"
  by (auto simp: finish_hunk_def parse_inv_def res_bind_ok_iff ok_or_ok_iff HunkBuilder_finish_def hunks_ok_def builder_ok_def
      split: option.splits if_splits)

lemma finish_file_inv: "parse_inv s \<Longrightarrow> parse_inv (finish_file s)"
  by (auto simp: finish_file_def parse_inv_def FileBuilder_finish_def split: option.splits)

lemma with_file_inv:
  "parse_inv s \<Longrightarrow> (\<And>f. fb_hunks (g f) = fb_hunks f) \<Longrightarrow> parse_inv (with_file s g)"
  "parse_inv s \<Longrightarrow> parse_inv (open_file s)"
  by (auto simp: with_file_def open_file_def parse_inv_def FileBuilder_new_def hunks_ok_def split: option.splits)

lemma parse_line_inv:
  assumes "parse_inv s" and "parse_line s line = Ok t"
  shows "parse_inv t"
proof (cases "starts_with ''diff --git '' line \<or> starts_with ''@@ '' line")
  case True
  then obtain u where u: "finish_hunk s = Ok u" using assms(2) by (auto simp: parse_line_def res_bind_ok_iff split: if_splits)
  have "parse_inv u" "parse_inv (finish_file u)"
    using finish_hunk_inv[OF assms(1) u] finish_file_inv by blast+
  moreover have "ps_hunk (finish_file u) = None"
    using finish_hunk_closed[OF u] by (auto simp: finish_file_def split: option.splits)
  ultimately show ?thesis
    using True assms(2) u builder_ok_header
    by (auto simp: parse_line_def res_bind_ok_iff parse_inv_def FileBuilder_new_def hunks_ok_def split: if_splits prod.splits)
next
  case False
  show ?thesis
  proof (cases "ps_hunk s")
    case None
    then show ?thesis
      using False assms with_file_inv
      by (auto simp: parse_line_def parse_file_header_def split: option.splits if_splits)
  next
    case (Some h)
    then show ?thesis
      using False assms builder_ok_push
      by (auto simp: parse_line_def res_bind_ok_iff parse_inv_def split: option.splits if_splits)
  qed
qed

lemma parse_patch_numbered:
  assumes "parse_patch input = Ok p" and "f \<in> set (pt_files p)" and "h \<in> set (fp_hunks f)"
  shows "numbered (hk_old_start h) (hk_new_start h) (hk_lines h)"
proof -
  let ?s0 = "\<lparr>ps_files = [], ps_file = None, ps_hunk = None\<rparr>"
  obtain s t where s: "try_fold parse_line ?s0 (str_lines input) = Ok s" "finish_hunk s = Ok t"
    "pt_files p = ps_files (finish_file t)"
    using assms(1) by (auto simp: parse_patch_def res_bind_ok_iff Let_def split: if_splits)
  have "parse_inv s"
  proof (rule try_fold_invariant[OF s(1)])
    show "parse_inv ?s0" by (simp add: parse_inv_def)
  qed (rule parse_line_inv)
  then have "parse_inv (finish_file t)" using finish_hunk_inv s(2) finish_file_inv by blast
  then show ?thesis using assms(2,3) s(3) by (auto simp: parse_inv_def hunks_ok_def list_all_iff)
qed

section \<open>Properties\<close>

lemma parse_render:
  assumes "list_all wf_file (pt_files p)"
  shows "parse_patch (render_patch p) = Ok p"
proof -
  let ?s0 = "\<lparr>ps_files = [], ps_file = None, ps_hunk = None\<rparr>"
  have "str_lines (render_patch p) = concat (map render_file (pt_files p))"
    unfolding render_patch_def using assms render_file_plain by (intro str_lines_unlines) (auto simp: list_all_iff)
  moreover have "finish_hunk ?s0 = Ok ?s0" by (simp add: finish_hunk_def)
  from render_files_fold[OF this assms]
  obtain s t where "try_fold parse_line ?s0 (concat (map render_file (pt_files p))) = Ok s" "finish_hunk s = Ok t"
    "ps_files (finish_file t) = pt_files p"
    by (auto simp: finish_file_def)
  moreover have "\<not> (pt_files p = [] \<and> str_trim (render_patch p) \<noteq> [])"
    by (cases p) (auto simp: render_patch_def unlines_def str_trim_def trim_end_def)
  ultimately show ?thesis by (cases p) (simp add: parse_patch_def)
qed

definition wit_patch :: Patch where
  "wit_patch = \<lparr>pt_files =
     [\<lparr>fp_old_path = Some ''src/a.rs'', fp_new_path = Some ''src/a.rs'', fp_change = FC_Modified,
       fp_hunks = [\<lparr>hk_old_start = 7, hk_new_start = 9, hk_lines =
         [\<lparr>pl_kind = PLK_Context, pl_old_line = Some 7, pl_new_line = Some 9, pl_content = ''fn main''\<rparr>,
          \<lparr>pl_kind = PLK_Removed, pl_old_line = Some 8, pl_new_line = None, pl_content = ''old''\<rparr>,
          \<lparr>pl_kind = PLK_Added, pl_old_line = None, pl_new_line = Some 10, pl_content = ''token = abc''\<rparr>]\<rparr>]\<rparr>,
      \<lparr>fp_old_path = Some ''x'', fp_new_path = None, fp_change = FC_Deleted, fp_hunks = []\<rparr>]\<rparr>"

lemma wit_patch_wf: "list_all wf_file (pt_files wit_patch)"
  by (simp add: wit_patch_def wf_file_def path_ok_def wf_hunk_def plain_line_def is_ascii_graphic_def byte_def)

lemma parse_patch_wit: "parse_patch (render_patch wit_patch) = Ok wit_patch"
  by (rule parse_render) (rule wit_patch_wf)



text \<open>
  Two inputs the documentation covers and the parser does not.  In an ordinary patch (no
  \<open>diff --git\<close> lines) the header of the second file is taken as lines of the open hunk; and a
  binary marker marks the section even if textual hunks follow it.
\<close>

lemmas parse_eval =
  parse_patch_def parse_line_def finish_hunk_def finish_file_def parse_file_header_def with_file_def open_file_def
  FileBuilder_new_def FileBuilder_finish_def parse_hunk_header_def parse_range_def split_once_str_def split_once_def
  parse_usize_def str_nat_def is_ascii_digit_def byte_def HunkBuilder_push_def HunkBuilder_add_def HunkBuilder_finish_def
  line_kind_def no_newline_marker_def starts_with_def

definition ordinary_two_files :: "string list" where
  "ordinary_two_files = [''--- a/x'', ''+++ b/x'', ''@@ -1 +1 @@'', ''-p'', ''+q'', ''--- a/y'', ''+++ b/y'', ''@@ -1 +1 @@'', ''-p'', ''+q'']"

lemma ordinary_two_files_rejected: "parse_patch (unlines ordinary_two_files) = Err PE_HunkCountMismatch"
proof -
  have "str_lines (unlines ordinary_two_files) = ordinary_two_files"
    by (rule str_lines_unlines) (simp add: ordinary_two_files_def plain_line_def)
  then show ?thesis by (simp add: ordinary_two_files_def parse_eval)
qed

definition binary_then_hunk :: "string list" where
  "binary_then_hunk = [''diff --git a/x b/x'', ''Binary files '', ''@@ -0,0 +1 @@'', ''+q'']"

lemma binary_then_hunk_parsed:
  "\<exists>f h. parse_patch (unlines binary_then_hunk) = Ok \<lparr>pt_files = [f]\<rparr> \<and> fp_change f = FC_Binary \<and> fp_hunks f = [h] \<and>
     map pl_content (hk_lines h) = [''q'']"
proof -
  have "str_lines (unlines binary_then_hunk) = binary_then_hunk"
    by (rule str_lines_unlines) (simp add: binary_then_hunk_def plain_line_def)
  then show ?thesis by (simp add: binary_then_hunk_def parse_eval split: prod.splits)
qed

end
