(* ===== verification/Diff_Scan.thy ===== *)
theory Diff_Scan
  imports Diff_Patch Safe_Ref
begin

text \<open>
  Scanning the added lines of a patch (\<open>crates/blindfold-diff/src/scan.rs\<close>, \<open>git.rs\<close>): the detector
  interface as a function parameter, the built-in detector with its rules, the path
  classification, the report and its two textual forms.  Running Git is a parameter of
  \<open>read_git_patch\<close>.
\<close>

section \<open>Data\<close>

datatype ScanOutcome = SO_Findings | SO_Clean | SO_NoTextChanges

fun ScanOutcome_as_str :: "ScanOutcome \<Rightarrow> string" where
  "ScanOutcome_as_str SO_Findings = ''findings''"
| "ScanOutcome_as_str SO_Clean = ''clean''"
| "ScanOutcome_as_str SO_NoTextChanges = ''no_text_changes''"

datatype Severity = Sev_Medium | Sev_High | Sev_Critical

fun Severity_rank :: "Severity \<Rightarrow> nat" where
  "Severity_rank Sev_Medium = 0"
| "Severity_rank Sev_High = 1"
| "Severity_rank Sev_Critical = 2"

instantiation Severity :: linorder
begin

definition less_eq_Severity :: "Severity \<Rightarrow> Severity \<Rightarrow> bool" where
  "less_eq_Severity a b \<longleftrightarrow> Severity_rank a \<le> Severity_rank b"

definition less_Severity :: "Severity \<Rightarrow> Severity \<Rightarrow> bool" where
  "less_Severity a b \<longleftrightarrow> Severity_rank a < Severity_rank b"

instance
proof
  fix a b :: Severity
  assume "a \<le> b" "b \<le> a"
  then show "a = b" by (cases a; cases b) (simp_all add: less_eq_Severity_def)
qed (auto simp: less_eq_Severity_def less_Severity_def)

end

fun Severity_as_str :: "Severity \<Rightarrow> string" where
  "Severity_as_str Sev_Medium = ''medium''"
| "Severity_as_str Sev_High = ''high''"
| "Severity_as_str Sev_Critical = ''critical''"

datatype FindingCategory =
  FCat_CredentialAssignment | FCat_ProviderToken | FCat_PrivateKey | FCat_CredentialUrl | FCat_EnvironmentSecret

fun FindingCategory_as_str :: "FindingCategory \<Rightarrow> string" where
  "FindingCategory_as_str FCat_CredentialAssignment = ''credential_assignment''"
| "FindingCategory_as_str FCat_ProviderToken = ''provider_token''"
| "FindingCategory_as_str FCat_PrivateKey = ''private_key''"
| "FindingCategory_as_str FCat_CredentialUrl = ''credential_url''"
| "FindingCategory_as_str FCat_EnvironmentSecret = ''environment_secret''"

datatype PathRisk = PR_Normal | PR_FrontendPublic | PR_EnvironmentFile | PR_ContinuousIntegration | PR_Fixture

fun PathRisk_as_str :: "PathRisk \<Rightarrow> string" where
  "PathRisk_as_str PR_Normal = ''normal''"
| "PathRisk_as_str PR_FrontendPublic = ''frontend_public''"
| "PathRisk_as_str PR_EnvironmentFile = ''environment_file''"
| "PathRisk_as_str PR_ContinuousIntegration = ''continuous_integration''"
| "PathRisk_as_str PR_Fixture = ''fixture''"

record Detection =
  dt_rule_id :: string
  dt_category :: FindingCategory
  dt_severity :: Severity
  dt_column :: "64 word"
  dt_message :: string
  dt_remediation :: string

definition Detection_new :: "string \<Rightarrow> FindingCategory \<Rightarrow> Severity \<Rightarrow> nat \<Rightarrow> string \<Rightarrow> string \<Rightarrow> Detection" where
  "Detection_new rule_id category severity column message remediation =
     \<lparr>dt_rule_id = rule_id, dt_category = category, dt_severity = severity, dt_column = of_nat column,
      dt_message = message, dt_remediation = remediation\<rparr>"

record AddedLine =
  al_file :: string
  al_line :: "64 word"
  al_content :: string
  al_before :: "string list"
  al_after :: "string list"
  al_path_risk :: PathRisk

record DiffFinding =
  fd_rule_id :: string
  fd_category :: FindingCategory
  fd_severity :: Severity
  fd_path :: string
  fd_line :: "64 word"
  fd_column :: "64 word"
  fd_context_start :: "64 word"
  fd_context_end :: "64 word"
  fd_path_risk :: PathRisk
  fd_message :: string
  fd_remediation :: string

record Report =
  rp_outcome :: ScanOutcome
  rp_files_examined :: nat
  rp_added_lines_scanned :: nat
  rp_binary_files_skipped :: nat
  rp_findings :: "DiffFinding list"

section \<open>Paths\<close>

definition last_component :: "string \<Rightarrow> string" where
  "last_component s = last (split_on (CHR ''/'') s)"

definition classify_path :: "string \<Rightarrow> PathRisk" where
  "classify_path p =
     (let n = to_ascii_lowercase (str_replace [CHR 0x5C] ''/'' p); file_name = last_component n in
      if file_name = ''.env'' \<or> starts_with ''.env.'' file_name then PR_EnvironmentFile
      else if starts_with ''.github/workflows/'' n \<or> str_contains ''/.github/workflows/'' n \<or>
              starts_with ''.circleci/'' n \<or> str_contains ''/.circleci/'' n \<or> starts_with ''.gitlab-ci'' n \<or>
              file_name = ''.travis.yml'' \<or> file_name = ''jenkinsfile'' \<or> starts_with ''azure-pipelines'' file_name \<or>
              str_contains ''/buildkite/'' n \<or> str_contains ''/ci/'' n
      then PR_ContinuousIntegration
      else if str_contains ''/fixtures/'' n \<or> starts_with ''fixtures/'' n \<or> str_contains ''/snapshots/'' n \<or>
              str_contains ''__snapshots__'' n
      then PR_Fixture
      else if starts_with ''public/'' n \<or> str_contains ''/public/'' n \<or> starts_with ''frontend/'' n \<or>
              str_contains ''/frontend/'' n \<or> starts_with ''src/client/'' n \<or> str_contains ''/src/client/'' n
      then PR_FrontendPublic
      else PR_Normal)"

definition elevate :: "Severity \<Rightarrow> PathRisk \<Rightarrow> Severity" where
  "elevate severity risk =
     (if risk = PR_Normal then severity
      else case severity of Sev_Medium \<Rightarrow> Sev_High | Sev_High \<Rightarrow> Sev_Critical | Sev_Critical \<Rightarrow> Sev_Critical)"

section \<open>The built-in detector\<close>

definition blank :: "nat \<Rightarrow> nat \<Rightarrow> string \<Rightarrow> string" where
  "blank start stop s = take start s @ replicate (stop - start) (CHR '' '') @ drop stop s"

definition mask_ref :: "string \<Rightarrow> nat \<Rightarrow> nat \<Rightarrow> string \<Rightarrow> string" where
  "mask_ref content start stop masked =
     (if is_ok (SafeRef_parse (str_slice content start stop)) then blank start stop masked else masked)"

function mask_loop :: "string \<Rightarrow> string \<Rightarrow> nat \<Rightarrow> string" where
  "mask_loop content masked cursor =
     (case str_find PREFIX (drop cursor content) of
        None \<Rightarrow> masked
      | Some relative_start \<Rightarrow>
          let start = cursor + relative_start in
          (case str_find ''}}'' (drop start content) of
             None \<Rightarrow> masked
           | Some relative_end \<Rightarrow>
               let stop = start + relative_end + 2 in
               mask_loop content (mask_ref content start stop masked) stop))"
  by pat_completeness auto
termination
proof (relation "measure (\<lambda>(content, masked, cursor). length content - cursor)", goal_cases)
  case (2 content masked cursor rs start re stop)
  have "length PREFIX = 15" by (simp add: PREFIX_def)
  then show ?case using str_find_some[OF 2(1)] 2 by auto
qed simp

declare mask_loop.simps [simp del]

definition mask_safe_refs :: "string \<Rightarrow> string" where
  "mask_safe_refs content = mask_loop content content 0"

definition find_ascii_case_insensitive :: "string \<Rightarrow> string \<Rightarrow> nat option" where
  "find_ascii_case_insensitive haystack needle = str_find (to_ascii_lowercase needle) (to_ascii_lowercase haystack)"

definition credential_url_column :: "string \<Rightarrow> nat option" where
  "credential_url_column content =
     Option.bind (str_find ''://'' content) (\<lambda>scheme.
     let authority = drop (scheme + 3) content in
     Option.bind (str_find ''@'' authority) (\<lambda>at_sign.
     if CHR '':'' \<in> set (take at_sign authority) then Some (scheme + 4) else None))"

definition token_end :: "char \<Rightarrow> bool" where
  "token_end c \<longleftrightarrow> is_ascii_whitespace c \<or> c \<in> {CHR 0x22, CHR 0x27, CHR '','', CHR '';''}"

definition is_jwt :: "string \<Rightarrow> bool" where
  "is_jwt candidate =
     (case split_on (CHR ''.'') candidate of
        [header, payload, signature] \<Rightarrow> starts_with ''eyJ'' header \<and> list_all (\<lambda>s. length s \<ge> 8) [header, payload, signature]
      | _ \<Rightarrow> False)"

fun jwt_loop :: "string \<Rightarrow> nat \<Rightarrow> nat \<Rightarrow> string \<Rightarrow> nat option" where
  "jwt_loop content start i [] = (if is_jwt (drop start content) then Some (start + 1) else None)"
| "jwt_loop content start i (c # cs) =
     (if token_end c then
        (if is_jwt (str_slice content start i) then Some (start + 1) else jwt_loop content (i + 1) (i + 1) cs)
      else jwt_loop content start (i + 1) cs)"

definition jwt_column :: "string \<Rightarrow> nat option" where
  "jwt_column content = jwt_loop content 0 0 content"

definition provider_prefixes :: "string list" where
  "provider_prefixes = [''AKIA'', ''ASIA'', ''ghp_'', ''github_pat_'', ''xoxb-'', ''xoxp-'', ''sk-'']"

definition provider_token_at :: "string \<Rightarrow> string \<Rightarrow> nat option" where
  "provider_token_at content pre =
     Option.bind (str_find pre content) (\<lambda>i.
     let token = takeWhile (\<lambda>c. \<not> token_end c) (drop i content);
         minimum = (if pre \<in> set [''AKIA'', ''ASIA'', ''sk-''] then 20 else 16)
     in if length token \<ge> minimum \<and> list_all (\<lambda>c. is_ascii_alphanumeric c \<or> c \<in> set ''-_'') token then Some (i + 1) else None)"

fun first_some :: "('a \<Rightarrow> 'b option) \<Rightarrow> 'a list \<Rightarrow> 'b option" where
  "first_some f [] = None"
| "first_some f (x # xs) = (case f x of Some y \<Rightarrow> Some y | None \<Rightarrow> first_some f xs)"

definition provider_token_column :: "string \<Rightarrow> nat option" where
  "provider_token_column content =
     (case first_some (provider_token_at content) provider_prefixes of
        Some c \<Rightarrow> Some c
      | None \<Rightarrow> jwt_column content)"

definition looks_like_runtime_reference :: "string \<Rightarrow> bool" where
  "looks_like_runtime_reference v \<longleftrightarrow>
     starts_with ''${'' v \<or> starts_with ''env.'' v \<or> starts_with ''process.env'' v \<or> starts_with ''os.environ'' v \<or>
     starts_with ''std::env'' v \<or> str_contains ''secret_ref'' v"

definition sensitive_names :: "string list" where
  "sensitive_names = [''api_key'', ''apikey'', ''access_key'', ''secret'', ''token'', ''password'', ''passwd'', ''private_key'',
     ''client_secret'', ''auth'']"

definition credential_assignment :: "string \<Rightarrow> (nat \<times> string) option" where
  "credential_assignment content =
     Option.bind (case str_find ''='' content of Some i \<Rightarrow> Some i | None \<Rightarrow> str_find '':'' content) (\<lambda>separator.
     let name = to_ascii_lowercase (trim_matches (\<lambda>c. is_ascii_whitespace c \<or> c \<in> {CHR 0x22, CHR 0x27, CHR ''{'', CHR '','', CHR ''-'', CHR ''_''})
                  (take separator content)) in
     if \<not> list_ex (\<lambda>n. str_contains n name) sensitive_names then None
     else
       let v = trim_matches (\<lambda>c. c \<in> {CHR 0x22, CHR 0x27})
                 (trim_end_matches (\<lambda>c. c \<in> {CHR '','', CHR '';''}) (str_trim (drop (separator + 1) content))) in
       if v = [] \<or> looks_like_runtime_reference v then None else Some (separator + 2, v))"

definition placeholder_words :: "string list" where
  "placeholder_words = [''example'', ''examplekey'', ''fakeexamplekey'', ''placeholder'', ''placeholdervalue'', ''dummy'',
     ''dummyvalue'', ''fake'', ''sample'', ''changeme'', ''notasecret'', ''redacted'', ''yourkeyhere'', ''testonly'']"

definition is_placeholder :: "string \<Rightarrow> bool" where
  "is_placeholder v =
     (let normalized = map to_ascii_lowercase_char (filter is_ascii_alphanumeric v) in
      normalized = [] \<or> normalized \<in> set placeholder_words \<or> list_all (\<lambda>c. c = CHR ''x'' \<or> c = CHR ''0'') normalized)"

definition private_key_detection :: "nat \<Rightarrow> Detection" where
  "private_key_detection column =
     Detection_new ''BF-DIFF-PRIVATE-KEY'' FCat_PrivateKey Sev_Critical column
       ''private key material appears in an added line''
       ''Remove the key, rotate it if real, and load it from an approved secret store.''"

definition credential_url_detection :: "nat \<Rightarrow> Detection" where
  "credential_url_detection column =
     Detection_new ''BF-DIFF-CREDENTIAL-URL'' FCat_CredentialUrl Sev_High column
       ''a URL appears to contain embedded credentials''
       ''Remove URL credentials and inject authentication through an approved secret store.''"

definition provider_token_detection :: "nat \<Rightarrow> Detection" where
  "provider_token_detection column =
     Detection_new ''BF-DIFF-PROVIDER-TOKEN'' FCat_ProviderToken Sev_High column
       ''a provider-shaped token appears in an added line''
       ''Remove and rotate the token, then reference it through an approved secret store.''"

definition assignment_detection :: "PathRisk \<Rightarrow> nat \<Rightarrow> Detection" where
  "assignment_detection risk column =
     (let (rule_id, category, severity, message) =
            (if risk = PR_EnvironmentFile
             then (''BF-DIFF-ENV-SECRET'', FCat_EnvironmentSecret, Sev_High, ''an environment file assigns a likely secret'')
             else (''BF-DIFF-CREDENTIAL-ASSIGNMENT'', FCat_CredentialAssignment, Sev_Medium,
                   ''a credential-like name is assigned a non-placeholder value''))
      in Detection_new rule_id category severity column message
           ''Replace the literal with a secret reference or runtime environment lookup.'')"

definition detect_builtin :: "AddedLine \<Rightarrow> Detection option" where
  "detect_builtin line =
     (let content = str_trim (al_content line) in
      if content = [] then None
      else
        let content = mask_safe_refs content in
        case find_ascii_case_insensitive content ''-----begin private key-----'' of
          Some column \<Rightarrow> Some (private_key_detection (column + 1))
        | None \<Rightarrow>
        (case credential_url_column content of
          Some column \<Rightarrow> Some (credential_url_detection column)
        | None \<Rightarrow>
        (case provider_token_column content of
          Some column \<Rightarrow> Some (provider_token_detection column)
        | None \<Rightarrow>
        (case credential_assignment content of
          None \<Rightarrow> None
        | Some (column, v) \<Rightarrow>
            if is_placeholder v then None else Some (assignment_detection (al_path_risk line) column)))))"

definition BuiltinDetector_detect :: "AddedLine \<Rightarrow> Detection list" where
  "BuiltinDetector_detect line = (case detect_builtin line of None \<Rightarrow> [] | Some d \<Rightarrow> [d])"

section \<open>Scanning\<close>

definition nearby_before :: "PatchLine list \<Rightarrow> nat \<Rightarrow> string list" where
  "nearby_before lines i = map pl_content (filter (\<lambda>l. pl_kind l \<noteq> PLK_Removed) (str_slice lines (i - 2) i))"

definition nearby_after :: "PatchLine list \<Rightarrow> nat \<Rightarrow> string list" where
  "nearby_after lines i =
     map pl_content (filter (\<lambda>l. pl_kind l \<noteq> PLK_Removed) (str_slice lines (i + 1) (min (length lines) (i + 3))))"

record ScanState =
  ss_findings :: "DiffFinding list"
  ss_added :: nat
  ss_binary :: nat

definition saturating_sub_usize :: "64 word \<Rightarrow> nat \<Rightarrow> 64 word" where
  "saturating_sub_usize a n = of_nat (unat a - n)"

definition make_finding :: "string \<Rightarrow> PathRisk \<Rightarrow> 64 word \<Rightarrow> nat \<Rightarrow> nat \<Rightarrow> Detection \<Rightarrow> DiffFinding" where
  "make_finding p risk line_number before after d =
     \<lparr>fd_rule_id = dt_rule_id d, fd_category = dt_category d, fd_severity = elevate (dt_severity d) risk, fd_path = p,
      fd_line = line_number, fd_column = max (dt_column d) 1,
      fd_context_start = saturating_sub_usize line_number before, fd_context_end = line_number + of_nat after,
      fd_path_risk = risk, fd_message = dt_message d, fd_remediation = dt_remediation d\<rparr>"

definition scan_line :: "(AddedLine \<Rightarrow> Detection list) \<Rightarrow> string \<Rightarrow> PathRisk \<Rightarrow> PatchLine list \<Rightarrow> ScanState \<Rightarrow> nat \<Rightarrow> ScanState" where
  "scan_line detect p risk lines st i =
     (let patch_line = lines ! i in
      if pl_kind patch_line \<noteq> PLK_Added then st
      else case pl_new_line patch_line of
        None \<Rightarrow> st
      | Some line_number \<Rightarrow>
          let before = nearby_before lines i; after = nearby_after lines i;
              input = \<lparr>al_file = p, al_line = line_number, al_content = pl_content patch_line, al_before = before,
                       al_after = after, al_path_risk = risk\<rparr>
          in st\<lparr>ss_added := ss_added st + 1,
                ss_findings := ss_findings st @
                  map (make_finding p risk line_number (length before) (length after)) (detect input)\<rparr>)"

definition scan_hunk :: "(AddedLine \<Rightarrow> Detection list) \<Rightarrow> string \<Rightarrow> PathRisk \<Rightarrow> ScanState \<Rightarrow> Hunk \<Rightarrow> ScanState" where
  "scan_hunk detect p risk st hunk = foldl (scan_line detect p risk (hk_lines hunk)) st [0..<length (hk_lines hunk)]"

definition scan_file :: "(AddedLine \<Rightarrow> Detection list) \<Rightarrow> ScanState \<Rightarrow> FilePatch \<Rightarrow> ScanState" where
  "scan_file detect st file =
     (if fp_change file = FC_Binary then st\<lparr>ss_binary := ss_binary st + 1\<rparr>
      else case fp_new_path file of
        None \<Rightarrow> st
      | Some p \<Rightarrow> foldl (scan_hunk detect p (classify_path p)) st (fp_hunks file))"

definition scan_with :: "(AddedLine \<Rightarrow> Detection list) \<Rightarrow> Patch \<Rightarrow> Report" where
  "scan_with detect parsed =
     (let st = foldl (scan_file detect) \<lparr>ss_findings = [], ss_added = 0, ss_binary = 0\<rparr> (pt_files parsed) in
      \<lparr>rp_outcome =
         (if ss_findings st = [] then (if ss_added st = 0 then SO_NoTextChanges else SO_Clean) else SO_Findings),
       rp_files_examined = length (pt_files parsed), rp_added_lines_scanned = ss_added st,
       rp_binary_files_skipped = ss_binary st, rp_findings = ss_findings st\<rparr>)"

definition scan_patch :: "Patch \<Rightarrow> Report" where
  "scan_patch p = scan_with BuiltinDetector_detect p"

definition scan :: "string \<Rightarrow> PatchError + Report" where
  "scan input = res_map scan_patch (parse_patch input)"

section \<open>Reports as text\<close>

definition usize_str :: "64 word \<Rightarrow> string" where
  "usize_str w = nat_str (unat w)"

definition Report_to_text :: "Report \<Rightarrow> string" where
  "Report_to_text r =
     ''outcome='' @ ScanOutcome_as_str (rp_outcome r) @ '' files='' @ nat_str (rp_files_examined r) @
     '' added_lines='' @ nat_str (rp_added_lines_scanned r) @
     '' binary_files_skipped='' @ nat_str (rp_binary_files_skipped r) @ nl @
     concat (map (\<lambda>f. fd_path f @ '':'' @ usize_str (fd_line f) @ '':'' @ usize_str (fd_column f) @ '' ['' @
       Severity_as_str (fd_severity f) @ ''] '' @ fd_rule_id f @ '': '' @ fd_message f @ '' Remediation: '' @
       fd_remediation f @ nl) (rp_findings r))"

definition hex_digit :: "nat \<Rightarrow> char" where
  "hex_digit n = ''0123456789abcdef'' ! n"

definition escape_char :: "char \<Rightarrow> string" where
  "escape_char c =
     (if c = CHR 0x22 then [CHR 0x5C, CHR 0x22]
      else if c = CHR 0x5C then [CHR 0x5C, CHR 0x5C]
      else if c = CHR 0x0A then [CHR 0x5C, CHR ''n'']
      else if c = CHR 0x0D then [CHR 0x5C, CHR ''r'']
      else if c = CHR 0x09 then [CHR 0x5C, CHR ''t'']
      else if byte c \<le> 0x1F then CHR 0x5C # ''u00'' @ [hex_digit (byte c div 16), hex_digit (byte c mod 16)]
      else [c])"

definition escape_json :: "string \<Rightarrow> string" where
  "escape_json v = concat (map escape_char v)"

definition jq :: string where
  "jq = [CHR 0x22]"

definition json_finding :: "DiffFinding \<Rightarrow> string" where
  "json_finding f =
     ''{'' @ jq @ ''rule_id'' @ jq @ '':'' @ jq @ escape_json (fd_rule_id f) @
     jq @ '','' @ jq @ ''category'' @ jq @ '':'' @ jq @ FindingCategory_as_str (fd_category f) @
     jq @ '','' @ jq @ ''severity'' @ jq @ '':'' @ jq @ Severity_as_str (fd_severity f) @
     jq @ '','' @ jq @ ''path'' @ jq @ '':'' @ jq @ escape_json (fd_path f) @
     jq @ '','' @ jq @ ''line'' @ jq @ '':'' @ usize_str (fd_line f) @
     '','' @ jq @ ''column'' @ jq @ '':'' @ usize_str (fd_column f) @
     '','' @ jq @ ''context_start'' @ jq @ '':'' @ usize_str (fd_context_start f) @
     '','' @ jq @ ''context_end'' @ jq @ '':'' @ usize_str (fd_context_end f) @
     '','' @ jq @ ''path_risk'' @ jq @ '':'' @ jq @ PathRisk_as_str (fd_path_risk f) @
     jq @ '','' @ jq @ ''message'' @ jq @ '':'' @ jq @ escape_json (fd_message f) @
     jq @ '','' @ jq @ ''remediation'' @ jq @ '':'' @ jq @ escape_json (fd_remediation f) @ jq @ ''}''"

definition Report_to_json :: "Report \<Rightarrow> string" where
  "Report_to_json r =
     ''{'' @ jq @ ''schema_version'' @ jq @ '':1,'' @ jq @ ''outcome'' @ jq @ '':'' @ jq @ ScanOutcome_as_str (rp_outcome r) @
     jq @ '','' @ jq @ ''files_examined'' @ jq @ '':'' @ nat_str (rp_files_examined r) @
     '','' @ jq @ ''added_lines_scanned'' @ jq @ '':'' @ nat_str (rp_added_lines_scanned r) @
     '','' @ jq @ ''binary_files_skipped'' @ jq @ '':'' @ nat_str (rp_binary_files_skipped r) @
     '','' @ jq @ ''findings'' @ jq @ '':['' @ join_with '','' (map json_finding (rp_findings r)) @ '']}''"

section \<open>Git\<close>

datatype GitDiff = GD_Staged | GD_WorkingTree

datatype GitError = GE_Spawn | GE_CommandFailed | GE_NonUtf8Output | GE_InvalidPatch PatchError

fun GitError_fmt :: "GitError \<Rightarrow> string" where
  "GitError_fmt GE_Spawn = ''could not start git''"
| "GitError_fmt GE_CommandFailed = ''git diff failed''"
| "GitError_fmt GE_NonUtf8Output = ''git diff output is not valid UTF-8''"
| "GitError_fmt (GE_InvalidPatch e) = ''git produced an invalid patch''"

record GitCommand =
  gc_args :: "string list"
  gc_env_remove :: "string list"
  gc_env :: "(string \<times> string) list"

definition git_command :: "string \<Rightarrow> GitDiff \<Rightarrow> GitCommand" where
  "git_command repository source =
     \<lparr>gc_args = [''-c'', ''diff.external='', ''-c'', ''core.pager=cat'', ''-C'', repository, ''diff'', ''--no-ext-diff'',
                ''--no-textconv'', ''--unified=3''] @ (if source = GD_Staged then [''--cached''] else []) @ [''--''],
      gc_env_remove = [''GIT_EXTERNAL_DIFF''], gc_env = [(''GIT_PAGER'', ''cat'')]\<rparr>"

text \<open>\<open>None\<close>: Git could not be started; otherwise whether it succeeded, and what it wrote.\<close>

definition read_git_patch :: "(GitCommand \<Rightarrow> (bool \<times> string) option) \<Rightarrow> string \<Rightarrow> GitDiff \<Rightarrow> GitError + Patch" where
  "read_git_patch git repository source =
     res_bind (ok_or (git (git_command repository source)) GE_Spawn) (\<lambda>(success, stdout).
     if \<not> success then Err GE_CommandFailed
     else if \<not> utf8_valid stdout then Err GE_NonUtf8Output
     else map_err GE_InvalidPatch (parse_patch stdout))"

definition scan_git :: "(GitCommand \<Rightarrow> (bool \<times> string) option) \<Rightarrow> string \<Rightarrow> GitDiff \<Rightarrow> GitError + Report" where
  "scan_git git repository source = res_map scan_patch (read_git_patch git repository source)"

section \<open>What is scanned\<close>

definition line_input :: "string \<Rightarrow> PatchLine list \<Rightarrow> nat \<Rightarrow> 64 word \<Rightarrow> AddedLine" where
  "line_input p lines i n =
     \<lparr>al_file = p, al_line = n, al_content = pl_content (lines ! i), al_before = nearby_before lines i,
      al_after = nearby_after lines i, al_path_risk = classify_path p\<rparr>"

definition line_findings :: "(AddedLine \<Rightarrow> Detection list) \<Rightarrow> string \<Rightarrow> PatchLine list \<Rightarrow> nat \<Rightarrow> DiffFinding list" where
  "line_findings detect p lines i =
     (if pl_kind (lines ! i) \<noteq> PLK_Added then []
      else case pl_new_line (lines ! i) of
        None \<Rightarrow> []
      | Some n \<Rightarrow> map (make_finding p (classify_path p) n (length (nearby_before lines i)) (length (nearby_after lines i)))
                    (detect (line_input p lines i n)))"

definition added_at :: "PatchLine list \<Rightarrow> nat \<Rightarrow> bool" where
  "added_at lines i \<longleftrightarrow> pl_kind (lines ! i) = PLK_Added \<and> pl_new_line (lines ! i) \<noteq> None"

definition scanned_hunks :: "FilePatch \<Rightarrow> (string \<times> Hunk) list" where
  "scanned_hunks f =
     (if fp_change f = FC_Binary then [] else case fp_new_path f of None \<Rightarrow> [] | Some p \<Rightarrow> map (Pair p) (fp_hunks f))"

definition hunk_findings :: "(AddedLine \<Rightarrow> Detection list) \<Rightarrow> string \<times> Hunk \<Rightarrow> DiffFinding list" where
  "hunk_findings detect ph =
     concat (map (line_findings detect (fst ph) (hk_lines (snd ph))) [0..<length (hk_lines (snd ph))])"

definition hunk_added :: "string \<times> Hunk \<Rightarrow> nat" where
  "hunk_added ph = length (filter (added_at (hk_lines (snd ph))) [0..<length (hk_lines (snd ph))])"

lemma scanned_hunks_iff:
  "(q, h) \<in> set (scanned_hunks f) \<longleftrightarrow> fp_change f \<noteq> FC_Binary \<and> fp_new_path f = Some q \<and> h \<in> set (fp_hunks f)"
  by (auto simp: scanned_hunks_def split: option.splits)

lemma scan_line_fold:
  "foldl (scan_line detect p (classify_path p) lines) st is =
     st\<lparr>ss_findings := ss_findings st @ concat (map (line_findings detect p lines) is),
        ss_added := ss_added st + length (filter (added_at lines) is)\<rparr>"
proof (induction "is" arbitrary: st)
  case (Cons i "is")
  have "scan_line detect p (classify_path p) lines st i =
      st\<lparr>ss_findings := ss_findings st @ line_findings detect p lines i,
         ss_added := ss_added st + (if added_at lines i then 1 else 0)\<rparr>"
    by (auto simp: scan_line_def line_findings_def line_input_def added_at_def Let_def split: option.splits)
  then show ?case using Cons by simp
qed simp

lemma scan_hunk_fold:
  "foldl (scan_hunk detect p (classify_path p)) st hs =
     st\<lparr>ss_findings := ss_findings st @ concat (map (\<lambda>h. hunk_findings detect (p, h)) hs),
        ss_added := ss_added st + sum_list (map (\<lambda>h. hunk_added (p, h)) hs)\<rparr>"
  by (induction hs arbitrary: st) (simp_all add: scan_hunk_def scan_line_fold hunk_findings_def hunk_added_def)

lemma scan_file_fold:
  "foldl (scan_file detect) st fs =
     st\<lparr>ss_findings := ss_findings st @ concat (map (\<lambda>f. concat (map (hunk_findings detect) (scanned_hunks f))) fs),
        ss_added := ss_added st + sum_list (map (\<lambda>f. sum_list (map hunk_added (scanned_hunks f))) fs),
        ss_binary := ss_binary st + length (filter (\<lambda>f. fp_change f = FC_Binary) fs)\<rparr>"
proof (induction fs arbitrary: st)
  case (Cons f fs)
  have "scan_file detect st f =
      st\<lparr>ss_findings := ss_findings st @ concat (map (hunk_findings detect) (scanned_hunks f)),
         ss_added := ss_added st + sum_list (map hunk_added (scanned_hunks f)),
         ss_binary := ss_binary st + (if fp_change f = FC_Binary then 1 else 0)\<rparr>"
    by (auto simp: scan_file_def scanned_hunks_def scan_hunk_fold comp_def split: option.splits)
  then show ?case using Cons by simp
qed simp

lemma sum_list_concat_map: "sum_list (concat xss) = sum_list (map sum_list xss)" for xss :: "nat list list"
  by (induction xss) auto

lemma concat_concat: "concat (concat xss) = concat (map concat xss)"
  by (induction xss) auto

lemma scan_with_simps:
  "rp_findings (scan_with detect p) = concat (map (hunk_findings detect) (concat (map scanned_hunks (pt_files p))))"
  "rp_added_lines_scanned (scan_with detect p) = sum_list (map hunk_added (concat (map scanned_hunks (pt_files p))))"
  "rp_binary_files_skipped (scan_with detect p) = length (filter (\<lambda>f. fp_change f = FC_Binary) (pt_files p))"
  "rp_files_examined (scan_with detect p) = length (pt_files p)"
  "rp_outcome (scan_with detect p) = (if rp_findings (scan_with detect p) \<noteq> [] then SO_Findings
     else if rp_added_lines_scanned (scan_with detect p) = 0 then SO_NoTextChanges else SO_Clean)"
  by (simp_all add: scan_with_def Let_def scan_file_fold map_concat comp_def sum_list_concat_map concat_concat)

lemma numbered_nth:
  assumes "numbered a b ls" and "i < length ls" and "pl_kind (ls ! i) \<noteq> PLK_Removed"
  shows "pl_new_line (ls ! i) = Some (b + of_nat (new_len (take i ls)))"
proof -
  have "ls = take i ls @ ls ! i # drop (Suc i) ls" using assms(2) by (rule id_take_nth_drop)
  then show ?thesis using assms(1,3) numbered_append[of a b "take i ls" "ls ! i # drop (Suc i) ls"] by simp
qed

section \<open>Masked references\<close>

lemma mask_loop_step:
  assumes "str_find PREFIX (drop cursor content) = Some rs" and "str_find ''}}'' (drop (cursor + rs) content) = Some re"
  shows "mask_loop content masked cursor =
    mask_loop content (mask_ref content (cursor + rs) (cursor + rs + re + 2) masked) (cursor + rs + re + 2)"
  using assms by (subst mask_loop.simps) (simp add: Let_def)

lemma mask_loop_stop:
  assumes "str_find PREFIX (drop cursor content) = None \<or>
    (\<exists>rs. str_find PREFIX (drop cursor content) = Some rs \<and> str_find ''}}'' (drop (cursor + rs) content) = None)"
  shows "mask_loop content masked cursor = masked"
  using assms by (subst mask_loop.simps) (auto simp: Let_def)

lemma mask_loop_induct [case_names stop step]:
  assumes stop: "\<And>content masked cursor. str_find PREFIX (drop cursor content) = None \<or>
      (\<exists>rs. str_find PREFIX (drop cursor content) = Some rs \<and> str_find ''}}'' (drop (cursor + rs) content) = None) \<Longrightarrow>
      P content masked cursor"
    and step: "\<And>content masked cursor rs re. str_find PREFIX (drop cursor content) = Some rs \<Longrightarrow>
      str_find ''}}'' (drop (cursor + rs) content) = Some re \<Longrightarrow>
      P content (mask_ref content (cursor + rs) (cursor + rs + re + 2) masked) (cursor + rs + re + 2) \<Longrightarrow>
      P content masked cursor"
  shows "P content masked cursor"
proof (induction content masked cursor rule: mask_loop.induct)
  case (1 content masked cursor)
  show ?case
  proof (cases "str_find PREFIX (drop cursor content)")
    case None
    then show ?thesis by (intro stop) simp
  next
    case (Some rs)
    note pre = Some
    show ?thesis
    proof (cases "str_find ''}}'' (drop (cursor + rs) content)")
      case None
      then show ?thesis using pre by (intro stop) simp
    next
      case (Some re)
      show ?thesis using 1[OF pre refl Some refl] by (intro step[OF pre Some])
    qed
  qed
qed

lemma mask_ref_length: "stop \<le> length masked \<Longrightarrow> start \<le> stop \<Longrightarrow> length (mask_ref content start stop masked) = length masked"
  by (simp add: mask_ref_def blank_def)

lemma mask_ref_nth:
  "stop \<le> length masked \<Longrightarrow> start \<le> stop \<Longrightarrow> i < length masked \<Longrightarrow>
     mask_ref content start stop masked ! i = masked ! i \<or> mask_ref content start stop masked ! i = CHR '' ''"
  by (auto simp: mask_ref_def blank_def nth_append)

lemma mask_stop_bound:
  "str_find ''}}'' (drop (start :: nat) content) = Some re \<Longrightarrow> start + re + 2 \<le> length content"
  using str_find_some[of "''}}''" "drop start content" re] by (cases "start \<le> length content") auto

lemma mask_loop_blanks:
  assumes "length masked = length content"
  shows "length (mask_loop content masked cursor) = length content \<and>
    (\<forall>i<length content. mask_loop content masked cursor ! i \<in> {masked ! i, CHR '' ''})"
  using assms
proof (induction content masked cursor rule: mask_loop_induct)
  case (stop content masked cursor)
  then show ?case by (simp add: mask_loop_stop)
next
  case (step content masked cursor rs re)
  let ?m = "mask_ref content (cursor + rs) (cursor + rs + re + 2) masked"
  have b: "cursor + rs + re + 2 \<le> length masked" using mask_stop_bound[OF step(2)] step(4) by simp
  then have "length ?m = length content" using step(4) mask_ref_length[OF b, of "cursor + rs" content] by simp
  from step(3)[OF this] have ih: "length (mask_loop content ?m (cursor + rs + re + 2)) = length content"
    "\<And>i. i < length content \<Longrightarrow> mask_loop content ?m (cursor + rs + re + 2) ! i \<in> {?m ! i, CHR '' ''}" by auto
  have "?m ! i \<in> {masked ! i, CHR '' ''}" if "i < length content" for i
    using mask_ref_nth[OF b, of "cursor + rs" i content] that step(4) by auto
  then have "mask_loop content ?m (cursor + rs + re + 2) ! i \<in> {masked ! i, CHR '' ''}" if "i < length content" for i
    using ih(2)[OF that] that by (metis insert_iff empty_iff)
  then show ?case unfolding mask_loop_step[OF step(1,2)] using ih(1) by simp
qed

lemma mask_loop_shift:
  "length x = length y \<Longrightarrow> mask_loop (x @ content) (y @ masked) (length x + cursor) = y @ mask_loop content masked cursor"
proof (induction content masked cursor rule: mask_loop_induct)
  case (stop content masked cursor)
  then have "mask_loop (x @ content) (y @ masked) (length x + cursor) = y @ masked"
    by (intro mask_loop_stop) (auto simp: add.assoc)
  then show ?case using stop by (simp add: mask_loop_stop)
next
  case (step content masked cursor rs re)
  have "mask_loop (x @ content) (y @ masked) (length x + cursor) =
      mask_loop (x @ content) (mask_ref (x @ content) (length x + cursor + rs) (length x + cursor + rs + re + 2) (y @ masked))
        (length x + cursor + rs + re + 2)"
    using step(1,2) by (intro mask_loop_step) (auto simp: add.assoc)
  also have "mask_ref (x @ content) (length x + cursor + rs) (length x + cursor + rs + re + 2) (y @ masked) =
      y @ mask_ref content (cursor + rs) (cursor + rs + re + 2) masked"
    using step(4) by (simp add: mask_ref_def blank_def str_slice_def add.assoc)
  finally show ?case using step(3,4) by (simp add: mask_loop_step[OF step(1,2)] add.assoc)
qed

lemma str_find_first:
  "n \<le> length s \<Longrightarrow> \<forall>i<n. \<not> starts_with p (drop i s) \<Longrightarrow> starts_with p (drop n s) \<Longrightarrow> str_find p s = Some n"
proof (induction s arbitrary: n)
  case Nil
  then show ?case by (simp add: starts_with_iff)
next
  case (Cons c s)
  show ?case
  proof (cases n)
    case 0
    then show ?thesis using Cons.prems by simp
  next
    case (Suc m)
    have no: "\<not> starts_with p (c # s)" using Cons.prems(2) Suc by (auto dest: spec[of _ 0])
    have "\<not> starts_with p (drop i s)" if "i < m" for i using Cons.prems(2) Suc that by (auto dest: spec[of _ "Suc i"])
    then have "str_find p s = Some m" using Cons.IH[of m] Cons.prems Suc by simp
    then show ?thesis using no Suc by simp
  qed
qed

lemma reference_text:
  assumes "safe_ref_wf r"
  obtains body where "sr_encoded r = body @ ''}}''" "CHR 0x7D \<notin> set body" "starts_with PREFIX (sr_encoded r)"
    "SafeRef_parse (sr_encoded r) = Ok r"
proof -
  obtain i where i: "lower_hex_id i" "sr_encoded r = PREFIX @ SafeRefKind_as_str (sr_kind r) @ '':'' @ i @ SUFFIX"
    using assms by (auto simp: safe_ref_wf_def)
  have "\<not> is_ascii_hexdigit (CHR 0x7D)" by (simp add: is_ascii_hexdigit_def is_ascii_digit_def byte_def)
  then have "CHR 0x7D \<notin> set i" using i(1) by (auto simp: lower_hex_id_def list_all_iff)
  then have "CHR 0x7D \<notin> set (PREFIX @ SafeRefKind_as_str (sr_kind r) @ '':'' @ i)"
    by (cases "sr_kind r") (auto simp: PREFIX_def)
  moreover have "SafeRef_parse (sr_encoded r) = Ok r" using i by (auto simp: SafeRef_parse_ok_iff)
  ultimately show ?thesis
    using that[of "PREFIX @ SafeRefKind_as_str (sr_kind r) @ '':'' @ i"] i(2) by (auto simp: SUFFIX_def starts_with_iff)
qed

lemma mask_reference:
  assumes "safe_ref_wf r" and "\<forall>i<length a. \<not> starts_with PREFIX (drop i (a @ sr_encoded r @ b))"
  shows "mask_safe_refs (a @ sr_encoded r @ b) = a @ replicate (length (sr_encoded r)) (CHR '' '') @ mask_safe_refs b"
proof -
  let ?e = "sr_encoded r" and ?c = "a @ sr_encoded r @ b" and ?n = "length (sr_encoded r)"
  obtain body where e: "?e = body @ ''}}''" "CHR 0x7D \<notin> set body" "starts_with PREFIX ?e" "SafeRef_parse ?e = Ok r"
    using reference_text[OF assms(1)] .
  obtain rest where "?e = PREFIX @ rest" using e(3) by (auto simp: starts_with_iff)
  then have "starts_with PREFIX (?e @ b)" by (auto simp: starts_with_iff)
  then have pre: "str_find PREFIX (drop 0 ?c) = Some (length a)"
    using assms(2) str_find_first[of "length a" ?c PREFIX] by simp
  have "str_find ''}}'' (''}}'' @ b) = Some 0" by (simp add: starts_with_def)
  then have "str_find ''}}'' (body @ ''}}'' @ b) = Some (length body)"
    using e(2) str_find_skip[of body "CHR 0x7D" "''}''" "''}}'' @ b"] by auto
  then have suf: "str_find ''}}'' (drop (0 + length a) ?c) = Some (length body)" using e(1) by simp
  have stop: "0 + length a + length body + 2 = length (a @ ?e)" using e(1) by simp
  have "str_slice ?c (length a) (length a + ?n) = ?e" by (simp add: str_slice_def)
  then have "mask_ref ?c (length a) (length a + ?n) ?c = a @ replicate ?n (CHR '' '') @ b"
    using e(4) by (simp add: mask_ref_def blank_def)
  then have "mask_safe_refs ?c = mask_loop ?c (a @ replicate ?n (CHR '' '') @ b) (length (a @ ?e) + 0)"
    using mask_loop_step[OF pre suf, of ?c] unfolding mask_safe_refs_def stop by simp
  also have "\<dots> = (a @ replicate ?n (CHR '' '')) @ mask_loop b b 0"
    using mask_loop_shift[of "a @ ?e" "a @ replicate ?n (CHR '' '')" b b 0] by simp
  finally show ?thesis by (simp add: mask_safe_refs_def)
qed

text \<open>The texts the built-in detector can put in a report.\<close>

definition builtin_texts :: "(string \<times> FindingCategory \<times> string \<times> string) list" where
  "builtin_texts =
     [(''BF-DIFF-PRIVATE-KEY'', FCat_PrivateKey, ''private key material appears in an added line'',
       ''Remove the key, rotate it if real, and load it from an approved secret store.''),
      (''BF-DIFF-CREDENTIAL-URL'', FCat_CredentialUrl, ''a URL appears to contain embedded credentials'',
       ''Remove URL credentials and inject authentication through an approved secret store.''),
      (''BF-DIFF-PROVIDER-TOKEN'', FCat_ProviderToken, ''a provider-shaped token appears in an added line'',
       ''Remove and rotate the token, then reference it through an approved secret store.''),
      (''BF-DIFF-ENV-SECRET'', FCat_EnvironmentSecret, ''an environment file assigns a likely secret'',
       ''Replace the literal with a secret reference or runtime environment lookup.''),
      (''BF-DIFF-CREDENTIAL-ASSIGNMENT'', FCat_CredentialAssignment, ''a credential-like name is assigned a non-placeholder value'',
       ''Replace the literal with a secret reference or runtime environment lookup.'')]"

lemma detect_builtin_cases:
  assumes "detect_builtin line = Some d"
  obtains n where "d = private_key_detection n"
  | n where "d = credential_url_detection n"
  | n where "d = provider_token_detection n"
  | risk n where "d = assignment_detection risk n"
  using assms that by (auto simp: detect_builtin_def Let_def split: option.splits if_splits)

lemma detect_builtin_closed:
  assumes "detect_builtin line = Some d"
  shows "(dt_rule_id d, dt_category d, dt_message d, dt_remediation d) \<in> set builtin_texts"
  using assms
proof (cases rule: detect_builtin_cases)
  case (1 n)
  then show ?thesis by (simp add: private_key_detection_def Detection_new_def builtin_texts_def)
next
  case (2 n)
  then show ?thesis by (simp add: credential_url_detection_def Detection_new_def builtin_texts_def)
next
  case (3 n)
  then show ?thesis by (simp add: provider_token_detection_def Detection_new_def builtin_texts_def)
next
  case (4 risk n)
  then show ?thesis by (simp add: assignment_detection_def Detection_new_def builtin_texts_def)
qed

lemma elevate_ge: "elevate s risk \<ge> s" "risk \<noteq> PR_Normal \<Longrightarrow> elevate s risk \<ge> Sev_High"
  by (cases s; simp add: elevate_def less_eq_Severity_def)+

section \<open>Properties\<close>



text \<open>
  References are masked before detection.  Masking keeps the length of the line and every
  character outside valid references, and replaces a valid reference by blanks wherever it stands,
  so neither a reference nor anything next to it is lost or shifted.
\<close>

theorem safe_refs_masked:
  "length (mask_safe_refs content) = length content \<and>
   (\<forall>i<length content. mask_safe_refs content ! i \<in> {content ! i, CHR '' ''}) \<and>
   (safe_ref_wf r \<and> (\<forall>i<length a. \<not> starts_with PREFIX (drop i (a @ sr_encoded r @ b))) \<longrightarrow>
      mask_safe_refs (a @ sr_encoded r @ b) = a @ replicate (length (sr_encoded r)) (CHR '' '') @ mask_safe_refs b)"
  using mask_loop_blanks[of content content 0] mask_reference[of r a b] unfolding mask_safe_refs_def[of content] by blast

definition wit_sref :: SafeRef where
  "wit_sref = \<lparr>sr_kind = SRK_Environment, sr_encoded = ''{{BLINDFOLD:v1:ENV:00112233445566778899aabbccddeeff}}''\<rparr>"

lemma wit_sref_wf: "safe_ref_wf wit_sref"
proof -
  have "SafeRef_parse (sr_encoded wit_sref) = Ok wit_sref" by code_simp
  then show ?thesis by (rule SafeRef_parse_wf)
qed

theorem safe_refs_masked_witness:
  "mask_safe_refs (''k='' @ sr_encoded wit_sref @ '';'') = ''k='' @ replicate (length (sr_encoded wit_sref)) (CHR '' '') @ mask_safe_refs '';''"
proof -
  have "\<forall>i<length ''k=''. \<not> starts_with PREFIX (drop i (''k='' @ sr_encoded wit_sref @ '';''))"
    by (simp add: less_Suc_eq_0_disj starts_with_def PREFIX_def numeral_2_eq_2)
  then show ?thesis using safe_refs_masked[of "[]" wit_sref "''k=''" "'';''"] wit_sref_wf by blast
qed

text \<open>
  A report of the built-in scanner holds no text of the patch but paths: whatever the input,
  rule, category, message and remediation of every finding come from a fixed table of five rules,
  and the path is the new path of a section of the patch.  A finding in a path of elevated risk
  is at least of high severity.
\<close>

theorem scan_report_closed:
  assumes "scan input = Ok r" and "x \<in> set (rp_findings r)"
  shows "(fd_rule_id x, fd_category x, fd_message x, fd_remediation x) \<in> set builtin_texts \<and>
    (\<exists>p f. parse_patch input = Ok p \<and> f \<in> set (pt_files p) \<and> fp_new_path f = Some (fd_path x)) \<and>
    (fd_path_risk x \<noteq> PR_Normal \<longrightarrow> Sev_High \<le> fd_severity x)"
proof -
  obtain p where p: "parse_patch input = Ok p" "r = scan_with BuiltinDetector_detect p"
    using assms(1) by (auto simp: scan_def scan_patch_def res_map_ok_iff)
  obtain f q h where f: "f \<in> set (pt_files p)" "(q, h) \<in> set (scanned_hunks f)"
    "x \<in> set (hunk_findings BuiltinDetector_detect (q, h))"
    using assms(2) p(2) by (auto simp: scan_with_simps(1))
  from f(3) obtain i n d where d: "x = make_finding q (classify_path q) n (length (nearby_before (hk_lines h) i))
      (length (nearby_after (hk_lines h) i)) d" "d \<in> set (BuiltinDetector_detect (line_input q (hk_lines h) i n))"
    by (auto simp: hunk_findings_def line_findings_def split: if_splits option.splits)
  then have "detect_builtin (line_input q (hk_lines h) i n) = Some d"
    by (auto simp: BuiltinDetector_detect_def split: option.splits)
  from detect_builtin_closed[OF this] have "(dt_rule_id d, dt_category d, dt_message d, dt_remediation d) \<in> set builtin_texts" .
  moreover have "fp_new_path f = Some q" using f(2) by (simp add: scanned_hunks_iff)
  ultimately show ?thesis
    using p(1) f(1) d(1) elevate_ge(2)[of "classify_path q" "dt_severity d"] by (auto simp: make_finding_def)
qed

lemma wit_scan: "rp_findings (scan_patch wit_patch) \<noteq> []"
  by code_simp

theorem scan_report_closed_witness:
  "\<exists>r x. scan (render_patch wit_patch) = Ok r \<and> x \<in> set (rp_findings r) \<and>
     (fd_rule_id x, fd_category x, fd_message x, fd_remediation x) \<in> set builtin_texts"
proof -
  have r: "scan (render_patch wit_patch) = Ok (scan_patch wit_patch)" by (simp add: scan_def parse_patch_wit)
  obtain x where x: "x \<in> set (rp_findings (scan_patch wit_patch))" using wit_scan by (meson last_in_set)
  show ?thesis using scan_report_closed[OF r x] r x by blast
qed

text \<open>
  Two limits of the built-in detector: only the first occurrence of a provider prefix is looked
  at, and a column counts from the trimmed line.
\<close>

lemma provider_token_first_only:
  "provider_token_column (''sk-x '' @ ''sk-live-1234567890abcdefghijklmnop'') = None"
  "provider_token_column ''sk-live-1234567890abcdefghijklmnop'' = Some 1"
  by code_simp+

lemma detection_column_trimmed:
  "map_option dt_column (detect_builtin \<lparr>al_file = ''a'', al_line = 1, al_content = ''    sk-live-1234567890abcdefghijklmnop'',
     al_before = [], al_after = [], al_path_risk = PR_Normal\<rparr>) = Some 1"
  by code_simp

end
