(* ===== verification/Json.thy ===== *)
theory Json
  imports Rust_Str
begin

text \<open>
  JSON values as \<open>serde_json::Value\<close> has them, with the operations the sources use on them.  A number
  is kept as the text it prints as.  An object is the list of its fields in iteration order.  The
  parser and the printer of JSON text are library code and parameters of the theories that use
  them.  \<open>jleaves\<close> lists the strings of a value with their JSON pointers and \<open>jmap\<close> replaces them;
  the traversals of the sources are compared with these two.
\<close>

section \<open>Values\<close>

datatype json =
    JNull
  | JBool bool
  | JNum string
  | JStr string
  | JArr "json list"
  | JObj "(string \<times> json) list"

lemma json_induct [case_names JNull JBool JNum JStr JArr JObj]:
  assumes "P JNull" and "\<And>b. P (JBool b)" and "\<And>n. P (JNum n)" and "\<And>t. P (JStr t)"
    and "\<And>vs. (\<And>v. v \<in> set vs \<Longrightarrow> P v) \<Longrightarrow> P (JArr vs)"
    and "\<And>fs. (\<And>k v. (k, v) \<in> set fs \<Longrightarrow> P v) \<Longrightarrow> P (JObj fs)"
  shows "P v"
proof (induction v)
  case (JObj fs)
  have "P v" if "(k, v) \<in> set fs" for k v using JObj[OF that] by simp
  then show ?case by (rule assms(6))
qed (auto intro: assms)

fun is_object :: "json \<Rightarrow> bool" where
  "is_object (JObj _) = True"
| "is_object _ = False"

fun as_str :: "json \<Rightarrow> string option" where
  "as_str (JStr s) = Some s"
| "as_str _ = None"

text \<open>\<open>Value::get\<close> and one step of \<open>Value::pointer\<close> with a token that is no array index.\<close>

fun json_get :: "string \<Rightarrow> json \<Rightarrow> json option" where
  "json_get k (JObj fs) = map_of fs k"
| "json_get k _ = None"

lemma json_get_some: "json_get k v = Some w \<longleftrightarrow> (\<exists>fs. v = JObj fs \<and> map_of fs k = Some w)"
  by (cases v) auto

fun set_first :: "string \<Rightarrow> json \<Rightarrow> (string \<times> json) list \<Rightarrow> (string \<times> json) list" where
  "set_first k v [] = []"
| "set_first k v ((k', w) # fs) = (if k' = k then (k, v) # fs else (k', w) # set_first k v fs)"

fun json_put :: "string \<Rightarrow> json \<Rightarrow> json \<Rightarrow> json" where
  "json_put k v (JObj fs) = JObj (set_first k v fs)"
| "json_put k v w = w"

definition escape_pointer :: "string \<Rightarrow> string" where
  "escape_pointer s = str_replace ''/'' ''~1'' (str_replace ''~'' ''~0'' s)"

definition index_pointer :: "string \<Rightarrow> nat \<Rightarrow> string" where
  "index_pointer p i = p @ ''/'' @ nat_str i"

definition key_pointer :: "string \<Rightarrow> string \<Rightarrow> string" where
  "key_pointer p k = p @ ''/'' @ escape_pointer k"

lemma set_first_get: "map_of fs k \<noteq> None \<Longrightarrow> map_of (set_first k v fs) = (map_of fs)(k \<mapsto> v)"
  by (induction fs) (auto simp: fun_eq_iff)

lemma set_first_keys [simp]: "map fst (set_first k v fs) = map fst fs"
  by (induction fs) auto

section \<open>The strings of a value\<close>

text \<open>
  A string with its pointer and a flag that a field name above it sets (\<open>mark\<close>); a traversal that has
  no such flag uses \<open>\<lambda>_. False\<close>.
\<close>

type_synonym leaf = "string \<times> bool \<times> string"

fun jleaves :: "(string \<Rightarrow> bool) \<Rightarrow> string \<Rightarrow> bool \<Rightarrow> json \<Rightarrow> leaf list"
  and jleaves_items :: "(string \<Rightarrow> bool) \<Rightarrow> string \<Rightarrow> bool \<Rightarrow> nat \<Rightarrow> json list \<Rightarrow> leaf list"
  and jleaves_fields :: "(string \<Rightarrow> bool) \<Rightarrow> string \<Rightarrow> bool \<Rightarrow> (string \<times> json) list \<Rightarrow> leaf list"
where
  "jleaves mark p b (JStr s) = [(p, b, s)]"
| "jleaves mark p b (JArr vs) = jleaves_items mark p b 0 vs"
| "jleaves mark p b (JObj fs) = jleaves_fields mark p b fs"
| "jleaves mark p b JNull = []"
| "jleaves mark p b (JBool _) = []"
| "jleaves mark p b (JNum _) = []"
| "jleaves_items mark p b i [] = []"
| "jleaves_items mark p b i (v # vs) = jleaves mark (index_pointer p i) b v @ jleaves_items mark p b (i + 1) vs"
| "jleaves_fields mark p b [] = []"
| "jleaves_fields mark p b ((k, v) # fs) = jleaves mark (key_pointer p k) (b \<or> mark k) v @ jleaves_fields mark p b fs"

fun jmap :: "(string \<Rightarrow> string) \<Rightarrow> json \<Rightarrow> json" where
  "jmap f (JStr s) = JStr (f s)"
| "jmap f (JArr vs) = JArr (map (jmap f) vs)"
| "jmap f (JObj fs) = JObj (map (\<lambda>(k, v). (k, jmap f v)) fs)"
| "jmap f JNull = JNull"
| "jmap f (JBool b) = JBool b"
| "jmap f (JNum n) = JNum n"

fun jstrings :: "json \<Rightarrow> string list" where
  "jstrings (JStr s) = [s]"
| "jstrings (JArr vs) = concat (map jstrings vs)"
| "jstrings (JObj fs) = concat (map (\<lambda>(k, v). jstrings v) fs)"
| "jstrings JNull = []"
| "jstrings (JBool b) = []"
| "jstrings (JNum n) = []"

text \<open>The keys and the numbers, which no traversal replaces.\<close>

fun jfixed :: "json \<Rightarrow> string list" where
  "jfixed (JStr s) = []"
| "jfixed (JArr vs) = concat (map jfixed vs)"
| "jfixed (JObj fs) = concat (map (\<lambda>(k, v). k # jfixed v) fs)"
| "jfixed JNull = []"
| "jfixed (JBool b) = []"
| "jfixed (JNum n) = [n]"

lemma jleaves_strings:
  "map (\<lambda>(p, b, s). s) (jleaves mark p b v) = jstrings v"
  "map (\<lambda>(p, b, s). s) (jleaves_items mark p b i vs) = concat (map jstrings vs)"
  "map (\<lambda>(p, b, s). s) (jleaves_fields mark p b fs) = concat (map (\<lambda>(k, v). jstrings v) fs)"
  by (induction mark p b v and mark p b i vs and mark p b fs rule: jleaves_jleaves_items_jleaves_fields.induct) auto

lemma jstrings_jmap [simp]: "jstrings (jmap f v) = map f (jstrings v)"
proof (induction v)
  case (JArr vs)
  then show ?case by (simp add: map_concat comp_def cong: map_cong)
next
  case (JObj fs)
  then show ?case by (induction fs) force+
qed auto

lemma jfixed_jmap [simp]: "jfixed (jmap f v) = jfixed v"
proof (induction v)
  case (JArr vs)
  then show ?case by (simp add: comp_def cong: map_cong)
next
  case (JObj fs)
  then show ?case by (induction fs) force+
qed auto

section \<open>The text codec\<close>

text \<open>
  The readers and writers of \<open>serde_json\<close>.  What the sources rely on: what is written reads back as the
  value, and the compact form has no line break.
\<close>

record JsonCodec =
  from_str :: "string \<Rightarrow> json option"
  to_string :: "json \<Rightarrow> string option"
  from_slice :: "string \<Rightarrow> json option"
  to_vec :: "json \<Rightarrow> string option"

definition codec_ok :: "JsonCodec \<Rightarrow> bool" where
  "codec_ok c \<longleftrightarrow> (\<forall>v s. to_string c v = Some s \<longrightarrow> from_str c s = Some v) \<and>
     (\<forall>v s. to_vec c v = Some s \<longrightarrow> from_slice c s = Some v)"

definition codec_compact :: "JsonCodec \<Rightarrow> bool" where
  "codec_compact c \<longleftrightarrow> (\<forall>v s. to_string c v = Some s \<longrightarrow> CHR 0x0A \<notin> set s \<and> CHR 0x0D \<notin> set s)"

end
