(* ===== verification/Mcp.thy ===== *)
theory Mcp
  imports Json Safe_Ref Core
begin

text \<open>
  Scoped protection of MCP messages on a stdio transport (\<open>crates/blindfold-mcp/src/lib.rs\<close>).  A message
  to the server may carry references in the arguments of a tool call; each is replaced by its secret
  when the resolver approves the field, and every other string there is sanitized.  A message to the
  agent has all of its string values sanitized.  The resolver, the sanitizer (two traits the crate is
  generic in) and the JSON text codec are parameters.
\<close>

section \<open>Types\<close>

datatype Direction = Dir_ToServer | Dir_ToAgent

record Audit_counts =
  restored :: nat
  sanitized :: nat
  rejected :: nat

definition Audit_default :: Audit_counts where
  "Audit_default = \<lparr>restored = 0, sanitized = 0, rejected = 0\<rparr>"

record Resolver =
  allows :: "string \<Rightarrow> string \<Rightarrow> string \<Rightarrow> bool"
  resolve :: "SafeRef \<Rightarrow> SecretValue option"

type_synonym McpSanitizer = "string \<Rightarrow> string \<times> nat"

datatype McpError = ME_InvalidJson | ME_ReferenceRejected | ME_SensitiveValueRejected | ME_MessageTooLarge

fun McpError_fmt :: "McpError \<Rightarrow> string" where
  "McpError_fmt ME_InvalidJson = ''invalid MCP JSON-RPC message''"
| "McpError_fmt ME_ReferenceRejected = ''MCP reference resolution was rejected''"
| "McpError_fmt ME_SensitiveValueRejected = ''plaintext in a credential-bearing MCP argument was rejected''"
| "McpError_fmt ME_MessageTooLarge = ''MCP message exceeds the configured size limit''"

record Transformer =
  tr_resolver :: Resolver
  tr_sanitizer :: McpSanitizer
  tr_max_bytes :: nat

definition Transformer_new :: "Resolver \<Rightarrow> McpSanitizer \<Rightarrow> nat \<Rightarrow> McpError + Transformer" where
  "Transformer_new r s max_bytes =
     (if max_bytes = 0 then Err ME_MessageTooLarge
      else Ok \<lparr>tr_resolver = r, tr_sanitizer = s, tr_max_bytes = max_bytes\<rparr>)"

section \<open>Operations\<close>

text \<open>
  The counters are a mutable argument of the helpers: a failure carries them as they are when it is
  raised.
\<close>

type_synonym McpFailure = "McpError \<times> Audit_counts"

definition reject_one :: "Audit_counts \<Rightarrow> Audit_counts" where
  "reject_one audit = audit\<lparr>rejected := rejected audit + 1\<rparr>"

definition is_sensitive_field :: "string \<Rightarrow> bool" where
  "is_sensitive_field key =
     (to_ascii_lowercase (filter is_ascii_alphanumeric key) \<in>
        {''apikey'', ''accesstoken'', ''authtoken'', ''bearertoken'', ''clientsecret'', ''password'',
         ''passwd'', ''privatekey'', ''secret'', ''token''})"

text \<open>The string case of \<open>restore_value\<close>.\<close>

definition restore_text ::
  "Resolver \<Rightarrow> McpSanitizer \<Rightarrow> string \<times> string \<Rightarrow> string \<Rightarrow> string \<Rightarrow> Audit_counts \<Rightarrow> bool \<Rightarrow>
     McpFailure + string \<times> Audit_counts"
where
  "restore_text r san target pointer text audit sensitive_field =
     (case SafeRef_parse text of
        Inl _ \<Rightarrow>
          if sensitive_field \<and> text \<noteq> [] then Err (ME_SensitiveValueRejected, reject_one audit)
          else let (replacement, count) = san text in
            Ok (replacement, audit\<lparr>sanitized := sanitized audit + count\<rparr>)
      | Inr safe_ref \<Rightarrow>
          if \<not> allows r (fst target) (snd target) pointer then Err (ME_ReferenceRejected, reject_one audit)
          else case resolve r safe_ref of
            None \<Rightarrow> Err (ME_ReferenceRejected, reject_one audit)
          | Some secret \<Rightarrow> Ok (expose_secret secret, audit\<lparr>restored := restored audit + 1\<rparr>))"

fun restore_value ::
  "Resolver \<Rightarrow> McpSanitizer \<Rightarrow> string \<times> string \<Rightarrow> string \<Rightarrow> json \<Rightarrow> Audit_counts \<Rightarrow> bool \<Rightarrow> McpFailure + json \<times> Audit_counts"
  and restore_items ::
  "Resolver \<Rightarrow> McpSanitizer \<Rightarrow> string \<times> string \<Rightarrow> string \<Rightarrow> nat \<Rightarrow> json list \<Rightarrow> Audit_counts \<Rightarrow> bool \<Rightarrow>
     McpFailure + json list \<times> Audit_counts"
  and restore_fields ::
  "Resolver \<Rightarrow> McpSanitizer \<Rightarrow> string \<times> string \<Rightarrow> string \<Rightarrow> (string \<times> json) list \<Rightarrow> Audit_counts \<Rightarrow> bool \<Rightarrow>
     McpFailure + (string \<times> json) list \<times> Audit_counts"
where
  "restore_value r san target pointer (JStr text) audit sensitive_field =
     res_map (\<lambda>(t, a). (JStr t, a)) (restore_text r san target pointer text audit sensitive_field)"
| "restore_value r san target pointer (JArr values) audit sensitive_field =
     res_map (\<lambda>(vs, a). (JArr vs, a)) (restore_items r san target pointer 0 values audit sensitive_field)"
| "restore_value r san target pointer (JObj values) audit sensitive_field =
     res_map (\<lambda>(fs, a). (JObj fs, a)) (restore_fields r san target pointer values audit sensitive_field)"
| "restore_value r san target pointer JNull audit sensitive_field = Ok (JNull, audit)"
| "restore_value r san target pointer (JBool b) audit sensitive_field = Ok (JBool b, audit)"
| "restore_value r san target pointer (JNum n) audit sensitive_field = Ok (JNum n, audit)"
| "restore_items r san target pointer index [] audit sensitive_field = Ok ([], audit)"
| "restore_items r san target pointer index (child # values) audit sensitive_field =
     res_bind (restore_value r san target (index_pointer pointer index) child audit sensitive_field) (\<lambda>(v, a).
     res_map (\<lambda>(vs, a'). (v # vs, a')) (restore_items r san target pointer (index + 1) values a sensitive_field))"
| "restore_fields r san target pointer [] audit sensitive_field = Ok ([], audit)"
| "restore_fields r san target pointer ((key, child) # values) audit sensitive_field =
     res_bind (restore_value r san target (key_pointer pointer key) child audit (sensitive_field \<or> is_sensitive_field key)) (\<lambda>(v, a).
     res_map (\<lambda>(fs, a'). ((key, v) # fs, a')) (restore_fields r san target pointer values a sensitive_field))"

fun reject_any_reference :: "json \<Rightarrow> Audit_counts \<Rightarrow> McpFailure + unit" where
  "reject_any_reference (JStr text) audit =
     (if is_ok (SafeRef_parse text) then Err (ME_ReferenceRejected, reject_one audit) else Ok ())"
| "reject_any_reference (JArr values) audit = try_all (\<lambda>child. reject_any_reference child audit) values"
| "reject_any_reference (JObj values) audit = try_all (\<lambda>(_, child). reject_any_reference child audit) values"
| "reject_any_reference JNull audit = Ok ()"
| "reject_any_reference (JBool _) audit = Ok ()"
| "reject_any_reference (JNum _) audit = Ok ()"

fun sanitize_value :: "McpSanitizer \<Rightarrow> json \<Rightarrow> Audit_counts \<Rightarrow> json \<times> Audit_counts"
  and sanitize_items :: "McpSanitizer \<Rightarrow> json list \<Rightarrow> Audit_counts \<Rightarrow> json list \<times> Audit_counts"
  and sanitize_fields :: "McpSanitizer \<Rightarrow> (string \<times> json) list \<Rightarrow> Audit_counts \<Rightarrow> (string \<times> json) list \<times> Audit_counts"
where
  "sanitize_value san (JStr text) audit =
     (let (replacement, count) = san text in (JStr replacement, audit\<lparr>sanitized := sanitized audit + count\<rparr>))"
| "sanitize_value san (JArr values) audit = (let (vs, a) = sanitize_items san values audit in (JArr vs, a))"
| "sanitize_value san (JObj values) audit = (let (fs, a) = sanitize_fields san values audit in (JObj fs, a))"
| "sanitize_value san JNull audit = (JNull, audit)"
| "sanitize_value san (JBool b) audit = (JBool b, audit)"
| "sanitize_value san (JNum n) audit = (JNum n, audit)"
| "sanitize_items san [] audit = ([], audit)"
| "sanitize_items san (child # values) audit =
     (let (v, a) = sanitize_value san child audit; (vs, a') = sanitize_items san values a in (v # vs, a'))"
| "sanitize_fields san [] audit = ([], audit)"
| "sanitize_fields san ((key, child) # values) audit =
     (let (v, a) = sanitize_value san child audit; (fs, a') = sanitize_fields san values a in ((key, v) # fs, a'))"

definition mcp_method :: "json \<Rightarrow> string option" where
  "mcp_method value = Option.bind (json_get ''method'' value) as_str"

text \<open>\<open>value.pointer("/params/name")\<close> and \<open>value.pointer_mut("/params/arguments")\<close> with the write back.\<close>

definition mcp_param :: "string \<Rightarrow> json \<Rightarrow> json option" where
  "mcp_param k value = Option.bind (json_get ''params'' value) (json_get k)"

definition put_arguments :: "json \<Rightarrow> json \<Rightarrow> json" where
  "put_arguments arguments value =
     (case json_get ''params'' value of
        None \<Rightarrow> value
      | Some params \<Rightarrow> json_put ''params'' (json_put ''arguments'' arguments params) value)"

definition restore_server_message ::
  "Transformer \<Rightarrow> string \<Rightarrow> json \<Rightarrow> Audit_counts \<Rightarrow> McpFailure + json \<times> Audit_counts"
where
  "restore_server_message tr server value audit =
     (if mcp_method value \<noteq> Some ''tools/call'' then res_map (\<lambda>_. (value, audit)) (reject_any_reference value audit)
      else
        res_bind (ok_or (Option.bind (mcp_param ''name'' value) as_str) (ME_InvalidJson, audit)) (\<lambda>tool.
        res_bind (ok_or (mcp_param ''arguments'' value) (ME_InvalidJson, audit)) (\<lambda>arguments.
        res_map (\<lambda>(args, a). (put_arguments args value, a))
          (restore_value (tr_resolver tr) (tr_sanitizer tr) (server, tool) ''/params/arguments'' arguments audit False))))"

definition transform ::
  "JsonCodec \<Rightarrow> Transformer \<Rightarrow> Direction \<Rightarrow> string \<Rightarrow> string \<Rightarrow> McpError + string \<times> Audit_counts"
where
  "transform c tr direction server input =
     (if length input > tr_max_bytes tr then Err ME_MessageTooLarge
      else
        res_bind (ok_or (from_str c input) ME_InvalidJson) (\<lambda>value.
        if \<not> is_object value then Err ME_InvalidJson
        else
          res_bind (case direction of
              Dir_ToServer \<Rightarrow> map_err fst (restore_server_message tr server value Audit_default)
            | Dir_ToAgent \<Rightarrow> Ok (sanitize_value (tr_sanitizer tr) value Audit_default)) (\<lambda>(value', audit).
          res_bind (ok_or (to_string c value') ME_InvalidJson) (\<lambda>output.
          if length output > tr_max_bytes tr then Err ME_MessageTooLarge else Ok (output, audit)))))"

section \<open>The leaf-wise reading\<close>

text \<open>
  What one string of the arguments becomes, and the reason it is refused, decided from the string,
  its pointer and its field alone.
\<close>

definition leaf_error :: "Resolver \<Rightarrow> string \<times> string \<Rightarrow> leaf \<Rightarrow> McpError option" where
  "leaf_error r target = (\<lambda>(p, b, t).
     case SafeRef_parse t of
       Inl _ \<Rightarrow> if b \<and> t \<noteq> [] then Some ME_SensitiveValueRejected else None
     | Inr safe_ref \<Rightarrow>
         if allows r (fst target) (snd target) p \<and> resolve r safe_ref \<noteq> None then None else Some ME_ReferenceRejected)"

definition leaf_text :: "Resolver \<Rightarrow> McpSanitizer \<Rightarrow> string \<Rightarrow> string" where
  "leaf_text r san t =
     (case SafeRef_parse t of
        Inl _ \<Rightarrow> fst (san t)
      | Inr safe_ref \<Rightarrow> (case resolve r safe_ref of Some secret \<Rightarrow> expose_secret secret | None \<Rightarrow> t))"

definition first_error :: "Resolver \<Rightarrow> string \<times> string \<Rightarrow> leaf list \<Rightarrow> McpError option" where
  "first_error r target ls = Option.bind (List.find (\<lambda>l. leaf_error r target l \<noteq> None) ls) (leaf_error r target)"

definition count_leaves :: "McpSanitizer \<Rightarrow> string list \<Rightarrow> Audit_counts \<Rightarrow> Audit_counts" where
  "count_leaves san ts audit = audit
     \<lparr>restored := restored audit + length (filter (\<lambda>t. is_ok (SafeRef_parse t)) ts),
      sanitized := sanitized audit + sum_list (map (\<lambda>t. snd (san t)) (filter (\<lambda>t. \<not> is_ok (SafeRef_parse t)) ts))\<rparr>"

definition restore_outcome :: "Resolver \<Rightarrow> string \<times> string \<Rightarrow> leaf list \<Rightarrow> 'a \<Rightarrow> McpError + 'a" where
  "restore_outcome r target ls x = (case first_error r target ls of Some e \<Rightarrow> Err e | None \<Rightarrow> Ok x)"

lemma first_error_Nil [simp]: "first_error r target [] = None"
  by (simp add: first_error_def)

lemma first_error_append [simp]:
  "first_error r target (xs @ ys) = (case first_error r target xs of Some e \<Rightarrow> Some e | None \<Rightarrow> first_error r target ys)"
  by (induction xs) (auto simp: first_error_def split: option.splits)

lemma first_error_none: "first_error r target ls = None \<Longrightarrow> l \<in> set ls \<Longrightarrow> leaf_error r target l = None"
  by (induction ls) (auto simp: first_error_def split: if_splits)

lemma leaf_error_none:
  "leaf_error r target (p, b, t) = None \<longleftrightarrow>
     (\<forall>safe_ref. SafeRef_parse t = Ok safe_ref \<longrightarrow>
        allows r (fst target) (snd target) p \<and> resolve r safe_ref \<noteq> None) \<and> (b \<longrightarrow> t = [] \<or> is_ok (SafeRef_parse t))"
  by (auto simp: leaf_error_def split: sum.splits)

lemma count_leaves_Nil [simp]: "count_leaves san [] a = a"
  by (simp add: count_leaves_def)

lemma count_leaves_append [simp]: "count_leaves san (xs @ ys) a = count_leaves san ys (count_leaves san xs a)"
  by (simp add: count_leaves_def)

lemma restore_text_outcome:
  "map_err fst (restore_text r san target p t a b) = restore_outcome r target [(p, b, t)] (leaf_text r san t, count_leaves san [t] a)"
  by (auto simp: restore_text_def restore_outcome_def first_error_def leaf_error_def leaf_text_def count_leaves_def
      split: sum.splits option.splits prod.splits)

lemma res_map_restore_outcome [simp]:
  "res_map f (restore_outcome r target ls x) = restore_outcome r target ls (f x)"
  by (auto simp: restore_outcome_def split: option.splits)

lemma restore_outcome_Nil [simp]: "restore_outcome r target [] x = Ok x"
  by (simp add: restore_outcome_def)

lemma map_err_fst_res_map: "map_err f (res_map g x) = res_map g (map_err f x)"
  by (cases x) auto

lemma restore_step:
  assumes "map_err fst x = restore_outcome r target xs (v, a)"
    and "x = Ok (v, a) \<Longrightarrow> map_err fst (f v a) = restore_outcome r target ys (w, a')"
  shows "map_err fst (res_bind x (\<lambda>(v, a). res_map (\<lambda>(vs, a'). (g v vs, a')) (f v a))) =
    restore_outcome r target (xs @ ys) (g v w, a')"
proof (cases x)
  case (Inl e)
  then show ?thesis using assms(1) by (auto simp: restore_outcome_def split: option.splits)
next
  case (Inr va)
  then have "va = (v, a)" "first_error r target xs = None"
    using assms(1) by (auto simp: restore_outcome_def split: option.splits)
  then show ?thesis using Inr assms(2) by (auto simp: map_err_fst_res_map restore_outcome_def split: option.splits)
qed

lemma restore_value_outcome:
  "map_err fst (restore_value r san target p v a b) =
     restore_outcome r target (jleaves is_sensitive_field p b v) (jmap (leaf_text r san) v, count_leaves san (jstrings v) a)"
  "map_err fst (restore_items r san target p i vs a b) =
     restore_outcome r target (jleaves_items is_sensitive_field p b i vs)
       (map (jmap (leaf_text r san)) vs, count_leaves san (concat (map jstrings vs)) a)"
  "map_err fst (restore_fields r san target p fs a b) =
     restore_outcome r target (jleaves_fields is_sensitive_field p b fs)
       (map (\<lambda>(k, v). (k, jmap (leaf_text r san) v)) fs, count_leaves san (concat (map (\<lambda>(k, v). jstrings v) fs)) a)"
proof (induction r san target p v a b and r san target p i vs a b and r san target p fs a b
    rule: restore_value_restore_items_restore_fields.induct)
  case (8 r san target p i v vs a b)
  then show ?case
    by (simp only: restore_items.simps jleaves_items.simps list.map concat.simps count_leaves_append)
      (rule restore_step, assumption, metis)
next
  case (10 r san target p k v fs a b)
  then show ?case
    by (simp only: restore_fields.simps jleaves_fields.simps list.map concat.simps count_leaves_append prod.case)
      (rule restore_step, assumption, metis)
qed (auto simp: restore_text_outcome map_err_fst_res_map)

lemma sanitize_value_map:
  "sanitize_value san v a =
     (jmap (\<lambda>t. fst (san t)) v, a\<lparr>sanitized := sanitized a + sum_list (map (\<lambda>t. snd (san t)) (jstrings v))\<rparr>)"
  "sanitize_items san vs a =
     (map (jmap (\<lambda>t. fst (san t))) vs,
      a\<lparr>sanitized := sanitized a + sum_list (map (\<lambda>t. snd (san t)) (concat (map jstrings vs)))\<rparr>)"
  "sanitize_fields san fs a =
     (map (\<lambda>(k, v). (k, jmap (\<lambda>t. fst (san t)) v)) fs,
      a\<lparr>sanitized := sanitized a + sum_list (map (\<lambda>t. snd (san t)) (concat (map (\<lambda>(k, v). jstrings v) fs)))\<rparr>)"
  by (induction san v a and san vs a and san fs a rule: sanitize_value_sanitize_items_sanitize_fields.induct)
    (auto simp: Let_def split: prod.splits)

lemma reject_any_reference_ok:
  "reject_any_reference v a = Ok u \<longleftrightarrow> (\<forall>t\<in>set (jstrings v). \<not> is_ok (SafeRef_parse t))"
  by (induction v rule: json_induct) (auto simp: try_all_ok_iff)

lemma reject_any_reference_err: "reject_any_reference v a = Err e \<Longrightarrow> e = (ME_ReferenceRejected, reject_one a)"
  by (induction v rule: json_induct) (auto dest!: try_all_err_ex split: if_splits)

lemma get_put_arguments:
  assumes "mcp_param ''arguments'' v = Some args"
  shows "mcp_param ''arguments'' (put_arguments args' v) = Some args'"
    and "k \<noteq> ''arguments'' \<Longrightarrow> mcp_param k (put_arguments args' v) = mcp_param k v"
    and "k \<noteq> ''params'' \<Longrightarrow> json_get k (put_arguments args' v) = json_get k v"
proof -
  from assms obtain fs ps where v: "v = JObj fs" "map_of fs ''params'' = Some (JObj ps)" "map_of ps ''arguments'' = Some args"
    by (auto simp: mcp_param_def bind_eq_Some_conv json_get_some)
  then show "mcp_param ''arguments'' (put_arguments args' v) = Some args'"
    "k \<noteq> ''arguments'' \<Longrightarrow> mcp_param k (put_arguments args' v) = mcp_param k v"
    "k \<noteq> ''params'' \<Longrightarrow> json_get k (put_arguments args' v) = json_get k v"
    by (auto simp: mcp_param_def put_arguments_def set_first_get)
qed

section \<open>Properties\<close>

lemma transform_ok:
  assumes "transform c tr d server input = Ok (output, audit)"
  obtains v v' where "from_str c input = Some v" "is_object v" "to_string c v' = Some output"
    "length output \<le> tr_max_bytes tr"
    "d = Dir_ToServer \<Longrightarrow> restore_server_message tr server v Audit_default = Ok (v', audit)"
    "d = Dir_ToAgent \<Longrightarrow> sanitize_value (tr_sanitizer tr) v Audit_default = (v', audit)"
  using assms
  by (cases d) (auto simp: transform_def map_err_ok_iff res_bind_ok_iff split: if_splits prod.splits elim!: ok_or.elims)

lemma restore_server_message_call:
  assumes "mcp_method v = Some ''tools/call''" and "mcp_param ''name'' v = Some (JStr tool)"
    and "mcp_param ''arguments'' v = Some args"
  shows "map_err fst (restore_server_message tr server v a) =
    restore_outcome (tr_resolver tr) (server, tool) (jleaves is_sensitive_field ''/params/arguments'' False args)
      (put_arguments (jmap (leaf_text (tr_resolver tr) (tr_sanitizer tr)) args) v,
       count_leaves (tr_sanitizer tr) (jstrings args) a)"
  using assms by (simp add: restore_server_message_def map_err_fst_res_map restore_value_outcome)

text \<open>
  C18. \<open>Transformer::transform\<close> on a tool call to the server is decided leaf by leaf.  When no string of
  the arguments has a reason to be refused, the message is forwarded with exactly the arguments
  changed: each reference is its secret, each other string is sanitized, and the counters are the
  numbers of those.  Otherwise the first string in document order that is refused gives the error,
  whatever the sanitizer does to the others.
\<close>

theorem mcp_restore_exact:
  assumes "length input \<le> tr_max_bytes tr" and "from_str c input = Some v" and "is_object v"
    and "mcp_method v = Some ''tools/call''" and "mcp_param ''name'' v = Some (JStr tool)"
    and "mcp_param ''arguments'' v = Some args"
    and "to_string c (put_arguments (jmap (leaf_text (tr_resolver tr) (tr_sanitizer tr)) args) v) = Some output"
    and "length output \<le> tr_max_bytes tr"
  shows "transform c tr Dir_ToServer server input =
    (case first_error (tr_resolver tr) (server, tool) (jleaves is_sensitive_field ''/params/arguments'' False args) of
       Some e \<Rightarrow> Err e
     | None \<Rightarrow> Ok (output, count_leaves (tr_sanitizer tr) (jstrings args) Audit_default))"
  using assms by (simp add: transform_def restore_server_message_call restore_outcome_def split: option.splits)

text \<open>
  C19. A secret is put into a message to the server only where the resolver approves it.  When
  \<open>transform\<close> returns a message other than a tool call, no string value of it is a reference and it
  is the message that was read.  When it returns a tool call, each argument that is a reference is at
  a pointer approved for this server and tool and was resolved, each argument below a credential-named
  field is a reference or empty, and no part of the message outside \<open>/params/arguments\<close> has changed.
\<close>

theorem mcp_to_server_scoped:
  assumes "transform c tr Dir_ToServer server input = Ok (output, audit)"
  shows "\<exists>v v'. from_str c input = Some v \<and> to_string c v' = Some output \<and>
    (if mcp_method v = Some ''tools/call''
     then \<exists>tool args. mcp_param ''name'' v = Some (JStr tool) \<and> mcp_param ''arguments'' v = Some args \<and>
       (\<forall>(p, b, t) \<in> set (jleaves is_sensitive_field ''/params/arguments'' False args).
          (\<forall>safe_ref. SafeRef_parse t = Ok safe_ref \<longrightarrow>
             allows (tr_resolver tr) server tool p \<and> resolve (tr_resolver tr) safe_ref \<noteq> None) \<and>
          (b \<longrightarrow> t = [] \<or> is_ok (SafeRef_parse t))) \<and>
       (\<forall>k. k \<noteq> ''arguments'' \<longrightarrow> mcp_param k v' = mcp_param k v) \<and>
       (\<forall>k. k \<noteq> ''params'' \<longrightarrow> json_get k v' = json_get k v)
     else v' = v \<and> (\<forall>t\<in>set (jstrings v). \<not> is_ok (SafeRef_parse t)))"
proof -
  obtain v v' where v: "from_str c input = Some v" "to_string c v' = Some output"
    and r: "restore_server_message tr server v Audit_default = Ok (v', audit)"
    using assms by (rule transform_ok) auto
  show ?thesis
  proof (cases "mcp_method v = Some ''tools/call''")
    case True
    then obtain tool args where t: "mcp_param ''name'' v = Some (JStr tool)" "mcp_param ''arguments'' v = Some args"
      using r by (auto simp: restore_server_message_def res_bind_ok_iff bind_eq_Some_conv elim!: ok_or.elims as_str.elims)
    have "restore_outcome (tr_resolver tr) (server, tool) (jleaves is_sensitive_field ''/params/arguments'' False args)
      (put_arguments (jmap (leaf_text (tr_resolver tr) (tr_sanitizer tr)) args) v,
       count_leaves (tr_sanitizer tr) (jstrings args) Audit_default) = Ok (v', audit)"
      using restore_server_message_call[OF True t, of tr server Audit_default] r by simp
    then have n: "first_error (tr_resolver tr) (server, tool) (jleaves is_sensitive_field ''/params/arguments'' False args) = None"
      and v': "v' = put_arguments (jmap (leaf_text (tr_resolver tr) (tr_sanitizer tr)) args) v"
      by (auto simp: restore_outcome_def split: option.splits)
    have leaf: "(\<forall>safe_ref. SafeRef_parse x = Ok safe_ref \<longrightarrow>
        allows (tr_resolver tr) server tool p \<and> resolve (tr_resolver tr) safe_ref \<noteq> None) \<and>
        (b \<longrightarrow> x = [] \<or> is_ok (SafeRef_parse x))"
      if "(p, b, x) \<in> set (jleaves is_sensitive_field ''/params/arguments'' False args)" for p b x
      using first_error_none[OF n that] by (simp only: leaf_error_none fst_conv snd_conv)
    have keep: "k \<noteq> ''arguments'' \<Longrightarrow> mcp_param k v' = mcp_param k v" "k \<noteq> ''params'' \<Longrightarrow> json_get k v' = json_get k v" for k
      using get_put_arguments(2,3)[OF t(2)] by (simp_all add: v')
    have "\<forall>(p, b, x)\<in>set (jleaves is_sensitive_field ''/params/arguments'' False args).
        (\<forall>safe_ref. SafeRef_parse x = Ok safe_ref \<longrightarrow>
          allows (tr_resolver tr) server tool p \<and> resolve (tr_resolver tr) safe_ref \<noteq> None) \<and>
        (b \<longrightarrow> x = [] \<or> is_ok (SafeRef_parse x))"
      using leaf unfolding case_prod_unfold by (metis prod.collapse)
    then show ?thesis
      using True v t keep by - (rule exI[of _ v], rule exI[of _ v'], simp)
  next
    case False
    then show ?thesis using r v by (auto simp: restore_server_message_def reject_any_reference_ok res_map_ok_iff)
  qed
qed

text \<open>
  Everything a server sends back is sanitized before the agent reads it: the strings of the
  message that \<open>transform\<close> returns towards the agent are the sanitized strings of the message read,
  in order, so each has whatever property the sanitizer establishes; the field names and numbers are
  those read; and the counter is the sum of the sanitizer's counts.
\<close>

theorem mcp_to_agent_sanitized:
  assumes "codec_ok c" and "\<And>t. safe (fst (tr_sanitizer tr t))"
    and "transform c tr Dir_ToAgent server input = Ok (output, audit)"
  shows "\<exists>v v'. from_str c input = Some v \<and> from_str c output = Some v' \<and>
    jstrings v' = map (\<lambda>t. fst (tr_sanitizer tr t)) (jstrings v) \<and> list_all safe (jstrings v') \<and>
    jfixed v' = jfixed v \<and>
    audit = \<lparr>restored = 0, sanitized = sum_list (map (\<lambda>t. snd (tr_sanitizer tr t)) (jstrings v)), rejected = 0\<rparr>"
proof -
  obtain v v' where v: "from_str c input = Some v" "to_string c v' = Some output"
    and s: "sanitize_value (tr_sanitizer tr) v Audit_default = (v', audit)"
    using assms(3) by (rule transform_ok) auto
  have "from_str c output = Some v'" using assms(1) v(2) by (simp add: codec_ok_def)
  then show ?thesis
    using v s assms(2) by (auto simp: sanitize_value_map Audit_default_def list_all_iff)
qed

section \<open>Concrete messages\<close>

text \<open>The tool call and the reply of the crate's tests, with their texts abbreviated to one letter.\<close>

definition test_ref :: string where
  "test_ref = ''{{BLINDFOLD:v1:SECRET:0123456789abcdef0123456789abcdef}}''"

definition test_call :: "string \<Rightarrow> json" where
  "test_call key = JObj [(''method'', JStr ''tools/call''),
     (''params'', JObj [(''name'', JStr ''customers''),
        (''arguments'', JObj [(''api_key'', JStr key), (''query'', JStr ''active'')])])]"

definition test_reply :: "string \<Rightarrow> json" where
  "test_reply t = JObj [(''id'', JNum ''1''), (''error'', JObj [(''message'', JStr t)])]"

definition test_codec :: JsonCodec where
  "test_codec = \<lparr>
     from_str = (\<lambda>s. if s = ''c'' then Some (test_call test_ref) else if s = ''s'' then Some (test_call ''sk-raw'')
       else if s = ''r'' then Some (test_reply ''sk-raw'') else if s = ''q'' then Some (test_reply ''[R]'') else None),
     to_string = (\<lambda>v. if v = test_call ''sk-raw'' then Some ''s'' else if v = test_reply ''[R]'' then Some ''q'' else None),
     from_slice = (\<lambda>_. None), to_vec = (\<lambda>_. None)\<rparr>"

definition test_transformer :: Transformer where
  "test_transformer = \<lparr>
     tr_resolver = \<lparr>allows = (\<lambda>server tool p. p = ''/params/arguments/api_key''), resolve = (\<lambda>_. Some (SecretValue ''sk-raw''))\<rparr>,
     tr_sanitizer = (\<lambda>t. if t = ''sk-raw'' then (''[R]'', 1) else (t, 0)), tr_max_bytes = 8\<rparr>"

lemma test_ref_parse:
  "SafeRef_parse test_ref = Ok \<lparr>sr_kind = SRK_Secret, sr_encoded = test_ref\<rparr>" "SafeRef_parse ''active'' = Err SRE_InvalidFormat"
  by code_simp+

lemmas test_simps = test_codec_def test_transformer_def test_call_def test_reply_def mcp_method_def mcp_param_def
  put_arguments_def leaf_text_def test_ref_parse

definition test_args :: json where
  "test_args = JObj [(''api_key'', JStr test_ref), (''query'', JStr ''active'')]"

lemma test_call_hyps:
  "length ''c'' \<le> tr_max_bytes test_transformer" "from_str test_codec ''c'' = Some (test_call test_ref)"
  "is_object (test_call test_ref)" "mcp_method (test_call test_ref) = Some ''tools/call''"
  "mcp_param ''name'' (test_call test_ref) = Some (JStr ''customers'')"
  "mcp_param ''arguments'' (test_call test_ref) = Some test_args"
  "to_string test_codec (put_arguments (jmap (leaf_text (tr_resolver test_transformer) (tr_sanitizer test_transformer)) test_args)
     (test_call test_ref)) = Some ''s''"
  "length ''s'' \<le> tr_max_bytes test_transformer"
  by (simp_all add: test_simps test_args_def)

lemma test_call_values:
  "first_error (tr_resolver test_transformer) (''demo'', ''customers'')
     (jleaves is_sensitive_field ''/params/arguments'' False test_args) = None"
  "count_leaves (tr_sanitizer test_transformer) (jstrings test_args) Audit_default =
     \<lparr>restored = 1, sanitized = 0, rejected = 0\<rparr>"
  by code_simp+

theorem mcp_restore_exact_witness:
  "transform test_codec test_transformer Dir_ToServer ''demo'' ''c'' = Ok (''s'', \<lparr>restored = 1, sanitized = 0, rejected = 0\<rparr>)"
  using mcp_restore_exact[OF test_call_hyps, of "''demo''"] by (simp add: test_call_values)

lemma test_call_ok:
  "transform test_codec test_transformer Dir_ToServer ''demo'' ''c'' = Ok (''s'', \<lparr>restored = 1, sanitized = 0, rejected = 0\<rparr>)"
  "transform test_codec test_transformer Dir_ToAgent ''demo'' ''r'' = Ok (''q'', \<lparr>restored = 0, sanitized = 1, rejected = 0\<rparr>)"
  by code_simp+

theorem mcp_to_server_scoped_witness:
  "allows (tr_resolver test_transformer) ''demo'' ''customers'' ''/params/arguments/api_key''"
proof -
  have m: "(''/params/arguments/api_key'', True, test_ref) \<in> set (jleaves is_sensitive_field ''/params/arguments'' False test_args)"
    by code_simp
  have "\<forall>(p, b, t)\<in>set (jleaves is_sensitive_field ''/params/arguments'' False test_args).
      (\<forall>safe_ref. SafeRef_parse t = Ok safe_ref \<longrightarrow>
        allows (tr_resolver test_transformer) ''demo'' ''customers'' p \<and>
        resolve (tr_resolver test_transformer) safe_ref \<noteq> None) \<and> (b \<longrightarrow> t = [] \<or> is_ok (SafeRef_parse t))"
    using mcp_to_server_scoped[OF test_call_ok(1)] by (simp add: test_call_hyps) (elim exE conjE)
  from bspec[OF this m] show ?thesis by (simp add: test_ref_parse)
qed

theorem mcp_to_agent_sanitized_witness: "\<exists>v'. from_str test_codec ''q'' = Some v' \<and> jstrings v' = [''[R]'']"
proof -
  have "codec_ok test_codec" by (auto simp: codec_ok_def test_codec_def test_call_def test_reply_def)
  moreover have "fst (tr_sanitizer test_transformer t) \<noteq> ''sk-raw''" for t by (simp add: test_transformer_def)
  ultimately show ?thesis
    using mcp_to_agent_sanitized[of test_codec "\<lambda>t. t \<noteq> ''sk-raw''" test_transformer, OF _ _ test_call_ok(2)]
    by (auto simp: test_codec_def test_reply_def test_transformer_def)
qed

text \<open>
  The counter of rejected references is zero in every result: it is raised only on the paths that
  return an error, and an error does not carry the counters.
\<close>

lemma restore_fixed_rejected:
  assumes "restore_server_message tr server v a = Ok (v', a')"
  shows "rejected a' = rejected a"
proof (cases "mcp_method v = Some ''tools/call''")
  case True
  then obtain tool args where t: "mcp_param ''name'' v = Some (JStr tool)" "mcp_param ''arguments'' v = Some args"
    using assms by (auto simp: restore_server_message_def res_bind_ok_iff bind_eq_Some_conv elim!: ok_or.elims as_str.elims)
  show ?thesis
    using restore_server_message_call[OF True t, of tr server a] assms
    by (auto simp: restore_outcome_def count_leaves_def split: option.splits)
next
  case False
  then show ?thesis using assms by (auto simp: restore_server_message_def res_map_ok_iff)
qed

lemma rejected_never_reported: "transform c tr d server input = Ok (output, audit) \<Longrightarrow> rejected audit = 0"
  by (erule transform_ok; cases d) (auto simp: sanitize_value_map Audit_default_def dest: restore_fixed_rejected)

text \<open>
  References outside the arguments of a tool call are forwarded unexamined, and field names of a
  reply are not sanitized.
\<close>

lemma reference_outside_arguments_forwarded:
  "restore_server_message test_transformer ''demo''
     (JObj [(''method'', JStr ''tools/call''), (''params'', JObj [(''name'', JStr ''customers''),
        (''arguments'', JNull), (''_meta'', JStr test_ref)])]) Audit_default =
   Ok (JObj [(''method'', JStr ''tools/call''), (''params'', JObj [(''name'', JStr ''customers''),
        (''arguments'', JNull), (''_meta'', JStr test_ref)])], Audit_default)"
  by code_simp

lemma field_name_not_sanitized:
  "fst (sanitize_value (tr_sanitizer test_transformer) (JObj [(''sk-raw'', JNull)]) Audit_default) = JObj [(''sk-raw'', JNull)]"
  by code_simp

end
