(* ===== verification/Proxy_Sanitize.thy ===== *)
theory Proxy_Sanitize
  imports Json Trace
begin

text \<open>
  Sanitization of provider payloads (\<open>crates/blindfold-proxy/src/sanitize.rs\<close> and the credential
  sanitizer of \<open>proxy.rs\<close>): the \<open>Sanitizer\<close> trait with its implementations, the traversal of a JSON
  body and the event stream rewriter.  The contract that the traversals need of a sanitizer is the
  locale \<open>text_sanitizer\<close>; it is interpreted on the exact-value sanitizer and on the credential
  sanitizer.
\<close>

section \<open>Sanitizers\<close>

datatype Provider = Prov_OpenAi | Prov_Anthropic

type_synonym SanitizedText = "string \<times> Category list"

record Sanitizer =
  sanitize :: "string \<Rightarrow> string"
  sanitize_traced :: "string \<Rightarrow> SanitizedText"

text \<open>The default method of the trait.\<close>

definition default_traced :: "(string \<Rightarrow> string) \<Rightarrow> string \<Rightarrow> SanitizedText" where
  "default_traced san text =
     (let sanitized = san text in (sanitized, if sanitized = text then [] else [Cat_Sensitive]))"

record ExactValueSanitizer =
  ev_value :: string
  ev_replacement :: string

definition ExactValueSanitizer_new :: "string \<Rightarrow> string \<Rightarrow> string + ExactValueSanitizer" where
  "ExactValueSanitizer_new v replacement =
     (if v = [] then Err ''exact sanitizer value must not be empty''
      else Ok \<lparr>ev_value = v, ev_replacement = replacement\<rparr>)"

definition exact_sanitize :: "ExactValueSanitizer \<Rightarrow> string \<Rightarrow> string" where
  "exact_sanitize e text = str_replace (ev_value e) (ev_replacement e) text"

definition exact_sanitizer :: "ExactValueSanitizer \<Rightarrow> Sanitizer" where
  "exact_sanitizer e = \<lparr>sanitize = exact_sanitize e, sanitize_traced = default_traced (exact_sanitize e)\<rparr>"

definition credential_sanitize :: "Sanitizer \<Rightarrow> string \<Rightarrow> string \<Rightarrow> string" where
  "credential_sanitize inner credential text = str_replace credential ''[REDACTED]'' (sanitize inner text)"

definition credential_traced :: "Sanitizer \<Rightarrow> string \<Rightarrow> string \<Rightarrow> SanitizedText" where
  "credential_traced inner credential text =
     (let (safe, categories) = sanitize_traced inner text in
      if str_contains credential safe
      then (str_replace credential ''[REDACTED]'' safe, categories @ [Cat_Sensitive])
      else (safe, categories))"

definition credential_sanitizer :: "Sanitizer \<Rightarrow> string \<Rightarrow> Sanitizer" where
  "credential_sanitizer inner credential =
     \<lparr>sanitize = credential_sanitize inner credential, sanitize_traced = credential_traced inner credential\<rparr>"

section \<open>JSON bodies\<close>

record Observation =
  ob_category :: Category
  ob_pointer :: string

definition observe_all :: "Category list \<Rightarrow> string \<Rightarrow> Observation list" where
  "observe_all categories pointer = map (\<lambda>c. \<lparr>ob_category = c, ob_pointer = pointer\<rparr>) categories"

definition sanitize_string :: "Sanitizer \<Rightarrow> string \<Rightarrow> string \<Rightarrow> Observation list \<Rightarrow> string \<times> Observation list" where
  "sanitize_string san pointer text observations =
     (let (replacement, categories) = sanitize_traced san text in
      (replacement, observations @ observe_all categories pointer))"

fun sanitize_textual_leaves ::
  "Sanitizer \<Rightarrow> string \<Rightarrow> json \<Rightarrow> Observation list \<Rightarrow> unit + json \<times> Observation list"
  and sanitize_textual_items ::
  "Sanitizer \<Rightarrow> string \<Rightarrow> nat \<Rightarrow> json list \<Rightarrow> Observation list \<Rightarrow> unit + json list \<times> Observation list"
  and sanitize_textual_fields ::
  "Sanitizer \<Rightarrow> string \<Rightarrow> (string \<times> json) list \<Rightarrow> Observation list \<Rightarrow> unit + (string \<times> json) list \<times> Observation list"
where
  "sanitize_textual_leaves san pointer (JStr text) obs =
     (let (t, obs') = sanitize_string san pointer text obs in Ok (JStr t, obs'))"
| "sanitize_textual_leaves san pointer (JArr items) obs =
     res_map (\<lambda>(vs, obs'). (JArr vs, obs')) (sanitize_textual_items san pointer 0 items obs)"
| "sanitize_textual_leaves san pointer (JObj object) obs =
     res_map (\<lambda>(fs, obs'). (JObj fs, obs')) (sanitize_textual_fields san pointer object obs)"
| "sanitize_textual_leaves san pointer (JNum n) obs =
     (if sanitize san n \<noteq> n then Err () else Ok (JNum n, obs))"
| "sanitize_textual_leaves san pointer JNull obs = Ok (JNull, obs)"
| "sanitize_textual_leaves san pointer (JBool b) obs = Ok (JBool b, obs)"
| "sanitize_textual_items san pointer index [] obs = Ok ([], obs)"
| "sanitize_textual_items san pointer index (v # vs) obs =
     res_bind (sanitize_textual_leaves san (index_pointer pointer index) v obs) (\<lambda>(v', obs').
     res_map (\<lambda>(vs', obs''). (v' # vs', obs'')) (sanitize_textual_items san pointer (index + 1) vs obs'))"
| "sanitize_textual_fields san pointer [] obs = Ok ([], obs)"
| "sanitize_textual_fields san pointer ((key, v) # fs) obs =
     (if sanitize san key \<noteq> key then Err ()
      else
        res_bind (sanitize_textual_leaves san (key_pointer pointer key) v obs) (\<lambda>(v', obs').
        res_map (\<lambda>(fs', obs''). ((key, v') # fs', obs'')) (sanitize_textual_fields san pointer fs obs')))"

definition sanitize_json :: "Provider \<Rightarrow> json \<Rightarrow> Sanitizer \<Rightarrow> unit + json \<times> Observation list" where
  "sanitize_json provider value san = sanitize_textual_leaves san [] value []"

section \<open>Event streams\<close>

record SseEvent =
  sse_event :: "string option"
  sse_id :: "string option"
  sse_retry :: "string option"
  sse_data :: "string list"

definition SseEvent_default :: SseEvent where
  "SseEvent_default = \<lparr>sse_event = None, sse_id = None, sse_retry = None, sse_data = []\<rparr>"

definition sse_push :: "SseEvent \<Rightarrow> string \<Rightarrow> SseEvent" where
  "sse_push e line =
     (if starts_with '':'' line then e
      else
        let (field, raw) = (case split_once (CHR '':'') line of None \<Rightarrow> (line, []) | Some fv \<Rightarrow> fv);
            value = (case strip_prefix '' '' raw of None \<Rightarrow> raw | Some r \<Rightarrow> r)
        in if field = ''event'' then e\<lparr>sse_event := Some value\<rparr>
           else if field = ''data'' then e\<lparr>sse_data := sse_data e @ [value]\<rparr>
           else if field = ''id'' \<and> CHR 0x00 \<notin> set value then e\<lparr>sse_id := Some value\<rparr>
           else if field = ''retry'' \<and> value \<noteq> [] \<and> list_all is_ascii_digit value then e\<lparr>sse_retry := Some value\<rparr>
           else e)"

type_synonym sse_out = "string \<times> Observation list"

definition write_sse_text_field :: "string \<Rightarrow> string \<Rightarrow> Sanitizer \<Rightarrow> string \<Rightarrow> sse_out \<Rightarrow> unit + sse_out" where
  "write_sse_text_field name value san pointer w =
     (let (safe, categories) = sanitize_traced san value in
      if CHR 0x0D \<in> set safe \<or> CHR 0x0A \<in> set safe \<or> CHR 0x00 \<in> set safe then Err ()
      else Ok (fst w @ name @ '': '' @ safe @ nl, snd w @ observe_all categories pointer))"

definition write_sse_retry :: "string \<Rightarrow> Sanitizer \<Rightarrow> sse_out \<Rightarrow> unit + sse_out" where
  "write_sse_retry retry san w =
     (if sanitize san retry \<noteq> retry then Err () else Ok (fst w @ ''retry: '' @ retry @ nl, snd w))"

definition write_sse_data :: "JsonCodec \<Rightarrow> Provider \<Rightarrow> Sanitizer \<Rightarrow> string list \<Rightarrow> sse_out \<Rightarrow> unit + sse_out" where
  "write_sse_data c provider san data w =
     (let payload = join_with nl data in
      if provider = Prov_OpenAi \<and> payload = ''[DONE]'' then Ok (fst w @ ''data: [DONE]'' @ nl @ nl, snd w)
      else
        res_bind (ok_or (from_str c payload) ()) (\<lambda>json.
        res_bind (sanitize_json provider json san) (\<lambda>(json', obs).
        res_bind (ok_or (to_string c json') ()) (\<lambda>text.
        Ok (fst w @ ''data: '' @ text @ nl @ nl, snd w @ obs)))))"

definition write_sanitized ::
  "JsonCodec \<Rightarrow> SseEvent \<Rightarrow> Provider \<Rightarrow> Sanitizer \<Rightarrow> sse_out \<Rightarrow> unit + SseEvent \<times> sse_out"
where
  "write_sanitized c e provider san w =
     (if sse_event e = None \<and> sse_id e = None \<and> sse_retry e = None \<and> sse_data e = [] then Ok (e, w)
      else
        res_bind (case sse_event e of None \<Rightarrow> Ok w
                  | Some event \<Rightarrow> write_sse_text_field ''event'' event san ''/sse/event'' w) (\<lambda>w.
        res_bind (case sse_id e of None \<Rightarrow> Ok w
                  | Some i \<Rightarrow> write_sse_text_field ''id'' i san ''/sse/id'' w) (\<lambda>w.
        res_bind (case sse_retry e of None \<Rightarrow> Ok w | Some retry \<Rightarrow> write_sse_retry retry san w) (\<lambda>w.
        res_bind (if sse_data e = [] then Ok (fst w @ nl, snd w) else write_sse_data c provider san (sse_data e) w) (\<lambda>w.
        Ok (e\<lparr>sse_event := None, sse_id := None, sse_retry := None, sse_data := []\<rparr>, w))))))"

fun sse_loop ::
  "JsonCodec \<Rightarrow> Provider \<Rightarrow> Sanitizer \<Rightarrow> SseEvent \<Rightarrow> sse_out \<Rightarrow> string list \<Rightarrow> unit + SseEvent \<times> sse_out"
where
  "sse_loop c provider san e w [] = Ok (e, w)"
| "sse_loop c provider san e w (line # lines) =
     (if line = []
      then res_bind (write_sanitized c e provider san w) (\<lambda>(e', w'). sse_loop c provider san e' w' lines)
      else sse_loop c provider san (sse_push e line) w lines)"

definition sse_bom :: string where
  "sse_bom = [CHR 0xEF, CHR 0xBB, CHR 0xBF]"

definition sse_lines :: "string \<Rightarrow> string list" where
  "sse_lines text =
     (let text = (case strip_prefix sse_bom text of None \<Rightarrow> text | Some r \<Rightarrow> r) in
      split_on (CHR 0x0A) (str_replace [CHR 0x0D] nl (str_replace [CHR 0x0D, CHR 0x0A] nl text)))"

definition sanitize_sse :: "JsonCodec \<Rightarrow> string \<Rightarrow> Provider \<Rightarrow> Sanitizer \<Rightarrow> unit + sse_out" where
  "sanitize_sse c body provider san =
     (if \<not> utf8_valid body then Err ()
      else
        res_bind (sse_loop c provider san SseEvent_default ([], []) (sse_lines body)) (\<lambda>(e, w).
        res_bind (write_sanitized c e provider san w) (\<lambda>(_, w').
        Ok w')))"

section \<open>The contract of a sanitizer\<close>

text \<open>
  What crosses the boundary is only what one of the two methods returned, or a key, number or retry
  value the sanitizer left as it was.
\<close>

locale text_sanitizer =
  fixes san :: Sanitizer and safe :: "string \<Rightarrow> bool"
  assumes safe_sanitize: "safe (sanitize san t)"
    and safe_traced: "safe (fst (sanitize_traced san t))"
begin

lemma unchanged_safe: "sanitize san t = t \<Longrightarrow> safe t"
  using safe_sanitize[of t] by simp

end

definition clean_value :: "string \<Rightarrow> string \<Rightarrow> bool" where
  "clean_value v r \<longleftrightarrow> v \<noteq> [] \<and> r \<noteq> [] \<and> hd r \<notin> set v \<and> last r \<notin> set v \<and> \<not> str_contains v r"

lemma str_replace_clean_value: "clean_value v r \<Longrightarrow> \<not> str_contains v (str_replace v r s)"
  by (simp add: clean_value_def str_replace_clean)

interpretation exact: text_sanitizer "exact_sanitizer e"
  "\<lambda>t. clean_value (ev_value e) (ev_replacement e) \<longrightarrow> \<not> str_contains (ev_value e) t" for e
  by unfold_locales
    (auto simp: exact_sanitizer_def exact_sanitize_def default_traced_def Let_def str_replace_clean_value)

interpretation credential: text_sanitizer "credential_sanitizer inner cred"
  "\<lambda>t. clean_value cred ''[REDACTED]'' \<longrightarrow> \<not> str_contains cred t" for inner cred
  by unfold_locales
    (auto simp: credential_sanitizer_def credential_sanitize_def credential_traced_def Let_def str_replace_clean_value
      split: prod.splits)

text \<open>Both methods of the credential sanitizer agree when those of the inner one do.\<close>

lemma credential_agree:
  "(\<And>t. fst (sanitize_traced inner t) = sanitize inner t) \<Longrightarrow>
     fst (sanitize_traced (credential_sanitizer inner cred) t) = sanitize (credential_sanitizer inner cred) t"
  by (simp add: credential_sanitizer_def credential_sanitize_def credential_traced_def case_prod_unfold Let_def str_replace_no_match)

section \<open>The traversal, leaf by leaf\<close>

abbreviation safe_text :: "Sanitizer \<Rightarrow> string \<Rightarrow> string" where
  "safe_text san t \<equiv> fst (sanitize_traced san t)"

definition leaf_observations :: "Sanitizer \<Rightarrow> leaf list \<Rightarrow> Observation list" where
  "leaf_observations san ls = concat (map (\<lambda>(p, b, t). observe_all (snd (sanitize_traced san t)) p) ls)"

definition keeps :: "Sanitizer \<Rightarrow> string list \<Rightarrow> bool" where
  "keeps san ts \<longleftrightarrow> (\<forall>t\<in>set ts. sanitize san t = t)"

lemma leaf_observations_simps [simp]:
  "leaf_observations san [] = []"
  "leaf_observations san (xs @ ys) = leaf_observations san xs @ leaf_observations san ys"
  "leaf_observations san [(p, b, t)] = observe_all (snd (sanitize_traced san t)) p"
  by (simp_all add: leaf_observations_def)

lemma keeps_simps [simp]:
  "keeps san []" "keeps san (xs @ ys) \<longleftrightarrow> keeps san xs \<and> keeps san ys" "keeps san (t # ts) \<longleftrightarrow> sanitize san t = t \<and> keeps san ts"
  by (auto simp: keeps_def)

lemma sanitize_textual_leaves_exact:
  "sanitize_textual_leaves san p v obs =
     (if keeps san (jfixed v)
      then Ok (jmap (safe_text san) v, obs @ leaf_observations san (jleaves (\<lambda>_. False) p False v)) else Err ())"
  "sanitize_textual_items san p i vs obs =
     (if keeps san (concat (map jfixed vs))
      then Ok (map (jmap (safe_text san)) vs, obs @ leaf_observations san (jleaves_items (\<lambda>_. False) p False i vs)) else Err ())"
  "sanitize_textual_fields san p fs obs =
     (if keeps san (concat (map (\<lambda>(k, v). k # jfixed v) fs))
      then Ok (map (\<lambda>(k, v). (k, jmap (safe_text san) v)) fs,
               obs @ leaf_observations san (jleaves_fields (\<lambda>_. False) p False fs)) else Err ())"
  by (induction san p v obs and san p i vs obs and san p fs obs
      rule: sanitize_textual_leaves_sanitize_textual_items_sanitize_textual_fields.induct)
    (auto simp: sanitize_string_def split: prod.splits)

lemma sanitize_json_ok:
  "sanitize_json provider v san = Ok (v', obs) \<longleftrightarrow>
     keeps san (jfixed v) \<and> v' = jmap (safe_text san) v \<and> obs = leaf_observations san (jleaves (\<lambda>_. False) [] False v)"
  by (auto simp: sanitize_json_def sanitize_textual_leaves_exact)

context text_sanitizer begin

lemma sanitize_json_safe:
  "sanitize_json provider v san = Ok (v', obs) \<Longrightarrow> list_all safe (jstrings v') \<and> list_all safe (jfixed v')"
  by (auto simp: sanitize_json_ok keeps_def list_all_iff safe_traced intro: unchanged_safe)

end

section \<open>The event stream, event by event\<close>

text \<open>The events a stream of lines dispatches: a blank line ends an event, an event without fields is none.\<close>

definition sse_emit :: "SseEvent \<Rightarrow> SseEvent list" where
  "sse_emit e = (if e = SseEvent_default then [] else [e])"

fun sse_split :: "SseEvent \<Rightarrow> string list \<Rightarrow> SseEvent list" where
  "sse_split e [] = sse_emit e"
| "sse_split e (line # lines) =
     (if line = [] then sse_emit e @ sse_split SseEvent_default lines else sse_split (sse_push e line) lines)"

definition sanitized_data :: "JsonCodec \<Rightarrow> Provider \<Rightarrow> Sanitizer \<Rightarrow> string list \<Rightarrow> string list" where
  "sanitized_data c provider san data =
     (let payload = join_with nl data in
      if data = [] then []
      else if provider = Prov_OpenAi \<and> payload = ''[DONE]'' then [payload]
      else case from_str c payload of
        None \<Rightarrow> []
      | Some v \<Rightarrow> (case to_string c (jmap (safe_text san) v) of None \<Rightarrow> [] | Some t \<Rightarrow> [t]))"

definition sanitized_event :: "JsonCodec \<Rightarrow> Provider \<Rightarrow> Sanitizer \<Rightarrow> SseEvent \<Rightarrow> SseEvent" where
  "sanitized_event c provider san e =
     \<lparr>sse_event = map_option (safe_text san) (sse_event e), sse_id = map_option (safe_text san) (sse_id e),
      sse_retry = sse_retry e, sse_data = sanitized_data c provider san (sse_data e)\<rparr>"

definition event_lines :: "SseEvent \<Rightarrow> string list" where
  "event_lines e =
     (case sse_event e of None \<Rightarrow> [] | Some v \<Rightarrow> [''event: '' @ v]) @
     (case sse_id e of None \<Rightarrow> [] | Some v \<Rightarrow> [''id: '' @ v]) @
     (case sse_retry e of None \<Rightarrow> [] | Some v \<Rightarrow> [''retry: '' @ v]) @ map (\<lambda>d. ''data: '' @ d) (sse_data e)"

definition one_line :: "string \<Rightarrow> bool" where
  "one_line s \<longleftrightarrow> CHR 0x0A \<notin> set s \<and> CHR 0x0D \<notin> set s"

definition retry_ok :: "SseEvent \<Rightarrow> bool" where
  "retry_ok e \<longleftrightarrow> (\<forall>r. sse_retry e = Some r \<longrightarrow> r \<noteq> [] \<and> list_all is_ascii_digit r)"

definition event_ok :: "SseEvent \<Rightarrow> bool" where
  "event_ok e \<longleftrightarrow> retry_ok e \<and> (\<forall>v. sse_event e = Some v \<longrightarrow> one_line v) \<and>
     (\<forall>v. sse_id e = Some v \<longrightarrow> one_line v \<and> CHR 0x00 \<notin> set v) \<and> list_all one_line (sse_data e)"

lemma retry_ok_push: "retry_ok e \<Longrightarrow> retry_ok (sse_push e line)"
  by (auto simp: retry_ok_def sse_push_def Let_def split: prod.splits)

lemma retry_ok_default [simp]: "retry_ok SseEvent_default"
  by (simp add: retry_ok_def SseEvent_default_def)

lemma split_once_field: "CHR '':'' \<notin> set f \<Longrightarrow> split_once (CHR '':'') (f @ CHR '':'' # v) = Some (f, v)"
  by (simp add: split_once_some_iff)

lemma sse_push_field:
  assumes "CHR '':'' \<notin> set f" and "f \<noteq> []"
  shows "sse_push e (f @ '': '' @ v) =
    (if f = ''event'' then e\<lparr>sse_event := Some v\<rparr>
     else if f = ''data'' then e\<lparr>sse_data := sse_data e @ [v]\<rparr>
     else if f = ''id'' \<and> CHR 0x00 \<notin> set v then e\<lparr>sse_id := Some v\<rparr>
     else if f = ''retry'' \<and> v \<noteq> [] \<and> list_all is_ascii_digit v then e\<lparr>sse_retry := Some v\<rparr> else e)"
proof -
  have "\<not> starts_with '':'' (f @ '': '' @ v)"
    using assms by (cases f) (auto simp: starts_with_iff)
  moreover have "split_once (CHR '':'') (f @ '': '' @ v) = Some (f, '' '' @ v)"
    using split_once_field[OF assms(1), of "'' '' @ v"] by simp
  ultimately show ?thesis unfolding sse_push_def by (simp only: Let_def option.case prod.case strip_prefix_append if_False)
qed

lemmas sse_push_fields = sse_push_field[of "''event''", simplified] sse_push_field[of "''id''", simplified]
  sse_push_field[of "''retry''", simplified] sse_push_field[of "''data''", simplified]

lemma push_data_lines:
  "foldl sse_push e (map (\<lambda>d. ''data: '' @ d) ds) = e\<lparr>sse_data := sse_data e @ ds\<rparr>"
  by (induction ds arbitrary: e) (auto simp: sse_push_fields)

lemma push_event_line:
  "foldl sse_push e (case x of None \<Rightarrow> [] | Some v \<Rightarrow> [''event: '' @ v]) =
     (case x of None \<Rightarrow> e | Some v \<Rightarrow> e\<lparr>sse_event := Some v\<rparr>)"
  by (cases x) (simp_all add: sse_push_fields)

lemma push_id_line:
  "(\<And>v. x = Some v \<Longrightarrow> CHR 0x00 \<notin> set v) \<Longrightarrow>
     foldl sse_push e (case x of None \<Rightarrow> [] | Some v \<Rightarrow> [''id: '' @ v]) = (case x of None \<Rightarrow> e | Some v \<Rightarrow> e\<lparr>sse_id := Some v\<rparr>)"
  by (cases x) (simp_all add: sse_push_fields)

lemma push_retry_line:
  "(\<And>v. x = Some v \<Longrightarrow> v \<noteq> [] \<and> list_all is_ascii_digit v) \<Longrightarrow>
     foldl sse_push e (case x of None \<Rightarrow> [] | Some v \<Rightarrow> [''retry: '' @ v]) = (case x of None \<Rightarrow> e | Some v \<Rightarrow> e\<lparr>sse_retry := Some v\<rparr>)"
  by (cases x) (simp_all add: sse_push_fields)

lemma push_event_lines:
  assumes "event_ok e"
  shows "foldl sse_push SseEvent_default (event_lines e) = e"
proof -
  have "\<And>v. sse_id e = Some v \<Longrightarrow> CHR 0x00 \<notin> set v" "\<And>v. sse_retry e = Some v \<Longrightarrow> v \<noteq> [] \<and> list_all is_ascii_digit v"
    using assms by (auto simp: event_ok_def retry_ok_def)
  then show ?thesis
    unfolding event_lines_def foldl_append push_event_line push_data_lines
    by (simp add: push_id_line push_retry_line SseEvent_default_def del: append.simps split: option.splits)
qed

lemma event_lines_ne: "[] \<notin> set (event_lines e)"
  by (auto simp: event_lines_def split: option.splits)

lemma one_line_append [simp]: "one_line (a @ b) \<longleftrightarrow> one_line a \<and> one_line b"
  by (auto simp: one_line_def)

lemma one_line_digits: "list_all is_ascii_digit r \<Longrightarrow> one_line r"
  by (induction r) (auto simp: one_line_def is_ascii_digit_def byte_def)

lemma one_line_names [simp]:
  "one_line ''event: ''" "one_line ''id: ''" "one_line ''retry: ''" "one_line ''data: ''" "one_line []"
  by (simp_all add: one_line_def)

lemma event_lines_one_line:
  assumes "event_ok e" and "l \<in> set (event_lines e)"
  shows "one_line l"
proof -
  consider v where "sse_event e = Some v" "l = ''event: '' @ v" | v where "sse_id e = Some v" "l = ''id: '' @ v"
    | v where "sse_retry e = Some v" "l = ''retry: '' @ v" | d where "d \<in> set (sse_data e)" "l = ''data: '' @ d"
    using assms(2) unfolding event_lines_def by (auto split: option.splits) metis+
  then show ?thesis
    using assms(1)
    by cases (auto simp only: one_line_append one_line_names event_ok_def retry_ok_def list_all_iff simp_thms
        intro: one_line_digits[unfolded list_all_iff])
qed

lemma sse_split_push: "[] \<notin> set ls \<Longrightarrow> sse_split e (ls @ rest) = sse_split (foldl sse_push e ls) rest"
  by (induction ls arbitrary: e) auto

definition stream_lines :: "SseEvent list \<Rightarrow> string list" where
  "stream_lines es = concat (map (\<lambda>e. event_lines e @ [[]]) es)"

lemma stream_lines_simps [simp]:
  "stream_lines [] = []" "stream_lines (es @ es') = stream_lines es @ stream_lines es'"
  "stream_lines (e # es) = event_lines e @ [] # stream_lines es"
  by (simp_all add: stream_lines_def)

lemma sse_split_stream:
  "list_all event_ok es \<Longrightarrow> SseEvent_default \<notin> set es \<Longrightarrow> sse_split SseEvent_default (stream_lines es @ [[]]) = es"
  by (induction es) (auto simp: sse_split_push event_lines_ne push_event_lines sse_emit_def)


lemma write_sse_text_field_ok:
  "write_sse_text_field name v san p w = Ok w' \<Longrightarrow>
     fst w' = fst w @ name @ '': '' @ safe_text san v @ nl \<and> one_line (safe_text san v) \<and> CHR 0x00 \<notin> set (safe_text san v)"
  by (auto simp: write_sse_text_field_def Let_def one_line_def split: prod.splits if_splits)

lemma write_sse_data_ok:
  assumes "write_sse_data c provider san data w = Ok w'" and "data \<noteq> []" and "codec_compact c"
  shows "\<exists>d. sanitized_data c provider san data = [d] \<and> one_line d \<and> fst w' = fst w @ ''data: '' @ d @ nl @ nl"
proof (cases "provider = Prov_OpenAi \<and> join_with nl data = ''[DONE]''")
  case True
  then show ?thesis using assms by (auto simp: write_sse_data_def sanitized_data_def one_line_def)
next
  case False
  then obtain v v' obs t where "from_str c (join_with nl data) = Some v" "sanitize_json provider v san = Ok (v', obs)"
    "to_string c v' = Some t" "fst w' = fst w @ ''data: '' @ t @ nl @ nl"
    using assms(1) by (auto simp: write_sse_data_def Let_def res_bind_ok_iff split: if_splits elim!: ok_or.elims)
  moreover have "one_line t" using assms(3) \<open>to_string c v' = Some t\<close> by (simp add: codec_compact_def one_line_def)
  ultimately show ?thesis using False assms(2) by (auto simp: sanitized_data_def Let_def sanitize_json_ok)
qed

lemma unlines_append [simp]: "unlines (xs @ ys) = unlines xs @ unlines ys" "unlines [] = []" "unlines (x # xs) = x @ nl @ unlines xs"
  by (simp_all add: unlines_def)

lemma write_sanitized_ok:
  assumes "write_sanitized c e provider san w = Ok (e', w')" and "retry_ok e" and "codec_compact c"
  shows "e' = SseEvent_default \<and> fst w' = fst w @ unlines (stream_lines (map (sanitized_event c provider san) (sse_emit e))) \<and>
    (e \<noteq> SseEvent_default \<longrightarrow> event_ok (sanitized_event c provider san e) \<and> sanitized_event c provider san e \<noteq> SseEvent_default)"
proof (cases "e = SseEvent_default")
  case True
  then show ?thesis using assms(1) by (simp add: write_sanitized_def SseEvent_default_def sse_emit_def)
next
  case False
  let ?e = "sanitized_event c provider san e"
  have ne: "\<not> (sse_event e = None \<and> sse_id e = None \<and> sse_retry e = None \<and> sse_data e = [])"
    using False by (cases e) (auto simp: SseEvent_default_def)
  obtain w1 w2 w3 where
    1: "(case sse_event e of None \<Rightarrow> Ok w | Some event \<Rightarrow> write_sse_text_field ''event'' event san ''/sse/event'' w) = Ok w1" and
    2: "(case sse_id e of None \<Rightarrow> Ok w1 | Some i \<Rightarrow> write_sse_text_field ''id'' i san ''/sse/id'' w1) = Ok w2" and
    3: "(case sse_retry e of None \<Rightarrow> Ok w2 | Some retry \<Rightarrow> write_sse_retry retry san w2) = Ok w3" and
    4: "(if sse_data e = [] then Ok (fst w3 @ nl, snd w3) else write_sse_data c provider san (sse_data e) w3) = Ok w'" and
    e': "e' = e\<lparr>sse_event := None, sse_id := None, sse_retry := None, sse_data := []\<rparr>"
    using assms(1) unfolding write_sanitized_def if_not_P[OF ne] res_bind_ok_iff sum.inject prod.inject by blast
  have f1: "fst w1 = fst w @ unlines (case sse_event ?e of None \<Rightarrow> [] | Some v \<Rightarrow> [''event: '' @ v])"
    and g1: "\<And>v. sse_event ?e = Some v \<Longrightarrow> one_line v"
    using 1 by (auto simp: sanitized_event_def dest!: write_sse_text_field_ok split: option.splits)
  have f2: "fst w2 = fst w1 @ unlines (case sse_id ?e of None \<Rightarrow> [] | Some v \<Rightarrow> [''id: '' @ v])"
    and g2: "\<And>v. sse_id ?e = Some v \<Longrightarrow> one_line v \<and> CHR 0x00 \<notin> set v"
    using 2 by (auto simp: sanitized_event_def dest!: write_sse_text_field_ok split: option.splits)
  have f3: "fst w3 = fst w2 @ unlines (case sse_retry ?e of None \<Rightarrow> [] | Some v \<Rightarrow> [''retry: '' @ v])"
    using 3 by (auto simp: sanitized_event_def write_sse_retry_def split: option.splits if_splits)
  have f4: "fst w' = fst w3 @ unlines (map (\<lambda>d. ''data: '' @ d) (sse_data ?e) @ [[]])" and g4: "list_all one_line (sse_data ?e)"
    and n4: "sse_data ?e = [] \<longleftrightarrow> sse_data e = []"
    using 4 write_sse_data_ok[OF _ _ assms(3), of provider san "sse_data e" w3 w']
    by (auto simp: sanitized_event_def sanitized_data_def[of _ _ _ "[]"] split: if_splits)
  have "event_ok ?e" using g1 g2 g4 assms(2) by (auto simp: event_ok_def retry_ok_def sanitized_event_def)
  moreover have "?e \<noteq> SseEvent_default" using ne n4 by (auto simp: SseEvent_default_def sanitized_event_def)
  moreover have "fst w' = fst w @ unlines (event_lines ?e @ [[]])"
    unfolding event_lines_def f1 f2 f3 f4 by simp
  ultimately show ?thesis using False e' by (simp add: sse_emit_def SseEvent_default_def)
qed


definition stream_ok :: "SseEvent list \<Rightarrow> bool" where
  "stream_ok es \<longleftrightarrow> list_all event_ok es \<and> SseEvent_default \<notin> set es"

lemma stream_ok_simps [simp]:
  "stream_ok []" "stream_ok (es @ es') \<longleftrightarrow> stream_ok es \<and> stream_ok es'"
  by (auto simp: stream_ok_def)

lemma write_sanitized_stream:
  assumes "write_sanitized c e provider san w = Ok (e', w')" and "retry_ok e" and "codec_compact c"
  shows "e' = SseEvent_default" and "fst w' = fst w @ unlines (stream_lines (map (sanitized_event c provider san) (sse_emit e)))"
    and "stream_ok (map (sanitized_event c provider san) (sse_emit e))"
  using write_sanitized_ok[OF assms] by (auto simp: stream_ok_def sse_emit_def)

lemma sse_loop_stream:
  assumes "sse_loop c provider san e w lines = Ok (e', w')" and "retry_ok e" and "codec_compact c"
  shows "\<exists>es. sse_split e lines = es @ sse_emit e' \<and> retry_ok e' \<and> stream_ok (map (sanitized_event c provider san) es) \<and>
    fst w' = fst w @ unlines (stream_lines (map (sanitized_event c provider san) es))"
  using assms
proof (induction lines arbitrary: e w)
  case (Cons line lines)
  show ?case
  proof (cases "line = []")
    case True
    then obtain e1 w1 where 1: "write_sanitized c e provider san w = Ok (e1, w1)"
      and 2: "sse_loop c provider san e1 w1 lines = Ok (e', w')"
      using Cons.prems(1) by (auto simp: res_bind_ok_iff)
    note st = write_sanitized_stream[OF 1 Cons.prems(2,3)]
    obtain es where "sse_split e1 lines = es @ sse_emit e'" "retry_ok e'" "stream_ok (map (sanitized_event c provider san) es)"
      "fst w' = fst w1 @ unlines (stream_lines (map (sanitized_event c provider san) es))"
      using Cons.IH[OF 2 _ Cons.prems(3)] st(1) by auto
    then show ?thesis
      using True st by (intro exI[of _ "sse_emit e @ es"]) simp
  next
    case False
    then show ?thesis using Cons.IH[of "sse_push e line" w] Cons.prems by (auto simp: retry_ok_push)
  qed
qed simp

definition sse_events :: "string \<Rightarrow> SseEvent list" where
  "sse_events text = sse_split SseEvent_default (sse_lines text)"

lemma sanitize_sse_ok:
  assumes "sanitize_sse c body provider san = Ok (out, obs)" and "codec_compact c"
  shows "stream_ok (map (sanitized_event c provider san) (sse_events body))"
    and "out = unlines (stream_lines (map (sanitized_event c provider san) (sse_events body)))"
proof -
  obtain e w e' where 1: "sse_loop c provider san SseEvent_default ([], []) (sse_lines body) = Ok (e, w)"
    and 2: "write_sanitized c e provider san w = Ok (e', (out, obs))"
    using assms(1) by (auto simp: sanitize_sse_def res_bind_ok_iff split: if_splits)
  obtain es where es: "sse_events body = es @ sse_emit e" "retry_ok e" "stream_ok (map (sanitized_event c provider san) es)"
    "fst w = unlines (stream_lines (map (sanitized_event c provider san) es))"
    using sse_loop_stream[OF 1 _ assms(2)] by (auto simp: sse_events_def)
  note st = write_sanitized_stream[OF 2 es(2) assms(2)]
  show "stream_ok (map (sanitized_event c provider san) (sse_events body))"
    "out = unlines (stream_lines (map (sanitized_event c provider san) (sse_events body)))"
    using es st by simp_all
qed

lemma sse_lines_unlines:
  assumes "\<forall>l\<in>set ls. one_line l" and "\<not> starts_with sse_bom (unlines ls)"
  shows "sse_lines (unlines ls) = ls @ [[]]"
proof -
  have n: "CHR 0x0D \<notin> set (unlines ls)" using assms(1) by (auto simp: unlines_def one_line_def nl_def)
  then have "\<not> str_contains [CHR 0x0D, CHR 0x0A] (unlines ls)" "\<not> str_contains [CHR 0x0D] (unlines ls)"
    by (force simp: str_contains_iff)+
  moreover have "split_on (CHR 0x0A) (unlines ls) = ls @ [[]]"
    using assms(1) by (intro split_on_unlines) (auto simp: one_line_def)
  ultimately show ?thesis
    using assms(2) by (simp add: sse_lines_def str_replace_no_match starts_with_def)
qed

lemma event_line_no_bom: "l \<in> set (event_lines e) \<Longrightarrow> hd l \<noteq> CHR 0xEF"
  by (auto simp: event_lines_def split: option.splits)

lemma stream_lines_no_bom: "\<not> starts_with sse_bom (unlines (stream_lines es))"
proof (cases "stream_lines es")
  case (Cons l ls)
  then have "l \<in> set (stream_lines es)" by simp
  then have "l = [] \<or> l \<noteq> [] \<and> hd l \<noteq> CHR 0xEF"
    by (auto simp: stream_lines_def dest: event_line_no_bom split: if_splits)
  then show ?thesis using Cons by (cases l) (auto simp: starts_with_iff sse_bom_def nl_def)
qed (simp add: starts_with_iff sse_bom_def)

lemma sse_events_stream:
  assumes "stream_ok es"
  shows "sse_events (unlines (stream_lines es)) = es"
proof -
  have "\<forall>l\<in>set (stream_lines es). one_line l"
    using assms event_lines_one_line by (auto simp: stream_lines_def stream_ok_def list_all_iff)
  then show ?thesis
    using sse_lines_unlines[OF _ stream_lines_no_bom] sse_split_stream[of es] assms
    by (simp add: sse_events_def stream_ok_def)
qed

lemma sse_split_ne: "SseEvent_default \<notin> set (sse_split e ls)"
  by (induction e ls rule: sse_split.induct) (auto simp: sse_emit_def)

lemma sse_events_ne: "x \<in> set (sse_events text) \<Longrightarrow> x \<noteq> SseEvent_default"
  using sse_split_ne by (auto simp: sse_events_def)

section \<open>What leaves the rewriter\<close>

definition json_safe :: "(string \<Rightarrow> bool) \<Rightarrow> json \<Rightarrow> bool" where
  "json_safe safe v \<longleftrightarrow> list_all safe (jstrings v) \<and> list_all safe (jfixed v)"

definition event_safe :: "JsonCodec \<Rightarrow> (string \<Rightarrow> bool) \<Rightarrow> SseEvent \<Rightarrow> bool" where
  "event_safe c safe e \<longleftrightarrow> (\<forall>t. sse_event e = Some t \<longrightarrow> safe t) \<and> (\<forall>t. sse_id e = Some t \<longrightarrow> safe t) \<and>
     (\<forall>t. sse_retry e = Some t \<longrightarrow> safe t) \<and>
     list_all (\<lambda>d. d = ''[DONE]'' \<or> (\<exists>v. from_str c d = Some v \<and> json_safe safe v)) (sse_data e)"

lemma write_sanitized_default: "write_sanitized c e provider san w = Ok (e', w') \<Longrightarrow> e' = SseEvent_default"
  by (cases e) (auto simp: write_sanitized_def res_bind_ok_iff SseEvent_default_def split: if_splits)

definition written :: "JsonCodec \<Rightarrow> Provider \<Rightarrow> Sanitizer \<Rightarrow> SseEvent \<Rightarrow> bool" where
  "written c provider san e \<longleftrightarrow> (\<exists>w w'. write_sanitized c e provider san w = Ok w')"

lemma writtenI: "write_sanitized c e provider san w = Ok w' \<Longrightarrow> written c provider san e"
  unfolding written_def by blast

lemma sse_loop_written:
  assumes "sse_loop c provider san e w lines = Ok (e', w')"
  shows "\<exists>es. sse_split e lines = es @ sse_emit e' \<and> (\<forall>x\<in>set es. written c provider san x)"
  using assms
proof (induction lines arbitrary: e w)
  case (Cons line lines)
  show ?case
  proof (cases "line = []")
    case True
    then obtain e1 w1 where 1: "write_sanitized c e provider san w = Ok (e1, w1)"
      and 2: "sse_loop c provider san e1 w1 lines = Ok (e', w')"
      using Cons.prems by (auto simp: res_bind_ok_iff)
    obtain es where es: "sse_split e1 lines = es @ sse_emit e'" "\<forall>x\<in>set es. written c provider san x"
      using Cons.IH[OF 2] by blast
    have "\<forall>x\<in>set (sse_emit e @ es). written c provider san x"
      using es(2) writtenI[OF 1] by (auto simp: sse_emit_def)
    then show ?thesis
      using True es(1) write_sanitized_default[OF 1] by (intro exI[of _ "sse_emit e @ es"]) simp
  next
    case False
    then show ?thesis using Cons.IH[of "sse_push e line" w] Cons.prems by simp
  qed
qed simp

lemma sanitize_sse_written:
  assumes "sanitize_sse c body provider san = Ok (out, obs)" and "x \<in> set (sse_events body)"
  shows "written c provider san x"
proof -
  obtain e w e' where 1: "sse_loop c provider san SseEvent_default ([], []) (sse_lines body) = Ok (e, w)"
    and 2: "write_sanitized c e provider san w = Ok (e', (out, obs))"
    using assms(1) by (auto simp: sanitize_sse_def res_bind_ok_iff split: if_splits)
  show ?thesis
    using sse_loop_written[OF 1] writtenI[OF 2] assms(2) by (auto simp: sse_events_def sse_emit_def split: if_splits)
qed

context text_sanitizer begin

lemma write_sse_data_safe:
  assumes "write_sse_data c provider san data w = Ok w'" and "codec_ok c"
  shows "list_all (\<lambda>d. d = ''[DONE]'' \<or> (\<exists>v. from_str c d = Some v \<and> json_safe safe v)) (sanitized_data c provider san data)"
proof (cases "data = [] \<or> provider = Prov_OpenAi \<and> join_with nl data = ''[DONE]''")
  case True
  then show ?thesis by (auto simp: sanitized_data_def Let_def)
next
  case False
  then obtain v v' obs t where *: "from_str c (join_with nl data) = Some v" "sanitize_json provider v san = Ok (v', obs)"
    "to_string c v' = Some t"
    using assms(1) by (auto simp: write_sse_data_def Let_def res_bind_ok_iff split: if_splits elim!: ok_or.elims)
  then have "sanitized_data c provider san data = [t]" using False by (auto simp: sanitized_data_def Let_def sanitize_json_ok)
  moreover have "from_str c t = Some v'" using assms(2) *(3) by (simp add: codec_ok_def)
  ultimately show ?thesis using sanitize_json_safe[OF *(2)] by (simp add: json_safe_def)
qed

lemma sanitized_event_safe:
  assumes "write_sanitized c e provider san w = Ok w'" and "codec_ok c" and "e \<noteq> SseEvent_default"
  shows "event_safe c safe (sanitized_event c provider san e)"
proof -
  have ne: "\<not> (sse_event e = None \<and> sse_id e = None \<and> sse_retry e = None \<and> sse_data e = [])"
    using assms(3) by (cases e) (auto simp: SseEvent_default_def)
  obtain w1 w2 w3 where 3: "(case sse_retry e of None \<Rightarrow> Ok w2 | Some retry \<Rightarrow> write_sse_retry retry san w2) = Ok w3" and
    4: "(if sse_data e = [] then Ok (fst w3 @ nl, snd w3) else write_sse_data c provider san (sse_data e) w3) = Ok w1"
    using assms(1) unfolding write_sanitized_def if_not_P[OF ne] res_bind_ok_iff sum.inject prod.inject by blast
  have "list_all (\<lambda>d. d = ''[DONE]'' \<or> (\<exists>v. from_str c d = Some v \<and> json_safe safe v)) (sanitized_data c provider san (sse_data e))"
    using 4 write_sse_data_safe[OF _ assms(2)] by (auto simp: sanitized_data_def[of _ _ _ "[]"] split: if_splits)
  moreover have "safe t" if "sse_retry e = Some t" for t
    using 3 that by (auto simp: write_sse_retry_def intro: unchanged_safe split: if_splits)
  ultimately show ?thesis by (auto simp: event_safe_def sanitized_event_def safe_traced)
qed

lemma sanitize_sse_safe:
  assumes "sanitize_sse c body provider san = Ok (out, obs)" and "codec_ok c" and "codec_compact c"
  shows "list_all (event_safe c safe) (sse_events out)"
proof -
  have "sse_events out = map (sanitized_event c provider san) (sse_events body)"
    using sanitize_sse_ok[OF assms(1,3)] sse_events_stream by simp
  moreover have "event_safe c safe (sanitized_event c provider san x)" if "x \<in> set (sse_events body)" for x
    using sanitize_sse_written[OF assms(1) that] sanitized_event_safe[OF _ assms(2)] sse_events_ne that unfolding written_def by blast
  ultimately show ?thesis by (simp add: list_all_iff)
qed

end

section \<open>Properties\<close>

text \<open>
  C20. Sanitizing a JSON body is leaf-wise and total: \<open>sanitize_json\<close> succeeds exactly when the sanitizer
  leaves every field name and every number as it is; the result is the body with each string value
  replaced by its sanitized text and nothing else changed, and the observations are the categories
  reported for the string values, each with the JSON pointer of its value, in document order.
\<close>

theorem sanitize_json_exact:
  "sanitize_json provider v san =
     (if \<forall>t\<in>set (jfixed v). sanitize san t = t
      then Ok (jmap (\<lambda>t. fst (sanitize_traced san t)) v,
               concat (map (\<lambda>(p, _, t). map (\<lambda>c. \<lparr>ob_category = c, ob_pointer = p\<rparr>) (snd (sanitize_traced san t)))
                 (jleaves (\<lambda>_. False) [] False v)))
      else Err ())"
  by (simp add: sanitize_json_def sanitize_textual_leaves_exact keeps_def leaf_observations_def observe_all_def)

theorem sanitize_json_exact_witness:
  "sanitize_json Prov_OpenAi (JObj [(''a'', JArr [JStr ''raw'', JNum ''1''])]) (exact_sanitizer \<lparr>ev_value = ''raw'', ev_replacement = ''[s]''\<rparr>) =
     Ok (JObj [(''a'', JArr [JStr ''[s]'', JNum ''1''])], [\<lparr>ob_category = Cat_Sensitive, ob_pointer = ''/a/0''\<rparr>])"
proof -
  let ?san = "exact_sanitizer \<lparr>ev_value = ''raw'', ev_replacement = ''[s]''\<rparr>"
  have v: "sanitize ?san ''a'' = ''a''" "sanitize ?san ''1'' = ''1''" "sanitize_traced ?san ''raw'' = (''[s]'', [Cat_Sensitive])"
    "index_pointer (key_pointer [] ''a'') 0 = ''/a/0''"
    by code_simp+
  show ?thesis
    using sanitize_json_exact[of Prov_OpenAi "JObj [(''a'', JArr [JStr ''raw'', JNum ''1''])]" ?san] by (simp add: v)
qed

text \<open>
  C21. The event stream rewriter refines an event-wise sanitizer: read by the event stream rules,
  what \<open>sanitize_sse\<close> writes is, event by event and in order, the sanitized form of what it was given -
  the event name and the identifier sanitized, the retry time kept, the data the compact text of the
  sanitized JSON document (or the OpenAI end marker).  No event is added, lost or merged, whatever the
  payloads and the replacements hold.
\<close>

theorem sanitize_sse_refines:
  assumes "codec_compact c" and "sanitize_sse c body provider san = Ok (out, obs)"
  shows "sse_events out = map (sanitized_event c provider san) (sse_events body)"
  using sanitize_sse_ok[OF assms(2,1)] sse_events_stream by simp

definition sse_test_codec :: JsonCodec where
  "sse_test_codec = \<lparr>from_str = (\<lambda>s. if s = ''1'' then Some (JStr ''raw'') else None),
     to_string = (\<lambda>v. if v = JStr ''[s]'' then Some ''2'' else None), from_slice = (\<lambda>_. None), to_vec = (\<lambda>_. None)\<rparr>"

theorem sanitize_sse_refines_witness:
  "sse_events (''id: [s]'' @ nl @ ''data: 2'' @ nl @ nl) =
     map (sanitized_event sse_test_codec Prov_OpenAi (exact_sanitizer \<lparr>ev_value = ''raw'', ev_replacement = ''[s]''\<rparr>))
       (sse_events (''data: 1'' @ [CHR 0x0D, CHR 0x0A] @ ''id:raw''))"
proof -
  have "codec_compact sse_test_codec" by (simp add: codec_compact_def sse_test_codec_def)
  moreover have "sanitize_sse sse_test_codec (''data: 1'' @ [CHR 0x0D, CHR 0x0A] @ ''id:raw'') Prov_OpenAi
      (exact_sanitizer \<lparr>ev_value = ''raw'', ev_replacement = ''[s]''\<rparr>) =
    Ok (''id: [s]'' @ nl @ ''data: 2'' @ nl @ nl,
        [\<lparr>ob_category = Cat_Sensitive, ob_pointer = ''/sse/id''\<rparr>, \<lparr>ob_category = Cat_Sensitive, ob_pointer = []\<rparr>])"
    by code_simp
  ultimately show ?thesis by (rule sanitize_sse_refines)
qed

end
