(* ===== verification/Proxy_Config.thy ===== *)
theory Proxy_Config
  imports Proxy_Sanitize
begin

text \<open>
  Configuration and errors of the proxy (\<open>crates/blindfold-proxy/src/config.rs\<close> and \<open>error.rs\<close>).  A URL is
  the view its accessors give (\<open>reqwest::Url\<close> is library code); its parser and the constructor of a
  header value are parameters.
\<close>

section \<open>Addresses\<close>

datatype IpAddr = V4 "32 word" | V6 "128 word"

fun is_loopback :: "IpAddr \<Rightarrow> bool" where
  "is_loopback (V4 a) = (drop_bit 24 a = 127)"
| "is_loopback (V6 a) = (a = 1)"

fun is_unspecified :: "IpAddr \<Rightarrow> bool" where
  "is_unspecified (V4 a) = (a = 0)"
| "is_unspecified (V6 a) = (a = 0)"

fun is_ipv4 :: "IpAddr \<Rightarrow> bool" where
  "is_ipv4 (V4 a) = True"
| "is_ipv4 (V6 a) = False"

definition ipv4_localhost :: IpAddr where
  "ipv4_localhost = V4 0x7F000001"

definition ipv6_localhost :: IpAddr where
  "ipv6_localhost = V6 1"

record SocketAddr =
  sa_ip :: IpAddr
  sa_port :: "16 word"

section \<open>Errors\<close>

datatype ProxyErrorCode =
    PE_UpstreamNotAllowed | PE_ProxyLoop | PE_RequestTooLarge | PE_ResponseTooLarge | PE_InvalidJson
  | PE_InvalidRequest | PE_SensitiveMetadata | PE_UnsupportedTransport | PE_Timeout | PE_Cancelled
  | PE_UpstreamFailure

fun ProxyErrorCode_as_str :: "ProxyErrorCode \<Rightarrow> string" where
  "ProxyErrorCode_as_str PE_UpstreamNotAllowed = ''upstream_not_allowed''"
| "ProxyErrorCode_as_str PE_ProxyLoop = ''proxy_loop''"
| "ProxyErrorCode_as_str PE_RequestTooLarge = ''request_too_large''"
| "ProxyErrorCode_as_str PE_ResponseTooLarge = ''response_too_large''"
| "ProxyErrorCode_as_str PE_InvalidJson = ''invalid_json''"
| "ProxyErrorCode_as_str PE_InvalidRequest = ''invalid_request''"
| "ProxyErrorCode_as_str PE_SensitiveMetadata = ''sensitive_metadata''"
| "ProxyErrorCode_as_str PE_UnsupportedTransport = ''unsupported_transport''"
| "ProxyErrorCode_as_str PE_Timeout = ''timeout''"
| "ProxyErrorCode_as_str PE_Cancelled = ''cancelled''"
| "ProxyErrorCode_as_str PE_UpstreamFailure = ''upstream_failure''"

fun ProxyError_status :: "ProxyErrorCode \<Rightarrow> nat" where
  "ProxyError_status PE_UpstreamNotAllowed = 404"
| "ProxyError_status PE_ProxyLoop = 508"
| "ProxyError_status PE_RequestTooLarge = 413"
| "ProxyError_status PE_ResponseTooLarge = 413"
| "ProxyError_status PE_InvalidJson = 400"
| "ProxyError_status PE_InvalidRequest = 400"
| "ProxyError_status PE_SensitiveMetadata = 400"
| "ProxyError_status PE_UnsupportedTransport = 400"
| "ProxyError_status PE_Timeout = 504"
| "ProxyError_status PE_Cancelled = 503"
| "ProxyError_status PE_UpstreamFailure = 502"

fun ProxyErrorCode_message :: "ProxyErrorCode \<Rightarrow> string" where
  "ProxyErrorCode_message PE_UpstreamNotAllowed = ''proxy route is not allowlisted''"
| "ProxyErrorCode_message PE_ProxyLoop = ''proxy loop rejected''"
| "ProxyErrorCode_message PE_RequestTooLarge = ''request body is too large''"
| "ProxyErrorCode_message PE_ResponseTooLarge = ''upstream response is too large''"
| "ProxyErrorCode_message PE_InvalidJson = ''JSON or supported SSE payload could not be sanitized''"
| "ProxyErrorCode_message PE_InvalidRequest = ''request method or content type is unsupported''"
| "ProxyErrorCode_message PE_SensitiveMetadata = ''request metadata contains sensitive content''"
| "ProxyErrorCode_message PE_UnsupportedTransport = ''request transport is unsupported and was not forwarded''"
| "ProxyErrorCode_message PE_Timeout = ''upstream exchange timed out''"
| "ProxyErrorCode_message PE_Cancelled = ''proxy exchange was cancelled''"
| "ProxyErrorCode_message PE_UpstreamFailure = ''upstream response could not be sanitized or completed''"

type_synonym headers = "(string \<times> string) list"

record HttpResponse =
  hr_status :: nat
  hr_headers :: headers
  hr_body :: string

definition dq :: string where
  "dq = [CHR 0x22]"

definition error_body :: "ProxyErrorCode \<Rightarrow> string" where
  "error_body code =
     ''{'' @ dq @ ''error'' @ dq @ '':{'' @ dq @ ''code'' @ dq @ '':'' @ dq @ ProxyErrorCode_as_str code @ dq @ '','' @
     dq @ ''message'' @ dq @ '':'' @ dq @ ProxyErrorCode_message code @ dq @ ''}}''"

definition into_response :: "ProxyErrorCode \<Rightarrow> HttpResponse" where
  "into_response code =
     \<lparr>hr_status = ProxyError_status code, hr_headers = [(''content-type'', ''application/json'')], hr_body = error_body code\<rparr>"

datatype ConfigError =
    CE_NonLoopbackBind | CE_ZeroBodyLimit | CE_ZeroTimeout | CE_EmptyAllowlist | CE_InvalidUpstreamName
  | CE_DuplicateUpstreamName | CE_InvalidUpstreamUrl | CE_InvalidGatewayCredential
  | CE_UncredentialedTrustedProxyHop | CE_ProxyLoop | CE_BindFailed

fun ConfigError_fmt :: "ConfigError \<Rightarrow> string" where
  "ConfigError_fmt CE_NonLoopbackBind = ''non-loopback binding requires explicit opt-in''"
| "ConfigError_fmt CE_ZeroBodyLimit = ''request and response body limits must be non-zero''"
| "ConfigError_fmt CE_ZeroTimeout = ''request timeout must be non-zero''"
| "ConfigError_fmt CE_EmptyAllowlist = ''at least one upstream must be allowlisted''"
| "ConfigError_fmt CE_InvalidUpstreamName = ''an upstream name is invalid''"
| "ConfigError_fmt CE_DuplicateUpstreamName = ''upstream names must be unique''"
| "ConfigError_fmt CE_InvalidUpstreamUrl = ''an upstream URL is invalid''"
| "ConfigError_fmt CE_InvalidGatewayCredential = ''a gateway credential is invalid''"
| "ConfigError_fmt CE_UncredentialedTrustedProxyHop = ''a trusted proxy hop requires a gateway credential''"
| "ConfigError_fmt CE_ProxyLoop = ''an upstream points to the proxy listener''"
| "ConfigError_fmt CE_BindFailed = ''the proxy listener could not be created''"

section \<open>Upstreams\<close>

record Url =
  url_scheme :: string
  url_host :: "string option"
  url_port_or_known_default :: "16 word option"
  url_username :: string
  url_password :: "string option"
  url_path :: string
  url_query :: "string option"
  url_fragment :: "string option"

record GatewayCredential =
  gc_secret :: string
  gc_header_value :: string

record Upstream =
  up_name :: string
  up_base_url :: Url
  up_provider :: Provider
  up_gateway_credential :: "GatewayCredential option"
  up_trusted_proxy_hop :: bool

definition Upstream_new :: "(string \<Rightarrow> Url option) \<Rightarrow> string \<Rightarrow> string \<Rightarrow> Provider \<Rightarrow> ConfigError + Upstream" where
  "Upstream_new url_parse name base_url provider =
     res_bind (ok_or (url_parse base_url) CE_InvalidUpstreamUrl) (\<lambda>url.
     Ok \<lparr>up_name = name, up_base_url = url, up_provider = provider, up_gateway_credential = None, up_trusted_proxy_hop = False\<rparr>)"

definition gateway_credential_header_value ::
  "(string \<Rightarrow> string option) \<Rightarrow> Provider \<Rightarrow> string \<Rightarrow> ConfigError + string"
where
  "gateway_credential_header_value header_from_str provider credential =
     (if credential = [] then Err CE_InvalidGatewayCredential
      else
        let value = (case provider of Prov_OpenAi \<Rightarrow> ''Bearer '' @ credential | Prov_Anthropic \<Rightarrow> credential)
        in ok_or (header_from_str value) CE_InvalidGatewayCredential)"

definition with_gateway_credential :: "(string \<Rightarrow> string option) \<Rightarrow> Upstream \<Rightarrow> string \<Rightarrow> ConfigError + Upstream" where
  "with_gateway_credential header_from_str u credential =
     res_bind (gateway_credential_header_value header_from_str (up_provider u) credential) (\<lambda>header_value.
     Ok (u\<lparr>up_gateway_credential := Some \<lparr>gc_secret = credential, gc_header_value = header_value\<rparr>\<rparr>))"

definition with_trusted_proxy_hop :: "Upstream \<Rightarrow> Upstream" where
  "with_trusted_proxy_hop u = u\<lparr>up_trusted_proxy_hop := True\<rparr>"

definition GatewayCredential_fmt :: "GatewayCredential \<Rightarrow> string" where
  "GatewayCredential_fmt g = ''[REDACTED]''"

section \<open>Configuration\<close>

record Config =
  cfg_bind_addr :: SocketAddr
  cfg_allow_non_loopback :: bool
  cfg_max_request_body :: nat
  cfg_max_response_body :: nat
  cfg_request_timeout :: nat
  cfg_upstreams :: "Upstream list"

text \<open>The timeout is in nanoseconds.\<close>

definition Config_default :: Config where
  "Config_default = \<lparr>cfg_bind_addr = \<lparr>sa_ip = ipv4_localhost, sa_port = 0\<rparr>, cfg_allow_non_loopback = False,
     cfg_max_request_body = 1024 * 1024, cfg_max_response_body = 8 * 1024 * 1024,
     cfg_request_timeout = 30 * 1000000000, cfg_upstreams = []\<rparr>"

definition validate_url :: "Url \<Rightarrow> ConfigError + unit" where
  "validate_url url =
     (if url_scheme url \<notin> {''http'', ''https''} \<or> url_host url = None \<or> url_username url \<noteq> [] \<or>
         url_password url \<noteq> None \<or> url_query url \<noteq> None \<or> url_fragment url \<noteq> None
      then Err CE_InvalidUpstreamUrl else Ok ())"

definition upstream_name_ok :: "string \<Rightarrow> bool" where
  "upstream_name_ok name \<longleftrightarrow> name \<noteq> [] \<and> list_all (\<lambda>b. is_ascii_alphanumeric b \<or> b = CHR ''-'' \<or> b = CHR ''_'') name"

definition validate_upstream :: "string set \<Rightarrow> Upstream \<Rightarrow> ConfigError + string set" where
  "validate_upstream names u =
     (if \<not> upstream_name_ok (up_name u) then Err CE_InvalidUpstreamName
      else if up_name u \<in> names then Err CE_DuplicateUpstreamName
      else if up_trusted_proxy_hop u \<and> up_gateway_credential u = None then Err CE_UncredentialedTrustedProxyHop
      else res_bind (validate_url (up_base_url u)) (\<lambda>_. Ok (insert (up_name u) names)))"

definition Config_validate :: "Config \<Rightarrow> ConfigError + unit" where
  "Config_validate c =
     (if \<not> cfg_allow_non_loopback c \<and> \<not> is_loopback (sa_ip (cfg_bind_addr c)) then Err CE_NonLoopbackBind
      else if cfg_max_request_body c = 0 \<or> cfg_max_response_body c = 0 then Err CE_ZeroBodyLimit
      else if cfg_request_timeout c = 0 then Err CE_ZeroTimeout
      else if cfg_upstreams c = [] then Err CE_EmptyAllowlist
      else res_map (\<lambda>_. ()) (try_fold validate_upstream {} (cfg_upstreams c)))"

section \<open>Lemmas\<close>

definition upstream_ok :: "Upstream \<Rightarrow> bool" where
  "upstream_ok u \<longleftrightarrow> upstream_name_ok (up_name u) \<and> (up_trusted_proxy_hop u \<longrightarrow> up_gateway_credential u \<noteq> None) \<and>
     url_scheme (up_base_url u) \<in> {''http'', ''https''} \<and> url_host (up_base_url u) \<noteq> None \<and>
     url_username (up_base_url u) = [] \<and> url_password (up_base_url u) = None \<and> url_query (up_base_url u) = None \<and>
     url_fragment (up_base_url u) = None"

lemma validate_upstream_ok:
  "validate_upstream names u = Ok names' \<longleftrightarrow> upstream_ok u \<and> up_name u \<notin> names \<and> names' = insert (up_name u) names"
  by (auto simp: validate_upstream_def upstream_ok_def validate_url_def split: if_splits)

lemma validate_upstreams_ok:
  "(\<exists>names'. try_fold validate_upstream names us = Ok names') \<longleftrightarrow>
     list_all upstream_ok us \<and> distinct (map up_name us) \<and> set (map up_name us) \<inter> names = {}"
  by (induction us arbitrary: names) (auto simp: res_bind_ok_iff validate_upstream_ok)

lemma Config_validate_ok:
  "Config_validate c = Ok u \<longleftrightarrow>
     (is_loopback (sa_ip (cfg_bind_addr c)) \<or> cfg_allow_non_loopback c) \<and> cfg_max_request_body c > 0 \<and>
     cfg_max_response_body c > 0 \<and> cfg_request_timeout c > 0 \<and> cfg_upstreams c \<noteq> [] \<and>
     list_all upstream_ok (cfg_upstreams c) \<and> distinct (map up_name (cfg_upstreams c))"
  using validate_upstreams_ok[of "{}" "cfg_upstreams c"] by (auto simp: Config_validate_def res_map_ok_iff)

end
