(* ===== verification/Proxy.thy ===== *)
theory Proxy
  imports Proxy_Config Rust_Map "HOL-Library.Product_Lexorder" "HOL-Library.List_Lexorder" "HOL-Library.Char_ord"
begin

text \<open>
  The forwarding proxy (\<open>crates/blindfold-proxy/src/proxy.rs\<close>): the request checks, the outbound request,
  the sanitized response, the loop marker, the WebSocket bridge and the payload-free trace.  The HTTP
  libraries are parameters: \<open>HttpLib\<close> holds their pure helpers, \<open>Net\<close> what the network does.  An
  exchange is cancelled by its deadline at one of the points where it waits (\<open>Cut\<close>).  A header map is
  the list of its entries in iteration order, names in lower case.
\<close>

section \<open>Library parameters\<close>

record Uri =
  uri_path :: string
  uri_query :: "string option"

record HttpLib =
  hv_to_str :: "string \<Rightarrow> string option"
  form_parse :: "string \<Rightarrow> (string \<times> string) list"
  set_path :: "string \<Rightarrow> Url \<Rightarrow> Url"
  set_query :: "string option \<Rightarrow> Url \<Rightarrow> Url"
  set_scheme :: "string \<Rightarrow> Url \<Rightarrow> Url option"
  parse_ip :: "string \<Rightarrow> IpAddr option"

record HttpRequest =
  rq_method :: string
  rq_uri :: Uri
  rq_headers :: headers
  rq_body :: string

record Outbound =
  ou_method :: string
  ou_url :: Url
  ou_headers :: headers
  ou_body :: string

record UpResponse =
  ur_status :: nat
  ur_headers :: headers
  ur_content_length :: "64 word option"
  ur_chunks :: "string option list"

record Net =
  to_bytes :: "string \<Rightarrow> nat \<Rightarrow> string option"
  send :: "Outbound \<Rightarrow> UpResponse option"

datatype Cut = Cut_Body | Cut_Send | Cut_Chunks

definition hdr_get :: "string \<Rightarrow> headers \<Rightarrow> string option" where
  "hdr_get name hs = map_of hs name"

definition hdr_get_all :: "string \<Rightarrow> headers \<Rightarrow> string list" where
  "hdr_get_all name hs = map snd (filter (\<lambda>(n, v). n = name) hs)"

definition hdr_insert :: "string \<Rightarrow> string \<Rightarrow> headers \<Rightarrow> headers" where
  "hdr_insert name value hs = filter (\<lambda>(n, v). n \<noteq> name) hs @ [(name, value)]"

section \<open>Header and path rules\<close>

definition LOOP_HEADER :: string where
  "LOOP_HEADER = ''x-blindfold-proxy-hop''"

definition LOOP_VALUE :: string where
  "LOOP_VALUE = ''1''"

definition CHAINED_LOOP_VALUE :: string where
  "CHAINED_LOOP_VALUE = ''2''"

definition is_hop_by_hop :: "string \<Rightarrow> bool" where
  "is_hop_by_hop name \<longleftrightarrow> name = LOOP_HEADER \<or>
     name \<in> {''connection'', ''content-length'', ''transfer-encoding'', ''host''} \<or>
     name \<in> {''keep-alive'', ''proxy-authenticate'', ''proxy-authorization'', ''te'', ''trailer'', ''upgrade''}"

definition is_provider_auth_header :: "string \<Rightarrow> bool" where
  "is_provider_auth_header name \<longleftrightarrow> name \<in> {''authorization'', ''x-api-key'', ''api-key''}"

definition is_credential_header_name :: "string \<Rightarrow> bool" where
  "is_credential_header_name name \<longleftrightarrow>
     name \<in> {''x-auth-token'', ''x-access-token'', ''x-api-token'', ''x-client-secret'', ''x-secret''} \<or>
     ends_with ''-token'' name \<or> ends_with ''-secret'' name"

definition is_credential_query_name :: "string \<Rightarrow> bool" where
  "is_credential_query_name name \<longleftrightarrow> to_ascii_lowercase name \<in>
     {''key'', ''api_key'', ''apikey'', ''token'', ''access_token'', ''secret'', ''client_secret'', ''password'', ''authorization''}"

definition is_websocket_upgrade :: "HttpLib \<Rightarrow> headers \<Rightarrow> bool" where
  "is_websocket_upgrade lib hs =
     (case Option.bind (hdr_get ''upgrade'' hs) (hv_to_str lib) of
        Some value \<Rightarrow> eq_ignore_ascii_case value ''websocket'' | None \<Rightarrow> False)"

definition is_websocket_handshake_header :: "string \<Rightarrow> bool" where
  "is_websocket_handshake_header name \<longleftrightarrow>
     name \<in> {''sec-websocket-key'', ''sec-websocket-version'', ''sec-websocket-extensions'', ''sec-websocket-protocol'', ''origin''}"

definition accept_proxy_hop :: "headers \<Rightarrow> Upstream \<Rightarrow> ProxyErrorCode + bool" where
  "accept_proxy_hop hs u =
     (case hdr_get_all LOOP_HEADER hs of
        [] \<Rightarrow> Ok False
      | value # others \<Rightarrow>
          if others \<noteq> [] \<or> \<not> up_trusted_proxy_hop u \<or> value \<noteq> LOOP_VALUE then Err PE_ProxyLoop else Ok True)"

definition next_proxy_hop_marker :: "bool \<Rightarrow> string" where
  "next_proxy_hop_marker has_trusted_proxy_hop = (if has_trusted_proxy_hop then CHAINED_LOOP_VALUE else LOOP_VALUE)"

definition gateway_auth_header :: "Upstream \<Rightarrow> (string \<times> string) option" where
  "gateway_auth_header u =
     map_option (\<lambda>g. (case up_provider u of Prov_OpenAi \<Rightarrow> ''authorization'' | Prov_Anthropic \<Rightarrow> ''x-api-key'', gc_header_value g))
       (up_gateway_credential u)"

definition sanitizer_for_upstream :: "Sanitizer \<Rightarrow> Upstream \<Rightarrow> Sanitizer" where
  "sanitizer_for_upstream san u =
     (case up_gateway_credential u of None \<Rightarrow> san | Some g \<Rightarrow> credential_sanitizer san (gc_secret g))"

abbreviation trim_slashes :: "string \<Rightarrow> string" where
  "trim_slashes \<equiv> trim_matches (\<lambda>c. c = CHR ''/'')"

definition reject_unsupported_gateway_path :: "Upstream \<Rightarrow> string \<Rightarrow> Uri \<Rightarrow> ProxyErrorCode + unit" where
  "reject_unsupported_gateway_path u path uri =
     (if up_gateway_credential u = None then Ok ()
      else
        let query_supported = (case up_provider u of
              Prov_Anthropic \<Rightarrow> uri_query uri = None \<or> uri_query uri = Some ''beta=true''
            | Prov_OpenAi \<Rightarrow> uri_query uri = None)
        in if \<not> query_supported then Err PE_InvalidRequest
           else
             let path = trim_slashes path;
                 supported = (case up_provider u of
                   Prov_Anthropic \<Rightarrow> path \<in> {''messages'', ''v1/messages''}
                 | Prov_OpenAi \<Rightarrow> path \<in> {''chat/completions'', ''v1/chat/completions'', ''responses'', ''v1/responses''})
             in if supported then Ok () else Err PE_InvalidRequest)"

definition reject_unsupported_transport :: "HttpLib \<Rightarrow> headers \<Rightarrow> ProxyErrorCode + unit" where
  "reject_unsupported_transport lib hs =
     (let has_upgrade_connection = (case Option.bind (hdr_get ''connection'' hs) (hv_to_str lib) of
            None \<Rightarrow> False
          | Some value \<Rightarrow> list_ex (\<lambda>token. eq_ignore_ascii_case (str_trim token) ''upgrade'') (split_on (CHR '','') value))
      in if hdr_get ''upgrade'' hs \<noteq> None \<or> has_upgrade_connection then Err PE_UnsupportedTransport else Ok ())"

definition reject_unsupported_method :: "string \<Rightarrow> ProxyErrorCode + unit" where
  "reject_unsupported_method m = (if m = ''POST'' then Ok () else Err PE_InvalidRequest)"

definition reject_oversize_content_length :: "HttpLib \<Rightarrow> headers \<Rightarrow> nat \<Rightarrow> ProxyErrorCode + unit" where
  "reject_oversize_content_length lib hs limit =
     (case Option.bind (Option.bind (hdr_get ''content-length'' hs) (hv_to_str lib)) parse_usize of
        Some len \<Rightarrow> if unat len > limit then Err PE_RequestTooLarge else Ok ()
      | None \<Rightarrow> Ok ())"

definition reject_oversize_reqwest_length :: "UpResponse \<Rightarrow> nat \<Rightarrow> ProxyErrorCode + unit" where
  "reject_oversize_reqwest_length r limit =
     (case ur_content_length r of
        Some len \<Rightarrow> if unat len > limit then Err PE_ResponseTooLarge else Ok ()
      | None \<Rightarrow> Ok ())"

definition reject_sensitive_query :: "Sanitizer \<Rightarrow> string \<times> string \<Rightarrow> ProxyErrorCode + unit" where
  "reject_sensitive_query san = (\<lambda>(name, value).
     if is_credential_query_name name \<or> sanitize san name \<noteq> name \<or> sanitize san value \<noteq> value
     then Err PE_SensitiveMetadata else Ok ())"

definition reject_sensitive_header :: "HttpLib \<Rightarrow> Sanitizer \<Rightarrow> string \<times> string \<Rightarrow> ProxyErrorCode + unit" where
  "reject_sensitive_header lib san = (\<lambda>(name, value).
     if is_hop_by_hop name \<or> is_provider_auth_header name then Ok ()
     else if is_credential_header_name name \<or> sanitize san name \<noteq> name then Err PE_SensitiveMetadata
     else
       res_bind (ok_or (hv_to_str lib value) PE_SensitiveMetadata) (\<lambda>value.
       if sanitize san value \<noteq> value then Err PE_SensitiveMetadata else Ok ()))"

definition reject_sensitive_request_metadata :: "HttpLib \<Rightarrow> Uri \<Rightarrow> headers \<Rightarrow> Sanitizer \<Rightarrow> ProxyErrorCode + unit" where
  "reject_sensitive_request_metadata lib uri hs san =
     (if sanitize san (uri_path uri) \<noteq> uri_path uri then Err PE_SensitiveMetadata
      else
        res_bind (case uri_query uri of
            None \<Rightarrow> Ok ()
          | Some query \<Rightarrow> try_all (reject_sensitive_query san) (form_parse lib query)) (\<lambda>_.
        try_all (reject_sensitive_header lib san) hs))"

definition content_type :: "HttpLib \<Rightarrow> headers \<Rightarrow> string option" where
  "content_type lib hs = Option.bind (hdr_get ''content-type'' hs) (hv_to_str lib)"

definition is_json :: "string \<Rightarrow> bool" where
  "is_json ct = (let media_type = str_trim (hd (split_on (CHR '';'') ct)) in media_type = ''application/json'' \<or> ends_with ''+json'' media_type)"

definition is_sse :: "string \<Rightarrow> bool" where
  "is_sse ct \<longleftrightarrow> str_trim (hd (split_on (CHR '';'') ct)) = ''text/event-stream''"

definition destination_url :: "HttpLib \<Rightarrow> Url \<Rightarrow> string \<Rightarrow> Uri \<Rightarrow> Url" where
  "destination_url lib base path uri =
     (let joined = trim_end_matches (\<lambda>c. c = CHR ''/'') (url_path base);
          joined_path = (if path \<noteq> [] then joined @ ''/'' @ path else joined)
      in set_query lib (uri_query uri) (set_path lib joined_path base))"

definition same_listener_ip :: "IpAddr \<Rightarrow> IpAddr \<Rightarrow> bool" where
  "same_listener_ip listener upstream \<longleftrightarrow>
     listener = upstream \<or> (is_unspecified listener \<and> is_loopback upstream) \<or>
     (is_ipv4 listener \<and> upstream = ipv6_localhost) \<or> (\<not> is_ipv4 listener \<and> upstream = ipv4_localhost)"

definition reject_direct_loop :: "HttpLib \<Rightarrow> SocketAddr \<Rightarrow> Upstream \<Rightarrow> ConfigError + unit" where
  "reject_direct_loop lib listener u =
     (case url_port_or_known_default (up_base_url u) of
        None \<Rightarrow> Ok ()
      | Some port \<Rightarrow> (case Option.bind (url_host (up_base_url u)) (parse_ip lib) of
          None \<Rightarrow> Ok ()
        | Some ip \<Rightarrow> if port = sa_port listener \<and> same_listener_ip (sa_ip listener) ip then Err CE_ProxyLoop else Ok ()))"

definition reject_direct_loops :: "HttpLib \<Rightarrow> SocketAddr \<Rightarrow> Upstream list \<Rightarrow> ConfigError + unit" where
  "reject_direct_loops lib listener us = try_all (reject_direct_loop lib listener) us"

section \<open>Bodies\<close>

datatype BodySource = BS_Request | BS_Response

definition sanitize_body ::
  "JsonCodec \<Rightarrow> Provider \<Rightarrow> BodySource \<Rightarrow> string \<Rightarrow> string option \<Rightarrow> string \<Rightarrow> Sanitizer \<Rightarrow> ProxyErrorCode + string \<times> Observation list"
where
  "sanitize_body c provider source path ct body san =
     (let sse = (case ct of Some t \<Rightarrow> is_sse t | None \<Rightarrow> False);
          json = (case ct of Some t \<Rightarrow> is_json t | None \<Rightarrow> False) in
      if source = BS_Response \<and> provider = Prov_Anthropic \<and> trim_slashes path \<in> {''messages'', ''v1/messages''} \<and> sse
      then map_err (\<lambda>_. PE_InvalidJson) (sanitize_sse c body provider san)
      else if source = BS_Response \<and> provider = Prov_OpenAi \<and>
         trim_slashes path \<in> {''chat/completions'', ''v1/chat/completions''} \<and> sse
      then map_err (\<lambda>_. PE_InvalidJson) (sanitize_sse c body provider san)
      else if json
      then
        res_bind (ok_or (from_slice c body) PE_InvalidJson) (\<lambda>value.
        res_bind (map_err (\<lambda>_. PE_InvalidJson) (sanitize_json provider value san)) (\<lambda>(value', obs).
        res_bind (ok_or (to_vec c value') PE_InvalidJson) (\<lambda>output.
        Ok (output, obs))))
      else Err (case source of BS_Request \<Rightarrow> PE_InvalidRequest | BS_Response \<Rightarrow> PE_UpstreamFailure))"

fun collect_chunks :: "nat \<Rightarrow> string \<Rightarrow> string option list \<Rightarrow> ProxyErrorCode + string" where
  "collect_chunks limit body [] = Ok body"
| "collect_chunks limit body (None # chunks) = Err PE_UpstreamFailure"
| "collect_chunks limit body (Some chunk # chunks) =
     (let new_len = length body + length chunk in
      if new_len \<ge> 2 ^ 64 then Err PE_ResponseTooLarge
      else if new_len > limit then Err PE_ResponseTooLarge
      else collect_chunks limit (body @ chunk) chunks)"

definition collect_response :: "UpResponse \<Rightarrow> nat \<Rightarrow> ProxyErrorCode + string" where
  "collect_response r limit = collect_chunks limit [] (ur_chunks r)"

section \<open>Traces\<close>

fun Category_rank :: "Category \<Rightarrow> nat" where
  "Category_rank Cat_OpenAiApiKey = 0"
| "Category_rank Cat_AnthropicApiKey = 1"
| "Category_rank Cat_GitHubToken = 2"
| "Category_rank Cat_StripeKey = 3"
| "Category_rank Cat_SlackToken = 4"
| "Category_rank Cat_AwsAccessKeyId = 5"
| "Category_rank Cat_AwsSecretAccessKey = 6"
| "Category_rank Cat_BearerToken = 7"
| "Category_rank Cat_Jwt = 8"
| "Category_rank Cat_OAuthToken = 9"
| "Category_rank Cat_PemPrivateKey = 10"
| "Category_rank Cat_CredentialUrl = 11"
| "Category_rank Cat_EmailAddress = 12"
| "Category_rank Cat_PhoneNumber = 13"
| "Category_rank Cat_Password = 14"
| "Category_rank Cat_ApiKey = 15"
| "Category_rank Cat_Token = 16"
| "Category_rank Cat_Sensitive = 17"

lemma Category_rank_inject: "Category_rank a = Category_rank b \<Longrightarrow> a = b"
  by (cases a; cases b) simp_all

instantiation Category :: linorder
begin

definition less_eq_Category :: "Category \<Rightarrow> Category \<Rightarrow> bool" where
  "less_eq_Category a b \<longleftrightarrow> Category_rank a \<le> Category_rank b"

definition less_Category :: "Category \<Rightarrow> Category \<Rightarrow> bool" where
  "less_Category a b \<longleftrightarrow> Category_rank a < Category_rank b"

instance
  by standard (auto simp: less_eq_Category_def less_Category_def Category_rank_inject)

end

record RequestTrace =
  rt_request_id :: string
  rt_route :: Route
  rt_request_before :: nat
  rt_request_after :: nat
  rt_response_before :: nat
  rt_response_after :: nat
  rt_observations :: "((Category \<times> string) \<times> 32 word) list"
  rt_issue :: "Issue option"

text \<open>Lower-case hexadecimal text of a number, as the format \<open>{:x}\<close> writes it.\<close>

fun hex_str :: "nat \<Rightarrow> string" where
  "hex_str n = (if n < 16 then [''0123456789abcdef'' ! n] else hex_str (n div 16) @ [''0123456789abcdef'' ! (n mod 16)])"

declare hex_str.simps [simp del]

text \<open>The clock is in nanoseconds since the epoch; \<open>sequence\<close> is the value of the request counter.\<close>

definition RequestTrace_with_route :: "int \<Rightarrow> 64 word \<Rightarrow> Route \<Rightarrow> RequestTrace" where
  "RequestTrace_with_route clock sequence route =
     (let timestamp = (if clock < 0 then 0 else nat clock mod 2 ^ 128) in
      \<lparr>rt_request_id = ''req_'' @ hex_str timestamp @ ''_'' @ hex_str (unat sequence), rt_route = route,
       rt_request_before = 0, rt_request_after = 0, rt_response_before = 0, rt_response_after = 0,
       rt_observations = [], rt_issue = None\<rparr>)"

definition provider_route :: "Provider \<Rightarrow> Route" where
  "provider_route p = (case p of Prov_OpenAi \<Rightarrow> Route_OpenAi | Prov_Anthropic \<Rightarrow> Route_Anthropic)"

definition observe :: "Observation list \<Rightarrow> RequestTrace \<Rightarrow> RequestTrace" where
  "observe obs t = t\<lparr>rt_observations :=
     foldl (\<lambda>m ob. let k = (ob_category ob, ob_pointer ob) in
       bt_insert k ((case bt_get m k of None \<Rightarrow> 0 | Some n \<Rightarrow> n) + 1) m) (rt_observations t) obs\<rparr>"

fun issue_for :: "ProxyErrorCode \<Rightarrow> BodySource \<Rightarrow> Issue" where
  "issue_for PE_UpstreamNotAllowed source = Issue_RouteNotAllowed"
| "issue_for PE_ProxyLoop source = Issue_ProxyLoop"
| "issue_for PE_RequestTooLarge source = Issue_RequestTooLarge"
| "issue_for PE_ResponseTooLarge source = Issue_ResponseTooLarge"
| "issue_for PE_InvalidJson source = Issue_InvalidPayload"
| "issue_for PE_InvalidRequest source = Issue_UnsupportedRequest"
| "issue_for PE_SensitiveMetadata source = Issue_UnsupportedRequest"
| "issue_for PE_UnsupportedTransport source = Issue_UnsupportedRequest"
| "issue_for PE_Timeout source = Issue_Timeout"
| "issue_for PE_Cancelled source = Issue_Timeout"
| "issue_for PE_UpstreamFailure BS_Request = Issue_UpstreamFailure"
| "issue_for PE_UpstreamFailure BS_Response = Issue_UnsupportedResponse"

definition trace_outcome :: "ProxyErrorCode option \<Rightarrow> Outcome" where
  "trace_outcome error = (case error of
       None \<Rightarrow> Out_Succeeded
     | Some code \<Rightarrow> if code = PE_Timeout then Out_TimedOut
         else if code = PE_UpstreamFailure \<or> code = PE_Cancelled then Out_Failed else Out_Rejected)"

definition to_u64 :: "nat \<Rightarrow> 64 word" where
  "to_u64 n = (if n < 2 ^ 64 then of_nat n else - 1)"

definition trace_replacements :: "((Category \<times> string) \<times> 32 word) list \<Rightarrow> Replacement list" where
  "trace_replacements observations =
     List.map_filter (\<lambda>(i, (category, pointer), n). res_ok (Replacement_new (''S'' @ nat_str (i + 1)) category pointer n))
       (enumerate 0 observations)"

text \<open>\<open>sink\<close> is whether a trace sink is attached; the result is the record it is given, if any.\<close>

definition emit :: "int \<Rightarrow> bool \<Rightarrow> RequestTrace \<Rightarrow> ProxyErrorCode option \<Rightarrow> Record option" where
  "emit clock sink t error =
     (if \<not> sink then None
      else
        let issue = (case rt_issue t of Some i \<Rightarrow> Some i | None \<Rightarrow> map_option (\<lambda>code. issue_for code BS_Request) error);
            coverage = (if issue = None then Cov_Protected
              else if rt_request_after t > 0 \<or> rt_response_after t > 0 then Cov_Degraded else Cov_Unprotected)
        in res_ok (Record_now clock (rt_request_id t) (rt_route t) coverage (trace_outcome error)
             (to_u64 (rt_request_before t), to_u64 (rt_request_after t))
             (to_u64 (rt_response_before t), to_u64 (rt_response_after t))
             (trace_replacements (rt_observations t)) issue))"

section \<open>Forwarding\<close>

record AppState =
  st_sanitizer :: Sanitizer
  st_upstreams :: "string \<rightharpoonup> Upstream"
  st_max_request_body :: nat
  st_max_response_body :: nat
  st_trace_sink :: bool

record FwResult =
  fr_outcome :: "(ProxyErrorCode + HttpResponse) option"
  fr_trace :: RequestTrace
  fr_sent :: "Outbound option"

definition Proxy_new :: "Config \<Rightarrow> ConfigError + Config" where
  "Proxy_new config = res_bind (Config_validate config) (\<lambda>_. Ok config)"

text \<open>\<open>bound\<close> is the address the operating system gave the listener, or nothing when it refused.\<close>

definition Proxy_bind ::
  "HttpLib \<Rightarrow> SocketAddr option \<Rightarrow> Config \<Rightarrow> Sanitizer \<Rightarrow> bool \<Rightarrow> ConfigError + AppState \<times> SocketAddr"
where
  "Proxy_bind lib bound config san sink =
     res_bind (ok_or bound CE_BindFailed) (\<lambda>local_addr.
     res_bind (reject_direct_loops lib local_addr (cfg_upstreams config)) (\<lambda>_.
     Ok (\<lparr>st_sanitizer = san, st_upstreams = map_of (rev (map (\<lambda>u. (up_name u, u)) (cfg_upstreams config))),
          st_max_request_body = cfg_max_request_body config, st_max_response_body = cfg_max_response_body config,
          st_trace_sink = sink\<rparr>, local_addr)))"

definition forwards_header :: "Upstream \<Rightarrow> string \<Rightarrow> bool" where
  "forwards_header u name \<longleftrightarrow> \<not> (is_hop_by_hop name \<or> name = ''accept-encoding'' \<or>
     up_gateway_credential u \<noteq> None \<and> is_provider_auth_header name)"

definition outbound_request :: "HttpLib \<Rightarrow> Upstream \<Rightarrow> string \<Rightarrow> HttpRequest \<Rightarrow> bool \<Rightarrow> string \<Rightarrow> Outbound" where
  "outbound_request lib u path request has_trusted_proxy_hop body =
     \<lparr>ou_method = rq_method request, ou_url = destination_url lib (up_base_url u) path (rq_uri request),
      ou_headers = filter (\<lambda>(name, value). forwards_header u name) (rq_headers request) @
        (case gateway_auth_header u of None \<Rightarrow> [] | Some h \<Rightarrow> [h]) @
        [(LOOP_HEADER, next_proxy_hop_marker has_trusted_proxy_hop)],
      ou_body = body\<rparr>"

definition check_request :: "HttpLib \<Rightarrow> AppState \<Rightarrow> Upstream \<Rightarrow> string \<Rightarrow> HttpRequest \<Rightarrow> Sanitizer \<Rightarrow> ProxyErrorCode + bool" where
  "check_request lib st u path request san =
     res_bind (accept_proxy_hop (rq_headers request) u) (\<lambda>has_trusted_proxy_hop.
     res_bind (reject_unsupported_gateway_path u path (rq_uri request)) (\<lambda>_.
     res_bind (reject_unsupported_transport lib (rq_headers request)) (\<lambda>_.
     res_bind (reject_unsupported_method (rq_method request)) (\<lambda>_.
     res_bind (reject_oversize_content_length lib (rq_headers request) (st_max_request_body st)) (\<lambda>_.
     res_bind (reject_sensitive_request_metadata lib (rq_uri request) (rq_headers request) san) (\<lambda>_.
     Ok has_trusted_proxy_hop))))))"

text \<open>\<open>forward_inner\<close> from the upstream's answer on.\<close>

definition forward_response ::
  "HttpLib \<Rightarrow> JsonCodec \<Rightarrow> AppState \<Rightarrow> Upstream \<Rightarrow> string \<Rightarrow> Sanitizer \<Rightarrow> Cut option \<Rightarrow> Outbound \<Rightarrow> UpResponse \<Rightarrow> RequestTrace \<Rightarrow> FwResult"
where
  "forward_response lib c st u path san deadline outbound r trace =
     (case reject_oversize_reqwest_length r (st_max_response_body st) of
        Inl e \<Rightarrow> \<lparr>fr_outcome = Some (Err e), fr_trace = trace, fr_sent = Some outbound\<rparr>
      | Inr _ \<Rightarrow>
        if deadline = Some Cut_Chunks then \<lparr>fr_outcome = None, fr_trace = trace, fr_sent = Some outbound\<rparr>
        else case collect_response r (st_max_response_body st) of
          Inl e \<Rightarrow> \<lparr>fr_outcome = Some (Err e), fr_trace = trace, fr_sent = Some outbound\<rparr>
        | Inr body \<Rightarrow>
          let response_type = content_type lib (ur_headers r);
              trace = trace\<lparr>rt_response_before := length body\<rparr>
          in case sanitize_body c (up_provider u) BS_Response path response_type body san of
            Inl e \<Rightarrow> \<lparr>fr_outcome = Some (Err e), fr_trace = trace\<lparr>rt_issue := Some (issue_for e BS_Response)\<rparr>,
                      fr_sent = Some outbound\<rparr>
          | Inr (safe, obs) \<Rightarrow>
              \<lparr>fr_outcome = Some (Ok \<lparr>hr_status = ur_status r,
                 hr_headers = [(''content-type'', if (case response_type of Some t \<Rightarrow> is_sse t | None \<Rightarrow> False)
                    then ''text/event-stream'' else ''application/json'')],
                 hr_body = safe\<rparr>),
               fr_trace = observe obs (trace\<lparr>rt_response_after := length safe\<rparr>), fr_sent = Some outbound\<rparr>)"

definition forward_inner ::
  "HttpLib \<Rightarrow> JsonCodec \<Rightarrow> Net \<Rightarrow> AppState \<Rightarrow> string \<Rightarrow> string \<Rightarrow> HttpRequest \<Rightarrow> Cut option \<Rightarrow> RequestTrace \<Rightarrow> FwResult"
where
  "forward_inner lib c net st upstream_name path request deadline trace =
     (case st_upstreams st upstream_name of
        None \<Rightarrow> \<lparr>fr_outcome = Some (Err PE_UpstreamNotAllowed), fr_trace = trace, fr_sent = None\<rparr>
      | Some u \<Rightarrow>
        let san = sanitizer_for_upstream (st_sanitizer st) u in
        case check_request lib st u path request san of
          Inl e \<Rightarrow> \<lparr>fr_outcome = Some (Err e), fr_trace = trace, fr_sent = None\<rparr>
        | Inr has_trusted_proxy_hop \<Rightarrow>
          if deadline = Some Cut_Body then \<lparr>fr_outcome = None, fr_trace = trace, fr_sent = None\<rparr>
          else case to_bytes net (rq_body request) (st_max_request_body st) of
            None \<Rightarrow> \<lparr>fr_outcome = Some (Err PE_RequestTooLarge), fr_trace = trace, fr_sent = None\<rparr>
          | Some body \<Rightarrow>
            let trace = trace\<lparr>rt_request_before := length body\<rparr> in
            case sanitize_body c (up_provider u) BS_Request path (content_type lib (rq_headers request)) body san of
              Inl e \<Rightarrow> \<lparr>fr_outcome = Some (Err e), fr_trace = trace\<lparr>rt_issue := Some (issue_for e BS_Request)\<rparr>, fr_sent = None\<rparr>
            | Inr (safe, obs) \<Rightarrow>
              let trace = observe obs (trace\<lparr>rt_request_after := length safe\<rparr>);
                  outbound = outbound_request lib u path request has_trusted_proxy_hop safe
              in if deadline = Some Cut_Send then \<lparr>fr_outcome = None, fr_trace = trace, fr_sent = Some outbound\<rparr>
                 else case send net outbound of
                   None \<Rightarrow> \<lparr>fr_outcome = Some (Err PE_UpstreamFailure), fr_trace = trace, fr_sent = Some outbound\<rparr>
                 | Some r \<Rightarrow> forward_response lib c st u path san deadline outbound r trace)"

section \<open>WebSockets\<close>

datatype WsMessage =
    WS_Text string | WS_Binary string | WS_Ping string | WS_Pong string | WS_Close "string option" | WS_Frame string

definition sanitize_websocket_json :: "JsonCodec \<Rightarrow> string \<Rightarrow> Sanitizer \<Rightarrow> unit + string \<times> Observation list" where
  "sanitize_websocket_json c text san =
     res_bind (ok_or (from_str c text) ()) (\<lambda>value.
     if \<not> is_object value then Err ()
     else
       res_bind (sanitize_json Prov_OpenAi value san) (\<lambda>(value', obs).
       res_bind (ok_or (to_string c value') ()) (\<lambda>safe.
       Ok (safe, obs))))"

text \<open>The message passed on in either direction, with the sizes before and after and the observations.\<close>

definition ws_outgoing :: "JsonCodec \<Rightarrow> Sanitizer \<Rightarrow> nat \<Rightarrow> WsMessage \<Rightarrow> unit + WsMessage \<times> nat \<times> nat \<times> Observation list" where
  "ws_outgoing c san limit message =
     (case message of
        WS_Text text \<Rightarrow>
          if length text \<le> limit
          then res_map (\<lambda>(safe, obs). (WS_Text safe, length text, length safe, obs)) (sanitize_websocket_json c text san)
          else Err ()
      | WS_Ping bytes \<Rightarrow> if bytes = [] then Ok (WS_Ping bytes, 0, 0, []) else Err ()
      | WS_Pong bytes \<Rightarrow> if bytes = [] then Ok (WS_Pong bytes, 0, 0, []) else Err ()
      | WS_Close _ \<Rightarrow> Ok (WS_Close None, 0, 0, [])
      | WS_Binary _ \<Rightarrow> Err ()
      | WS_Frame _ \<Rightarrow> Err ())"

text \<open>
  What arrives on the two sockets, in the order the bridge takes it: a message or the end of its
  stream, and whether passing it on succeeds.
\<close>

datatype WsEvent = Ws_Local "WsMessage option" bool | Ws_Upstream "WsMessage option" bool

datatype WsTarget = To_Local | To_Upstream

definition usize_saturating_add :: "nat \<Rightarrow> nat \<Rightarrow> nat" where
  "usize_saturating_add a b = min (a + b) (2 ^ 64 - 1)"

definition add_request_sizes :: "nat \<Rightarrow> nat \<Rightarrow> RequestTrace \<Rightarrow> RequestTrace" where
  "add_request_sizes before after t = t\<lparr>rt_request_before := usize_saturating_add (rt_request_before t) before,
     rt_request_after := usize_saturating_add (rt_request_after t) after\<rparr>"

definition add_response_sizes :: "nat \<Rightarrow> nat \<Rightarrow> RequestTrace \<Rightarrow> RequestTrace" where
  "add_response_sizes before after t = t\<lparr>rt_response_before := usize_saturating_add (rt_response_before t) before,
     rt_response_after := usize_saturating_add (rt_response_after t) after\<rparr>"

fun bridge_websockets ::
  "JsonCodec \<Rightarrow> Sanitizer \<Rightarrow> nat \<Rightarrow> nat \<Rightarrow> WsEvent list \<Rightarrow> RequestTrace \<Rightarrow> (WsTarget \<times> WsMessage) list \<Rightarrow>
     RequestTrace \<times> (WsTarget \<times> WsMessage) list"
where
  "bridge_websockets c san request_limit response_limit [] trace log = (trace, log)"
| "bridge_websockets c san request_limit response_limit (Ws_Local None delivered # events) trace log = (trace, log)"
| "bridge_websockets c san request_limit response_limit (Ws_Upstream None delivered # events) trace log = (trace, log)"
| "bridge_websockets c san request_limit response_limit (Ws_Local (Some message) delivered # events) trace log =
     (case ws_outgoing c san request_limit message of
        Inl _ \<Rightarrow> (trace, log)
      | Inr (m, before, after, obs) \<Rightarrow>
          if \<not> delivered then (trace, log @ [(To_Upstream, m)])
          else bridge_websockets c san request_limit response_limit events
            (observe obs (add_request_sizes before after trace)) (log @ [(To_Upstream, m)]))"
| "bridge_websockets c san request_limit response_limit (Ws_Upstream (Some message) delivered # events) trace log =
     (case ws_outgoing c san response_limit message of
        Inl _ \<Rightarrow> (trace, log)
      | Inr (m, before, after, obs) \<Rightarrow>
          if \<not> delivered then (trace, log @ [(To_Local, m)])
          else bridge_websockets c san request_limit response_limit events
            (observe obs (add_response_sizes before after trace)) (log @ [(To_Local, m)]))"

text \<open>
  The WebSocket library: whether the request is an acceptable upgrade, the headers of a fresh client
  request for a URL, and whether the upstream accepts the handshake.
\<close>

record WsLib =
  ws_upgrade_ok :: "HttpRequest \<Rightarrow> bool"
  ws_client_headers :: "Url \<Rightarrow> headers option"
  ws_connect :: "Outbound \<Rightarrow> bool"

definition forwards_ws_header :: "Upstream \<Rightarrow> string \<Rightarrow> bool" where
  "forwards_ws_header u name \<longleftrightarrow> \<not> (is_websocket_handshake_header name \<or> is_hop_by_hop name \<or> name = ''accept-encoding'' \<or>
     up_gateway_credential u \<noteq> None \<and> is_provider_auth_header name)"

definition ws_headers :: "Upstream \<Rightarrow> headers \<Rightarrow> bool \<Rightarrow> headers \<Rightarrow> headers" where
  "ws_headers u original has_trusted_proxy_hop fresh =
     hdr_insert LOOP_HEADER (next_proxy_hop_marker has_trusted_proxy_hop)
       ((case gateway_auth_header u of None \<Rightarrow> id | Some (name, value) \<Rightarrow> hdr_insert name value)
         (foldl (\<lambda>hs (name, value). if forwards_ws_header u name then hdr_insert name value hs else hs) fresh original))"

definition forward_websocket_inner ::
  "HttpLib \<Rightarrow> WsLib \<Rightarrow> AppState \<Rightarrow> string \<Rightarrow> string \<Rightarrow> HttpRequest \<Rightarrow> Sanitizer \<Rightarrow> ProxyErrorCode + Outbound"
where
  "forward_websocket_inner lib ws st upstream_name path request san =
     res_bind (ok_or (st_upstreams st upstream_name) PE_UpstreamNotAllowed) (\<lambda>u.
     res_bind (accept_proxy_hop (rq_headers request) u) (\<lambda>has_trusted_proxy_hop.
     if up_provider u \<noteq> Prov_OpenAi \<or> trim_slashes path \<notin> {''responses'', ''v1/responses''} \<or>
        rq_method request \<noteq> ''GET'' \<or> uri_query (rq_uri request) \<noteq> None
     then Err PE_UnsupportedTransport
     else
       res_bind (reject_sensitive_request_metadata lib (rq_uri request) (rq_headers request) san) (\<lambda>_.
       if \<not> ws_upgrade_ok ws request then Err PE_UnsupportedTransport
       else
         let destination = destination_url lib (up_base_url u) path (rq_uri request) in
         res_bind (ok_or (set_scheme lib (if url_scheme destination = ''https'' then ''wss'' else ''ws'') destination)
           PE_UnsupportedTransport) (\<lambda>url.
         res_bind (ok_or (ws_client_headers ws url) PE_UnsupportedTransport) (\<lambda>fresh.
         let outbound = \<lparr>ou_method = ''GET'', ou_url = url,
               ou_headers = ws_headers u (rq_headers request) has_trusted_proxy_hop fresh, ou_body = []\<rparr>
         in if ws_connect ws outbound then Ok outbound else Err PE_UpstreamFailure)))))"

definition websocket_session ::
  "JsonCodec \<Rightarrow> AppState \<Rightarrow> Sanitizer \<Rightarrow> int \<Rightarrow> WsEvent list \<Rightarrow> RequestTrace \<Rightarrow> Record option \<times> (WsTarget \<times> WsMessage) list"
where
  "websocket_session c st san clock events trace =
     (let (trace', log) = bridge_websockets c san (st_max_request_body st) (st_max_response_body st) events trace []
      in (emit clock (st_trace_sink st) trace' None, log))"

section \<open>One exchange\<close>

text \<open>
  What the client receives (an HTTP response, or the upgraded connection with the session's messages),
  the trace record given to the sink, and the request sent upstream.
\<close>

datatype Reply = Rep_Response HttpResponse | Rep_Upgraded "(WsTarget \<times> WsMessage) list"

record Exchange =
  ex_reply :: Reply
  ex_record :: "Record option"
  ex_sent :: "Outbound option"

definition forward_websocket ::
  "HttpLib \<Rightarrow> WsLib \<Rightarrow> JsonCodec \<Rightarrow> AppState \<Rightarrow> string \<Rightarrow> string \<Rightarrow> HttpRequest \<Rightarrow> int \<Rightarrow> WsEvent list \<Rightarrow> RequestTrace \<Rightarrow> Exchange"
where
  "forward_websocket lib ws c st upstream_name path request clock events trace =
     (let san = (case st_upstreams st upstream_name of
            None \<Rightarrow> st_sanitizer st | Some u \<Rightarrow> sanitizer_for_upstream (st_sanitizer st) u)
      in case forward_websocket_inner lib ws st upstream_name path request san of
        Inr outbound \<Rightarrow>
          let (r, log) = websocket_session c st san clock events trace in
          \<lparr>ex_reply = Rep_Upgraded log, ex_record = r, ex_sent = Some outbound\<rparr>
      | Inl e \<Rightarrow> \<lparr>ex_reply = Rep_Response (into_response e), ex_record = emit clock (st_trace_sink st) trace (Some e), ex_sent = None\<rparr>)"

text \<open>\<open>started\<close> and \<open>clock\<close> are the clock when the trace is created and when its record is written.\<close>

definition forward ::
  "HttpLib \<Rightarrow> WsLib \<Rightarrow> JsonCodec \<Rightarrow> Net \<Rightarrow> AppState \<Rightarrow> int \<Rightarrow> int \<Rightarrow> 64 word \<Rightarrow> string \<Rightarrow> string \<Rightarrow> HttpRequest \<Rightarrow> Cut option \<Rightarrow> WsEvent list \<Rightarrow> Exchange"
where
  "forward lib ws c net st started clock sequence upstream_name path request deadline events =
     (case st_upstreams st upstream_name of
        None \<Rightarrow>
          \<lparr>ex_reply = Rep_Response (into_response PE_UpstreamNotAllowed),
           ex_record = emit clock (st_trace_sink st) (RequestTrace_with_route started sequence Route_Unknown) (Some PE_UpstreamNotAllowed),
           ex_sent = None\<rparr>
      | Some u \<Rightarrow>
        let trace = RequestTrace_with_route started sequence (provider_route (up_provider u)) in
        if rq_method request = ''HEAD'' \<and> up_provider u = Prov_Anthropic \<and> path = [] \<and> uri_query (rq_uri request) = None
        then \<lparr>ex_reply = Rep_Response \<lparr>hr_status = 200, hr_headers = [], hr_body = []\<rparr>,
              ex_record = emit clock (st_trace_sink st) trace None, ex_sent = None\<rparr>
        else if is_websocket_upgrade lib (rq_headers request)
        then forward_websocket lib ws c st upstream_name path request clock events trace
        else
          let r = forward_inner lib c net st upstream_name path request deadline trace in
          case fr_outcome r of
            Some (Inr response) \<Rightarrow>
              \<lparr>ex_reply = Rep_Response response, ex_record = emit clock (st_trace_sink st) (fr_trace r) None, ex_sent = fr_sent r\<rparr>
          | Some (Inl e) \<Rightarrow>
              \<lparr>ex_reply = Rep_Response (into_response e), ex_record = emit clock (st_trace_sink st) (fr_trace r) (Some e), ex_sent = fr_sent r\<rparr>
          | None \<Rightarrow>
              \<lparr>ex_reply = Rep_Response (into_response PE_Timeout),
               ex_record = emit clock (st_trace_sink st) ((fr_trace r)\<lparr>rt_issue := Some Issue_Timeout\<rparr>) (Some PE_Timeout),
               ex_sent = fr_sent r\<rparr>)"

section \<open>Lemmas: requests\<close>

lemma forward_inner_sent:
  assumes "fr_sent (forward_inner lib c net st name path request deadline trace) = Some outbound"
  obtains u hop body safe obs where "st_upstreams st name = Some u"
    "check_request lib st u path request (sanitizer_for_upstream (st_sanitizer st) u) = Ok hop"
    "to_bytes net (rq_body request) (st_max_request_body st) = Some body"
    "sanitize_body c (up_provider u) BS_Request path (content_type lib (rq_headers request)) body
       (sanitizer_for_upstream (st_sanitizer st) u) = Ok (safe, obs)"
    "outbound = outbound_request lib u path request hop safe"
  using assms
  by (auto simp: forward_inner_def forward_response_def Let_def split: option.splits sum.splits prod.splits if_splits)

lemma sanitize_body_json:
  assumes "sanitize_body c provider source path ct body san = Ok (out, obs)" and "source = BS_Request \<or> ct = None \<or> \<not> is_sse (the ct)"
  obtains v v' where "from_slice c body = Some v" "sanitize_json provider v san = Ok (v', obs)" "to_vec c v' = Some out"
  using assms
  by (auto simp: sanitize_body_def Let_def res_bind_ok_iff map_err_ok_iff split: if_splits option.splits elim!: ok_or.elims)

lemma sanitize_body_cases:
  assumes "sanitize_body c provider source path ct body san = Ok (out, obs)"
  obtains v v' where "from_slice c body = Some v" "sanitize_json provider v san = Ok (v', obs)" "to_vec c v' = Some out"
    | "sanitize_sse c body provider san = Ok (out, obs)"
  using assms
  by (auto simp: sanitize_body_def Let_def res_bind_ok_iff map_err_ok_iff split: if_splits option.splits elim!: ok_or.elims)

lemma accept_proxy_hop_ok:
  "accept_proxy_hop hs u = Ok b \<longleftrightarrow>
     (if b then hdr_get_all LOOP_HEADER hs = [LOOP_VALUE] \<and> up_trusted_proxy_hop u else hdr_get_all LOOP_HEADER hs = [])"
  by (auto simp: accept_proxy_hop_def split: list.splits if_splits)

lemma check_request_ok:
  "check_request lib st u path request san = Ok hop \<Longrightarrow>
     accept_proxy_hop (rq_headers request) u = Ok hop \<and> rq_method request = ''POST'' \<and>
     sanitize san (uri_path (rq_uri request)) = uri_path (rq_uri request) \<and>
     (\<forall>h\<in>set (rq_headers request). reject_sensitive_header lib san h = Ok ())"
  by (auto simp: check_request_def res_bind_ok_iff reject_sensitive_request_metadata_def reject_unsupported_method_def try_all_ok_iff
      split: if_splits)

lemma reject_sensitive_header_ok:
  "reject_sensitive_header lib san (n, v) = Ok () \<Longrightarrow> is_hop_by_hop n \<or> is_provider_auth_header n \<or>
     \<not> is_credential_header_name n \<and> sanitize san n = n \<and> (\<exists>t. hv_to_str lib v = Some t \<and> sanitize san t = t)"
  by (auto simp: reject_sensitive_header_def res_bind_ok_iff split: if_splits elim!: ok_or.elims)

lemma hop_names [simp]:
  "is_hop_by_hop LOOP_HEADER" "\<not> is_provider_auth_header LOOP_HEADER"
  by (simp_all add: is_hop_by_hop_def is_provider_auth_header_def LOOP_HEADER_def)

lemma gateway_auth_header_some:
  "gateway_auth_header u = Some (n, v) \<Longrightarrow> is_provider_auth_header n \<and> n \<noteq> LOOP_HEADER \<and> \<not> is_hop_by_hop n"
  by (auto simp: gateway_auth_header_def is_provider_auth_header_def LOOP_HEADER_def is_hop_by_hop_def split: Provider.splits)

lemma outbound_hop:
  "hdr_get_all LOOP_HEADER (ou_headers (outbound_request lib u path request hop body)) = [next_proxy_hop_marker hop]"
  using gateway_auth_header_some[of u]
  by (cases "gateway_auth_header u") (auto simp: outbound_request_def hdr_get_all_def forwards_header_def filter_empty_conv)

lemma outbound_auth:
  assumes "up_gateway_credential u \<noteq> None"
  shows "filter (\<lambda>(n, v). is_provider_auth_header n) (ou_headers (outbound_request lib u path request hop body)) =
    (case gateway_auth_header u of None \<Rightarrow> [] | Some h \<Rightarrow> [h])"
  using gateway_auth_header_some[of u] assms
  by (auto simp: outbound_request_def forwards_header_def filter_empty_conv split: option.splits)

lemma outbound_header:
  assumes "(n, v) \<in> set (ou_headers (outbound_request lib u path request hop body))"
    and "n \<noteq> LOOP_HEADER" and "\<not> is_provider_auth_header n"
  shows "(n, v) \<in> set (rq_headers request) \<and> \<not> is_hop_by_hop n"
  using assms gateway_auth_header_some[of u n v]
  by (auto simp: outbound_request_def forwards_header_def split: option.splits)

section \<open>Lemmas: replies\<close>

lemma forward_inner_reply:
  assumes "fr_outcome (forward_inner lib c net st name path request deadline trace) = Some (Ok response)"
  obtains u outbound r body obs where "st_upstreams st name = Some u"
    "fr_sent (forward_inner lib c net st name path request deadline trace) = Some outbound"
    "send net outbound = Some r" "collect_response r (st_max_response_body st) = Ok body"
    "sanitize_body c (up_provider u) BS_Response path (content_type lib (ur_headers r)) body
       (sanitizer_for_upstream (st_sanitizer st) u) = Ok (hr_body response, obs)" "hr_status response = ur_status r"
  using assms
  by (auto simp: forward_inner_def forward_response_def Let_def split: option.splits sum.splits prod.splits if_splits)

definition body_safe :: "JsonCodec \<Rightarrow> (string \<Rightarrow> bool) \<Rightarrow> string \<Rightarrow> bool" where
  "body_safe c safe body \<longleftrightarrow> (\<exists>v. from_slice c body = Some v \<and> json_safe safe v) \<or> list_all (event_safe c safe) (sse_events body)"

definition ws_safe :: "JsonCodec \<Rightarrow> (string \<Rightarrow> bool) \<Rightarrow> WsMessage \<Rightarrow> bool" where
  "ws_safe c safe m \<longleftrightarrow> m = WS_Ping [] \<or> m = WS_Pong [] \<or> m = WS_Close None \<or>
     (\<exists>text v. m = WS_Text text \<and> from_str c text = Some v \<and> is_object v \<and> json_safe safe v)"

definition log_safe :: "JsonCodec \<Rightarrow> (string \<Rightarrow> bool) \<Rightarrow> (WsTarget \<times> WsMessage) list \<Rightarrow> bool" where
  "log_safe c safe log \<longleftrightarrow> (\<forall>m\<in>set (map snd log). ws_safe c safe m)"

lemma is_object_jmap [simp]: "is_object (jmap f v) = is_object v"
  by (cases v) auto

context text_sanitizer begin

lemma sanitize_body_safe:
  assumes "sanitize_body c provider source path ct body san = Ok (out, obs)" and "codec_ok c" and "codec_compact c"
  shows "body_safe c safe out"
  using assms(1)
proof (rule sanitize_body_cases)
  fix v v'
  assume 1: "from_slice c body = Some v" "sanitize_json provider v san = Ok (v', obs)" "to_vec c v' = Some out"
  then show ?thesis using sanitize_json_safe[OF 1(2)] assms(2) by (auto simp: body_safe_def json_safe_def codec_ok_def)
next
  assume 2: "sanitize_sse c body provider san = Ok (out, obs)"
  then show ?thesis using sanitize_sse_safe[OF 2 assms(2,3)] by (simp add: body_safe_def)
qed

lemma ws_outgoing_safe:
  assumes "ws_outgoing c san limit m = Ok (m', before, after, obs)" and "codec_ok c"
  shows "ws_safe c safe m'"
proof (cases m)
  case (WS_Text raw)
  then obtain v v' t where "is_object v" "sanitize_json Prov_OpenAi v san = Ok (v', obs)" "to_string c v' = Some t" "m' = WS_Text t"
    using assms(1)
    by (auto simp: ws_outgoing_def sanitize_websocket_json_def res_bind_ok_iff res_map_ok_iff split: if_splits elim!: ok_or.elims)
  then show ?thesis
    using assms(2) sanitize_json_safe[of Prov_OpenAi v v' obs] by (auto simp: ws_safe_def codec_ok_def json_safe_def sanitize_json_ok)
qed (insert assms(1), auto simp: ws_outgoing_def ws_safe_def split: if_splits)

lemma bridge_safe:
  assumes "codec_ok c"
  shows "log_safe c safe log \<Longrightarrow> log_safe c safe (snd (bridge_websockets c san l l' events trace log))"
proof (induction events arbitrary: trace log)
  case (Cons event events)
  have step: "log_safe c safe (log @ [(d', m')])" if "ws_outgoing c san limit message = Ok (m', before, after, obs)"
    for d' m' limit message before after obs
    using Cons.prems ws_outgoing_safe[OF that assms] by (simp add: log_safe_def)
  show ?case
  proof (cases event)
    case (Ws_Local x delivered)
    then show ?thesis
      using Cons.prems by (cases x) (simp_all add: Cons.IH step split: sum.split prod.split)
  next
    case (Ws_Upstream x delivered)
    then show ?thesis
      using Cons.prems by (cases x) (simp_all add: Cons.IH step split: sum.split prod.split)
  qed
qed simp

end

section \<open>Lemmas: hops\<close>

lemma marker_values [simp]:
  "next_proxy_hop_marker True = CHAINED_LOOP_VALUE" "next_proxy_hop_marker False = LOOP_VALUE"
  "CHAINED_LOOP_VALUE \<noteq> LOOP_VALUE" "LOOP_VALUE \<noteq> CHAINED_LOOP_VALUE"
  by (simp_all add: next_proxy_hop_marker_def CHAINED_LOOP_VALUE_def LOOP_VALUE_def)

text \<open>The loop markers of a request that was forwarded and of what it was forwarded as.\<close>

lemma forwarded_markers:
  assumes "fr_sent (forward_inner lib c net st name path request deadline trace) = Some outbound"
  obtains u hop where "st_upstreams st name = Some u"
    "hdr_get_all LOOP_HEADER (rq_headers request) = (if hop then [LOOP_VALUE] else [])" "hop \<longrightarrow> up_trusted_proxy_hop u"
    "hdr_get_all LOOP_HEADER (ou_headers outbound) = [if hop then CHAINED_LOOP_VALUE else LOOP_VALUE]"
  using assms
proof (rule forward_inner_sent)
  fix u hop body safe obs
  assume 1: "st_upstreams st name = Some u" "check_request lib st u path request (sanitizer_for_upstream (st_sanitizer st) u) = Ok hop"
    "outbound = outbound_request lib u path request hop safe"
  have "accept_proxy_hop (rq_headers request) u = Ok hop" using check_request_ok[OF 1(2)] by blast
  then show thesis
    using that[OF 1(1), of hop] outbound_hop[of lib u path request hop safe] 1(3)
    by (auto simp: accept_proxy_hop_ok next_proxy_hop_marker_def split: if_splits)
qed

text \<open>
  A request on its way through proxies: each step is a proxy (its state and the route it takes) that
  forwards the request; the next proxy sees a request with the loop headers it was given.
\<close>

inductive proxied :: "HttpLib \<Rightarrow> JsonCodec \<Rightarrow> Net \<Rightarrow> (AppState \<times> string) list \<Rightarrow> HttpRequest \<Rightarrow> bool"
  for lib c net
where
  proxied_Nil: "proxied lib c net [] request"
| proxied_Cons: "fr_sent (forward_inner lib c net st name path request deadline trace) = Some outbound \<Longrightarrow>
    hdr_get_all LOOP_HEADER (rq_headers request') = hdr_get_all LOOP_HEADER (ou_headers outbound) \<Longrightarrow>
    proxied lib c net hops request' \<Longrightarrow> proxied lib c net ((st, name) # hops) request"

inductive_cases proxied_ConsE: "proxied lib c net (hop # hops) request"

definition trusted_route :: "AppState \<times> string \<Rightarrow> bool" where
  "trusted_route h \<longleftrightarrow> (case st_upstreams (fst h) (snd h) of None \<Rightarrow> False | Some u \<Rightarrow> up_trusted_proxy_hop u)"

lemma proxied_step:
  assumes "proxied lib c net (h # hops) request"
  obtains request' where "proxied lib c net hops request'"
    "hdr_get_all LOOP_HEADER (rq_headers request) = [] \<and> hdr_get_all LOOP_HEADER (rq_headers request') = [LOOP_VALUE] \<or>
     hdr_get_all LOOP_HEADER (rq_headers request) = [LOOP_VALUE] \<and> trusted_route h \<and>
     hdr_get_all LOOP_HEADER (rq_headers request') = [CHAINED_LOOP_VALUE]"
  using assms
proof (rule proxied_ConsE)
  fix st name path deadline trace outbound request'
  assume 1: "h = (st, name)" "fr_sent (forward_inner lib c net st name path request deadline trace) = Some outbound"
    "hdr_get_all LOOP_HEADER (rq_headers request') = hdr_get_all LOOP_HEADER (ou_headers outbound)" "proxied lib c net hops request'"
  show thesis
    using 1(2) by (rule forwarded_markers) (rule that[OF 1(4)], use 1 in \<open>auto simp: trusted_route_def split: if_splits\<close>)
qed

lemma proxied_chained:
  "proxied lib c net hops request \<Longrightarrow> hdr_get_all LOOP_HEADER (rq_headers request) = [CHAINED_LOOP_VALUE] \<Longrightarrow> hops = []"
  by (cases hops) (auto elim!: proxied_step)

lemma proxied_marked:
  "proxied lib c net hops request \<Longrightarrow> hdr_get_all LOOP_HEADER (rq_headers request) = [LOOP_VALUE] \<Longrightarrow>
     length hops \<le> 1 \<and> list_all trusted_route hops"
  by (cases hops) (auto elim!: proxied_step dest: proxied_chained)

lemma proxied_bound:
  "proxied lib c net hops request \<Longrightarrow> length hops \<le> 2 \<and> list_all trusted_route (tl hops)"
  by (cases hops) (auto elim!: proxied_step dest: proxied_chained proxied_marked)

section \<open>Lemmas: traces\<close>

lemma hex_digit:
  assumes "n < 16"
  shows "is_ascii_hexdigit (''0123456789abcdef'' ! n)"
proof -
  have "\<forall>c\<in>set ''0123456789abcdef''. is_ascii_hexdigit c" by code_simp
  moreover have "''0123456789abcdef'' ! n \<in> set ''0123456789abcdef''" using assms by (intro nth_mem) simp
  ultimately show ?thesis by blast
qed

lemma hex_str_digits: "list_all is_ascii_hexdigit (hex_str n)"
proof (induction n rule: hex_str.induct)
  case (1 n)
  show ?case
  proof (cases "n < 16")
    case True
    then show ?thesis by (simp add: hex_str.simps[of n] hex_digit)
  next
    case False
    then show ?thesis using 1 by (simp add: hex_str.simps[of n] hex_digit)
  qed
qed

lemma hex_str_length: "n < 16 ^ k \<Longrightarrow> 0 < k \<Longrightarrow> length (hex_str n) \<le> k"
proof (induction n arbitrary: k rule: hex_str.induct)
  case (1 n)
  show ?case
  proof (cases "n < 16")
    case True
    then show ?thesis using "1.prems" by (simp add: hex_str.simps[of n])
  next
    case False
    then obtain j where k: "k = Suc j" "0 < j" using "1.prems" by (cases k; cases "k - 1") auto
    then have "n div 16 < 16 ^ j" using "1.prems" by (simp add: less_mult_imp_div_less mult.commute)
    then show ?thesis using "1.IH"[of j] False k by (simp add: hex_str.simps[of n])
  qed
qed

definition request_id_ok :: "string \<Rightarrow> bool" where
  "request_id_ok i \<longleftrightarrow> length i \<le> 80 \<and>
     (\<exists>rest. i = ''req_'' @ rest \<and> rest \<noteq> [] \<and> list_all (\<lambda>b. is_ascii_hexdigit b \<or> b = CHR ''_'') rest)"

lemma request_id_with_route: "request_id_ok (rt_request_id (RequestTrace_with_route started sequence route))"
proof -
  let ?t = "if started < 0 then 0 else nat started mod 2 ^ 128"
  have "length (hex_str ?t) \<le> 32" "length (hex_str (unat sequence)) \<le> 16"
    using unsigned_less[of sequence, where ?'a = nat] by (intro hex_str_length; simp)+
  moreover have "list_all (\<lambda>b. is_ascii_hexdigit b \<or> b = CHR ''_'') (hex_str n)" for n
    using hex_str_digits[of n] by (auto simp: list_all_iff)
  ultimately show ?thesis by (simp add: request_id_ok_def RequestTrace_with_route_def Let_def)
qed

lemma trace_replacements_valid: "r \<in> set (trace_replacements obs) \<Longrightarrow> Replacement_validate r = Ok ()"
  by (auto simp: trace_replacements_def List.map_filter_def Replacement_new_def Let_def res_bind_ok_iff elim!: res_ok.elims)

lemma Record_validate_emitted:
  assumes "request_id_ok (rec_request_id r)" and "rec_version r = 1" and "rec_replacements r = trace_replacements obs"
    and "rec_coverage r = Cov_Protected \<longleftrightarrow> rec_issue r = None"
  shows "Record_validate r = (if length (rec_replacements r) > 1024 then Err TE_InvalidInput else Ok ())"
proof -
  have "try_all Replacement_validate (rec_replacements r) = Ok ()"
    using assms(3) trace_replacements_valid by (simp add: try_all_ok_iff)
  moreover have "case strip_prefix ''req_'' (rec_request_id r) of
      Some rest \<Rightarrow> rest \<noteq> [] \<and> list_all (\<lambda>b. is_ascii_hexdigit b \<or> b = CHR ''_'') rest | None \<Rightarrow> False"
    using assms(1) unfolding request_id_ok_def case_strip_prefix by blast
  ultimately show ?thesis
    using assms(1,2,4) unfolding Record_validate_def request_id_ok_def Let_def by auto
qed

lemma emit_exact:
  assumes "request_id_ok (rt_request_id t)"
  shows "emit clock sink t error =
    (if \<not> sink \<or> clock < 0 \<or> length (trace_replacements (rt_observations t)) > 1024 then None
     else
       let issue = (case rt_issue t of Some i \<Rightarrow> Some i | None \<Rightarrow> map_option (\<lambda>code. issue_for code BS_Request) error)
       in Some \<lparr>rec_version = 1, rec_timestamp = word_of_int (clock div 1000000000), rec_request_id = rt_request_id t,
            rec_route = rt_route t,
            rec_coverage = (if issue = None then Cov_Protected
              else if rt_request_after t > 0 \<or> rt_response_after t > 0 then Cov_Degraded else Cov_Unprotected),
            rec_outcome = trace_outcome error,
            rec_request_bytes = (to_u64 (rt_request_before t), to_u64 (rt_request_after t)),
            rec_response_bytes = (to_u64 (rt_response_before t), to_u64 (rt_response_after t)),
            rec_replacements = trace_replacements (rt_observations t), rec_issue = issue\<rparr>)"
  using assms by (simp add: emit_def Record_now_def Let_def Record_validate_emitted)

section \<open>Properties\<close>

text \<open>
  C22. What the proxy sends upstream.  The body is a JSON document whose strings, field names and
  numbers all have the property the upstream's sanitizer establishes (with a gateway credential: they
  do not hold it); the loop marker is present exactly once; of a client's headers only the ones that
  passed the metadata check are forwarded, none of them hop-by-hop, each with a sanitized name and
  value, apart from provider authentication; and when the upstream has a gateway credential, that
  credential is the only provider authentication sent.
\<close>

theorem proxy_request_isolated:
  assumes "codec_ok c" and "st_upstreams st name = Some u"
    and "text_sanitizer (sanitizer_for_upstream (st_sanitizer st) u) safe"
    and "fr_sent (forward_inner lib c net st name path request deadline trace) = Some outbound"
  shows "(\<exists>v. from_slice c (ou_body outbound) = Some v \<and> json_safe safe v) \<and>
    (\<exists>m\<in>{LOOP_VALUE, CHAINED_LOOP_VALUE}. hdr_get_all LOOP_HEADER (ou_headers outbound) = [m]) \<and>
    (\<forall>g. up_gateway_credential u = Some g \<longrightarrow>
       filter (\<lambda>(n, v). is_provider_auth_header n) (ou_headers outbound) =
         [(if up_provider u = Prov_OpenAi then ''authorization'' else ''x-api-key'', gc_header_value g)]) \<and>
    (\<forall>n v. (n, v) \<in> set (ou_headers outbound) \<and> n \<noteq> LOOP_HEADER \<and> \<not> is_provider_auth_header n \<longrightarrow>
       (n, v) \<in> set (rq_headers request) \<and> \<not> is_hop_by_hop n \<and> \<not> is_credential_header_name n \<and>
       safe n \<and> (\<exists>t. hv_to_str lib v = Some t \<and> safe t))"
proof -
  let ?san = "sanitizer_for_upstream (st_sanitizer st) u"
  obtain hop body s obs where ch: "check_request lib st u path request ?san = Ok hop"
    and sb: "sanitize_body c (up_provider u) BS_Request path (content_type lib (rq_headers request)) body ?san = Ok (s, obs)"
    and o: "outbound = outbound_request lib u path request hop s"
    using assms(4) by (rule forward_inner_sent) (use assms(2) in auto)
  have "\<exists>v. from_slice c (ou_body outbound) = Some v \<and> json_safe safe v"
    using sb text_sanitizer.sanitize_json_safe[OF assms(3)] assms(1)
    by (rule_tac sanitize_body_json) (auto simp: o outbound_request_def json_safe_def codec_ok_def)
  moreover have "\<exists>m\<in>{LOOP_VALUE, CHAINED_LOOP_VALUE}. hdr_get_all LOOP_HEADER (ou_headers outbound) = [m]"
    using outbound_hop[of lib u path request hop s] by (cases hop) (auto simp: o)
  moreover have "filter (\<lambda>(n, v). is_provider_auth_header n) (ou_headers outbound) =
      [(if up_provider u = Prov_OpenAi then ''authorization'' else ''x-api-key'', gc_header_value g)]"
    if "up_gateway_credential u = Some g" for g
    using outbound_auth[of u lib path request hop s] that by (simp add: o gateway_auth_header_def split: Provider.split)
  moreover have "(n, v) \<in> set (rq_headers request) \<and> \<not> is_hop_by_hop n \<and> \<not> is_credential_header_name n \<and>
       safe n \<and> (\<exists>t. hv_to_str lib v = Some t \<and> safe t)"
    if "(n, v) \<in> set (ou_headers outbound)" "n \<noteq> LOOP_HEADER" "\<not> is_provider_auth_header n" for n v
  proof -
    have h: "(n, v) \<in> set (rq_headers request)" "\<not> is_hop_by_hop n" using outbound_header that o by blast+
    then have "reject_sensitive_header lib ?san (n, v) = Ok ()" using check_request_ok[OF ch] by blast
    then show ?thesis
      using reject_sensitive_header_ok h that(3) text_sanitizer.unchanged_safe[OF assms(3)] by blast
  qed
  ultimately show ?thesis by blast
qed


text \<open>
  C24. Forwarding terminates whatever the routes are: a request passes at most two proxies, however
  their upstreams point at each other, and the second one only by an upstream that is explicitly
  trusted for a preceding hop.
\<close>

theorem proxy_loop_bounded:
  assumes "proxied lib c net hops request"
  shows "length hops \<le> 2 \<and> (\<forall>h\<in>set (tl hops). trusted_route h)"
  using proxied_bound[OF assms] by (simp add: list_all_iff)

text \<open>
  A finished exchange is recorded, with the coverage and outcome it had: a sink is attached and the
  clock is valid, and the trace has at most 1024 recordable replacements, exactly when the sink is given a
  record; the record is valid, it says protected exactly when no error and no issue occurred, and its
  outcome is that of the error.
\<close>

theorem trace_emitted_iff:
  assumes "rt_request_id t = rt_request_id (RequestTrace_with_route started sequence route)"
  shows "(emit clock sink t error = None \<longleftrightarrow> \<not> sink \<or> clock < 0 \<or> 1024 < length (trace_replacements (rt_observations t))) \<and>
    (\<forall>r. emit clock sink t error = Some r \<longrightarrow> Record_validate r = Ok () \<and>
      (rec_coverage r = Cov_Protected \<longleftrightarrow> error = None \<and> rt_issue t = None) \<and> rec_outcome r = trace_outcome error)"
proof -
  have i: "request_id_ok (rt_request_id t)" using assms request_id_with_route by simp
  then show ?thesis
    by (auto simp: emit_exact[OF i] Let_def Record_validate_emitted[where obs = "rt_observations t"] split: option.splits)
qed

text \<open>The sink is then given nothing, whatever the exchange was.\<close>

lemma trace_dropped:
  assumes "rt_request_id t = rt_request_id (RequestTrace_with_route started sequence route)"
    and "1024 < length (trace_replacements (rt_observations t))"
  shows "emit clock sink t error = None"
  using assms request_id_with_route by (simp add: emit_exact)

text \<open>A WebSocket session that ends because a message was refused is recorded as one that succeeded.\<close>

lemma websocket_refusal_recorded_as_success:
  assumes "ws_outgoing c san (st_max_request_body st) m = Err ()"
  shows "websocket_session c st san clock (Ws_Local (Some m) delivered # events) t = (emit clock (st_trace_sink st) t None, [])"
  using assms by (simp add: websocket_session_def)

text \<open>
  The host of a URL with an IPv6 address is written in brackets, which the address parser does not
  accept: such an upstream is never compared with the listener.
\<close>

lemma ipv6_loop_not_detected:
  assumes "\<And>s. parse_ip lib (CHR ''['' # s) = None" and "url_host (up_base_url u) = Some (CHR ''['' # s)"
  shows "reject_direct_loop lib listener u = Ok ()"
  using assms by (simp add: reject_direct_loop_def split: option.split)

section \<open>A concrete exchange\<close>

text \<open>
  A gateway for an Anthropic upstream whose credential is \<open>raw\<close>; the request and the reply both hold the
  credential, and the JSON texts are abbreviated to one character.
\<close>

definition px_lib :: HttpLib where
  "px_lib = \<lparr>hv_to_str = Some, form_parse = (\<lambda>_. []), set_path = (\<lambda>p u. u\<lparr>url_path := p\<rparr>), set_query = (\<lambda>q u. u\<lparr>url_query := q\<rparr>),
     set_scheme = (\<lambda>sch u. Some (u\<lparr>url_scheme := sch\<rparr>)), parse_ip = (\<lambda>_. None)\<rparr>"

definition px_codec :: JsonCodec where
  "px_codec = \<lparr>from_str = (\<lambda>_. None), to_string = (\<lambda>_. None),
     from_slice = (\<lambda>s. if s = ''1'' then Some (JStr ''raw'') else if s = ''2'' then Some (JStr ''[REDACTED]'') else None),
     to_vec = (\<lambda>v. if v = JStr ''[REDACTED]'' then Some ''2'' else None)\<rparr>"

definition px_net :: Net where
  "px_net = \<lparr>to_bytes = (\<lambda>b limit. if length b \<le> limit then Some b else None),
     send = (\<lambda>_. Some \<lparr>ur_status = 200, ur_headers = [(''content-type'', ''application/json'')], ur_content_length = None,
       ur_chunks = [Some ''1'']\<rparr>)\<rparr>"

definition px_upstream :: Upstream where
  "px_upstream = \<lparr>up_name = ''anthropic'',
     up_base_url = \<lparr>url_scheme = ''https'', url_host = Some ''api.example'', url_port_or_known_default = Some 443, url_username = [],
       url_password = None, url_path = ''/'', url_query = None, url_fragment = None\<rparr>,
     up_provider = Prov_Anthropic, up_gateway_credential = Some \<lparr>gc_secret = ''raw'', gc_header_value = ''raw''\<rparr>,
     up_trusted_proxy_hop = True\<rparr>"

definition px_sanitizer :: Sanitizer where
  "px_sanitizer = \<lparr>sanitize = (\<lambda>t. t), sanitize_traced = (\<lambda>t. (t, []))\<rparr>"

definition px_state :: AppState where
  "px_state = \<lparr>st_sanitizer = px_sanitizer, st_upstreams = (\<lambda>n. if n = ''anthropic'' then Some px_upstream else None),
     st_max_request_body = 8, st_max_response_body = 8, st_trace_sink = True\<rparr>"

definition px_request :: "headers \<Rightarrow> HttpRequest" where
  "px_request markers = \<lparr>rq_method = ''POST'', rq_uri = \<lparr>uri_path = ''/anthropic/v1/messages'', uri_query = None\<rparr>,
     rq_headers = [(''content-type'', ''application/json''), (''x-api-key'', ''client'')] @ markers, rq_body = ''1''\<rparr>"

definition px_trace :: RequestTrace where
  "px_trace = RequestTrace_with_route 0 1 Route_Anthropic"

definition px_outbound :: "string \<Rightarrow> Outbound" where
  "px_outbound m = \<lparr>ou_method = ''POST'',
     ou_url = \<lparr>url_scheme = ''https'', url_host = Some ''api.example'', url_port_or_known_default = Some 443, url_username = [],
       url_password = None, url_path = ''/v1/messages'', url_query = None, url_fragment = None\<rparr>,
     ou_headers = [(''content-type'', ''application/json''), (''x-api-key'', ''raw''), (LOOP_HEADER, m)], ou_body = ''2''\<rparr>"

abbreviation px_safe :: "string \<Rightarrow> bool" where
  "px_safe t \<equiv> clean_value ''raw'' ''[REDACTED]'' \<longrightarrow> \<not> str_contains ''raw'' t"

abbreviation px_san :: Sanitizer where
  "px_san \<equiv> credential_sanitizer px_sanitizer ''raw''"

lemma px_parts:
  "check_request px_lib px_state px_upstream ''v1/messages'' (px_request []) px_san = Ok False"
  "check_request px_lib px_state px_upstream ''v1/messages'' (px_request [(LOOP_HEADER, ''1'')]) px_san = Ok True"
  "sanitize_body px_codec Prov_Anthropic BS_Request ''v1/messages'' (Some ''application/json'') ''1'' px_san =
     Ok (''2'', [\<lparr>ob_category = Cat_Sensitive, ob_pointer = []\<rparr>])"
  "sanitize_body px_codec Prov_Anthropic BS_Response ''v1/messages'' (Some ''application/json'') ''1'' px_san =
     Ok (''2'', [\<lparr>ob_category = Cat_Sensitive, ob_pointer = []\<rparr>])"
  "outbound_request px_lib px_upstream ''v1/messages'' (px_request []) False ''2'' = px_outbound ''1''"
  "outbound_request px_lib px_upstream ''v1/messages'' (px_request [(LOOP_HEADER, ''1'')]) True ''2'' = px_outbound ''2''"
  "content_type px_lib (rq_headers (px_request ms)) = Some ''application/json''"
  "content_type px_lib [(''content-type'', ''application/json'')] = Some ''application/json''"
  "is_websocket_upgrade px_lib (rq_headers (px_request []))= False"
  "is_sse ''application/json'' = False"
  by (code_simp | simp add: content_type_def px_request_def hdr_get_def px_lib_def)+

lemma px_values:
  "st_upstreams px_state ''anthropic'' = Some px_upstream" "sanitizer_for_upstream (st_sanitizer px_state) px_upstream = px_san"
  "up_provider px_upstream = Prov_Anthropic" "to_bytes px_net (rq_body (px_request ms)) (st_max_request_body px_state) = Some ''1''"
  "send px_net o' = Some \<lparr>ur_status = 200, ur_headers = [(''content-type'', ''application/json'')], ur_content_length = None,
     ur_chunks = [Some ''1'']\<rparr>"
  "st_max_response_body px_state = 8" "rq_method (px_request ms) = ''POST''"
  by (simp_all add: px_state_def px_upstream_def sanitizer_for_upstream_def px_net_def px_request_def)

lemma forward_response_sent [simp]: "fr_sent (forward_response lib c st u path san deadline outbound r trace) = Some outbound"
  by (simp add: forward_response_def Let_def split: sum.split prod.split)

lemma px_sent:
  "fr_sent (forward_inner px_lib px_codec px_net px_state ''anthropic'' ''v1/messages'' (px_request []) None px_trace) =
     Some (px_outbound ''1'')"
  "fr_sent (forward_inner px_lib px_codec px_net px_state ''anthropic'' ''v1/messages'' (px_request [(LOOP_HEADER, ''1'')]) None px_trace) =
     Some (px_outbound ''2'')"
  by (simp_all add: forward_inner_def px_parts px_values)

lemma px_hyps:
  "codec_ok px_codec" "codec_compact px_codec" "st_upstreams px_state ''anthropic'' = Some px_upstream"
  "text_sanitizer (sanitizer_for_upstream (st_sanitizer px_state) px_upstream) px_safe"
  using credential.text_sanitizer_axioms[of px_sanitizer "''raw''"]
  by (simp_all add: codec_ok_def codec_compact_def px_codec_def px_state_def px_upstream_def sanitizer_for_upstream_def)

theorem proxy_request_isolated_witness:
  "filter (\<lambda>(n, v). is_provider_auth_header n) (ou_headers (px_outbound ''1'')) = [(''x-api-key'', ''raw'')] \<and>
   (\<exists>v. from_slice px_codec ''2'' = Some v \<and> json_safe px_safe v)"
  using proxy_request_isolated[OF px_hyps(1,3,4) px_sent(1)] by (simp add: px_upstream_def px_outbound_def)

definition px_ws :: WsLib where
  "px_ws = \<lparr>ws_upgrade_ok = (\<lambda>_. True), ws_client_headers = (\<lambda>_. Some []), ws_connect = (\<lambda>_. True)\<rparr>"

lemma px_reply:
  "ex_reply (forward px_lib px_ws px_codec px_net px_state 0 0 1 ''anthropic'' ''v1/messages'' (px_request []) None []) =
     Rep_Response \<lparr>hr_status = 200, hr_headers = [(''content-type'', ''application/json'')], hr_body = ''2''\<rparr>"
  by (simp add: forward_def forward_inner_def forward_response_def px_parts px_values Let_def reject_oversize_reqwest_length_def
      collect_response_def)


theorem proxy_loop_bounded_witness:
  "length [(px_state, ''anthropic''), (px_state, ''anthropic'')] \<le> 2 \<and> trusted_route (px_state, ''anthropic'')"
proof -
  have "proxied px_lib px_codec px_net [(px_state, ''anthropic'')] (px_request [(LOOP_HEADER, ''1'')])"
    using px_sent(2) _ proxied_Nil[of px_lib px_codec px_net "px_request [(LOOP_HEADER, ''2'')]"]
    by (rule proxied_Cons) (simp add: hdr_get_all_def px_request_def px_outbound_def LOOP_HEADER_def)
  with px_sent(1) _ have "proxied px_lib px_codec px_net [(px_state, ''anthropic''), (px_state, ''anthropic'')] (px_request [])"
    by (rule proxied_Cons) (simp add: hdr_get_all_def px_request_def px_outbound_def LOOP_HEADER_def)
  from proxy_loop_bounded[OF this] show ?thesis by simp
qed

theorem trace_emitted_iff_witness:
  "\<exists>r. emit 1 True (px_trace\<lparr>rt_request_after := 2\<rparr>) (Some PE_Timeout) = Some r \<and> rec_outcome r = Out_TimedOut"
proof -
  have "trace_replacements (rt_observations (px_trace\<lparr>rt_request_after := 2\<rparr>)) = []"
    by (simp add: px_trace_def RequestTrace_with_route_def Let_def trace_replacements_def List.map_filter_def)
  moreover have "rt_request_id (px_trace\<lparr>rt_request_after := 2\<rparr>) = rt_request_id (RequestTrace_with_route 0 1 Route_Anthropic)"
    by (simp add: px_trace_def)
  ultimately show ?thesis
    using trace_emitted_iff[of "px_trace\<lparr>rt_request_after := 2\<rparr>" 0 1 Route_Anthropic 1 True "Some PE_Timeout"]
    by (auto simp: trace_outcome_def)
qed

end
