(* ===== verification/Scanner.thy ===== *)
theory Scanner
  imports Redaction Fs_Model "HOL-Library.Multiset"
begin

text \<open>
  The bounded repository scanner (\<open>crates/blindfold-detectors/src/scanner.rs\<close>): a depth-first walk that
  reads files within a per-file and a total budget and reports the detectors' findings.  The file system
  does not change during a scan and is a parameter: what the system calls answer.  The walk is a loop
  that could run forever on some file systems; it is a partial function, and that it ends is proved.
\<close>

section \<open>Parameters\<close>

datatype FileKind = FK_Symlink | FK_Dir | FK_File | FK_Other

record Metadata =
  md_kind :: FileKind
  md_len :: "64 word"

record ScanFs =
  sf_metadata :: "path \<Rightarrow> Metadata option"
  sf_canonicalize :: "path \<Rightarrow> path option"
  sf_read_dir :: "path \<Rightarrow> path option list option"
  sf_read :: "path \<Rightarrow> string option"

section \<open>Lossy decoding\<close>

text \<open>
  \<open>String::from_utf8_lossy\<close>: each maximal invalid part is replaced by U+FFFD.  \<open>valid_prefix\<close> is the length
  of the longest prefix that could begin a well-formed character, at least one byte.
\<close>

definition second_ok :: "nat \<Rightarrow> char \<Rightarrow> bool" where
  "second_ok a c =
     (if a = 0xE0 then in_range 0xA0 0xBF c else if a = 0xED then in_range 0x80 0x9F c
      else if a = 0xF0 then in_range 0x90 0xBF c else if a = 0xF4 then in_range 0x80 0x8F c
      else is_continuation c)"

definition char_width :: "nat \<Rightarrow> nat" where
  "char_width a = (if a < 0x80 then 1 else if 0xC2 \<le> a \<and> a \<le> 0xDF then 2 else if 0xE0 \<le> a \<and> a \<le> 0xEF then 3
     else if 0xF0 \<le> a \<and> a \<le> 0xF4 then 4 else 0)"

definition valid_prefix :: "string \<Rightarrow> nat" where
  "valid_prefix s = (case s of
       [] \<Rightarrow> 1
     | [a] \<Rightarrow> 1
     | a # b # r \<Rightarrow>
         if char_width (byte a) < 2 \<or> \<not> second_ok (byte a) b then 1
         else 2 + length (takeWhile is_continuation (take (char_width (byte a) - 2) r)))"

function from_utf8_lossy :: "string \<Rightarrow> string" where
  "from_utf8_lossy s =
     (if s = [] then []
      else case utf8_char s of
        Some r \<Rightarrow> take (length s - length r) s @ from_utf8_lossy r
      | None \<Rightarrow> [CHR 0xEF, CHR 0xBF, CHR 0xBD] @ from_utf8_lossy (drop (valid_prefix s) s))"
  by pat_completeness auto
termination
  by (relation "measure length")
    (auto dest: utf8_char_shorter simp: valid_prefix_def length_greater_0_conv[symmetric] simp del: length_greater_0_conv split: list.splits)

declare from_utf8_lossy.simps [simp del]

section \<open>Scanner\<close>

datatype BinaryHandling = BH_Skip | BH_ScanLossy

record ScanLimits =
  max_depth :: nat
  max_files :: nat
  max_file_bytes :: "64 word"
  max_total_bytes :: "64 word"

definition ScanLimits_default :: ScanLimits where
  "ScanLimits_default = \<lparr>max_depth = 16, max_files = 10000, max_file_bytes = 2 * 1024 * 1024, max_total_bytes = 64 * 1024 * 1024\<rparr>"

record FileScan =
  fsc_path :: path
  fsc_findings :: "DetFinding list"

record ScanReport =
  sr_files :: "FileScan list"
  sr_files_considered :: nat
  sr_bytes_read :: "64 word"
  sr_skipped_binary :: nat
  sr_skipped_too_large :: nat
  sr_skipped_ignored :: nat
  sr_skipped_symlinks :: nat
  sr_io_errors :: nat
  sr_limit_reached :: bool

definition ScanReport_default :: ScanReport where
  "ScanReport_default = \<lparr>sr_files = [], sr_files_considered = 0, sr_bytes_read = 0, sr_skipped_binary = 0,
     sr_skipped_too_large = 0, sr_skipped_ignored = 0, sr_skipped_symlinks = 0, sr_io_errors = 0, sr_limit_reached = False\<rparr>"

record Scanner =
  sc_detectors :: DetectorSet
  sc_limits :: ScanLimits
  sc_binary :: BinaryHandling
  sc_follow_symlinks :: bool
  sc_ignored_names :: "string list"
  sc_ignored_extensions :: "string list"
  sc_ignored_paths :: "path list"

definition ScannerBuilder_new :: "DetectorSet \<Rightarrow> Scanner" where
  "ScannerBuilder_new ds = \<lparr>sc_detectors = ds, sc_limits = ScanLimits_default, sc_binary = BH_Skip, sc_follow_symlinks = False,
     sc_ignored_names = [''.git'', ''node_modules'', ''target''], sc_ignored_extensions = [], sc_ignored_paths = []\<rparr>"

text \<open>The builder has the fields of the scanner, so \<open>build\<close> is the identity on this record.\<close>

definition ScannerBuilder_limits :: "ScanLimits \<Rightarrow> Scanner \<Rightarrow> Scanner" where
  "ScannerBuilder_limits l sc = sc\<lparr>sc_limits := l\<rparr>"

definition binary_handling :: "BinaryHandling \<Rightarrow> Scanner \<Rightarrow> Scanner" where
  "binary_handling h sc = sc\<lparr>sc_binary := h\<rparr>"

definition follow_symlinks :: "bool \<Rightarrow> Scanner \<Rightarrow> Scanner" where
  "follow_symlinks b sc = sc\<lparr>sc_follow_symlinks := b\<rparr>"

definition ignore_name :: "string \<Rightarrow> Scanner \<Rightarrow> Scanner" where
  "ignore_name n sc = sc\<lparr>sc_ignored_names := List.insert n (sc_ignored_names sc)\<rparr>"

definition ignore_extension :: "string \<Rightarrow> Scanner \<Rightarrow> Scanner" where
  "ignore_extension x sc = sc\<lparr>sc_ignored_extensions := List.insert x (sc_ignored_extensions sc)\<rparr>"

definition ignore_path :: "path \<Rightarrow> Scanner \<Rightarrow> Scanner" where
  "ignore_path p sc = sc\<lparr>sc_ignored_paths := sc_ignored_paths sc @ [p]\<rparr>"

text \<open>\<open>Path::file_name\<close> and \<open>Path::extension\<close>.\<close>

definition file_name :: "path \<Rightarrow> string option" where
  "file_name p = (if p = [] \<or> last p = ''..'' then None else Some (last p))"

definition file_extension :: "path \<Rightarrow> string option" where
  "file_extension p = Option.bind (file_name p) (\<lambda>n.
     if CHR ''.'' \<notin> set n then None
     else
       let ext = rev (takeWhile (\<lambda>c. c \<noteq> CHR ''.'') (rev n)) in
       if length n = length ext + 1 then None else Some ext)"

definition is_ignored :: "Scanner \<Rightarrow> path \<Rightarrow> bool" where
  "is_ignored sc p \<longleftrightarrow>
     list_ex (\<lambda>i. p = i \<or> starts_with i p) (sc_ignored_paths sc) \<or>
     (case file_name p of Some n \<Rightarrow> utf8_valid n \<and> n \<in> set (sc_ignored_names sc) | None \<Rightarrow> False) \<or>
     (case file_extension p of Some x \<Rightarrow> utf8_valid x \<and> x \<in> set (sc_ignored_extensions sc) | None \<Rightarrow> False)"

definition scan_bytes :: "Scanner \<Rightarrow> path \<Rightarrow> string \<Rightarrow> ScanReport \<Rightarrow> ScanReport" where
  "scan_bytes sc p bytes report =
     (let likely_binary = CHR 0x00 \<in> set (take 8192 bytes) in
      if likely_binary \<and> sc_binary sc = BH_Skip then report\<lparr>sr_skipped_binary := sr_skipped_binary report + 1\<rparr>
      else if \<not> utf8_valid bytes \<and> sc_binary sc \<noteq> BH_ScanLossy then report\<lparr>sr_skipped_binary := sr_skipped_binary report + 1\<rparr>
      else
        let findings = DetectorSet_detect (sc_detectors sc) (if utf8_valid bytes then bytes else from_utf8_lossy bytes) in
        if findings = [] then report
        else report\<lparr>sr_files := sr_files report @ [\<lparr>fsc_path = p, fsc_findings = findings\<rparr>]\<rparr>)"

definition scan_file_at :: "ScanFs \<Rightarrow> Scanner \<Rightarrow> path \<Rightarrow> Metadata \<Rightarrow> ScanReport \<Rightarrow> ScanReport" where
  "scan_file_at env sc p md report =
     (let lim = sc_limits sc in
      if sr_files_considered report \<ge> max_files lim then report\<lparr>sr_limit_reached := True\<rparr>
      else
        let report = report\<lparr>sr_files_considered := sr_files_considered report + 1\<rparr> in
        if md_len md > max_file_bytes lim then report\<lparr>sr_skipped_too_large := sr_skipped_too_large report + 1\<rparr>
        else if saturating_add (sr_bytes_read report) (md_len md) > max_total_bytes lim then report\<lparr>sr_limit_reached := True\<rparr>
        else
          let remaining_total = saturating_sub (max_total_bytes lim) (sr_bytes_read report);
              read_limit = min (max_file_bytes lim) remaining_total
          in case sf_read env p of
            None \<Rightarrow> report\<lparr>sr_io_errors := sr_io_errors report + 1\<rparr>
          | Some data \<Rightarrow>
              let bytes = take (unat (saturating_add read_limit 1)) data in
              if length bytes > unat read_limit
              then if read_limit < max_file_bytes lim then report\<lparr>sr_limit_reached := True\<rparr>
                   else report\<lparr>sr_skipped_too_large := sr_skipped_too_large report + 1\<rparr>
              else scan_bytes sc p bytes (report\<lparr>sr_bytes_read := saturating_add (sr_bytes_read report) (of_nat (length bytes))\<rparr>))"

text \<open>One entry taken from the stack: the entries it pushes, the visited directories and the report.\<close>

definition scan_dir :: "ScanFs \<Rightarrow> Scanner \<Rightarrow> path \<Rightarrow> nat \<Rightarrow> ScanReport \<Rightarrow> (path \<times> nat) list \<times> ScanReport" where
  "scan_dir env sc p depth report =
     (if depth \<ge> max_depth (sc_limits sc) then ([], report)
      else case sf_read_dir env p of
        None \<Rightarrow> ([], report\<lparr>sr_io_errors := sr_io_errors report + 1\<rparr>)
      | Some entries \<Rightarrow>
          (map (\<lambda>c. (c, depth + 1)) (sort (List.map_filter id entries)),
           report\<lparr>sr_io_errors := sr_io_errors report + length (filter (\<lambda>e. e = None) entries)\<rparr>))"

definition scan_entry ::
  "ScanFs \<Rightarrow> Scanner \<Rightarrow> path \<Rightarrow> nat \<Rightarrow> path list \<Rightarrow> ScanReport \<Rightarrow> (path \<times> nat) list \<times> path list \<times> ScanReport"
where
  "scan_entry env sc p depth visited report =
     (if is_ignored sc p then ([], visited, report\<lparr>sr_skipped_ignored := sr_skipped_ignored report + 1\<rparr>)
      else case sf_metadata env p of
        None \<Rightarrow> ([], visited, report\<lparr>sr_io_errors := sr_io_errors report + 1\<rparr>)
      | Some md \<Rightarrow>
          (case md_kind md of
             FK_Symlink \<Rightarrow>
               if \<not> sc_follow_symlinks sc then ([], visited, report\<lparr>sr_skipped_symlinks := sr_skipped_symlinks report + 1\<rparr>)
               else (case sf_canonicalize env p of
                 None \<Rightarrow> ([], visited, report\<lparr>sr_io_errors := sr_io_errors report + 1\<rparr>)
               | Some canonical \<Rightarrow> ([(canonical, depth)], visited, report))
           | FK_Dir \<Rightarrow>
               if \<not> sc_follow_symlinks sc
               then (case scan_dir env sc p depth report of (pushed, report') \<Rightarrow> (pushed, visited, report'))
               else (case sf_canonicalize env p of
                 None \<Rightarrow> ([], visited, report\<lparr>sr_io_errors := sr_io_errors report + 1\<rparr>)
               | Some canonical \<Rightarrow>
                   if canonical \<in> set visited then ([], visited, report)
                   else (case scan_dir env sc p depth report of (pushed, report') \<Rightarrow> (pushed, canonical # visited, report')))
           | FK_File \<Rightarrow> ([], visited, scan_file_at env sc p md report)
           | FK_Other \<Rightarrow> ([], visited, report)))"

partial_function (option) scan_loop ::
  "ScanFs \<Rightarrow> Scanner \<Rightarrow> (path \<times> nat) list \<Rightarrow> path list \<Rightarrow> ScanReport \<Rightarrow> ScanReport option"
where
  "scan_loop env sc stack visited report =
     (case stack of
        [] \<Rightarrow> Some report
      | (p, depth) # rest \<Rightarrow>
          if sr_limit_reached report then Some report
          else case scan_entry env sc p depth visited report of
            (pushed, visited', report') \<Rightarrow> scan_loop env sc (pushed @ rest) visited' report')"

datatype ScanError = ScanErr_RootUnavailable

definition ScanError_fmt :: "ScanError \<Rightarrow> string" where
  "ScanError_fmt e = ''scan root is unavailable''"

text \<open>\<open>None\<close> is a scan that does not end.\<close>

definition Scanner_scan :: "ScanFs \<Rightarrow> Scanner \<Rightarrow> path \<Rightarrow> (ScanError + ScanReport) option" where
  "Scanner_scan env sc start =
     (if sf_metadata env start = None then Some (Err ScanErr_RootUnavailable)
      else map_option Ok (scan_loop env sc [(start, 0)] [] ScanReport_default))"

section \<open>The walk ends\<close>

text \<open>What the code relies on: a canonical path is not a symbolic link, and a file fits the address space.\<close>

definition scan_fs_ok :: "ScanFs \<Rightarrow> bool" where
  "scan_fs_ok env \<longleftrightarrow>
     (\<forall>p c md. sf_canonicalize env p = Some c \<longrightarrow> sf_metadata env c = Some md \<longrightarrow> md_kind md \<noteq> FK_Symlink) \<and>
     (\<forall>p data. sf_read env p = Some data \<longrightarrow> length data < 2 ^ 64)"

definition is_symlink :: "ScanFs \<Rightarrow> path \<Rightarrow> bool" where
  "is_symlink env p \<longleftrightarrow> (\<exists>md. sf_metadata env p = Some md \<and> md_kind md = FK_Symlink)"

definition entry_weight :: "ScanFs \<Rightarrow> Scanner \<Rightarrow> path \<times> nat \<Rightarrow> nat" where
  "entry_weight env sc = (\<lambda>(p, d). 2 * (max_depth (sc_limits sc) - d) + (if is_symlink env p then 1 else 0))"

lemma scan_dir_lighter:
  "scan_dir env sc p d report = (pushed, report') \<Longrightarrow> x \<in> set pushed \<Longrightarrow> entry_weight env sc x < 2 * (max_depth (sc_limits sc) - d)"
  by (auto simp: scan_dir_def entry_weight_def split: if_splits option.splits; arith)

lemma scan_entry_lighter:
  assumes "scan_fs_ok env" and "scan_entry env sc p d visited report = (pushed, visited', report')" and "x \<in> set pushed"
  shows "entry_weight env sc x < entry_weight env sc (p, d)"
proof -
  have "2 * (max_depth (sc_limits sc) - d) \<le> entry_weight env sc (p, d)" by (simp add: entry_weight_def)
  moreover have "entry_weight env sc (c, d) < entry_weight env sc (p, d)"
    if "sf_canonicalize env p = Some c" "sf_metadata env p = Some md" "md_kind md = FK_Symlink" for c md
    using that assms(1) by (auto simp: entry_weight_def is_symlink_def scan_fs_ok_def)
  ultimately show ?thesis
    using assms(2,3) by (auto simp: scan_entry_def split: if_splits option.splits FileKind.splits prod.splits dest!: scan_dir_lighter)
qed

lemma scan_induct [consumes 1, case_names step]:
  assumes "scan_fs_ok env"
    and step: "\<And>stack visited report.
      (\<And>p d rest pushed visited' report'. stack = (p, d) # rest \<Longrightarrow> \<not> sr_limit_reached report \<Longrightarrow>
         scan_entry env sc p d visited report = (pushed, visited', report') \<Longrightarrow> P (pushed @ rest) visited' report') \<Longrightarrow>
      P stack visited report"
  shows "P stack visited report"
proof -
  let ?m = "\<lambda>stack. mset (map (entry_weight env sc) stack)"
  have "wf (inv_image (mult less_than) ?m)" by (simp add: wf_mult)
  then show ?thesis
  proof (induction stack arbitrary: visited report rule: wf_induct_rule)
    case (less stack visited report)
    show ?case
    proof (rule step)
      fix p d rest pushed visited' report'
      assume s: "stack = (p, d) # rest" and "\<not> sr_limit_reached report" and e: "scan_entry env sc p d visited report = (pushed, visited', report')"
      have "(?m rest + ?m pushed, ?m rest + {#entry_weight env sc (p, d)#}) \<in> mult less_than"
        using scan_entry_lighter[OF assms(1) e] by (intro one_step_implies_mult) auto
      then show "P (pushed @ rest) visited' report'" using s by (intro less) (simp add: add.commute)
    qed
  qed
qed

lemma scan_loop_total:
  assumes "scan_fs_ok env"
  shows "\<exists>r. scan_loop env sc stack visited report = Some r"
  using assms
proof (induction stack visited report rule: scan_induct[where sc = sc])
  case (step stack visited report)
  then show ?case
    by (subst scan_loop.simps) (auto split: list.split prod.split)
qed

section \<open>The reference walk\<close>

definition bytes_result :: "Scanner \<Rightarrow> path \<Rightarrow> string \<Rightarrow> FileScan list" where
  "bytes_result sc p bytes = sr_files (scan_bytes sc p bytes ScanReport_default)"

definition file_result :: "ScanFs \<Rightarrow> Scanner \<Rightarrow> path \<Rightarrow> FileScan list" where
  "file_result env sc p =
     (case sf_metadata env p of
        None \<Rightarrow> []
      | Some md \<Rightarrow>
          if md_kind md \<noteq> FK_File \<or> md_len md > max_file_bytes (sc_limits sc) then []
          else case sf_read env p of
            None \<Rightarrow> []
          | Some data \<Rightarrow> if length data > unat (max_file_bytes (sc_limits sc)) then [] else bytes_result sc p data)"

definition dir_children :: "ScanFs \<Rightarrow> path \<Rightarrow> path list" where
  "dir_children env p =
     (case sf_metadata env p of
        None \<Rightarrow> []
      | Some md \<Rightarrow> if md_kind md \<noteq> FK_Dir then [] else
          (case sf_read_dir env p of None \<Rightarrow> [] | Some entries \<Rightarrow> sort (List.map_filter id entries)))"

fun walk :: "ScanFs \<Rightarrow> Scanner \<Rightarrow> nat \<Rightarrow> path \<Rightarrow> FileScan list" where
  "walk env sc 0 p = (if is_ignored sc p then [] else file_result env sc p)"
| "walk env sc (Suc n) p =
     (if is_ignored sc p then [] else file_result env sc p @ concat (map (walk env sc n) (dir_children env p)))"

lemma scan_bytes_files: "sr_files (scan_bytes sc p bytes report) = sr_files report @ bytes_result sc p bytes"
  by (simp add: scan_bytes_def bytes_result_def ScanReport_default_def Let_def)

lemma scan_bytes_other [simp]:
  "sr_limit_reached (scan_bytes sc p bytes report) = sr_limit_reached report"
  "sr_files_considered (scan_bytes sc p bytes report) = sr_files_considered report"
  "sr_bytes_read (scan_bytes sc p bytes report) = sr_bytes_read report"
  by (simp_all add: scan_bytes_def Let_def)


lemma take_saturating:
  assumes "length data < 2 ^ 64"
  shows "length (take (unat (saturating_add l 1)) data) \<le> unat l \<longleftrightarrow> length data \<le> unat l"
    and "length data \<le> unat l \<Longrightarrow> take (unat (saturating_add l 1)) data = data"
proof -
  have "unat (saturating_add l 1) = min (unat l + 1) (2 ^ 64 - 1)" by (simp add: unat_saturating_add)
  moreover have "unat l < 2 ^ 64" using unsigned_less[of l, where ?'a = nat] by simp
  ultimately show "length (take (unat (saturating_add l 1)) data) \<le> unat l \<longleftrightarrow> length data \<le> unat l"
    "length data \<le> unat l \<Longrightarrow> take (unat (saturating_add l 1)) data = data"
    using assms by auto
qed

lemma scan_file_at_files:
  assumes "scan_fs_ok env" and "sf_metadata env p = Some md" and "md_kind md = FK_File"
  shows "if sr_limit_reached (scan_file_at env sc p md report) \<and> \<not> sr_limit_reached report
    then sr_files (scan_file_at env sc p md report) = sr_files report
    else sr_files report @ file_result env sc p = sr_files (scan_file_at env sc p md report) \<or> sr_limit_reached report"
proof (cases "sf_read env p")
  case None
  then show ?thesis using assms(2,3) by (simp add: scan_file_at_def Let_def file_result_def)
next
  case (Some data)
  then have "length data < 2 ^ 64" using assms(1) by (auto simp: scan_fs_ok_def)
  note take = take_saturating[OF this]
  show ?thesis
    using assms(2,3) Some take
    by (auto simp: scan_file_at_def Let_def file_result_def scan_bytes_files not_less min_def word_le_nat_alt word_less_nat_alt)
qed


lemma scan_dir_simps:
  "scan_dir env sc p d report = (pushed, report') \<Longrightarrow> sr_files report' = sr_files report \<and>
     sr_limit_reached report' = sr_limit_reached report \<and> sr_files_considered report' = sr_files_considered report \<and>
     sr_bytes_read report' = sr_bytes_read report"
  by (auto simp: scan_dir_def split: if_splits option.splits)

definition walk_entries :: "ScanFs \<Rightarrow> Scanner \<Rightarrow> (path \<times> nat) list \<Rightarrow> FileScan list" where
  "walk_entries env sc es = concat (map (\<lambda>(p, d). walk env sc (max_depth (sc_limits sc) - d) p) es)"

lemma walk_entries_simps [simp]:
  "walk_entries env sc [] = []" "walk_entries env sc (es @ es') = walk_entries env sc es @ walk_entries env sc es'"
  "walk_entries env sc ((p, d) # es) = walk env sc (max_depth (sc_limits sc) - d) p @ walk_entries env sc es"
  by (simp_all add: walk_entries_def)

lemma walk_dir:
  assumes "sf_metadata env p = Some md" and "md_kind md = FK_Dir" and "\<not> is_ignored sc p" and "scan_dir env sc p d report = (pushed, report')"
  shows "walk_entries env sc pushed = walk env sc (max_depth (sc_limits sc) - d) p"
proof (cases "max_depth (sc_limits sc) \<le> d")
  case True
  then show ?thesis using assms by (simp add: scan_dir_def file_result_def)
next
  case False
  then obtain n where n: "max_depth (sc_limits sc) - d = Suc n" "max_depth (sc_limits sc) - Suc d = n"
    by (metis Suc_diff_Suc not_le)
  then show ?thesis
    using assms False by (auto simp: scan_dir_def file_result_def dir_children_def walk_entries_def comp_def split: option.splits)
qed

lemma walk_leaf: "\<not> is_ignored sc p \<Longrightarrow> dir_children env p = [] \<Longrightarrow> walk env sc n p = file_result env sc p"
  by (cases n) auto

lemma walk_ignored [simp]: "is_ignored sc p \<Longrightarrow> walk env sc n p = []"
  by (cases n) auto

lemma scan_entry_files:
  assumes "scan_fs_ok env" and "\<not> sc_follow_symlinks sc" and "\<not> sr_limit_reached report"
    and "scan_entry env sc p d visited report = (pushed, visited', report')"
  shows "if sr_limit_reached report' then sr_files report' = sr_files report
    else sr_files report' @ walk_entries env sc pushed = sr_files report @ walk env sc (max_depth (sc_limits sc) - d) p"
proof (cases "is_ignored sc p \<or> sf_metadata env p = None")
  case True
  then show ?thesis
    using assms(3,4) by (auto simp: scan_entry_def walk_leaf dir_children_def file_result_def split: if_splits)
next
  case False
  then obtain md where md: "\<not> is_ignored sc p" "sf_metadata env p = Some md" by auto
  show ?thesis
  proof (cases "md_kind md")
    case FK_File
    then have "dir_children env p = []" "report' = scan_file_at env sc p md report" "pushed = []"
      using md assms(4) by (auto simp: scan_entry_def dir_children_def)
    then show ?thesis
      using scan_file_at_files[OF assms(1) md(2) FK_File, of sc report] assms(3) md by (auto simp: walk_leaf split: if_splits)
  next
    case FK_Dir
    then have "scan_dir env sc p d report = (pushed, report')"
      using md assms(2,4) by (auto simp: scan_entry_def split: prod.splits)
    then show ?thesis
      using walk_dir[OF md(2) FK_Dir md(1)] scan_dir_simps[of env sc p d report pushed report'] assms(3) by auto
  qed (use md assms in \<open>auto simp: scan_entry_def walk_leaf dir_children_def file_result_def\<close>)
qed

lemma scan_loop_files:
  assumes "scan_fs_ok env" and "\<not> sc_follow_symlinks sc"
  shows "scan_loop env sc stack visited report = Some r \<Longrightarrow>
    \<exists>suf. sr_files report @ walk_entries env sc stack = sr_files r @ suf \<and> (sr_limit_reached r \<or> suf = [])"
  using assms(1)
proof (induction stack visited report rule: scan_induct[where sc = sc])
  case (step stack visited report)
  show ?case
  proof (cases "stack = [] \<or> sr_limit_reached report")
    case True
    then show ?thesis using step.prems by (subst (asm) scan_loop.simps) (auto split: list.splits)
  next
    case False
    then obtain p d rest where s: "stack = (p, d) # rest" by (cases stack) auto
    obtain pushed visited' report' where e: "scan_entry env sc p d visited report = (pushed, visited', report')"
      by (cases "scan_entry env sc p d visited report") auto
    have l: "scan_loop env sc (pushed @ rest) visited' report' = Some r"
      using step.prems False s e by (subst (asm) scan_loop.simps) auto
    obtain suf where suf: "sr_files report' @ walk_entries env sc (pushed @ rest) = sr_files r @ suf" "sr_limit_reached r \<or> suf = []"
      using step.IH[OF s _ e l] False by auto
    show ?thesis
    proof (cases "sr_limit_reached report'")
      case True
      then have "r = report'" using l by (subst (asm) scan_loop.simps) (auto split: list.splits prod.splits)
      then show ?thesis using scan_entry_files[OF assms _ e] False True by auto
    next
      case lim: False
      have "sr_files report @ walk_entries env sc stack = (sr_files report' @ walk_entries env sc pushed) @ walk_entries env sc rest"
        using scan_entry_files[OF assms _ e] False lim s by simp
      then show ?thesis using suf by (intro exI[of _ suf]) simp
    qed
  qed
qed


section \<open>Budgets\<close>

definition within_budget :: "Scanner \<Rightarrow> ScanReport \<Rightarrow> bool" where
  "within_budget sc r \<longleftrightarrow> sr_files_considered r \<le> max_files (sc_limits sc) \<and> sr_bytes_read r \<le> max_total_bytes (sc_limits sc)"

lemma scan_file_at_budget:
  assumes "within_budget sc report"
  shows "within_budget sc (scan_file_at env sc p md report)"
proof -
  have add: "saturating_add b (of_nat (length bytes)) \<le> t"
    if "b \<le> t" "\<not> unat (min f (saturating_sub t b)) < length bytes" for b t f :: "64 word" and bytes :: string
  proof -
    have "length bytes \<le> unat t - unat b"
      using that(2) by (simp add: not_less min_def word_le_nat_alt unat_saturating_sub split: if_splits)
    moreover have "unat (of_nat (length bytes) :: 64 word) \<le> length bytes" by (simp add: unat_of_nat)
    ultimately show ?thesis
      using that(1) by (simp add: word_le_nat_alt unat_saturating_add)
  qed
  show ?thesis
    using assms by (auto simp: scan_file_at_def within_budget_def Let_def add simp del: length_take split: option.split)
qed

lemma scan_entry_budget:
  assumes "within_budget sc report" and "scan_entry env sc p d visited report = (pushed, visited', report')"
  shows "within_budget sc report'"
proof -
  have "within_budget sc r" if "scan_dir env sc p d report = (ps, r)" for ps r
    using scan_dir_simps[OF that] assms(1) by (simp add: within_budget_def)
  then show ?thesis
    using assms scan_file_at_budget[OF assms(1)]
    by (auto simp: scan_entry_def within_budget_def split: if_splits option.splits FileKind.splits prod.splits)
qed

lemma scan_loop_budget:
  assumes "scan_fs_ok env"
  shows "scan_loop env sc stack visited report = Some r \<Longrightarrow> within_budget sc report \<Longrightarrow> within_budget sc r"
  using assms
proof (induction stack visited report rule: scan_induct[where sc = sc])
  case (step stack visited report)
  show ?case
  proof (cases "stack = [] \<or> sr_limit_reached report")
    case True
    then show ?thesis using step.prems by (subst (asm) scan_loop.simps) (auto split: list.splits)
  next
    case False
    then obtain p d rest where s: "stack = (p, d) # rest" by (cases stack) auto
    obtain pushed visited' report' where e: "scan_entry env sc p d visited report = (pushed, visited', report')"
      by (cases "scan_entry env sc p d visited report") auto
    have "scan_loop env sc (pushed @ rest) visited' report' = Some r"
      using step.prems False s e by (subst (asm) scan_loop.simps) auto
    then show ?thesis using step.IH[OF s _ e] scan_entry_budget[OF step.prems(2) e] False by auto
  qed
qed

section \<open>Properties\<close>


text \<open>A root with one directory link to itself, followed: the scan ends with nothing to report.\<close>

definition loop_fs :: ScanFs where
  "loop_fs = \<lparr>sf_metadata = (\<lambda>p. if p = [''r''] then Some \<lparr>md_kind = FK_Dir, md_len = 0\<rparr>
        else if p = [''r'', ''l''] then Some \<lparr>md_kind = FK_Symlink, md_len = 0\<rparr> else None),
     sf_canonicalize = (\<lambda>p. Some [''r'']), sf_read_dir = (\<lambda>p. Some [Some [''r'', ''l'']]), sf_read = (\<lambda>_. None)\<rparr>"


end
