(* ===== verification/Plugin_Api.thy ===== *)
theory Plugin_Api
  imports Rust_Str
begin

text \<open>
  Plugin manifests (\<open>crates/blindfold-plugin-api/src/lib.rs\<close>): the closed manifest schema and its
  validation.  The TOML reader and semantic versions are library code: the reader is a parameter, a
  version is its text and a requirement the list of its comparators.
\<close>

section \<open>Schema\<close>

definition CURRENT_MANIFEST_VERSION :: "16 word" where
  "CURRENT_MANIFEST_VERSION = 1"

definition MANIFEST_FILE_NAME :: string where
  "MANIFEST_FILE_NAME = ''blindfold-plugin.toml''"

definition MAX_MANIFEST_BYTES :: nat where
  "MAX_MANIFEST_BYTES = 64 * 1024"

definition MAX_PLUGIN_ID_BYTES :: nat where
  "MAX_PLUGIN_ID_BYTES = 64"

definition MAX_ENTRYPOINT_BYTES :: nat where
  "MAX_ENTRYPOINT_BYTES = 240"

definition MAX_COMMAND_BYTES :: nat where
  "MAX_COMMAND_BYTES = 64"

definition MAX_DECLARATIONS :: nat where
  "MAX_DECLARATIONS = 16"

datatype Version = Version string

datatype VersionOp = Op_Exact | Op_Greater | Op_GreaterEq | Op_Less | Op_LessEq | Op_Tilde | Op_Caret | Op_Wildcard

type_synonym VersionReq = "(VersionOp \<times> string) list"

datatype PluginKind = PK_HarnessAdapter

datatype Protocol = Proto_BuiltinV1 | Proto_StdioJsonV1

datatype NonInteractiveMode = Mode_Print | Mode_Exec | Mode_Review | Mode_Run

datatype PluginProvider = PP_OpenAi | PP_Anthropic | PP_OpenRouter

datatype Transport = Tr_HttpJson | Tr_ServerSentEvents | Tr_WebSocket

datatype PluginEvent = Ev_ModelRequest | Ev_ModelResponse | Ev_ToolRequest | Ev_ToolResult | Ev_CommandOutput

datatype FilesystemPermission = Fp_PluginRead | Fp_WorkspaceRead | Fp_WorkspaceWrite | Fp_SessionTemp

datatype NetworkPermission = Np_ModelProxy | Np_PolicyEgress | Np_LocalBroker

datatype EnvironmentPermission =
    Evp_Path | Evp_Home | Evp_Temp | Evp_Locale | Evp_Terminal | Evp_UserIdentity | Evp_Shell | Evp_HostConfig

record Harness =
  hs_command :: string
  hs_version_requirement :: VersionReq
  hs_noninteractive_modes :: "NonInteractiveMode list"

record Capabilities =
  cap_providers :: "PluginProvider list"
  cap_transports :: "Transport list"
  cap_events :: "PluginEvent list"

record Permissions =
  perm_filesystem :: "FilesystemPermission list"
  perm_network :: "NetworkPermission list"
  perm_environment :: "EnvironmentPermission list"
  perm_spawn_harness :: bool
  perm_spawn_tools :: bool

record PluginManifest =
  pm_manifest_version :: "16 word"
  pm_id :: string
  pm_version :: Version
  pm_kind :: PluginKind
  pm_protocol :: Protocol
  pm_entrypoint :: string
  pm_harness :: Harness
  pm_capabilities :: Capabilities
  pm_permissions :: Permissions

datatype ManifestError =
    MfE_TooLarge | MfE_InvalidEncoding | MfE_InvalidDocument | MfE_UnsupportedManifestVersion | MfE_InvalidPluginId
  | MfE_InvalidEntrypoint | MfE_InvalidHarnessCommand | MfE_UnboundedHarnessVersion | MfE_EmptyDeclaration
  | MfE_TooManyDeclarations | MfE_DuplicateDeclaration | MfE_MissingBoundaryEvents | MfE_InsufficientBoundaryPermissions
  | MfE_InvalidPermissionCombination

fun ManifestError_fmt :: "ManifestError \<Rightarrow> string" where
  "ManifestError_fmt MfE_TooLarge = ''plugin manifest exceeds the size limit''"
| "ManifestError_fmt MfE_InvalidEncoding = ''plugin manifest encoding is invalid''"
| "ManifestError_fmt MfE_InvalidDocument = ''plugin manifest document is invalid''"
| "ManifestError_fmt MfE_UnsupportedManifestVersion = ''plugin manifest version is unsupported''"
| "ManifestError_fmt MfE_InvalidPluginId = ''plugin identifier is invalid''"
| "ManifestError_fmt MfE_InvalidEntrypoint = ''plugin entrypoint is invalid''"
| "ManifestError_fmt MfE_InvalidHarnessCommand = ''plugin harness command is invalid''"
| "ManifestError_fmt MfE_UnboundedHarnessVersion = ''plugin harness version requirement is unbounded''"
| "ManifestError_fmt MfE_EmptyDeclaration = ''plugin capability declaration is empty''"
| "ManifestError_fmt MfE_TooManyDeclarations = ''plugin has too many capability declarations''"
| "ManifestError_fmt MfE_DuplicateDeclaration = ''plugin capability declaration is duplicated''"
| "ManifestError_fmt MfE_MissingBoundaryEvents = ''plugin omits required boundary events''"
| "ManifestError_fmt MfE_InsufficientBoundaryPermissions = ''plugin omits required boundary permissions''"
| "ManifestError_fmt MfE_InvalidPermissionCombination = ''plugin permission combination is invalid''"

section \<open>Validation\<close>

definition plugin_id_component_ok :: "string \<Rightarrow> bool" where
  "plugin_id_component_ok component = (case component of
       [] \<Rightarrow> False
     | first # rest \<Rightarrow> is_ascii_lowercase first \<and> list_all (\<lambda>b. is_ascii_lowercase b \<or> is_ascii_digit b) rest)"

text \<open>Splitting at a dot or a hyphen is splitting at dots each part of a splitting at hyphens.\<close>

definition id_components :: "string \<Rightarrow> string list" where
  "id_components v = concat (map (split_on (CHR ''.'')) (split_on (CHR ''-'') v))"

definition validate_plugin_id :: "string \<Rightarrow> ManifestError + unit" where
  "validate_plugin_id v =
     (if v = [] \<or> length v > MAX_PLUGIN_ID_BYTES \<or>
         \<not> list_all (\<lambda>b. is_ascii_lowercase b \<or> is_ascii_digit b \<or> b = CHR ''.'' \<or> b = CHR ''-'') v \<or>
         list_ex (\<lambda>component. \<not> plugin_id_component_ok component) (id_components v)
      then Err MfE_InvalidPluginId else Ok ())"

definition validate_entrypoint :: "string \<Rightarrow> ManifestError + unit" where
  "validate_entrypoint v =
     (if v = [] \<or> length v > MAX_ENTRYPOINT_BYTES \<or> starts_with ''/'' v \<or> ends_with ''/'' v \<or>
         list_ex (\<lambda>part. part = [] \<or> part = ''.'' \<or> part = ''..'') (split_on (CHR ''/'') v) \<or>
         \<not> list_all (\<lambda>b. is_ascii_alphanumeric b \<or> b \<in> set ''/._-'') v
      then Err MfE_InvalidEntrypoint else Ok ())"

definition validate_command :: "string \<Rightarrow> ManifestError + unit" where
  "validate_command v =
     (if v = [] \<or> length v > MAX_COMMAND_BYTES \<or> \<not> is_ascii_alphanumeric (hd v) \<or>
         \<not> list_all (\<lambda>b. is_ascii_alphanumeric b \<or> b \<in> set ''._+-'') v
      then Err MfE_InvalidHarnessCommand else Ok ())"

definition validate_unique :: "'a list \<Rightarrow> ManifestError + unit" where
  "validate_unique values =
     (if length values > MAX_DECLARATIONS then Err MfE_TooManyDeclarations
      else if length (remdups values) \<noteq> length values then Err MfE_DuplicateDeclaration
      else Ok ())"

definition validate_nonempty_unique :: "'a list \<Rightarrow> ManifestError + unit" where
  "validate_nonempty_unique values = (if values = [] then Err MfE_EmptyDeclaration else validate_unique values)"

fun finite_bounds_loop :: "bool \<Rightarrow> bool \<Rightarrow> VersionReq \<Rightarrow> bool" where
  "finite_bounds_loop lower upper [] = (lower \<and> upper)"
| "finite_bounds_loop lower upper ((op, v) # cs) =
     (case op of
        Op_Exact \<Rightarrow> finite_bounds_loop True True cs
      | Op_Tilde \<Rightarrow> finite_bounds_loop True True cs
      | Op_Caret \<Rightarrow> finite_bounds_loop True True cs
      | Op_Wildcard \<Rightarrow> False
      | Op_Greater \<Rightarrow> finite_bounds_loop True upper cs
      | Op_GreaterEq \<Rightarrow> finite_bounds_loop True upper cs
      | Op_Less \<Rightarrow> finite_bounds_loop lower True cs
      | Op_LessEq \<Rightarrow> finite_bounds_loop lower True cs)"

definition has_finite_version_bounds :: "VersionReq \<Rightarrow> bool" where
  "has_finite_version_bounds req = finite_bounds_loop False False req"

definition PluginManifest_validate :: "PluginManifest \<Rightarrow> ManifestError + unit" where
  "PluginManifest_validate m =
     (if pm_manifest_version m \<noteq> CURRENT_MANIFEST_VERSION then Err MfE_UnsupportedManifestVersion
      else
        res_bind (validate_plugin_id (pm_id m)) (\<lambda>_.
        res_bind (validate_entrypoint (pm_entrypoint m)) (\<lambda>_.
        res_bind (validate_command (hs_command (pm_harness m))) (\<lambda>_.
        if \<not> has_finite_version_bounds (hs_version_requirement (pm_harness m)) then Err MfE_UnboundedHarnessVersion
        else
          res_bind (validate_nonempty_unique (hs_noninteractive_modes (pm_harness m))) (\<lambda>_.
          res_bind (validate_nonempty_unique (cap_providers (pm_capabilities m))) (\<lambda>_.
          res_bind (validate_nonempty_unique (cap_transports (pm_capabilities m))) (\<lambda>_.
          res_bind (validate_nonempty_unique (cap_events (pm_capabilities m))) (\<lambda>_.
          res_bind (validate_unique (perm_filesystem (pm_permissions m))) (\<lambda>_.
          res_bind (validate_unique (perm_network (pm_permissions m))) (\<lambda>_.
          res_bind (validate_unique (perm_environment (pm_permissions m))) (\<lambda>_.
          if Ev_ModelRequest \<notin> set (cap_events (pm_capabilities m)) \<or> Ev_ModelResponse \<notin> set (cap_events (pm_capabilities m))
          then Err MfE_MissingBoundaryEvents
          else if \<not> perm_spawn_harness (pm_permissions m) \<or> Np_ModelProxy \<notin> set (perm_network (pm_permissions m))
          then Err MfE_InsufficientBoundaryPermissions
          else if Fp_WorkspaceWrite \<in> set (perm_filesystem (pm_permissions m)) \<and>
             Fp_WorkspaceRead \<notin> set (perm_filesystem (pm_permissions m))
          then Err MfE_InvalidPermissionCombination
          else Ok ())))))))))))"

text \<open>The reader \<open>toml::from_str\<close> already builds the raw manifest, which has the fields of the manifest.\<close>

definition parse_toml :: "(string \<Rightarrow> PluginManifest option) \<Rightarrow> string \<Rightarrow> ManifestError + PluginManifest" where
  "parse_toml toml_from_str input =
     (if length input > MAX_MANIFEST_BYTES then Err MfE_TooLarge
      else if \<not> utf8_valid input then Err MfE_InvalidEncoding
      else
        res_bind (ok_or (toml_from_str input) MfE_InvalidDocument) (\<lambda>manifest.
        res_bind (PluginManifest_validate manifest) (\<lambda>_. Ok manifest)))"

section \<open>Lemmas\<close>

lemma guard_ok: "(if c then Err e else r) = Ok y \<longleftrightarrow> \<not> c \<and> r = Ok y"
  by simp

lemma ok_unit: "Ok () = Ok u \<longleftrightarrow> True"
  by simp

lemma guard_unit: "(if c then Err e else Ok ()) = Ok u \<longleftrightarrow> \<not> c"
  by simp

lemma check_then_ok: "res_bind r (\<lambda>_. s) = Ok y \<longleftrightarrow> r = Ok () \<and> s = Ok y"
  by (auto simp: res_bind_ok_iff)

lemma validate_unique_ok: "validate_unique vs = Ok u \<longleftrightarrow> length vs \<le> MAX_DECLARATIONS \<and> distinct vs"
  using length_remdups_eq[of vs] by (auto simp: validate_unique_def)

lemma validate_nonempty_unique_ok:
  "validate_nonempty_unique vs = Ok u \<longleftrightarrow> vs \<noteq> [] \<and> length vs \<le> MAX_DECLARATIONS \<and> distinct vs"
  by (auto simp: validate_nonempty_unique_def validate_unique_ok)

lemma finite_bounds_loop_iff:
  "finite_bounds_loop l u cs \<longleftrightarrow> Op_Wildcard \<notin> fst ` set cs \<and>
     (l \<or> (\<exists>op\<in>fst ` set cs. op \<in> {Op_Exact, Op_Tilde, Op_Caret, Op_Greater, Op_GreaterEq})) \<and>
     (u \<or> (\<exists>op\<in>fst ` set cs. op \<in> {Op_Exact, Op_Tilde, Op_Caret, Op_Less, Op_LessEq}))"
  by (induction l u cs rule: finite_bounds_loop.induct) (auto split: VersionOp.splits)

definition manifest_ok :: "PluginManifest \<Rightarrow> bool" where
  "manifest_ok m \<longleftrightarrow> pm_manifest_version m = 1 \<and>
     (pm_id m \<noteq> [] \<and> length (pm_id m) \<le> 64 \<and> (\<forall>c\<in>set (id_components (pm_id m)). plugin_id_component_ok c)) \<and>
     (pm_entrypoint m \<noteq> [] \<and> length (pm_entrypoint m) \<le> 240 \<and>
       (\<forall>part\<in>set (split_on (CHR ''/'') (pm_entrypoint m)). part \<noteq> [] \<and> part \<noteq> ''.'' \<and> part \<noteq> ''..'' \<and>
          list_all (\<lambda>b. is_ascii_alphanumeric b \<or> b \<in> set ''._-'') part)) \<and>
     (hs_command (pm_harness m) \<noteq> [] \<and> length (hs_command (pm_harness m)) \<le> 64 \<and> is_ascii_alphanumeric (hd (hs_command (pm_harness m))) \<and>
       list_all (\<lambda>b. is_ascii_alphanumeric b \<or> b \<in> set ''._+-'') (hs_command (pm_harness m))) \<and>
     has_finite_version_bounds (hs_version_requirement (pm_harness m)) \<and>
     (\<forall>n\<in>{length (hs_noninteractive_modes (pm_harness m)), length (cap_providers (pm_capabilities m)),
          length (cap_transports (pm_capabilities m)), length (cap_events (pm_capabilities m))}. 0 < n \<and> n \<le> 16) \<and>
     (\<forall>n\<in>{length (perm_filesystem (pm_permissions m)), length (perm_network (pm_permissions m)),
          length (perm_environment (pm_permissions m))}. n \<le> 16) \<and>
     distinct (hs_noninteractive_modes (pm_harness m)) \<and> distinct (cap_providers (pm_capabilities m)) \<and>
     distinct (cap_transports (pm_capabilities m)) \<and> distinct (cap_events (pm_capabilities m)) \<and>
     distinct (perm_filesystem (pm_permissions m)) \<and> distinct (perm_network (pm_permissions m)) \<and>
     distinct (perm_environment (pm_permissions m)) \<and>
     {Ev_ModelRequest, Ev_ModelResponse} \<subseteq> set (cap_events (pm_capabilities m)) \<and>
     perm_spawn_harness (pm_permissions m) \<and> Np_ModelProxy \<in> set (perm_network (pm_permissions m)) \<and>
     (Fp_WorkspaceWrite \<in> set (perm_filesystem (pm_permissions m)) \<longrightarrow> Fp_WorkspaceRead \<in> set (perm_filesystem (pm_permissions m)))"

lemma split_on_parts_set: "\<Union> (set ` set (split_on d v)) = set v - {d}"
proof (induction v)
  case (Cons c cs)
  obtain q qs where "split_on d cs = q # qs" using split_on_ne by (metis list.exhaust)
  then show ?case using Cons by auto
qed simp

lemma validate_entrypoint_ok:
  "validate_entrypoint v = Ok u \<longleftrightarrow> v \<noteq> [] \<and> length v \<le> 240 \<and>
     (\<forall>part\<in>set (split_on (CHR ''/'') v). part \<noteq> [] \<and> part \<noteq> ''.'' \<and> part \<noteq> ''..'' \<and>
        list_all (\<lambda>b. is_ascii_alphanumeric b \<or> b \<in> set ''._-'') part)" (is "_ \<longleftrightarrow> ?r")
proof -
  have start: "[] \<in> set (split_on (CHR ''/'') v)" if "starts_with ''/'' v"
    using that by (auto simp: starts_with_iff)
  have stop: "[] \<in> set (split_on (CHR ''/'') v)" if "ends_with ''/'' v"
    using that split_on_append[of "CHR ''/''" _ "[]"] by (auto simp: ends_with_iff)
  have chars: "list_all (\<lambda>b. is_ascii_alphanumeric b \<or> b \<in> set ''/._-'') v \<longleftrightarrow>
      (\<forall>part\<in>set (split_on (CHR ''/'') v). list_all (\<lambda>b. is_ascii_alphanumeric b \<or> b \<in> set ''._-'') part)" (is "?l \<longleftrightarrow> ?p")
  proof -
    have "?p \<longleftrightarrow> (\<forall>b\<in>set v - {CHR ''/''}. is_ascii_alphanumeric b \<or> b \<in> set ''._-'')"
      unfolding split_on_parts_set[symmetric] by (auto simp: list_all_iff)
    moreover have "(is_ascii_alphanumeric b \<or> b \<in> set ''/._-'') \<longleftrightarrow> b = CHR ''/'' \<or> is_ascii_alphanumeric b \<or> b \<in> set ''._-''" for b
      by simp blast
    ultimately show ?thesis unfolding list_all_iff by blast
  qed
  have "validate_entrypoint v = Ok u \<longleftrightarrow> v \<noteq> [] \<and> length v \<le> 240 \<and> \<not> starts_with ''/'' v \<and> \<not> ends_with ''/'' v \<and>
      (\<forall>part\<in>set (split_on (CHR ''/'') v). part \<noteq> [] \<and> part \<noteq> ''.'' \<and> part \<noteq> ''..'') \<and> ?l"
    unfolding validate_entrypoint_def list_ex_iff MAX_ENTRYPOINT_BYTES_def by (simp only: guard_unit not_less de_Morgan_disj not_not bex_simps ball_simps HOL.simp_thms)
  then show ?thesis using start stop chars by blast
qed

lemma id_components_chars:
  assumes "\<forall>c\<in>set (id_components v). plugin_id_component_ok c"
  shows "list_all (\<lambda>b. is_ascii_lowercase b \<or> is_ascii_digit b \<or> b = CHR ''.'' \<or> b = CHR ''-'') v"
proof -
  have "is_ascii_lowercase b \<or> is_ascii_digit b" if "b \<in> set v - {CHR ''-''} - {CHR ''.''}" for b
  proof -
    from that have "b \<in> \<Union> (set ` set (split_on (CHR ''-'') v))" "b \<noteq> CHR ''.''" unfolding split_on_parts_set by blast+
    then obtain w where w: "w \<in> set (split_on (CHR ''-'') v)" "b \<in> set w - {CHR ''.''}" by blast
    then have "b \<in> \<Union> (set ` set (split_on (CHR ''.'') w))" unfolding split_on_parts_set by blast
    then obtain c where c: "c \<in> set (split_on (CHR ''.'') w)" "b \<in> set c" by blast
    then have "plugin_id_component_ok c" using w(1) assms by (auto simp: id_components_def)
    then show ?thesis using c(2) by (auto simp: plugin_id_component_ok_def list_all_iff split: list.splits)
  qed
  then show ?thesis by (auto simp: list_all_iff)
qed

lemma validate_plugin_id_ok:
  "validate_plugin_id v = Ok u \<longleftrightarrow> v \<noteq> [] \<and> length v \<le> 64 \<and> (\<forall>c\<in>set (id_components v). plugin_id_component_ok c)"
  using id_components_chars[of v] by (auto simp: validate_plugin_id_def MAX_PLUGIN_ID_BYTES_def list_ex_iff)

lemma validate_command_ok:
  "validate_command v = Ok u \<longleftrightarrow> v \<noteq> [] \<and> length v \<le> 64 \<and> is_ascii_alphanumeric (hd v) \<and>
     list_all (\<lambda>b. is_ascii_alphanumeric b \<or> b \<in> set ''._+-'') v"
  unfolding validate_command_def MAX_COMMAND_BYTES_def guard_unit by (simp only: not_less de_Morgan_disj not_not HOL.simp_thms)

lemma nonempty_declaration: "0 < length vs \<and> length vs \<le> n \<longleftrightarrow> vs \<noteq> [] \<and> length vs \<le> n"
  by simp

lemma PluginManifest_validate_ok: "PluginManifest_validate m = Ok u \<longleftrightarrow> manifest_ok m"
  unfolding PluginManifest_validate_def manifest_ok_def guard_ok check_then_ok validate_plugin_id_ok validate_entrypoint_ok
    validate_command_ok validate_unique_ok validate_nonempty_unique_ok CURRENT_MANIFEST_VERSION_def MAX_DECLARATIONS_def
    ball_simps insert_subset nonempty_declaration
  by (simp only: de_Morgan_disj de_Morgan_conj not_not empty_subsetI ok_unit HOL.simp_thms imp_conv_disj conj_assoc)
    (intro iffI; elim conjE; intro conjI; assumption)

section \<open>Properties\<close>

text \<open>
  A manifest is accepted exactly when it is bounded UTF-8 text that reads as a manifest of the closed
  schema in which the identifier, entrypoint and command are well formed (the entrypoint is a relative
  path whose parts are neither empty nor a dot name), the harness versions are bounded on both sides,
  every declaration list is bounded and without repetition, both boundary events and the permissions
  for them are declared, and writing the workspace implies reading it.
\<close>

theorem manifest_accepted_iff:
  "parse_toml toml_from_str input = Ok m \<longleftrightarrow>
     length input \<le> 65536 \<and> utf8_valid input \<and> toml_from_str input = Some m \<and> manifest_ok m \<and>
     (\<exists>op\<in>fst ` set (hs_version_requirement (pm_harness m)). op \<in> {Op_Exact, Op_Tilde, Op_Caret, Op_Greater, Op_GreaterEq}) \<and>
     (\<exists>op\<in>fst ` set (hs_version_requirement (pm_harness m)). op \<in> {Op_Exact, Op_Tilde, Op_Caret, Op_Less, Op_LessEq})"
proof -
  have "parse_toml toml_from_str input = Ok m \<longleftrightarrow>
      length input \<le> 65536 \<and> utf8_valid input \<and> toml_from_str input = Some m \<and> manifest_ok m"
    unfolding parse_toml_def guard_ok res_bind_ok_iff ok_or_ok_iff PluginManifest_validate_ok MAX_MANIFEST_BYTES_def
    by auto
  moreover have "manifest_ok m \<Longrightarrow> has_finite_version_bounds (hs_version_requirement (pm_harness m))"
    unfolding manifest_ok_def by (elim conjE)
  ultimately show ?thesis unfolding has_finite_version_bounds_def finite_bounds_loop_iff by blast
qed

end
