(* ===== verification/Plugin_Host.thy ===== *)
theory Plugin_Host
  imports Plugin_Api Exec "HOL-Library.List_Lexorder" "HOL-Library.Char_ord"
begin

text \<open>
  The plugin host (\<open>crates/blindfold-plugin-host/src/lib.rs\<close>): explicit plugin directories, loading of
  manifests and entrypoints, resolution of executables and the bounded version probe.  A path is its
  bytes; the file system answers the calls of the code and is a parameter, as are the TOML reader and
  the parser and the matcher of semantic versions.
\<close>

section \<open>Paths and the file system\<close>

definition is_absolute :: "string \<Rightarrow> bool" where
  "is_absolute p = starts_with ''/'' p"

definition path_join :: "string \<Rightarrow> string \<Rightarrow> string" where
  "path_join base p =
     (if is_absolute p then p
      else if base = [] \<or> ends_with ''/'' base then base @ p
      else base @ ''/'' @ p)"

text \<open>The named components of a path; empty parts and dots inside it are not components.\<close>

definition path_parts :: "string \<Rightarrow> string list" where
  "path_parts p = filter (\<lambda>c. c \<noteq> [] \<and> c \<noteq> ''.'') (split_on (CHR ''/'') p)"

definition path_starts_with :: "string \<Rightarrow> string \<Rightarrow> bool" where
  "path_starts_with base p \<longleftrightarrow> is_absolute base = is_absolute p \<and> starts_with (path_parts base) (path_parts p)"

datatype NodeKind = Nk_Symlink | Nk_Dir | Nk_File | Nk_Other

record NodeMeta =
  nm_kind :: NodeKind
  nm_mode :: "32 word"

datatype IoErrorKind = Io_NotFound | Io_Other

record HostFs =
  hf_symlink_metadata :: "string \<Rightarrow> NodeMeta option"
  hf_metadata :: "string \<Rightarrow> IoErrorKind + NodeMeta"
  hf_canonicalize :: "string \<Rightarrow> string option"
  hf_open :: "string \<Rightarrow> bool"
  hf_read :: "string \<Rightarrow> string option"

section \<open>Types\<close>

definition secs :: "nat \<Rightarrow> nat" where
  "secs n = n * 1000000000"

definition DEFAULT_OUTPUT_BYTES_PER_STREAM :: nat where
  "DEFAULT_OUTPUT_BYTES_PER_STREAM = 16 * 1024"

definition MAX_OUTPUT_BYTES_PER_STREAM :: nat where
  "MAX_OUTPUT_BYTES_PER_STREAM = 1024 * 1024"

definition DEFAULT_TIMEOUT :: nat where
  "DEFAULT_TIMEOUT = secs 5"

definition MAX_TIMEOUT :: nat where
  "MAX_TIMEOUT = secs 30"

definition MAX_EXPECTED_MARKER_BYTES :: nat where
  "MAX_EXPECTED_MARKER_BYTES = 128"

record InstalledPlugin =
  ip_directory :: string
  ip_manifest :: PluginManifest
  ip_entrypoint :: string

datatype HostError =
    HE_InvalidPluginDirectory | HE_DuplicatePluginDirectory | HE_InvalidPluginManifest | HE_DuplicatePluginId
  | HE_InvalidPluginEntrypoint | HE_InvalidExecutablePath | HE_ExecutableNotFound | HE_ExecutableNotRunnable
  | HE_InvalidProbeLimits | HE_InvalidExpectedMarker | HE_ProbeFailed | HE_ProbeTimedOut | HE_ProbeOutputTooLarge
  | HE_ProbeUnsuccessful | HE_InvalidProbeOutput | HE_ExpectedMarkerMissing | HE_VersionMissing | HE_VersionAmbiguous
  | HE_VersionIncompatible

fun HostError_fmt :: "HostError \<Rightarrow> string" where
  "HostError_fmt HE_InvalidPluginDirectory = ''an explicit plugin directory is invalid''"
| "HostError_fmt HE_DuplicatePluginDirectory = ''an explicit plugin directory is duplicated''"
| "HostError_fmt HE_InvalidPluginManifest = ''an installed plugin manifest is invalid''"
| "HostError_fmt HE_DuplicatePluginId = ''an installed plugin identifier is duplicated''"
| "HostError_fmt HE_InvalidPluginEntrypoint = ''an installed plugin entrypoint is invalid''"
| "HostError_fmt HE_InvalidExecutablePath = ''the executable path policy rejected the command''"
| "HostError_fmt HE_ExecutableNotFound = ''the executable was not found in the explicit search path''"
| "HostError_fmt HE_ExecutableNotRunnable = ''the resolved executable is not runnable''"
| "HostError_fmt HE_InvalidProbeLimits = ''the executable probe limits are invalid''"
| "HostError_fmt HE_InvalidExpectedMarker = ''the executable marker is invalid''"
| "HostError_fmt HE_ProbeFailed = ''the executable version probe failed''"
| "HostError_fmt HE_ProbeTimedOut = ''the executable version probe timed out''"
| "HostError_fmt HE_ProbeOutputTooLarge = ''the executable version probe output was too large''"
| "HostError_fmt HE_ProbeUnsuccessful = ''the executable version probe was unsuccessful''"
| "HostError_fmt HE_InvalidProbeOutput = ''the executable version output is invalid''"
| "HostError_fmt HE_ExpectedMarkerMissing = ''the executable version marker is missing''"
| "HostError_fmt HE_VersionMissing = ''the executable semantic version is missing''"
| "HostError_fmt HE_VersionAmbiguous = ''the executable semantic version is ambiguous''"
| "HostError_fmt HE_VersionIncompatible = ''the executable version is incompatible''"

record ProbeLimits =
  pl_timeout :: nat
  pl_output_bytes_per_stream :: nat

definition ProbeLimits_new :: "nat \<Rightarrow> nat \<Rightarrow> HostError + ProbeLimits" where
  "ProbeLimits_new timeout output_bytes_per_stream =
     (if timeout = 0 \<or> timeout > MAX_TIMEOUT \<or> output_bytes_per_stream = 0 \<or>
         output_bytes_per_stream > MAX_OUTPUT_BYTES_PER_STREAM
      then Err HE_InvalidProbeLimits
      else Ok \<lparr>pl_timeout = timeout, pl_output_bytes_per_stream = output_bytes_per_stream\<rparr>)"

definition ProbeLimits_default :: ProbeLimits where
  "ProbeLimits_default = \<lparr>pl_timeout = DEFAULT_TIMEOUT, pl_output_bytes_per_stream = DEFAULT_OUTPUT_BYTES_PER_STREAM\<rparr>"

section \<open>Executables\<close>

definition is_executable :: "NodeMeta \<Rightarrow> bool" where
  "is_executable md \<longleftrightarrow> and (nm_mode md) 0x49 \<noteq> 0"

definition validate_executable :: "HostFs \<Rightarrow> string \<Rightarrow> HostError + string" where
  "validate_executable fs p =
     (if \<not> is_absolute p then Err HE_InvalidExecutablePath
      else case hf_metadata fs p of
        Inl Io_NotFound \<Rightarrow> Err HE_ExecutableNotFound
      | Inl Io_Other \<Rightarrow> Err HE_ExecutableNotRunnable
      | Inr md \<Rightarrow>
          if nm_kind md \<noteq> Nk_File then Err HE_ExecutableNotRunnable
          else res_bind (ok_or (hf_canonicalize fs p) HE_ExecutableNotRunnable) (\<lambda>canonical.
            if \<not> is_absolute canonical \<or> \<not> is_executable md then Err HE_ExecutableNotRunnable
            else Ok canonical))"

definition validate_search_path :: "string \<Rightarrow> HostError + string" where
  "validate_search_path p =
     (let entries = split_on (CHR '':'') p in
      if entries = [] \<or> list_ex (\<lambda>e. e = [] \<or> \<not> is_absolute e) entries then Err HE_InvalidExecutablePath
      else if list_ex (\<lambda>e. CHR '':'' \<in> set e) entries then Err HE_InvalidExecutablePath
      else Ok (join_with '':'' entries))"

text \<open>A relative path with one component that is a name: a dot counts only at the start.\<close>

definition is_bare_command :: "string \<Rightarrow> bool" where
  "is_bare_command p \<longleftrightarrow>
     \<not> is_absolute p \<and> hd (split_on (CHR ''/'') p) \<noteq> ''.'' \<and>
     (case path_parts p of [c] \<Rightarrow> c \<noteq> ''..'' | _ \<Rightarrow> False)"

fun resolve_loop :: "HostFs \<Rightarrow> string \<Rightarrow> bool \<Rightarrow> string list \<Rightarrow> HostError + string" where
  "resolve_loop fs command found_non_runnable [] =
     Err (if found_non_runnable then HE_ExecutableNotRunnable else HE_ExecutableNotFound)"
| "resolve_loop fs command found_non_runnable (entry # entries) =
     (case validate_executable fs (path_join entry command) of
        Inr executable \<Rightarrow> Ok executable
      | Inl e \<Rightarrow>
          if e = HE_ExecutableNotRunnable then resolve_loop fs command True entries
          else if e = HE_ExecutableNotFound then resolve_loop fs command found_non_runnable entries
          else Err e)"

definition resolve_executable :: "HostFs \<Rightarrow> string \<Rightarrow> string option \<Rightarrow> HostError + string" where
  "resolve_executable fs command p =
     (if is_absolute command then validate_executable fs command
      else if \<not> is_bare_command command then Err HE_InvalidExecutablePath
      else
        res_bind (ok_or p HE_ExecutableNotFound) (\<lambda>p.
        res_bind (validate_search_path p) (\<lambda>p.
        resolve_loop fs command False (split_on (CHR '':'') p))))"

section \<open>Plugins\<close>

fun discover_loop :: "HostFs \<Rightarrow> (string list \<times> string) list \<Rightarrow> string list \<Rightarrow> HostError + (string list \<times> string) list" where
  "discover_loop fs discovered [] = Ok discovered"
| "discover_loop fs discovered (directory # directories) =
     (if \<not> is_absolute directory then Err HE_InvalidPluginDirectory
      else
        res_bind (ok_or (hf_symlink_metadata fs directory) HE_InvalidPluginDirectory) (\<lambda>md.
        if nm_kind md = Nk_Symlink \<or> nm_kind md \<noteq> Nk_Dir then Err HE_InvalidPluginDirectory
        else
          res_bind (ok_or (hf_canonicalize fs directory) HE_InvalidPluginDirectory) (\<lambda>canonical.
          if bt_get discovered (path_parts canonical) \<noteq> None then Err HE_DuplicatePluginDirectory
          else discover_loop fs (bt_insert (path_parts canonical) canonical discovered) directories)))"

text \<open>The set of canonical paths is ordered by their components.\<close>

definition discover_explicit_plugin_dirs :: "HostFs \<Rightarrow> string list \<Rightarrow> HostError + string list" where
  "discover_explicit_plugin_dirs fs directories = res_map (map snd) (discover_loop fs [] directories)"

definition load_plugin ::
  "HostFs \<Rightarrow> (string \<Rightarrow> PluginManifest option) \<Rightarrow> string set \<Rightarrow> string \<Rightarrow> HostError + InstalledPlugin"
where
  "load_plugin fs toml_from_str plugin_ids directory =
     (let manifest_path = path_join directory MANIFEST_FILE_NAME in
      res_bind (ok_or (hf_symlink_metadata fs manifest_path) HE_InvalidPluginManifest) (\<lambda>md.
      if nm_kind md = Nk_Symlink \<or> nm_kind md \<noteq> Nk_File then Err HE_InvalidPluginManifest
      else if \<not> hf_open fs manifest_path then Err HE_InvalidPluginManifest
      else
        res_bind (ok_or (hf_read fs manifest_path) HE_InvalidPluginManifest) (\<lambda>data.
        res_bind (map_err (\<lambda>_. HE_InvalidPluginManifest) (parse_toml toml_from_str (take (MAX_MANIFEST_BYTES + 1) data)))
          (\<lambda>manifest.
        if pm_id manifest \<in> plugin_ids then Err HE_DuplicatePluginId
        else
          res_bind (map_err (\<lambda>_. HE_InvalidPluginEntrypoint)
              (validate_executable fs (path_join directory (pm_entrypoint manifest)))) (\<lambda>entrypoint.
          if \<not> path_starts_with directory entrypoint then Err HE_InvalidPluginEntrypoint
          else Ok \<lparr>ip_directory = directory, ip_manifest = manifest, ip_entrypoint = entrypoint\<rparr>)))))"

fun load_loop ::
  "HostFs \<Rightarrow> (string \<Rightarrow> PluginManifest option) \<Rightarrow> string set \<Rightarrow> InstalledPlugin list \<Rightarrow> string list \<Rightarrow> HostError + InstalledPlugin list"
where
  "load_loop fs toml_from_str plugin_ids plugins [] = Ok plugins"
| "load_loop fs toml_from_str plugin_ids plugins (directory # directories) =
     res_bind (load_plugin fs toml_from_str plugin_ids directory) (\<lambda>plugin.
       load_loop fs toml_from_str (insert (pm_id (ip_manifest plugin)) plugin_ids) (plugins @ [plugin]) directories)"

definition load_explicit_plugins ::
  "HostFs \<Rightarrow> (string \<Rightarrow> PluginManifest option) \<Rightarrow> string list \<Rightarrow> HostError + InstalledPlugin list"
where
  "load_explicit_plugins fs toml_from_str directories =
     res_bind (discover_explicit_plugin_dirs fs directories) (\<lambda>directories. load_loop fs toml_from_str {} [] directories)"

section \<open>The version probe\<close>

definition is_version_separator :: "char \<Rightarrow> bool" where
  "is_version_separator c \<longleftrightarrow> is_ascii_whitespace c \<or> c \<in> set '',;:=/()[]{}'' \<or> c = CHR 0x22 \<or> c = CHR 0x27"

fun split_pred :: "('a \<Rightarrow> bool) \<Rightarrow> 'a list \<Rightarrow> 'a list list" where
  "split_pred p [] = [[]]"
| "split_pred p (c # cs) =
     (if p c then [] # split_pred p cs
      else case split_pred p cs of [] \<Rightarrow> [[c]] | q # qs \<Rightarrow> (c # q) # qs)"

definition version_candidate :: "string \<Rightarrow> string" where
  "version_candidate token =
     (case strip_prefix ''v'' token of
        Some r \<Rightarrow> r
      | None \<Rightarrow> (case strip_prefix ''V'' token of Some r \<Rightarrow> r | None \<Rightarrow> token))"

text \<open>\<open>match_indices\<close>: the matches from left to right, each search starting after the previous match.\<close>

function match_indices :: "nat \<Rightarrow> string \<Rightarrow> string \<Rightarrow> nat list" where
  "match_indices n marker s =
     (if marker = [] \<or> s = [] then []
      else if starts_with marker s then n # match_indices (n + length marker) marker (drop (length marker) s)
      else match_indices (n + 1) marker (tl s))"
  by pat_completeness auto
termination by (relation "measure (\<lambda>(n, marker, s). length s)") auto

declare match_indices.simps [simp del]

definition contains_marker :: "string \<Rightarrow> string \<Rightarrow> bool" where
  "contains_marker output marker =
     (let output = to_ascii_lowercase output; marker = to_ascii_lowercase marker in
      list_ex (\<lambda>start.
        let stop = start + length marker;
            starts_at_boundary = (start = 0 \<or> \<not> is_ascii_alphanumeric (output ! (start - 1)));
            ends_at_boundary = (stop = length output \<or> \<not> is_ascii_alphanumeric (output ! stop))
        in starts_at_boundary \<and> ends_at_boundary) (match_indices 0 marker output))"

definition validate_marker :: "string \<Rightarrow> HostError + unit" where
  "validate_marker marker =
     (if marker = [] \<or> length marker > MAX_EXPECTED_MARKER_BYTES \<or>
         \<not> list_all (\<lambda>b. is_ascii_alphanumeric b \<or> b \<in> set '' -_.'') marker
      then Err HE_InvalidExpectedMarker else Ok ())"

definition parse_version_output ::
  "(string \<Rightarrow> Version option) \<Rightarrow> string \<Rightarrow> string option \<Rightarrow> HostError + Version"
where
  "parse_version_output version_parse output expected_marker =
     (if (case expected_marker of Some marker \<Rightarrow> \<not> contains_marker output marker | None \<Rightarrow> False)
      then Err HE_ExpectedMarkerMissing
      else
        (let versions = remdups (List.map_filter (\<lambda>token. version_parse (version_candidate token))
                          (split_pred is_version_separator output))
         in case versions of
              [] \<Rightarrow> Err HE_VersionMissing
            | [v] \<Rightarrow> Ok v
            | _ \<Rightarrow> Err HE_VersionAmbiguous))"

definition probe_request :: "string \<Rightarrow> string \<Rightarrow> string list \<Rightarrow> ProbeLimits \<Rightarrow> string \<Rightarrow> HostError + ExecutionRequest" where
  "probe_request program probe_path arguments limits search_path =
     (let command = \<lparr>cs_program = program, cs_arguments = arguments, cs_working_directory = Some probe_path\<rparr>;
          execution_limits = ExecutionLimits_new\<lparr>el_timeout := Some (pl_timeout limits),
                               el_output_bytes_per_stream := pl_output_bytes_per_stream limits\<rparr>
      in res_bind (map_err (\<lambda>_. HE_ProbeFailed) (EnvironmentName_new ''PATH'')) (\<lambda>path_name.
         let environment = set_baseline EnvironmentPolicy_new path_name search_path in
         res_bind (map_err (\<lambda>_. HE_ProbeFailed) (EnvironmentName_new ''HOME'')) (\<lambda>home_name.
         let environment = set_baseline environment home_name probe_path in
         Ok ((ExecutionRequest_new command)\<lparr>er_environment := environment, er_limits := execution_limits\<rparr>))))"

definition probe_result ::
  "(string \<Rightarrow> Version option) \<Rightarrow> (VersionReq \<Rightarrow> Version \<Rightarrow> bool) \<Rightarrow> string option \<Rightarrow> VersionReq \<Rightarrow> ExecutionResult \<Rightarrow> HostError + Version"
where
  "probe_result version_parse matches_req expected_marker requirement result =
     (if em_timed_out (ea_exit (ex_audit result)) then Err HE_ProbeTimedOut
      else if ea_stdout_truncated (ex_audit result) \<or> ea_stderr_truncated (ex_audit result) then Err HE_ProbeOutputTooLarge
      else if \<not> ExitMetadata_success (ea_exit (ex_audit result)) then Err HE_ProbeUnsuccessful
      else if \<not> utf8_valid (ex_stdout result) then Err HE_InvalidProbeOutput
      else if \<not> utf8_valid (ex_stderr result) then Err HE_InvalidProbeOutput
      else
        res_bind (parse_version_output version_parse (ex_stdout result @ nl @ ex_stderr result) expected_marker) (\<lambda>version.
        if \<not> matches_req requirement version then Err HE_VersionIncompatible else Ok version))"

text \<open>
  The probe: \<open>tempdir\<close> is the temporary directory the library creates, \<open>None\<close> when it cannot; the
  result is \<open>None\<close> while the child is still being polled.
\<close>

definition probe_version ::
  "HostFs \<Rightarrow> string option \<Rightarrow> (string \<Rightarrow> string option) \<Rightarrow> ChildOs \<Rightarrow> (string \<Rightarrow> Version option) \<Rightarrow> (VersionReq \<Rightarrow> Version \<Rightarrow> bool) \<Rightarrow>
     string \<Rightarrow> string list \<Rightarrow> string option \<Rightarrow> VersionReq \<Rightarrow> ProbeLimits \<Rightarrow> string \<Rightarrow> (HostError + Version) option"
where
  "probe_version fs tempdir parent os version_parse matches_req program arguments expected_marker requirement limits search_path =
     (case
        res_bind (case expected_marker of Some marker \<Rightarrow> validate_marker marker | None \<Rightarrow> Ok ()) (\<lambda>_.
        res_bind (validate_executable fs program) (\<lambda>program.
        res_bind (validate_search_path search_path) (\<lambda>search_path.
        res_bind (ok_or tempdir HE_ProbeFailed) (\<lambda>probe_directory.
        res_bind (ok_or (hf_canonicalize fs probe_directory) HE_ProbeFailed) (\<lambda>probe_path.
        probe_request program probe_path arguments limits search_path)))))
      of
        Inl e \<Rightarrow> Some (Err e)
      | Inr request \<Rightarrow>
          map_option (\<lambda>outcome.
            res_bind (map_err (\<lambda>_. HE_ProbeFailed) outcome) (probe_result version_parse matches_req expected_marker requirement))
            (execute parent os request))"

section \<open>Lemmas\<close>

definition runnable :: "HostFs \<Rightarrow> string \<Rightarrow> string \<Rightarrow> bool" where
  "runnable fs p c \<longleftrightarrow> is_absolute p \<and> is_absolute c \<and> hf_canonicalize fs p = Some c \<and>
     (\<exists>md. hf_metadata fs p = Inr md \<and> nm_kind md = Nk_File \<and> is_executable md)"

lemma validate_executable_ok: "validate_executable fs p = Ok c \<longleftrightarrow> runnable fs p c"
  by (auto simp: validate_executable_def runnable_def res_bind_ok_iff ok_or_ok_iff split: sum.splits IoErrorKind.splits)

lemma validate_search_path_ok:
  "validate_search_path p = Ok p' \<longleftrightarrow> p' = p \<and> (\<forall>e\<in>set (split_on (CHR '':'') p). is_absolute e)"
proof -
  have abs: "is_absolute e \<Longrightarrow> e \<noteq> []" for e by (auto simp: is_absolute_def starts_with_iff)
  show ?thesis
    using join_split_on[of "CHR '':''" p]
    by (auto simp: validate_search_path_def Let_def list_ex_iff dest: split_on_no_delim abs)
qed

lemma first_such_Cons:
  "(\<exists>us e vs. x # xs = us @ e # vs \<and> P e \<and> (\<forall>u\<in>set us. Q u)) \<longleftrightarrow>
     P x \<or> Q x \<and> (\<exists>us e vs. xs = us @ e # vs \<and> P e \<and> (\<forall>u\<in>set us. Q u))" (is "?l \<longleftrightarrow> _ \<or> _ \<and> ?t")
proof
  assume ?l
  then obtain us e vs where "x # xs = us @ e # vs" "P e" "\<forall>u\<in>set us. Q u" by blast
  then show "P x \<or> Q x \<and> ?t" by (cases us) auto
next
  have "?l" if "P x" using that by (intro exI[of _ "[]"] exI[of _ x] exI[of _ xs]) simp
  moreover have "?l" if q: "Q x" and t: ?t
  proof -
    from t obtain us e vs where "xs = us @ e # vs" "P e" "\<forall>u\<in>set us. Q u" by blast
    then show ?thesis using q by (intro exI[of _ "x # us"] exI[of _ e] exI[of _ vs]) simp
  qed
  ultimately show "P x \<or> Q x \<and> ?t \<Longrightarrow> ?l" by blast
qed

text \<open>A search returns the executable of the first entry that has one; earlier entries have no runnable file.\<close>

lemma resolve_loop_ok:
  "resolve_loop fs command b es = Ok c \<longleftrightarrow>
     (\<exists>us e vs. es = us @ e # vs \<and> runnable fs (path_join e command) c \<and>
        (\<forall>u\<in>set us. validate_executable fs (path_join u command) \<in> {Err HE_ExecutableNotRunnable, Err HE_ExecutableNotFound}))"
proof (induction es arbitrary: b)
  case (Cons e es)
  define T where "T \<longleftrightarrow> (\<exists>us e vs. es = us @ e # vs \<and> runnable fs (path_join e command) c \<and>
      (\<forall>u\<in>set us. validate_executable fs (path_join u command) \<in> {Err HE_ExecutableNotRunnable, Err HE_ExecutableNotFound}))"
  have T: "resolve_loop fs command b' es = Ok c \<longleftrightarrow> T" for b' using Cons.IH[of b'] by (simp only: T_def)
  show ?case
    unfolding first_such_Cons T_def[symmetric] using T
    by (cases "validate_executable fs (path_join e command)") (auto simp flip: validate_executable_ok)
qed simp

definition plugin_dir :: "HostFs \<Rightarrow> string \<Rightarrow> string \<Rightarrow> bool" where
  "plugin_dir fs d c \<longleftrightarrow> is_absolute d \<and> (\<exists>md. hf_symlink_metadata fs d = Some md \<and> nm_kind md = Nk_Dir) \<and> hf_canonicalize fs d = Some c"

lemma discover_step:
  "discover_loop fs m (d # ds) = Ok m' \<longleftrightarrow>
     (\<exists>c. plugin_dir fs d c \<and> path_parts c \<notin> fst ` set m \<and> discover_loop fs (bt_insert (path_parts c) c m) ds = Ok m')"
  by (cases "hf_symlink_metadata fs d"; cases "hf_canonicalize fs d")
    (auto simp: plugin_dir_def bt_get_def map_of_eq_None_iff domIff)

lemma discover_loop_ok:
  "discover_loop fs m ds = Ok m' \<longleftrightarrow>
     (\<exists>cs. list_all2 (plugin_dir fs) ds cs \<and> distinct (map path_parts cs) \<and> path_parts ` set cs \<inter> fst ` set m = {} \<and>
        m' = bt.put_all (map (\<lambda>c. (path_parts c, c)) cs) m)"
proof (induction ds arbitrary: m)
  case (Cons d ds)
  have "discover_loop fs m (d # ds) = Ok m' \<longleftrightarrow> (\<exists>c cs. plugin_dir fs d c \<and> path_parts c \<notin> fst ` set m \<and>
      list_all2 (plugin_dir fs) ds cs \<and> distinct (map path_parts cs) \<and>
      path_parts ` set cs \<inter> insert (path_parts c) (fst ` set m) = {} \<and>
      m' = bt.put_all (map (\<lambda>c. (path_parts c, c)) cs) (bt_insert (path_parts c) c m))"
    unfolding discover_step Cons.IH bt_insert_keys by blast
  moreover have "(\<exists>cs. list_all2 (plugin_dir fs) (d # ds) cs \<and> Q cs) \<longleftrightarrow>
      (\<exists>c cs. plugin_dir fs d c \<and> list_all2 (plugin_dir fs) ds cs \<and> Q (c # cs))" for Q
    by (auto simp: list_all2_Cons1)
  ultimately show ?case by auto
qed auto

lemma bt_put_all_set:
  "bt_inv m \<Longrightarrow> distinct (map fst kvs) \<Longrightarrow> fst ` set kvs \<inter> fst ` set m = {} \<Longrightarrow> set (bt.put_all kvs m) = set kvs \<union> set m"
proof (induction kvs arbitrary: m)
  case (Cons kv kvs)
  obtain k v where kv: "kv = (k, v)" by force
  have ins: "k \<notin> fst ` set m' \<Longrightarrow> set (bt_insert k v m') = insert (k, v) (set m')" for m'
    by (induction k v m' rule: bt_insert.induct) auto
  have "fst ` set kvs \<inter> fst ` set (bt_insert k v m) = {}" using Cons.prems by (auto simp: kv bt_insert_keys)
  then have "set (bt.put_all kvs (bt_insert k v m)) = set kvs \<union> set (bt_insert k v m)"
    using Cons.IH[OF bt_inv_insert[OF Cons.prems(1)]] Cons.prems by (simp add: kv)
  moreover have "k \<notin> fst ` set m" using Cons.prems by (auto simp: kv)
  ultimately show ?case by (auto simp: kv ins)
qed simp

definition installed :: "HostFs \<Rightarrow> (string \<Rightarrow> PluginManifest option) \<Rightarrow> InstalledPlugin \<Rightarrow> bool" where
  "installed fs toml_from_str p \<longleftrightarrow>
     (let file = path_join (ip_directory p) ''blindfold-plugin.toml'' in
      (\<exists>md. hf_symlink_metadata fs file = Some md \<and> nm_kind md = Nk_File) \<and> hf_open fs file \<and>
      (\<exists>data. hf_read fs file = Some data \<and> length data \<le> 65536 \<and> utf8_valid data \<and> toml_from_str data = Some (ip_manifest p)) \<and>
      manifest_ok (ip_manifest p)) \<and>
     runnable fs (path_join (ip_directory p) (pm_entrypoint (ip_manifest p))) (ip_entrypoint p) \<and>
     is_absolute (ip_directory p) = is_absolute (ip_entrypoint p) \<and>
     prefix (path_parts (ip_directory p)) (path_parts (ip_entrypoint p))"

lemma parse_toml_take:
  "parse_toml toml_from_str (take (MAX_MANIFEST_BYTES + 1) data) = Ok m \<longleftrightarrow>
     length data \<le> 65536 \<and> utf8_valid data \<and> toml_from_str data = Some m \<and> manifest_ok m"
proof (cases "length data \<le> 65536")
  case True
  then show ?thesis
    by (auto simp: parse_toml_def MAX_MANIFEST_BYTES_def res_bind_ok_iff ok_or_ok_iff PluginManifest_validate_ok)
qed (simp add: parse_toml_def MAX_MANIFEST_BYTES_def)

lemma starts_with_prefix: "starts_with p s \<longleftrightarrow> prefix p s"
  by (auto simp: starts_with_iff prefix_def)

lemma load_plugin_ok:
  "load_plugin fs toml_from_str ids d = Ok p \<longleftrightarrow>
     ip_directory p = d \<and> pm_id (ip_manifest p) \<notin> ids \<and> installed fs toml_from_str p"
proof -
  have eq: "Ok \<lparr>ip_directory = d, ip_manifest = m, ip_entrypoint = e\<rparr> = (Ok p :: HostError + InstalledPlugin) \<longleftrightarrow>
      ip_directory p = d \<and> ip_manifest p = m \<and> ip_entrypoint p = e" for m e by (cases p) auto
  show ?thesis
    unfolding load_plugin_def installed_def Let_def MANIFEST_FILE_NAME_def res_bind_ok_iff guard_ok ok_or_ok_iff map_err_ok_iff
      parse_toml_take validate_executable_ok eq path_starts_with_def starts_with_prefix
    by auto
qed

lemma load_loop_ok:
  "load_loop fs toml_from_str ids acc ds = Ok ps \<longleftrightarrow>
     (\<exists>new. ps = acc @ new \<and> map ip_directory new = ds \<and> list_all (installed fs toml_from_str) new \<and>
        distinct (map (pm_id \<circ> ip_manifest) new) \<and> ids \<inter> (pm_id \<circ> ip_manifest) ` set new = {})"
proof (induction ds arbitrary: ids acc)
  case (Cons d ds)
  have "load_loop fs toml_from_str ids acc (d # ds) = Ok ps \<longleftrightarrow> (\<exists>p new. ip_directory p = d \<and> pm_id (ip_manifest p) \<notin> ids \<and>
      installed fs toml_from_str p \<and> ps = acc @ p # new \<and> map ip_directory new = ds \<and> list_all (installed fs toml_from_str) new \<and>
      distinct (map (pm_id \<circ> ip_manifest) new) \<and> insert (pm_id (ip_manifest p)) ids \<inter> (pm_id \<circ> ip_manifest) ` set new = {})"
    by (simp add: res_bind_ok_iff load_plugin_ok Cons.IH comp_def)
  moreover have "(\<exists>xs. map ip_directory xs = d # ds \<and> Q xs) \<longleftrightarrow> (\<exists>x xs. ip_directory x = d \<and> map ip_directory xs = ds \<and> Q (x # xs))" for Q
    by (auto simp: map_eq_Cons_conv)
  moreover have "(\<exists>new. ps = acc @ new \<and> map ip_directory new = d # ds \<and> R new) \<longleftrightarrow>
      (\<exists>new. map ip_directory new = d # ds \<and> ps = acc @ new \<and> R new)" for R by auto
  ultimately show ?case unfolding comp_def by auto
qed auto

lemma strict_sorted_by_unique:
  fixes f :: "'a \<Rightarrow> 'k::linorder"
  assumes "sorted_wrt (<) (map f xs)" and "sorted_wrt (<) (map f ys)" and "set xs = set ys"
  shows "xs = ys"
proof -
  have "map f xs = map f ys" by (rule strict_sorted_equal[OF assms(2,1)]) (simp add: assms(3))
  moreover have "inj_on f (set xs \<union> set ys)" using assms by (simp add: strict_sorted_iff distinct_map)
  ultimately show ?thesis by (rule map_inj_on)
qed

lemma discover_dirs_ok:
  "discover_explicit_plugin_dirs fs ds = Ok es \<longleftrightarrow>
     (\<exists>cs. list_all2 (plugin_dir fs) ds cs \<and> distinct (map path_parts cs) \<and> set es = set cs \<and> sorted_wrt (<) (map path_parts es))"
proof -
  have "es = map snd (bt.put_all (map (\<lambda>c. (path_parts c, c)) cs) []) \<longleftrightarrow>
      set es = set cs \<and> sorted_wrt (<) (map path_parts es)" if d: "distinct (map path_parts cs)" for cs
  proof -
    let ?m = "bt.put_all (map (\<lambda>c. (path_parts c, c)) cs) []"
    have set: "set ?m = (\<lambda>c. (path_parts c, c)) ` set cs" using d by (simp add: bt_put_all_set comp_def)
    have "map path_parts (map snd ?m) = map fst ?m"
      unfolding map_map by (rule map_cong) (use set in auto)
    then have "sorted_wrt (<) (map path_parts (map snd ?m))" using bt.inv_put_all[OF bt.inv_empty] by (simp only:)
    moreover have "set (map snd ?m) = set cs" unfolding set_map set by (simp add: image_comp comp_def)
    ultimately have m: "es = map snd ?m \<Longrightarrow> set es = set cs \<and> sorted_wrt (<) (map path_parts es)"
      "set es = set cs \<Longrightarrow> sorted_wrt (<) (map path_parts es) \<Longrightarrow> es = map snd ?m"
      by (simp only: simp_thms, intro strict_sorted_by_unique[of path_parts]) (simp_all only:)
    show ?thesis by (rule iffI) (erule m(1), elim conjE, rule m(2))
  qed
  moreover have "discover_explicit_plugin_dirs fs ds = Ok es \<longleftrightarrow>
      (\<exists>cs. list_all2 (plugin_dir fs) ds cs \<and> distinct (map path_parts cs) \<and>
         es = map snd (bt.put_all (map (\<lambda>c. (path_parts c, c)) cs) []))"
    unfolding discover_explicit_plugin_dirs_def res_map_ok_iff discover_loop_ok by simp blast
  ultimately show ?thesis by (metis (no_types, lifting))
qed

lemma match_indices_sound:
  "i \<in> set (match_indices n marker s) \<Longrightarrow> n \<le> i \<and> marker \<noteq> [] \<and> (\<exists>pre post. s = pre @ marker @ post \<and> i = n + length pre)"
proof (induction n marker s rule: match_indices.induct)
  case (1 n marker s)
  then have ne: "marker \<noteq> []" "s \<noteq> []" by (auto simp: match_indices.simps[of n marker s] split: if_splits)
  show ?case
  proof (cases "starts_with marker s")
    case True
    then obtain r where r: "s = marker @ r" by (auto simp: starts_with_iff)
    have "i = n \<or> i \<in> set (match_indices (n + length marker) marker r)"
      using "1.prems" ne True by (simp add: match_indices.simps[of n marker s]) (simp add: r)
    then show ?thesis
    proof
      assume "i = n"
      then show ?thesis using ne r by (auto intro: exI[of _ "[]"])
    next
      assume "i \<in> set (match_indices (n + length marker) marker r)"
      then obtain pre post where "r = pre @ marker @ post" "i = n + length marker + length pre"
        using "1.IH"(1) ne True r by auto
      then show ?thesis using ne r by (intro conjI exI[of _ "marker @ pre"] exI[of _ post]) simp_all
    qed
  next
    case False
    obtain c r where s: "s = c # r" using ne by (cases s) auto
    have "i \<in> set (match_indices (n + 1) marker r)"
      using "1.prems" ne False by (simp add: match_indices.simps[of n marker s]) (simp add: s)
    then obtain pre post where "r = pre @ marker @ post" "i = n + 1 + length pre"
      using "1.IH"(2) ne False s by auto
    then show ?thesis using ne s by (intro conjI exI[of _ "c # pre"] exI[of _ post]) simp_all
  qed
qed

definition marker_at_boundary :: "string \<Rightarrow> string \<Rightarrow> bool" where
  "marker_at_boundary output marker \<longleftrightarrow>
     (\<exists>pre post. to_ascii_lowercase output = pre @ to_ascii_lowercase marker @ post \<and>
        (pre = [] \<or> \<not> is_ascii_alphanumeric (last pre)) \<and> (post = [] \<or> \<not> is_ascii_alphanumeric (hd post)))"

lemma contains_marker_sound:
  assumes "contains_marker output marker"
  shows "marker_at_boundary output marker"
proof -
  let ?o = "to_ascii_lowercase output" and ?m = "to_ascii_lowercase marker"
  obtain i where i: "i \<in> set (match_indices 0 ?m ?o)" "i = 0 \<or> \<not> is_ascii_alphanumeric (?o ! (i - 1))"
    "i + length ?m = length ?o \<or> \<not> is_ascii_alphanumeric (?o ! (i + length ?m))"
    using assms unfolding contains_marker_def Let_def list_ex_iff by blast
  obtain pre post where o: "?o = pre @ ?m @ post" "i = length pre"
    using match_indices_sound[OF i(1)] by auto
  have "pre = [] \<or> \<not> is_ascii_alphanumeric (last pre)"
    using i(2) unfolding o by (cases pre rule: rev_cases) (auto simp: nth_append)
  moreover have "post = [] \<or> \<not> is_ascii_alphanumeric (hd post)"
    using i(3) unfolding o by (cases post) (auto simp: nth_append)
  ultimately show ?thesis unfolding marker_at_boundary_def using o(1) by blast
qed

definition versions_in :: "(string \<Rightarrow> Version option) \<Rightarrow> string \<Rightarrow> Version set" where
  "versions_in version_parse output =
     {v. \<exists>token\<in>set (split_pred is_version_separator output). version_parse (version_candidate token) = Some v}"

lemma parse_version_output_ok:
  "parse_version_output version_parse output expected_marker = Ok v \<longleftrightarrow>
     (\<forall>marker. expected_marker = Some marker \<longrightarrow> contains_marker output marker) \<and> versions_in version_parse output = {v}"
proof -
  let ?vs = "remdups (List.map_filter (\<lambda>token. version_parse (version_candidate token)) (split_pred is_version_separator output))"
  have "set ?vs = versions_in version_parse output"
    by (auto simp: versions_in_def List.map_filter_def image_iff) (metis option.sel)+
  moreover have "distinct ?vs" by simp
  moreover have "(case vs of [] \<Rightarrow> Err HE_VersionMissing | [v] \<Rightarrow> Ok v | _ \<Rightarrow> Err HE_VersionAmbiguous) = Ok v \<longleftrightarrow> set vs = {v}"
    if "distinct vs" for vs :: "Version list"
    using that by (auto split: list.splits simp: distinct_length_2_or_more)
  ultimately show ?thesis
    unfolding parse_version_output_def Let_def by (auto split: option.splits)
qed

lemma render_no_patterns: "render (tokens [] s) = s"
  by (induction s) (auto simp: longest_match_def)

lemma probe_request_ok:
  "probe_request program home args limits search_path = Ok r \<longleftrightarrow>
     r = \<lparr>er_command = \<lparr>cs_program = program, cs_arguments = args, cs_working_directory = Some home\<rparr>,
          er_environment = \<lparr>ep_baseline = [(''HOME'', home), (''PATH'', search_path)], ep_passthrough = []\<rparr>,
          er_secrets = [],
          er_limits = \<lparr>el_output_bytes_per_stream = pl_output_bytes_per_stream limits, el_timeout = Some (pl_timeout limits)\<rparr>\<rparr>"
proof -
  have "(''HOME'' :: string) < ''PATH''" by (simp add: less_char_def)
  moreover have "EnvironmentName_new ''PATH'' = Ok ''PATH''" "EnvironmentName_new ''HOME'' = Ok ''HOME''" by code_simp+
  ultimately show ?thesis
    by (auto simp: probe_request_def set_baseline_def EnvironmentPolicy_new_def ExecutionRequest_new_def ExecutionLimits_new_def Let_def)
qed

lemma execute_no_secrets:
  assumes "execute parent os r = Some (Ok result)" and "er_secrets r = []"
  shows "\<exists>out err exit. os_spawns os (build_command parent r) \<and> read_chunks (os_stdout os) = Some out \<and> read_chunks (os_stderr os) = Some err \<and>
    result = execution_result os r exit (reference_summary [] (el_output_bytes_per_stream (er_limits r)) (concat out))
      (reference_summary [] (el_output_bytes_per_stream (er_limits r)) (concat err)) \<and>
    (\<exists>effects. wait_for_child os (el_timeout (er_limits r)) = Some (Ok exit, effects))"
proof -
  have v: "validate_request r = Ok ()" using assms(1) by (auto simp: execute_def split: sum.splits)
  then have spawn: "os_spawns os (build_command parent r)" using assms(1) by (auto simp: execute_def Let_def split: if_splits)
  from v obtain outcome effects where w: "wait_for_child os (el_timeout (er_limits r)) = Some (outcome, effects)"
    using assms(1) by (auto simp: execute_def Let_def bind_eq_Some_conv split: if_splits)
  then obtain exit where exit: "outcome = Ok exit"
    using assms(1) v by (cases outcome) (auto simp: execute_def Let_def split: if_splits)
  show ?thesis
    using assms v w exit spawn
    by (cases exit) (auto simp: execute_def Let_def capture_stream_reference res_bind_ok_iff split: if_splits option.splits)
qed

lemma probe_result_ok:
  "probe_result version_parse matches_req expected_marker requirement result = Ok v \<longleftrightarrow>
     em_code (ea_exit (ex_audit result)) = Some 0 \<and> \<not> em_timed_out (ea_exit (ex_audit result)) \<and>
     \<not> ea_stdout_truncated (ex_audit result) \<and> \<not> ea_stderr_truncated (ex_audit result) \<and>
     utf8_valid (ex_stdout result) \<and> utf8_valid (ex_stderr result) \<and>
     parse_version_output version_parse (ex_stdout result @ nl @ ex_stderr result) expected_marker = Ok v \<and>
     matches_req requirement v"
  by (auto simp: probe_result_def ExitMetadata_success_def res_bind_ok_iff)

section \<open>Properties\<close>

text \<open>
  C26. Loading succeeds exactly when every configured directory is an absolute path to a directory that
  is not a symbolic link and no two are the same directory; the plugins are then the plugins of those
  directories in ascending order, their identifiers differ, and each has a regular manifest file of
  at most 64 KiB with a valid manifest and an executable entrypoint whose canonical path lies inside
  its own directory.
\<close>

theorem load_explicit_plugins_iff:
  "load_explicit_plugins fs toml_from_str ds = Ok ps \<longleftrightarrow>
     (\<exists>cs. list_all2 (plugin_dir fs) ds cs \<and> distinct (map path_parts cs) \<and>
        set (map ip_directory ps) = set cs \<and> sorted_wrt (<) (map path_parts (map ip_directory ps))) \<and>
     distinct (map (pm_id \<circ> ip_manifest) ps) \<and> list_all (installed fs toml_from_str) ps"
  unfolding load_explicit_plugins_def res_bind_ok_iff discover_dirs_ok load_loop_ok by auto

text \<open>
  C27. A version probe succeeds only for a regular executable file, run by its canonical path in a fresh
  directory with null standard input and an environment of exactly two variables, the absolute search
  path and the fresh directory as home, whatever the environment of the host is; the child exited
  with status zero before the deadline, its whole output was within the limit and valid UTF-8, the
  expected marker stands in it between non-alphanumeric characters, and the version is the only
  semantic version among its tokens and satisfies the requirement.
\<close>

theorem probe_version_sound:
  assumes "probe_version fs tempdir parent os version_parse matches_req program arguments expected_marker requirement limits search_path
      = Some (Ok v)"
  shows "\<exists>canonical dir home out err status effects.
    runnable fs program canonical \<and> list_all is_absolute (split_on (CHR '':'') search_path) \<and>
    tempdir = Some dir \<and> hf_canonicalize fs dir = Some home \<and>
    os_spawns os \<lparr>cmd_program = canonical, cmd_args = arguments, cmd_env = [(''HOME'', home), (''PATH'', search_path)],
      cmd_current_dir = Some home, cmd_process_group = 0, cmd_stdin_null = True\<rparr> \<and>
    wait_for_child os (Some (pl_timeout limits)) = Some (Ok (status, False), effects) \<and> es_code status = Some 0 \<and>
    read_chunks (os_stdout os) = Some out \<and> read_chunks (os_stderr os) = Some err \<and>
    length (concat out) \<le> pl_output_bytes_per_stream limits \<and> length (concat err) \<le> pl_output_bytes_per_stream limits \<and>
    utf8_valid (concat out) \<and> utf8_valid (concat err) \<and>
    pred_option (marker_at_boundary (concat out @ nl @ concat err)) expected_marker \<and>
    versions_in version_parse (concat out @ nl @ concat err) = {v} \<and> matches_req requirement v"
proof -
  obtain canonical dir home where run: "runnable fs program canonical"
    and sp: "list_all is_absolute (split_on (CHR '':'') search_path)" and dir: "tempdir = Some dir" "hf_canonicalize fs dir = Some home"
    and r0: "\<exists>r result. probe_request canonical home arguments limits search_path = Ok r \<and> execute parent os r = Some (Ok result) \<and>
      probe_result version_parse matches_req expected_marker requirement result = Ok v"
    using assms unfolding probe_version_def
    by (auto simp: res_bind_ok_iff ok_or_ok_iff validate_executable_ok validate_search_path_ok map_err_ok_iff list_all_iff
        split: sum.splits)
  from r0 obtain r result where r: "probe_request canonical home arguments limits search_path = Ok r"
    and ex: "execute parent os r = Some (Ok result)"
    and res: "probe_result version_parse matches_req expected_marker requirement result = Ok v" by blast
  note req = r[unfolded probe_request_ok]
  obtain out err exit effects where spawn: "os_spawns os (build_command parent r)"
    and chunks: "read_chunks (os_stdout os) = Some out" "read_chunks (os_stderr os) = Some err"
    and result: "result = execution_result os r exit (reference_summary [] (el_output_bytes_per_stream (er_limits r)) (concat out))
      (reference_summary [] (el_output_bytes_per_stream (er_limits r)) (concat err))"
    and wait: "wait_for_child os (el_timeout (er_limits r)) = Some (Ok exit, effects)"
    using execute_no_secrets[OF ex] req by auto
  have command: "build_command parent r = \<lparr>cmd_program = canonical, cmd_args = arguments,
      cmd_env = [(''HOME'', home), (''PATH'', search_path)], cmd_current_dir = Some home, cmd_process_group = 0, cmd_stdin_null = True\<rparr>"
    by (simp add: req build_command_def Let_def less_char_def)
  have marker: "pred_option (marker_at_boundary (concat out @ nl @ concat err)) expected_marker"
    and rest: "length (concat out) \<le> pl_output_bytes_per_stream limits" "length (concat err) \<le> pl_output_bytes_per_stream limits"
      "utf8_valid (concat out)" "utf8_valid (concat err)" "versions_in version_parse (concat out @ nl @ concat err) = {v}"
      "matches_req requirement v" "es_code (fst exit) = Some 0" "\<not> snd exit"
    using res contains_marker_sound
    by (auto simp: probe_result_ok result execution_result_def reference_summary_def Let_def req render_no_patterns
        exit_metadata_def parse_version_output_ok pred_option_def not_less)
  obtain status where exit: "exit = (status, False)" using rest(8) by (cases exit) simp
  have "wait_for_child os (Some (pl_timeout limits)) = Some (Ok (status, False), effects)"
    using wait by (simp add: req exit)
  moreover have "es_code status = Some 0" using rest(7) by (simp add: exit)
  ultimately show ?thesis using run sp dir spawn[unfolded command] chunks marker rest(1-6) by blast
qed

definition probe_fs :: HostFs where
  "probe_fs = \<lparr>hf_symlink_metadata = (\<lambda>_. None), hf_metadata = (\<lambda>_. Inr \<lparr>nm_kind = Nk_File, nm_mode = 0x1ED\<rparr>),
     hf_canonicalize = Some, hf_open = (\<lambda>_. False), hf_read = (\<lambda>_. None)\<rparr>"

definition probe_os :: ChildOs where
  "probe_os = \<lparr>os_spawns = (\<lambda>c. map fst (cmd_env c) = [''HOME'', ''PATH'']), os_has_stdout = True, os_has_stderr = True, os_stdout_worker = True,
     os_stderr_worker = True, os_deadline = Some, os_polls = [(TW_Running, 1), (TW_Exited \<lparr>es_code = Some 0, es_signal = None\<rparr>, 2)],
     os_kill_ok = True, os_wait = None, os_stdout = [Read_Bytes ''codex 1.2'', Read_Bytes ''.3''], os_stderr = [], os_elapsed = 2\<rparr>"

definition probe_parse :: "string \<Rightarrow> Version option" where
  "probe_parse s = (if s = ''1.2.3'' then Some (Version s) else None)"

lemma probe_demo:
  assumes checks: "validate_executable probe_fs program = Ok program" "(case marker of Some m \<Rightarrow> validate_marker m | None \<Rightarrow> Ok ()) = Ok ()"
    and parse: "parse_version_output probe_parse (''codex 1.2.3'' @ nl) marker = Ok (Version ''1.2.3'')"
  shows "probe_version probe_fs (Some ''/t'') parent probe_os probe_parse (\<lambda>_ _. True) program [''--version''] marker requirement
    ProbeLimits_default ''/bin:/usr/bin'' = Some (Ok (Version ''1.2.3''))"
proof -
  have paths: "validate_search_path ''/bin:/usr/bin'' = Ok ''/bin:/usr/bin''" "hf_canonicalize probe_fs ''/t'' = Some ''/t''" by code_simp+
  obtain r where r: "probe_request program ''/t'' [''--version''] ProbeLimits_default ''/bin:/usr/bin'' = Ok r"
    by (simp only: probe_request_ok)
  note req = r[unfolded probe_request_ok]
  have valid: "validate_request r = Ok ()" by (simp add: req validate_request_def environment_names_def)
  have utf8: "utf8_valid ''codex 1.2.3''" "utf8_valid []" by code_simp+
  have cap: "capture_stream (os_stdout probe_os) [] l = Some (Ok (reference_summary [] l ''codex 1.2.3''))"
    "capture_stream (os_stderr probe_os) [] l = Some (Ok (reference_summary [] l []))" for l
    by (simp_all add: capture_stream_reference probe_os_def)
  have wait: "wait_for_child probe_os (el_timeout (er_limits r)) = Some (Ok (\<lparr>es_code = Some 0, es_signal = None\<rparr>, False), [KillGroup])"
    by (simp add: req wait_for_child_def probe_os_def ProbeLimits_default_def DEFAULT_TIMEOUT_def secs_def)
  have spawn: "os_spawns probe_os (build_command parent r)" "os_has_stdout probe_os" "os_has_stderr probe_os"
    "os_stdout_worker probe_os" "os_stderr_worker probe_os"
    by (simp_all add: probe_os_def req build_command_def less_char_def)
  have r': "er_secrets r = []" "el_output_bytes_per_stream (er_limits r) = 16384"
    by (simp_all add: req ProbeLimits_default_def DEFAULT_OUTPUT_BYTES_PER_STREAM_def)
  have "\<exists>result. execute parent probe_os r = Some (Ok result) \<and>
      probe_result probe_parse (\<lambda>_ _. True) marker requirement result = Ok (Version ''1.2.3'')"
    using parse utf8
    by (simp add: execute_def valid spawn wait cap Let_def r' probe_result_ok execution_result_def exit_metadata_def
        reference_summary_def longest_match_def)
  then show ?thesis by (auto simp: probe_version_def checks paths r)
qed

theorem probe_version_sound_witness:
  "versions_in probe_parse (''codex 1.2.3'' @ nl) = {Version ''1.2.3''} \<and> marker_at_boundary (''codex 1.2.3'' @ nl) ''codex''"
proof -
  have "probe_version probe_fs (Some ''/t'') (\<lambda>_. Some ''parent'') probe_os probe_parse (\<lambda>_ _. True) ''/bin/codex'' [''--version'']
      (Some ''codex'') [] ProbeLimits_default ''/bin:/usr/bin'' = Some (Ok (Version ''1.2.3''))"
    by (rule probe_demo; code_simp)
  from probe_version_sound[OF this] show ?thesis by (auto simp: probe_os_def)
qed

end
