(* ===== verification/Container_Spec.thy ===== *)
theory Container_Spec
  imports Plugin_Host Scanner
begin

text \<open>
  The description of a locked container run (\<open>crates/blindfold-cli/src/container_runner.rs\<close>): validation of
  every host-controlled value and the exact arguments given to the container engine.  Arguments are
  lists of strings; the file system is the one of the plugin host with device and inode numbers and
  directory listings.
\<close>

section \<open>Types and errors\<close>

definition SESSION_LABEL :: string where
  "SESSION_LABEL = ''io.blindfold.session''"

definition ROLE_LABEL :: string where
  "ROLE_LABEL = ''io.blindfold.role''"

definition SOCKET_DIRECTORY :: string where
  "SOCKET_DIRECTORY = ''/run/blindfold''"

definition SOCKET_PATH :: string where
  "SOCKET_PATH = ''/run/blindfold/gateway.sock''"

definition CONTAINER_CREDENTIAL_PATH :: string where
  "CONTAINER_CREDENTIAL_PATH = ''/run/secrets/blindfold-provider-key''"

definition LOCAL_DEVELOPMENT_IMAGE :: string where
  "LOCAL_DEVELOPMENT_IMAGE = ''blindfold-locked:local''"

definition MAX_WORKSPACE_ENTRIES :: nat where
  "MAX_WORKSPACE_ENTRIES = 1000000"

record LockedRunSpec =
  lr_agent :: string
  lr_agent_args :: "string list"
  lr_workspace :: string
  lr_credential_file :: string
  lr_upstream :: string
  lr_provider :: string
  lr_image :: string

datatype ContainerRunError =
    CR_InvalidAgent | CR_InvalidPath string | CR_InvalidCredentialFile | CR_CredentialFileIsSymlink
  | CR_CredentialExposedToAgent | CR_UnsupportedMountPath | CR_UnsafeWorkspaceEntry | CR_WorkspaceEntryLimit
  | CR_UnpinnedImage | CR_InvalidArgument string | CR_ClockUnavailable | CR_DockerUnavailable
  | CR_UntrustedDockerExecutable | CR_RemoteDockerContext | CR_SessionCollision | CR_Interrupted
  | CR_DockerOperation string | CR_CleanupFailed

fun ContainerRunError_fmt :: "ContainerRunError \<Rightarrow> string" where
  "ContainerRunError_fmt CR_InvalidAgent = ''unsupported locked-run agent''"
| "ContainerRunError_fmt (CR_InvalidPath name) = name @ '' must be an existing canonical absolute directory''"
| "ContainerRunError_fmt CR_InvalidCredentialFile = ''credential file must be an existing canonical absolute regular file''"
| "ContainerRunError_fmt CR_CredentialFileIsSymlink = ''credential file must not be a symbolic link''"
| "ContainerRunError_fmt CR_CredentialExposedToAgent = ''credential file is inside the agent workspace or hard-linked from it''"
| "ContainerRunError_fmt CR_UnsupportedMountPath = ''Docker mount source must be valid UTF-8 and must not contain a comma''"
| "ContainerRunError_fmt CR_UnsafeWorkspaceEntry = ''workspace contains a host IPC endpoint, special file, or nested mount''"
| "ContainerRunError_fmt CR_WorkspaceEntryLimit = ''workspace has too many entries to validate for the locked boundary''"
| "ContainerRunError_fmt CR_UnpinnedImage =
     ''container image must use an @sha256 digest (or blindfold-locked:local for local development)''"
| "ContainerRunError_fmt (CR_InvalidArgument name) = name @ '' must be non-empty and contain no control bytes''"
| "ContainerRunError_fmt CR_ClockUnavailable = ''could not allocate a locked-run session identifier''"
| "ContainerRunError_fmt CR_DockerUnavailable = ''Docker daemon is unavailable; start Docker and retry the locked run''"
| "ContainerRunError_fmt CR_UntrustedDockerExecutable = ''Docker executable must resolve outside the agent workspace''"
| "ContainerRunError_fmt CR_RemoteDockerContext = ''locked runs require a local Docker unix-socket or named-pipe context''"
| "ContainerRunError_fmt CR_SessionCollision = ''generated Docker session name already exists''"
| "ContainerRunError_fmt CR_Interrupted = ''locked run interrupted''"
| "ContainerRunError_fmt (CR_DockerOperation operation) = ''Docker failed while attempting to '' @ operation"
| "ContainerRunError_fmt CR_CleanupFailed = ''locked run ended, but one or more exact session resources could not be removed''"

text \<open>The file system with the device and inode number of a path itself, and the children of a directory.\<close>

record WsFs = HostFs +
  wf_identity :: "string \<Rightarrow> nat \<times> nat"
  wf_read_dir :: "string \<Rightarrow> string option list option"

section \<open>Validation\<close>

definition path_eq :: "string \<Rightarrow> string \<Rightarrow> bool" where
  "path_eq a b \<longleftrightarrow> is_absolute a = is_absolute b \<and> path_parts a = path_parts b"

definition validate_canonical_directory :: "WsFs \<Rightarrow> string \<Rightarrow> string \<Rightarrow> ContainerRunError + unit" where
  "validate_canonical_directory fs p name =
     (if \<not> is_absolute p \<or> (case hf_metadata fs p of Inr md \<Rightarrow> nm_kind md \<noteq> Nk_Dir | Inl _ \<Rightarrow> True)
      then Err (CR_InvalidPath name)
      else res_bind (ok_or (hf_canonicalize fs p) (CR_InvalidPath name)) (\<lambda>canonical.
        if \<not> path_eq canonical p then Err (CR_InvalidPath name) else Ok ()))"

definition validate_credential_file :: "WsFs \<Rightarrow> string \<Rightarrow> ContainerRunError + unit" where
  "validate_credential_file fs p =
     (if \<not> is_absolute p then Err CR_InvalidCredentialFile
      else res_bind (ok_or (hf_symlink_metadata fs p) CR_InvalidCredentialFile) (\<lambda>md.
        if nm_kind md = Nk_Symlink then Err CR_CredentialFileIsSymlink
        else if nm_kind md \<noteq> Nk_File then Err CR_InvalidCredentialFile
        else res_bind (ok_or (hf_canonicalize fs p) CR_InvalidCredentialFile) (\<lambda>canonical.
          if \<not> path_eq canonical p then Err CR_InvalidCredentialFile else Ok ())))"

definition validate_mount_source :: "string \<Rightarrow> ContainerRunError + unit" where
  "validate_mount_source p = (if utf8_valid p \<and> CHR '','' \<notin> set p then Ok () else Err CR_UnsupportedMountPath)"

text \<open>The children of one directory: what is pushed and the number of entries seen so far.\<close>

fun check_children ::
  "WsFs \<Rightarrow> nat \<Rightarrow> nat \<times> nat \<Rightarrow> string list \<Rightarrow> nat \<Rightarrow> string option list \<Rightarrow> ContainerRunError + string list \<times> nat"
where
  "check_children fs root_device credential pending entries [] = Ok (pending, entries)"
| "check_children fs root_device credential pending entries (None # cs) = Err CR_UnsafeWorkspaceEntry"
| "check_children fs root_device credential pending entries (Some child # cs) =
     (let entries = entries + 1 in
      if entries > MAX_WORKSPACE_ENTRIES then Err CR_WorkspaceEntryLimit
      else
        res_bind (ok_or (hf_symlink_metadata fs child) CR_UnsafeWorkspaceEntry) (\<lambda>md.
        if nm_kind md = Nk_Symlink then check_children fs root_device credential pending entries cs
        else if fst (wf_identity fs child) \<noteq> root_device then Err CR_UnsafeWorkspaceEntry
        else if nm_kind md = Nk_Dir then check_children fs root_device credential (child # pending) entries cs
        else if nm_kind md = Nk_File then
          if wf_identity fs child = credential then Err CR_CredentialExposedToAgent
          else check_children fs root_device credential pending entries cs
        else Err CR_UnsafeWorkspaceEntry))"

lemma check_children_progress:
  assumes "check_children fs dev cred pending entries cs = Ok (pending', entries')"
  shows "entries' = entries + length cs \<and> (cs \<noteq> [] \<longrightarrow> entries' \<le> MAX_WORKSPACE_ENTRIES) \<and> (cs = [] \<longrightarrow> pending' = pending)"
  using assms
proof (induction cs arbitrary: pending entries)
  case (Cons c cs)
  from Cons.prems obtain p where "check_children fs dev cred p (entries + 1) cs = Ok (pending', entries')"
    and "entries + 1 \<le> MAX_WORKSPACE_ENTRIES"
    by (cases c) (auto simp: Let_def res_bind_ok_iff ok_or_ok_iff not_less split: if_splits)
  then show ?case using Cons.IH[of p "entries + 1"] by (cases cs) auto
qed simp

text \<open>Directories still to visit, the last pushed first; every directory read adds entries or shortens the list.\<close>

function tree_loop ::
  "WsFs \<Rightarrow> nat \<Rightarrow> nat \<times> nat \<Rightarrow> string list \<Rightarrow> nat \<Rightarrow> ContainerRunError + unit"
where
  "tree_loop fs root_device credential pending entries =
     (case pending of
        [] \<Rightarrow> Ok ()
      | directory # rest \<Rightarrow>
          (case wf_read_dir fs directory of
             None \<Rightarrow> Err CR_UnsafeWorkspaceEntry
           | Some children \<Rightarrow>
               res_bind (check_children fs root_device credential rest entries children) (\<lambda>(pending', entries').
                 tree_loop fs root_device credential pending' entries')))"
  by pat_completeness auto
termination
  by (relation "measures [\<lambda>(fs, dev, cred, pending, entries). MAX_WORKSPACE_ENTRIES - entries, \<lambda>(fs, dev, cred, pending, entries). length pending]")
    (auto dest!: check_children_progress simp flip: length_greater_0_conv split: list.splits)

declare tree_loop.simps [simp del]

definition validate_workspace_tree :: "WsFs \<Rightarrow> string \<Rightarrow> string \<Rightarrow> ContainerRunError + unit" where
  "validate_workspace_tree fs workspace credential_file =
     res_bind (ok_or (hf_symlink_metadata fs workspace) (CR_InvalidPath ''workspace'')) (\<lambda>_.
     res_bind (ok_or (hf_symlink_metadata fs credential_file) CR_InvalidCredentialFile) (\<lambda>_.
       tree_loop fs (fst (wf_identity fs workspace)) (wf_identity fs credential_file) [workspace] 0))"

definition validate_boundary_pair :: "string \<Rightarrow> string \<Rightarrow> string \<Rightarrow> ContainerRunError + unit" where
  "validate_boundary_pair agent provider upstream =
     (if (agent \<in> {''claude'', ''opencode''} \<and> provider = ''anthropic'' \<and> upstream = ''https://api.anthropic.com'') \<or>
         (agent = ''codex'' \<and> provider = ''openai'' \<and> upstream = ''https://api.openai.com/v1'') \<or>
         (agent = ''opencode'' \<and> provider = ''openai'' \<and> upstream = ''https://api.openai.com'') \<or>
         (agent = ''opencode'' \<and> provider = ''openrouter'' \<and> upstream = ''https://openrouter.ai/api'')
      then Ok () else Err (CR_InvalidArgument ''agent/provider/upstream combination''))"

definition rsplit_once_str :: "string \<Rightarrow> string \<Rightarrow> (string \<times> string) option" where
  "rsplit_once_str p s = map_option (\<lambda>(a, b). (rev b, rev a)) (split_once_str (rev p) (rev s))"

definition is_lower_hex :: "char \<Rightarrow> bool" where
  "is_lower_hex b \<longleftrightarrow> is_ascii_digit b \<or> 97 \<le> byte b \<and> byte b \<le> 102"

definition is_digest :: "string \<Rightarrow> bool" where
  "is_digest digest \<longleftrightarrow> length digest = 64 \<and> list_all is_lower_hex digest"

definition validate_image_reference :: "string \<Rightarrow> ContainerRunError + unit" where
  "validate_image_reference img =
     (if img = LOCAL_DEVELOPMENT_IMAGE then Ok ()
      else case rsplit_once_str ''@sha256:'' img of
        None \<Rightarrow> Err CR_UnpinnedImage
      | Some (repository, digest) \<Rightarrow>
          (let repository_valid =
             (repository \<noteq> [] \<and> is_ascii_alphanumeric (hd repository) \<and>
              list_all (\<lambda>c. is_ascii_alphanumeric c \<or> c \<in> set ''._/-:'') repository)
           in if \<not> repository_valid \<or> \<not> is_digest digest then Err CR_UnpinnedImage else Ok ()))"

definition valid_image_id :: "string \<Rightarrow> bool" where
  "valid_image_id image_id \<longleftrightarrow> (case strip_prefix ''sha256:'' image_id of Some digest \<Rightarrow> is_digest digest | None \<Rightarrow> False)"

definition LockedRunSpec_new ::
  "WsFs \<Rightarrow> string \<Rightarrow> string list \<Rightarrow> string \<Rightarrow> string \<Rightarrow> string \<Rightarrow> string \<Rightarrow> string \<Rightarrow> ContainerRunError + LockedRunSpec"
where
  "LockedRunSpec_new fs agent agent_args workspace credential_file upstream provider img =
     (if agent \<notin> {''claude'', ''codex'', ''opencode''} then Err CR_InvalidAgent
      else
        res_bind (validate_image_reference img) (\<lambda>_.
        res_bind (validate_boundary_pair agent provider upstream) (\<lambda>_.
        res_bind (validate_canonical_directory fs workspace ''workspace'') (\<lambda>_.
        res_bind (validate_credential_file fs credential_file) (\<lambda>_.
        res_bind (validate_workspace_tree fs workspace credential_file) (\<lambda>_.
        res_bind (validate_mount_source workspace) (\<lambda>_.
        res_bind (validate_mount_source credential_file) (\<lambda>_.
          Ok \<lparr>lr_agent = agent, lr_agent_args = agent_args, lr_workspace = workspace,
              lr_credential_file = credential_file, lr_upstream = upstream, lr_provider = provider, lr_image = img\<rparr>))))))))"

section \<open>Arguments\<close>

type_synonym DockerInvocation = "string list"

record SessionNames =
  sn_id :: string
  sn_volume :: string
  sn_gateway :: string
  sn_agent :: string

definition SessionNames_from_id :: "string \<Rightarrow> SessionNames" where
  "SessionNames_from_id i =
     \<lparr>sn_id = i, sn_volume = ''bf-socket-'' @ i, sn_gateway = ''bf-gateway-'' @ i, sn_agent = ''bf-agent-'' @ i\<rparr>"

definition session_label :: "SessionNames \<Rightarrow> string" where
  "session_label s = SESSION_LABEL @ ''='' @ sn_id s"

record HostIdentity =
  hi_uid :: string
  hi_gid :: string

definition docker_user :: "HostIdentity \<Rightarrow> string" where
  "docker_user i = hi_uid i @ '':'' @ hi_gid i"

definition home_tmpfs :: "HostIdentity \<Rightarrow> string" where
  "home_tmpfs i = ''/home/agent:rw,nosuid,nodev,size=256m,uid='' @ hi_uid i @ '',gid='' @ hi_gid i @ '',mode=0700''"

definition to_string_lossy :: "string \<Rightarrow> string" where
  "to_string_lossy p = (if utf8_valid p then p else from_utf8_lossy p)"

definition bind_mount :: "string \<Rightarrow> string \<Rightarrow> bool \<Rightarrow> string" where
  "bind_mount source target read_only =
     ''type=bind,src='' @ to_string_lossy source @ '',dst='' @ target @ (if read_only then '',readonly'' else [])"

definition volume_mount :: "string \<Rightarrow> string \<Rightarrow> bool \<Rightarrow> string" where
  "volume_mount source target read_only =
     ''type=volume,src='' @ source @ '',dst='' @ target @ (if read_only then '',readonly'' else [])"

definition volume_inspect_command :: "SessionNames \<Rightarrow> DockerInvocation" where
  "volume_inspect_command s = [''volume'', ''inspect'', ''--format'', ''{{.Name}}'', sn_volume s]"

definition volume_create_command :: "SessionNames \<Rightarrow> DockerInvocation" where
  "volume_create_command s =
     [''volume'', ''create'', ''--label'', session_label s, ''--label'', ROLE_LABEL @ ''=socket'', sn_volume s]"

definition gateway_run_command :: "LockedRunSpec \<Rightarrow> SessionNames \<Rightarrow> DockerInvocation" where
  "gateway_run_command spec s =
     [''run'', ''--detach'', ''--rm'', ''--pull'', ''never'', ''--name'', sn_gateway s, ''--label'', session_label s,
      ''--label'', ROLE_LABEL @ ''=gateway'', ''--network'', ''bridge'', ''--ipc'', ''none'', ''--cap-drop'', ''ALL'',
      ''--security-opt'', ''no-new-privileges:true'', ''--read-only'', ''--log-driver'', ''none'', ''--pids-limit'', ''128'',
      ''--memory'', ''512m'', ''--cpus'', ''1'', ''--tmpfs'', ''/tmp:rw,nosuid,nodev,noexec,size=64m''] @
     [''--mount'', volume_mount (sn_volume s) SOCKET_DIRECTORY False,
      ''--mount'', bind_mount (lr_credential_file spec) CONTAINER_CREDENTIAL_PATH True, lr_image spec] @
     [''blindfold'', ''boundary'', ''gateway'', ''--socket'', SOCKET_PATH, ''--provider''] @
     [lr_provider spec] @ [''--upstream''] @ [lr_upstream spec] @ [''--credential-file'', CONTAINER_CREDENTIAL_PATH]"

definition agent_run_command :: "LockedRunSpec \<Rightarrow> SessionNames \<Rightarrow> HostIdentity \<Rightarrow> DockerInvocation" where
  "agent_run_command spec s i =
     [''run'', ''--rm'', ''--pull'', ''never'', ''--name'', sn_agent s, ''--label'', session_label s,
      ''--label'', ROLE_LABEL @ ''=agent'', ''--network'', ''none'', ''--ipc'', ''none'', ''--init'', ''--user'', docker_user i,
      ''--cap-drop'', ''ALL'', ''--security-opt'', ''no-new-privileges:true'', ''--read-only'', ''--log-driver'', ''none'',
      ''--pids-limit'', ''256'', ''--memory'', ''4g'', ''--cpus'', ''2'', ''--tmpfs'', ''/tmp:rw,nosuid,nodev,noexec,size=512m'',
      ''--tmpfs'', home_tmpfs i, ''--env'', ''HOME=/home/agent'', ''--workdir'', ''/workspace''] @
     [''--mount'', bind_mount (lr_workspace spec) ''/workspace'' False,
      ''--mount'', volume_mount (sn_volume s) SOCKET_DIRECTORY True, lr_image spec] @
     [''blindfold'', ''boundary'', ''agent'', ''--socket'', SOCKET_PATH] @
     [lr_agent spec] @ [''--''] @ lr_agent_args spec"

definition agent_remove_command :: "SessionNames \<Rightarrow> DockerInvocation" where
  "agent_remove_command s = [''rm'', ''--force'', sn_agent s]"

definition agent_inspect_command :: "SessionNames \<Rightarrow> DockerInvocation" where
  "agent_inspect_command s = [''container'', ''inspect'', ''--format'', ''{{.Id}}'', sn_agent s]"

definition gateway_inspect_command :: "SessionNames \<Rightarrow> DockerInvocation" where
  "gateway_inspect_command s = [''container'', ''inspect'', ''--format'', ''{{.Id}}'', sn_gateway s]"

definition gateway_stop_command :: "SessionNames \<Rightarrow> DockerInvocation" where
  "gateway_stop_command s = [''stop'', ''--time'', ''5'', sn_gateway s]"

definition gateway_remove_command :: "SessionNames \<Rightarrow> DockerInvocation" where
  "gateway_remove_command s = [''rm'', ''--force'', sn_gateway s]"

definition volume_remove_command :: "SessionNames \<Rightarrow> DockerInvocation" where
  "volume_remove_command s = [''volume'', ''rm'', ''--force'', sn_volume s]"

section \<open>The workspace tree\<close>

text \<open>Entries below a directory that can be reached without following a symbolic link.\<close>

inductive in_tree :: "WsFs \<Rightarrow> string \<Rightarrow> string \<Rightarrow> bool" for fs where
  in_tree_child: "wf_read_dir fs d = Some cs \<Longrightarrow> Some x \<in> set cs \<Longrightarrow> in_tree fs d x"
| in_tree_below: "wf_read_dir fs d = Some cs \<Longrightarrow> Some c \<in> set cs \<Longrightarrow> hf_symlink_metadata fs c = Some md \<Longrightarrow>
    nm_kind md = Nk_Dir \<Longrightarrow> in_tree fs c x \<Longrightarrow> in_tree fs d x"

inductive_cases in_treeE: "in_tree fs d x"

definition entry_ok :: "WsFs \<Rightarrow> nat \<Rightarrow> nat \<times> nat \<Rightarrow> string \<Rightarrow> bool" where
  "entry_ok fs dev cred x \<longleftrightarrow>
     (case hf_symlink_metadata fs x of
        None \<Rightarrow> False
      | Some md \<Rightarrow>
          nm_kind md = Nk_Symlink \<or>
          fst (wf_identity fs x) = dev \<and> (nm_kind md = Nk_Dir \<or> nm_kind md = Nk_File \<and> wf_identity fs x \<noteq> cred))"

lemma check_children_ok:
  assumes "check_children fs dev cred pending entries cs = Ok (pending', entries')"
  shows "set pending \<subseteq> set pending' \<and> None \<notin> set cs \<and>
    (\<forall>c. Some c \<in> set cs \<longrightarrow> entry_ok fs dev cred c \<and>
       (\<forall>md. hf_symlink_metadata fs c = Some md \<longrightarrow> nm_kind md = Nk_Dir \<longrightarrow> c \<in> set pending'))"
  using assms
proof (induction cs arbitrary: pending entries)
  case (Cons o' cs)
  from Cons.prems obtain c md where c: "o' = Some c" "hf_symlink_metadata fs c = Some md" "entry_ok fs dev cred c"
    and rest: "check_children fs dev cred (if nm_kind md = Nk_Dir then c # pending else pending) (entries + 1) cs = Ok (pending', entries')"
    by (cases o') (auto simp: Let_def res_bind_ok_iff ok_or_ok_iff entry_ok_def split: if_splits)
  show ?case using Cons.IH[OF rest] c by (auto split: if_splits)
qed simp

lemma tree_loop_ok:
  "tree_loop fs dev cred pending entries = Ok () \<Longrightarrow> d \<in> set pending \<Longrightarrow> in_tree fs d x \<Longrightarrow> entry_ok fs dev cred x"
proof (induction fs dev cred pending entries arbitrary: d x rule: tree_loop.induct)
  case (1 fs dev cred pending entries)
  then obtain d0 rest where pending: "pending = d0 # rest" by (cases pending) auto
  obtain cs pending' entries' where cs: "wf_read_dir fs d0 = Some cs"
    and children: "check_children fs dev cred rest entries cs = Ok (pending', entries')"
    and loop: "tree_loop fs dev cred pending' entries' = Ok ()"
    using "1.prems"(1)[unfolded pending]
    by (simp add: tree_loop.simps[of fs dev cred "d0 # rest"] split: option.splits) (auto simp: res_bind_ok_iff)
  note IH = "1.IH"[OF pending cs children refl loop]
  note ok = check_children_ok[OF children]
  show ?case
  proof (cases "d = d0")
    case True
    from "1.prems"(3)[unfolded True] show ?thesis
      by (rule in_treeE) (use ok cs IH in auto)
  next
    case False
    then show ?thesis using IH[of d x] "1.prems"(2,3) ok by (auto simp: pending)
  qed
qed

section \<open>What the engine reads\<close>

text \<open>
  The command line of \<open>docker run\<close> as the engine documents it: options until the first argument that is
  not one, which is the image; a mount is a list of fields separated by commas.
\<close>

fun run_options :: "string list \<Rightarrow> (string \<times> string) list \<times> string list" where
  "run_options [] = ([], [])"
| "run_options [a] = (if a \<in> {''--detach'', ''--rm'', ''--read-only'', ''--init''} then ([(a, [])], []) else ([], [a]))"
| "run_options (a # v # as) =
     (if \<not> starts_with ''--'' a then ([], a # v # as)
      else if a \<in> {''--detach'', ''--rm'', ''--read-only'', ''--init''}
      then (case run_options (v # as) of (os, r) \<Rightarrow> ((a, []) # os, r))
      else (case run_options as of (os, r) \<Rightarrow> ((a, v) # os, r)))"

definition option_values :: "string \<Rightarrow> (string \<times> string) list \<Rightarrow> string list" where
  "option_values name os = map snd (filter (\<lambda>(n, v). n = name) os)"

definition mount_fields :: "string \<Rightarrow> string list" where
  "mount_fields v = split_on (CHR '','') v"

lemma valid_image_id_no_option: "valid_image_id i \<Longrightarrow> \<not> starts_with ''--'' i"
  by (auto simp: valid_image_id_def starts_with_iff strip_prefix_some_iff split: option.splits)

lemma bind_mount_fields:
  assumes "utf8_valid src" and "CHR '','' \<notin> set src" and "CHR '','' \<notin> set dst"
  shows "mount_fields (bind_mount src dst ro) = [''type=bind'', ''src='' @ src, ''dst='' @ dst] @ (if ro then [''readonly''] else [])"
proof -
  have "bind_mount src dst ro = ''type=bind'' @ CHR '','' # (''src='' @ src) @ CHR '','' # (''dst='' @ dst) @ (if ro then CHR '','' # ''readonly'' else [])"
    using assms(1) by (simp add: bind_mount_def to_string_lossy_def)
  moreover have "split_on (CHR '','') (f @ CHR '','' # r) = f # split_on (CHR '','') r" if "CHR '','' \<notin> set f" for f r :: string
    using that by (simp add: split_on_append split_on_free)
  ultimately show ?thesis using assms(2,3) by (auto simp: mount_fields_def split_on_free)
qed

lemma bind_mount_no_comma_fields:
  "validate_mount_source src = Ok () \<Longrightarrow> CHR '','' \<notin> set dst \<Longrightarrow>
     mount_fields (bind_mount src dst ro) = [''type=bind'', ''src='' @ src, ''dst='' @ dst] @ (if ro then [''readonly''] else [])"
  by (rule bind_mount_fields) (auto simp: validate_mount_source_def split: if_splits)

lemma LockedRunSpec_new_ok:
  "LockedRunSpec_new fs agent agent_args workspace credential upstream provider img = Ok spec \<longleftrightarrow>
     agent \<in> {''claude'', ''codex'', ''opencode''} \<and> validate_image_reference img = Ok () \<and>
     validate_boundary_pair agent provider upstream = Ok () \<and> validate_canonical_directory fs workspace ''workspace'' = Ok () \<and>
     validate_credential_file fs credential = Ok () \<and> validate_workspace_tree fs workspace credential = Ok () \<and>
     validate_mount_source workspace = Ok () \<and> validate_mount_source credential = Ok () \<and>
     spec = \<lparr>lr_agent = agent, lr_agent_args = agent_args, lr_workspace = workspace, lr_credential_file = credential,
       lr_upstream = upstream, lr_provider = provider, lr_image = img\<rparr>"
  unfolding LockedRunSpec_new_def guard_ok check_then_ok by auto

lemma workspace_tree_ok:
  assumes "validate_workspace_tree fs workspace credential = Ok ()" and "in_tree fs workspace x"
  shows "entry_ok fs (fst (wf_identity fs workspace)) (wf_identity fs credential) x"
  using assms by (auto simp: validate_workspace_tree_def res_bind_ok_iff intro: tree_loop_ok)

lemma agent_run_options:
  assumes "\<not> starts_with ''--'' (lr_image spec)"
  shows "run_options (tl (agent_run_command spec s i)) =
    ([(''--rm'', []), (''--pull'', ''never''), (''--name'', sn_agent s), (''--label'', session_label s),
      (''--label'', ROLE_LABEL @ ''=agent''), (''--network'', ''none''), (''--ipc'', ''none''), (''--init'', []), (''--user'', docker_user i),
      (''--cap-drop'', ''ALL''), (''--security-opt'', ''no-new-privileges:true''), (''--read-only'', []), (''--log-driver'', ''none''),
      (''--pids-limit'', ''256''), (''--memory'', ''4g''), (''--cpus'', ''2''), (''--tmpfs'', ''/tmp:rw,nosuid,nodev,noexec,size=512m''),
      (''--tmpfs'', home_tmpfs i), (''--env'', ''HOME=/home/agent''), (''--workdir'', ''/workspace''),
      (''--mount'', bind_mount (lr_workspace spec) ''/workspace'' False),
      (''--mount'', volume_mount (sn_volume s) SOCKET_DIRECTORY True)],
     lr_image spec # [''blindfold'', ''boundary'', ''agent'', ''--socket'', SOCKET_PATH, lr_agent spec, ''--''] @ lr_agent_args spec)"
  using assms by (simp add: agent_run_command_def starts_with_def)

lemma gateway_run_options:
  assumes "\<not> starts_with ''--'' (lr_image spec)"
  shows "run_options (tl (gateway_run_command spec s)) =
    ([(''--detach'', []), (''--rm'', []), (''--pull'', ''never''), (''--name'', sn_gateway s), (''--label'', session_label s),
      (''--label'', ROLE_LABEL @ ''=gateway''), (''--network'', ''bridge''), (''--ipc'', ''none''), (''--cap-drop'', ''ALL''),
      (''--security-opt'', ''no-new-privileges:true''), (''--read-only'', []), (''--log-driver'', ''none''), (''--pids-limit'', ''128''),
      (''--memory'', ''512m''), (''--cpus'', ''1''), (''--tmpfs'', ''/tmp:rw,nosuid,nodev,noexec,size=64m''),
      (''--mount'', volume_mount (sn_volume s) SOCKET_DIRECTORY False),
      (''--mount'', bind_mount (lr_credential_file spec) CONTAINER_CREDENTIAL_PATH True)],
     lr_image spec # [''blindfold'', ''boundary'', ''gateway'', ''--socket'', SOCKET_PATH, ''--provider'', lr_provider spec,
       ''--upstream'', lr_upstream spec, ''--credential-file'', CONTAINER_CREDENTIAL_PATH])"
  using assms by (simp add: gateway_run_command_def starts_with_def)

lemma boundary_pair_upstream:
  assumes "validate_boundary_pair agent provider upstream = Ok ()"
  shows "(provider, upstream) \<in> {(''anthropic'', ''https://api.anthropic.com''), (''openai'', ''https://api.openai.com/v1''),
      (''openai'', ''https://api.openai.com''), (''openrouter'', ''https://openrouter.ai/api'')}"
proof -
  have allowed: "(if c then Ok () else Err e) = (Ok () :: 'e + unit) \<longleftrightarrow> c" for c and e :: 'e by simp
  show ?thesis
    using assms unfolding validate_boundary_pair_def allowed by (elim disjE conjE) (simp_all only: insert_iff simp_thms)
qed

section \<open>Properties\<close>

text \<open>
  C28. An accepted locked run separates the agent from the provider key.  As the container engine reads the
  two command lines, the agent container has no network, one variable in its environment, and mounts of
  exactly the workspace and the read-only socket volume; only the gateway container has a network, and it
  mounts the socket volume and the key, read-only, but not the workspace; the upstream is the fixed one of
  the provider.  Nothing in the workspace that can be reached without following a symbolic link is the
  key's file (hard links included), lies on another device, or is a special file.
\<close>

theorem locked_spec_isolates:
  assumes "LockedRunSpec_new fs agent agent_args workspace credential upstream provider img = Ok spec"
    and "valid_image_id i"
  shows "(case run_options (tl (agent_run_command (spec\<lparr>lr_image := i\<rparr>) s h)) of (os, rest) \<Rightarrow>
      option_values ''--network'' os = [''none''] \<and> option_values ''--env'' os = [''HOME=/home/agent''] \<and>
      map mount_fields (option_values ''--mount'' os) =
        [[''type=bind'', ''src='' @ workspace, ''dst=/workspace''], mount_fields (volume_mount (sn_volume s) SOCKET_DIRECTORY True)] \<and>
      rest = [i, ''blindfold'', ''boundary'', ''agent'', ''--socket'', SOCKET_PATH, agent, ''--''] @ agent_args) \<and>
    (case run_options (tl (gateway_run_command (spec\<lparr>lr_image := i\<rparr>) s)) of (os, rest) \<Rightarrow>
      option_values ''--env'' os = [] \<and>
      map mount_fields (option_values ''--mount'' os) =
        [mount_fields (volume_mount (sn_volume s) SOCKET_DIRECTORY False),
         [''type=bind'', ''src='' @ credential, ''dst='' @ CONTAINER_CREDENTIAL_PATH, ''readonly'']] \<and>
      rest = [i, ''blindfold'', ''boundary'', ''gateway'', ''--socket'', SOCKET_PATH, ''--provider'', provider, ''--upstream'', upstream,
        ''--credential-file'', CONTAINER_CREDENTIAL_PATH]) \<and>
    (provider, upstream) \<in> {(''anthropic'', ''https://api.anthropic.com''), (''openai'', ''https://api.openai.com/v1''),
      (''openai'', ''https://api.openai.com''), (''openrouter'', ''https://openrouter.ai/api'')} \<and>
    {x. in_tree fs workspace x} \<subseteq> Collect (entry_ok fs (fst (wf_identity fs workspace)) (wf_identity fs credential))"
proof -
  note ok = assms(1)[unfolded LockedRunSpec_new_ok]
  have sources: "validate_mount_source workspace = Ok ()" "validate_mount_source credential = Ok ()"
    and tree: "validate_workspace_tree fs workspace credential = Ok ()" and pair: "validate_boundary_pair agent provider upstream = Ok ()"
    and spec: "spec = \<lparr>lr_agent = agent, lr_agent_args = agent_args, lr_workspace = workspace, lr_credential_file = credential,
       lr_upstream = upstream, lr_provider = provider, lr_image = img\<rparr>"
    using ok by - (elim conjE, assumption)+
  have no: "\<not> starts_with ''--'' (lr_image (spec\<lparr>lr_image := i\<rparr>))" using valid_image_id_no_option[OF assms(2)] by simp
  have mounts: "mount_fields (bind_mount workspace ''/workspace'' False) = [''type=bind'', ''src='' @ workspace, ''dst=/workspace'']"
    "mount_fields (bind_mount credential CONTAINER_CREDENTIAL_PATH True) =
      [''type=bind'', ''src='' @ credential, ''dst='' @ CONTAINER_CREDENTIAL_PATH, ''readonly'']"
    using sources by (simp_all add: bind_mount_no_comma_fields CONTAINER_CREDENTIAL_PATH_def)
  have entries: "{x. in_tree fs workspace x} \<subseteq> Collect (entry_ok fs (fst (wf_identity fs workspace)) (wf_identity fs credential))"
    using workspace_tree_ok[OF tree] by blast
  show ?thesis
    unfolding agent_run_options[OF no] gateway_run_options[OF no] prod.case
    by (intro conjI boundary_pair_upstream[OF pair] entries) (simp_all add: option_values_def spec mounts)
qed

definition locked_fs :: WsFs where
  "locked_fs = \<lparr>hf_symlink_metadata = (\<lambda>p. Some \<lparr>nm_kind = (if p = ''/w'' then Nk_Dir else Nk_File), nm_mode = 0x1A4\<rparr>),
     hf_metadata = (\<lambda>p. Inr \<lparr>nm_kind = (if p = ''/w'' then Nk_Dir else Nk_File), nm_mode = 0x1A4\<rparr>),
     hf_canonicalize = Some, hf_open = (\<lambda>_. True), hf_read = (\<lambda>_. None),
     wf_identity = (\<lambda>p. (1, length p)), wf_read_dir = (\<lambda>p. if p = ''/w'' then Some [Some ''/w/a''] else None)\<rparr>"

definition locked_spec :: LockedRunSpec where
  "locked_spec = \<lparr>lr_agent = ''codex'', lr_agent_args = [''exec''], lr_workspace = ''/w'', lr_credential_file = ''/k'',
     lr_upstream = ''https://api.openai.com/v1'', lr_provider = ''openai'', lr_image = LOCAL_DEVELOPMENT_IMAGE\<rparr>"

lemma locked_spec_accepted:
  "LockedRunSpec_new locked_fs ''codex'' [''exec''] ''/w'' ''/k'' ''https://api.openai.com/v1'' ''openai'' LOCAL_DEVELOPMENT_IMAGE = Ok locked_spec"
proof -
  have "validate_canonical_directory locked_fs ''/w'' ''workspace'' = Ok ()" "validate_credential_file locked_fs ''/k'' = Ok ()"
    "validate_mount_source ''/w'' = Ok ()" "validate_mount_source ''/k'' = Ok ()"
    "validate_image_reference LOCAL_DEVELOPMENT_IMAGE = Ok ()"
    "validate_boundary_pair ''codex'' ''openai'' ''https://api.openai.com/v1'' = Ok ()"
    by code_simp+
  moreover have "validate_workspace_tree locked_fs ''/w'' ''/k'' = Ok ()"
    by (simp add: validate_workspace_tree_def tree_loop.simps locked_fs_def MAX_WORKSPACE_ENTRIES_def Let_def)
  ultimately show ?thesis by (simp add: LockedRunSpec_new_def locked_spec_def)
qed

theorem locked_spec_isolates_witness:
  "(let i = ''sha256:'' @ replicate 64 (CHR ''0'') in
      option_values ''--network'' (fst (run_options (tl (agent_run_command (locked_spec\<lparr>lr_image := i\<rparr>) (SessionNames_from_id ''1'') \<lparr>hi_uid = ''7'', hi_gid = ''7''\<rparr>)))) = [''none''])
   \<and> \<not> in_tree locked_fs ''/w'' ''/k''"
proof -
  have i: "valid_image_id (''sha256:'' @ replicate 64 (CHR ''0''))" by code_simp
  note iso = locked_spec_isolates[OF locked_spec_accepted i, of "SessionNames_from_id ''1''" "\<lparr>hi_uid = ''7'', hi_gid = ''7''\<rparr>"]
  have "\<not> entry_ok locked_fs (fst (wf_identity locked_fs ''/w'')) (wf_identity locked_fs ''/k'') ''/k''" by code_simp
  then have "\<not> in_tree locked_fs ''/w'' ''/k''" using iso by blast
  moreover from iso have "option_values ''--network'' (fst (run_options (tl (agent_run_command
      (locked_spec\<lparr>lr_image := ''sha256:'' @ replicate 64 (CHR ''0'')\<rparr>) (SessionNames_from_id ''1'') \<lparr>hi_uid = ''7'', hi_gid = ''7''\<rparr>)))) = [''none'']"
    by (elim conjE) (simp only: case_prod_unfold)
  ultimately show ?thesis by (simp only: Let_def simp_thms)
qed

end
