(* ===== verification/Container_Run.thy ===== *)
theory Container_Run
  imports Container_Spec Proxy
begin

text \<open>
  The lifecycle of a locked container run (\<open>crates/blindfold-cli/src/container_runner.rs\<close>): preflight, the
  session's volume and containers, waiting for the agent, interrupts and cleanup.  The container engine
  is a parameter that answers each command from the history of the commands issued so far, so every
  behaviour of the engine is covered; the history is the state.
\<close>

section \<open>Commands\<close>

record DockerClient =
  dc_executable :: string
  dc_endpoint :: string

record DockerCommand =
  dcmd_program :: string
  dcmd_args :: "string list"
  dcmd_env_remove :: "string list"

record CmdOutput =
  co_code :: "int option"
  co_stdout :: string

definition co_success :: "CmdOutput \<Rightarrow> bool" where
  "co_success r \<longleftrightarrow> co_code r = Some 0"

text \<open>\<open>None\<close> is a command that could not be started or awaited.\<close>

type_synonym Engine = "DockerCommand list \<Rightarrow> DockerCommand \<Rightarrow> CmdOutput option"

type_synonym 'a act = "DockerCommand list \<Rightarrow> (ContainerRunError + 'a) \<times> DockerCommand list"

definition act_ret :: "ContainerRunError + 'a \<Rightarrow> 'a act" where
  "act_ret r h = (r, h)"

definition act_bind :: "'a act \<Rightarrow> ('a \<Rightarrow> 'b act) \<Rightarrow> 'b act" where
  "act_bind m f h = (case m h of (Inl e, h') \<Rightarrow> (Err e, h') | (Inr x, h') \<Rightarrow> f x h')"

definition docker_command :: "DockerClient \<Rightarrow> DockerInvocation \<Rightarrow> DockerCommand" where
  "docker_command d cargs =
     \<lparr>dcmd_program = dc_executable d, dcmd_args = [''--host'', dc_endpoint d] @ cargs, dcmd_env_remove = [''DOCKER_HOST'', ''DOCKER_CONTEXT'']\<rparr>"

definition unpinned_command :: "string \<Rightarrow> DockerInvocation \<Rightarrow> DockerCommand" where
  "unpinned_command executable cargs = \<lparr>dcmd_program = executable, dcmd_args = cargs, dcmd_env_remove = []\<rparr>"

definition issue :: "Engine \<Rightarrow> DockerCommand \<Rightarrow> ContainerRunError \<Rightarrow> CmdOutput act" where
  "issue env c e h = (ok_or (env h c) e, h @ [c])"

definition docker_success :: "Engine \<Rightarrow> DockerClient \<Rightarrow> DockerInvocation \<Rightarrow> bool act" where
  "docker_success env d cargs = act_bind (issue env (docker_command d cargs) CR_DockerUnavailable) (\<lambda>out. act_ret (Ok (co_success out)))"

definition run_required :: "Engine \<Rightarrow> DockerClient \<Rightarrow> DockerInvocation \<Rightarrow> string \<Rightarrow> unit act" where
  "run_required env d cargs operation =
     act_bind (issue env (docker_command d cargs) (CR_DockerOperation operation)) (\<lambda>out.
       act_ret (if co_success out then Ok () else Err (CR_DockerOperation operation)))"

definition run_cleanup :: "Engine \<Rightarrow> DockerClient \<Rightarrow> DockerInvocation \<Rightarrow> DockerCommand list \<Rightarrow> bool \<times> DockerCommand list" where
  "run_cleanup env d cargs h =
     ((case env h (docker_command d cargs) of Some out \<Rightarrow> co_success out | None \<Rightarrow> False), h @ [docker_command d cargs])"

section \<open>Preflight\<close>

definition info_command :: DockerInvocation where
  "info_command = [''info'', ''--format'', ''{{.ServerVersion}}'']"

definition ensure_docker_available :: "Engine \<Rightarrow> DockerClient \<Rightarrow> unit act" where
  "ensure_docker_available env d =
     act_bind (issue env (docker_command d info_command) CR_DockerUnavailable) (\<lambda>out.
       act_ret (if co_success out then Ok () else Err CR_DockerUnavailable))"

definition is_local_docker_endpoint :: "string \<Rightarrow> bool" where
  "is_local_docker_endpoint e \<longleftrightarrow>
     e \<noteq> [] \<and> \<not> has_control e \<and>
     ((case strip_prefix ''unix://'' e of Some p \<Rightarrow> starts_with ''/'' p | None \<Rightarrow> False) \<or> starts_with ''npipe://'' e)"

text \<open>\<open>docker_host\<close> is the environment variable \<open>DOCKER_HOST\<close>.\<close>

definition local_docker_client :: "Engine \<Rightarrow> string option \<Rightarrow> string \<Rightarrow> DockerClient act" where
  "local_docker_client env docker_host executable =
     (case docker_host of
        Some host \<Rightarrow>
          act_ret (if \<not> utf8_valid host then Err CR_RemoteDockerContext
                   else if is_local_docker_endpoint host then Ok \<lparr>dc_executable = executable, dc_endpoint = host\<rparr>
                   else Err CR_RemoteDockerContext)
      | None \<Rightarrow>
          act_bind (issue env (unpinned_command executable [''context'', ''inspect'', ''--format'', ''{{ (index .Endpoints \"docker\").Host }}''])
              CR_DockerUnavailable) (\<lambda>out.
            act_ret (if \<not> co_success out \<or> length (co_stdout out) > 4096 then Err CR_DockerUnavailable
                     else if \<not> utf8_valid (co_stdout out) then Err CR_RemoteDockerContext
                     else
                       let endpoint = str_trim (co_stdout out) in
                       if is_local_docker_endpoint endpoint then Ok \<lparr>dc_executable = executable, dc_endpoint = endpoint\<rparr>
                       else Err CR_RemoteDockerContext)))"

definition canonical_docker_executable :: "WsFs \<Rightarrow> string \<Rightarrow> string \<Rightarrow> ContainerRunError + string" where
  "canonical_docker_executable fs workspace candidate =
     res_bind (ok_or (hf_canonicalize fs candidate) CR_UntrustedDockerExecutable) (\<lambda>canonical.
       if path_starts_with workspace canonical then Err CR_UntrustedDockerExecutable else Ok canonical)"

fun docker_search :: "WsFs \<Rightarrow> string \<Rightarrow> string list \<Rightarrow> ContainerRunError + string" where
  "docker_search fs workspace [] = Err CR_DockerUnavailable"
| "docker_search fs workspace (directory # directories) =
     (let candidate = path_join directory ''docker'' in
      case hf_metadata fs candidate of
        Inl _ \<Rightarrow> docker_search fs workspace directories
      | Inr md \<Rightarrow>
          if nm_kind md \<noteq> Nk_File \<or> \<not> is_executable md then docker_search fs workspace directories
          else canonical_docker_executable fs workspace candidate)"

definition resolve_docker_executable :: "WsFs \<Rightarrow> string option \<Rightarrow> string \<Rightarrow> ContainerRunError + string" where
  "resolve_docker_executable fs path_env workspace =
     res_bind (ok_or path_env CR_DockerUnavailable) (\<lambda>p. docker_search fs workspace (split_on (CHR '':'') p))"

definition inspect_image_id :: "Engine \<Rightarrow> DockerClient \<Rightarrow> string \<Rightarrow> string option act" where
  "inspect_image_id env d img =
     act_bind (issue env (docker_command d [''image'', ''inspect'', ''--format'', ''{{.Id}}'', img]) (CR_DockerOperation ''inspect the session image''))
       (\<lambda>out. act_ret
         (if \<not> co_success out then Ok None
          else if length (co_stdout out) > 128 \<or> \<not> utf8_valid (co_stdout out) \<or> \<not> valid_image_id (str_trim (co_stdout out))
          then Err (CR_DockerOperation ''inspect the session image'')
          else Ok (Some (str_trim (co_stdout out)))))"

definition resolve_session_image :: "Engine \<Rightarrow> DockerClient \<Rightarrow> string \<Rightarrow> string act" where
  "resolve_session_image env d img =
     act_bind (inspect_image_id env d img) (\<lambda>found.
       case found of
         Some image_id \<Rightarrow> act_ret (Ok image_id)
       | None \<Rightarrow>
           if img = LOCAL_DEVELOPMENT_IMAGE then act_ret (Err (CR_DockerOperation ''resolve the local evaluation image''))
           else
             act_bind (run_required env d [''pull'', img] ''pull the digest-pinned image'') (\<lambda>_.
             act_bind (inspect_image_id env d img) (\<lambda>found.
               act_ret (ok_or found (CR_DockerOperation ''resolve the digest-pinned image'')))))"

text \<open>
  The output and the success of \<open>/usr/bin/id\<close> with a flag; \<open>None\<close> is any failure to run or read it.  At most
  33 bytes are read.
\<close>

definition read_host_id :: "(string \<Rightarrow> (string \<times> bool) option) \<Rightarrow> string \<Rightarrow> ContainerRunError + string" where
  "read_host_id ids flag =
     (case ids flag of
        None \<Rightarrow> Err (CR_DockerOperation ''resolve the host user identity'')
      | Some (out, success) \<Rightarrow>
          (let bytes = take 33 out; v = trim_end_matches (\<lambda>c. c \<in> {CHR 0x0D, CHR 0x0A}) bytes in
           if \<not> utf8_valid bytes \<or> \<not> success \<or> v = [] \<or> length v > 32 \<or> \<not> list_all is_ascii_digit v
           then Err (CR_DockerOperation ''resolve the host user identity'') else Ok v))"

definition host_identity :: "(string \<Rightarrow> (string \<times> bool) option) \<Rightarrow> ContainerRunError + HostIdentity" where
  "host_identity ids =
     res_bind (read_host_id ids ''-u'') (\<lambda>uid. res_bind (read_host_id ids ''-g'') (\<lambda>gid. Ok \<lparr>hi_uid = uid, hi_gid = gid\<rparr>))"

text \<open>The clock in nanoseconds since the epoch, the process identifier and the counter of sessions.\<close>

definition SessionNames_new :: "int \<Rightarrow> nat \<Rightarrow> 64 word \<Rightarrow> ContainerRunError + SessionNames" where
  "SessionNames_new clock pid counter =
     (if clock < 0 then Err CR_ClockUnavailable
      else Ok (SessionNames_from_id (nat_str pid @ ''-'' @ hex_str (nat clock) @ ''-'' @ hex_str (unat counter))))"

section \<open>Cleanup\<close>

definition checked_resource_exists :: "Engine \<Rightarrow> DockerClient \<Rightarrow> DockerInvocation \<Rightarrow> bool act" where
  "checked_resource_exists env d cargs =
     act_bind (docker_success env d cargs) (\<lambda>found.
       if found then act_ret (Ok True)
       else act_bind (docker_success env d info_command) (\<lambda>daemon_alive.
         act_ret (if daemon_alive then Ok False else Err CR_CleanupFailed)))"

text \<open>A cleanup command when it is needed; the flag accumulates failures.\<close>

definition cleanup_when :: "Engine \<Rightarrow> DockerClient \<Rightarrow> bool \<Rightarrow> bool \<Rightarrow> DockerInvocation \<Rightarrow> bool act" where
  "cleanup_when env d failed needed cargs h =
     (if needed then (case run_cleanup env d cargs h of (ok, h') \<Rightarrow> (Ok (failed \<or> \<not> ok), h')) else (Ok failed, h))"

definition cleanup_gateway :: "Engine \<Rightarrow> DockerClient \<Rightarrow> SessionNames \<Rightarrow> bool \<Rightarrow> bool act" where
  "cleanup_gateway env d s failed =
     act_bind (checked_resource_exists env d (gateway_inspect_command s)) (\<lambda>gateway_exists.
       if \<not> gateway_exists then act_ret (Ok failed)
       else
         act_bind (cleanup_when env d failed True (gateway_stop_command s)) (\<lambda>failed.
         act_bind (checked_resource_exists env d (gateway_inspect_command s)) (\<lambda>still.
           cleanup_when env d failed still (gateway_remove_command s))))"

definition cleanup_session :: "Engine \<Rightarrow> DockerClient \<Rightarrow> SessionNames \<Rightarrow> unit act" where
  "cleanup_session env d s h0 =
     (case docker_success env d info_command h0 of (alive, h) \<Rightarrow>
        if alive \<noteq> Ok True then (Err CR_CleanupFailed, h)
        else
          act_bind (checked_resource_exists env d (agent_inspect_command s)) (\<lambda>agent_exists.
          act_bind (cleanup_when env d False agent_exists (agent_remove_command s)) (\<lambda>failed.
          act_bind (cleanup_gateway env d s failed) (\<lambda>failed.
          act_bind (checked_resource_exists env d (volume_inspect_command s)) (\<lambda>volume_exists.
          act_bind (cleanup_when env d failed volume_exists (volume_remove_command s)) (\<lambda>failed.
            act_ret (if failed then Err CR_CleanupFailed else Ok ())))))) h)"

section \<open>The run\<close>

text \<open>
  Where an interrupt arrives: during preflight after some number of commands, or while one of the later
  steps is awaited.  The Boolean tells whether the signal was delivered without an error.
\<close>

record Interrupts =
  in_preflight :: "(nat \<times> bool) option"
  in_volume :: "bool option"
  in_gateway :: "bool option"
  in_agent :: "bool option"
  in_cleanup :: "bool option"

text \<open>What \<open>wait\<close> and the successive \<open>try_wait\<close> of the agent's process answer.\<close>

record AgentChild =
  ac_wait :: "ExitStatus option"
  ac_try_wait :: "TryWait list"

definition signal_error :: "bool \<Rightarrow> ContainerRunError" where
  "signal_error delivered = (if delivered then CR_Interrupted else CR_DockerOperation ''listen for an interrupt'')"

text \<open>\<open>None\<close> when the agent is still running at the end of the list.\<close>

fun stop_agent_after_interrupt ::
  "Engine \<Rightarrow> DockerClient \<Rightarrow> SessionNames \<Rightarrow> TryWait list \<Rightarrow> DockerCommand list \<Rightarrow>
     ((ContainerRunError + unit) \<times> DockerCommand list) option"
where
  "stop_agent_after_interrupt env d s [] h = None"
| "stop_agent_after_interrupt env d s (w # ws) h =
     (case w of
        TW_Error \<Rightarrow> Some (Err (CR_DockerOperation ''stop the interrupted agent''), h)
      | TW_Exited _ \<Rightarrow> Some (Ok (), h)
      | TW_Running \<Rightarrow> stop_agent_after_interrupt env d s ws (snd (run_cleanup env d (agent_remove_command s) h)))"

definition agent_exit :: "ExitStatus option \<Rightarrow> ContainerRunError + ExitStatus" where
  "agent_exit status =
     (case status of
        None \<Rightarrow> Err (CR_DockerOperation ''run the isolated agent'')
      | Some st \<Rightarrow> if es_code st = Some 125 then Err (CR_DockerOperation ''run the isolated agent'') else Ok st)"

text \<open>The outcome and whether the signal was consumed.\<close>

definition run_after_volume_created ::
  "Engine \<Rightarrow> DockerClient \<Rightarrow> LockedRunSpec \<Rightarrow> SessionNames \<Rightarrow> HostIdentity \<Rightarrow> Interrupts \<Rightarrow> AgentChild \<Rightarrow> DockerCommand list \<Rightarrow>
     (((ContainerRunError + ExitStatus) \<times> bool) \<times> DockerCommand list) option"
where
  "run_after_volume_created env d spec s identity ints child h =
     (case run_required env d (gateway_run_command spec s) ''start the boundary gateway'' h of (gateway_result, h) \<Rightarrow>
      case in_gateway ints of
        Some delivered \<Rightarrow> Some ((Err (signal_error delivered), True), h)
      | None \<Rightarrow>
          (case gateway_result of
             Inl e \<Rightarrow> Some ((Err e, False), h)
           | Inr _ \<Rightarrow>
               (case issue env (docker_command d (agent_run_command spec s identity)) (CR_DockerOperation ''run the isolated agent'') h of
                  (Inl e, h) \<Rightarrow> Some ((Err e, False), h)
                | (Inr _, h) \<Rightarrow>
                    (case in_agent ints of
                       None \<Rightarrow> Some ((agent_exit (ac_wait child), False), h)
                     | Some delivered \<Rightarrow>
                         map_option (\<lambda>(stopped, h).
                           ((if delivered then res_bind stopped (\<lambda>_. Err CR_Interrupted) else Err (signal_error False), True), h))
                           (stop_agent_after_interrupt env d s (ac_try_wait child) h)))))"

definition preflight ::
  "Engine \<Rightarrow> string option \<Rightarrow> (string \<Rightarrow> (string \<times> bool) option) \<Rightarrow> string \<Rightarrow> string \<Rightarrow> (DockerClient \<times> string \<times> HostIdentity) act"
where
  "preflight env docker_host ids executable img =
     act_bind (local_docker_client env docker_host executable) (\<lambda>d.
     act_bind (ensure_docker_available env d) (\<lambda>_.
     act_bind (resolve_session_image env d img) (\<lambda>image_id.
     act_ret (res_map (\<lambda>identity. (d, image_id, identity)) (host_identity ids)))))"

text \<open>From the creation of the volume to the end of the cleanup.\<close>

definition run_session ::
  "Engine \<Rightarrow> DockerClient \<Rightarrow> LockedRunSpec \<Rightarrow> SessionNames \<Rightarrow> HostIdentity \<Rightarrow> Interrupts \<Rightarrow> AgentChild \<Rightarrow> DockerCommand list \<Rightarrow>
     ((ContainerRunError + ExitStatus) \<times> DockerCommand list) option"
where
  "run_session env d spec s identity ints child h =
     (case run_required env d (volume_create_command s) ''create the socket volume'' h of (volume_result, h) \<Rightarrow>
      Option.bind
        (case in_volume ints of
           Some delivered \<Rightarrow> Some ((Err (signal_error delivered), True), h)
         | None \<Rightarrow>
             (case volume_result of
                Inl e \<Rightarrow> Some ((Err e, False), h)
              | Inr _ \<Rightarrow> run_after_volume_created env d spec s identity ints child h))
        (\<lambda>((outcome, signal_consumed), h).
           case cleanup_session env d s h of (cleanup, h) \<Rightarrow>
           let outcome = (if signal_consumed then outcome
                          else case in_cleanup ints of None \<Rightarrow> outcome | Some delivered \<Rightarrow> Err (signal_error delivered))
           in Some (case cleanup of Inl e \<Rightarrow> Err e | Inr _ \<Rightarrow> outcome, h)))"

definition run_locked ::
  "WsFs \<Rightarrow> Engine \<Rightarrow> string option \<Rightarrow> string option \<Rightarrow> (string \<Rightarrow> (string \<times> bool) option) \<Rightarrow> int \<Rightarrow> nat \<Rightarrow> 64 word \<Rightarrow>
     Interrupts \<Rightarrow> AgentChild \<Rightarrow> LockedRunSpec \<Rightarrow> ((ContainerRunError + ExitStatus) \<times> DockerCommand list) option"
where
  "run_locked fs env path_env docker_host ids clock pid counter ints child spec =
     (case resolve_docker_executable fs path_env (lr_workspace spec) of
        Inl e \<Rightarrow> Some (Err e, [])
      | Inr executable \<Rightarrow>
          (case preflight env docker_host ids executable (lr_image spec) [] of (ready, h) \<Rightarrow>
           case in_preflight ints of
             Some (n, delivered) \<Rightarrow> Some (Err (signal_error delivered), take n h)
           | None \<Rightarrow>
               (case ready of
                  Inl e \<Rightarrow> Some (Err e, h)
                | Inr (d, image_id, identity) \<Rightarrow>
                    (case SessionNames_new clock pid counter of
                       Inl e \<Rightarrow> Some (Err e, h)
                     | Inr s \<Rightarrow>
                         (case docker_success env d (volume_inspect_command s) h of
                            (Inl e, h) \<Rightarrow> Some (Err e, h)
                          | (Inr True, h) \<Rightarrow> Some (Err CR_SessionCollision, h)
                          | (Inr False, h) \<Rightarrow> run_session env d (spec\<lparr>lr_image := image_id\<rparr>) s identity ints child h)))))"

section \<open>What is issued\<close>

text \<open>
  An action appends commands that satisfy \<open>P\<close> to the history, and a result it returns satisfies \<open>Q\<close>.
\<close>

definition act_spec :: "(DockerCommand \<Rightarrow> bool) \<Rightarrow> ('a \<Rightarrow> bool) \<Rightarrow> 'a act \<Rightarrow> bool" where
  "act_spec P Q m \<longleftrightarrow> (\<forall>h. \<exists>cs. snd (m h) = h @ cs \<and> list_all P cs \<and> (\<forall>x. fst (m h) = Ok x \<longrightarrow> Q x))"

named_theorems act_rules

lemma act_spec_ret [act_rules]: "(\<And>x. r = Ok x \<Longrightarrow> Q x) \<Longrightarrow> act_spec P Q (act_ret r)"
  by (simp add: act_spec_def act_ret_def)

lemma act_spec_issue: "P c \<Longrightarrow> act_spec P (\<lambda>_. True) (issue env c e)"
  by (simp add: act_spec_def issue_def)

lemma act_spec_bind [act_rules]:
  assumes "act_spec P Q m" and "\<And>x. Q x \<Longrightarrow> act_spec P R (f x)"
  shows "act_spec P R (act_bind m f)"
  unfolding act_spec_def
proof
  fix h
  obtain cs where cs: "snd (m h) = h @ cs" "list_all P cs" "\<forall>x. fst (m h) = Ok x \<longrightarrow> Q x"
    using assms(1) unfolding act_spec_def by blast
  show "\<exists>cs. snd (act_bind m f h) = h @ cs \<and> list_all P cs \<and> (\<forall>x. fst (act_bind m f h) = Ok x \<longrightarrow> R x)"
  proof (cases "fst (m h)")
    case (Inl e)
    then show ?thesis using cs by (auto simp: act_bind_def split: prod.splits)
  next
    case (Inr x)
    then obtain cs' where "snd (f x (h @ cs)) = (h @ cs) @ cs'" "list_all P cs'" "\<forall>y. fst (f x (h @ cs)) = Ok y \<longrightarrow> R y"
      using assms(2)[of x] cs(3) unfolding act_spec_def by blast
    then show ?thesis using cs Inr by (cases "m h") (auto simp: act_bind_def intro!: exI[of _ "cs @ cs'"])
  qed
qed

lemma act_spec_command [act_rules]:
  "P c \<Longrightarrow> (\<And>out. act_spec P R (f out)) \<Longrightarrow> act_spec P R (act_bind (issue env c e) f)"
  by (rule act_spec_bind[OF act_spec_issue])

lemma act_spec_then: "act_spec P (\<lambda>_. True) m \<Longrightarrow> (\<And>x. act_spec P R (f x)) \<Longrightarrow> act_spec P R (act_bind m f)"
  by (rule act_spec_bind)

lemma act_spec_weaken: "act_spec P Q m \<Longrightarrow> (\<And>x. Q x \<Longrightarrow> R x) \<Longrightarrow> act_spec P R m"
  unfolding act_spec_def by meson

lemma act_spec_docker_success [act_rules]: "P (docker_command d cargs) \<Longrightarrow> act_spec P (\<lambda>_. True) (docker_success env d cargs)"
  unfolding docker_success_def by (rule act_spec_command, assumption) (simp add: act_spec_ret)

lemma act_spec_run_required [act_rules]: "P (docker_command d cargs) \<Longrightarrow> act_spec P (\<lambda>_. True) (run_required env d cargs op)"
  unfolding run_required_def by (rule act_spec_command, assumption) (simp add: act_spec_ret)

lemma act_spec_cleanup_when [act_rules]: "P (docker_command d cargs) \<Longrightarrow> act_spec P (\<lambda>_. True) (cleanup_when env d failed needed cargs)"
  by (auto simp: act_spec_def cleanup_when_def run_cleanup_def)

definition context_command :: "string \<Rightarrow> DockerCommand" where
  "context_command exe = unpinned_command exe [''context'', ''inspect'', ''--format'', ''{{ (index .Endpoints \"docker\").Host }}'']"

definition session_commands :: "LockedRunSpec \<Rightarrow> SessionNames \<Rightarrow> HostIdentity \<Rightarrow> DockerInvocation set" where
  "session_commands spec s i = {info_command, volume_inspect_command s, volume_create_command s, gateway_run_command spec s, agent_run_command spec s i,
     agent_inspect_command s, agent_remove_command s, gateway_inspect_command s, gateway_stop_command s, gateway_remove_command s,
     volume_remove_command s}"

definition preflight_commands :: "string \<Rightarrow> DockerInvocation set" where
  "preflight_commands img = {info_command, [''image'', ''inspect'', ''--format'', ''{{.Id}}'', img], [''pull'', img]}"

text \<open>A command of the run: the trusted executable, pinned to a local engine, with arguments in a set.\<close>

definition pinned :: "string \<Rightarrow> DockerInvocation set \<Rightarrow> DockerCommand \<Rightarrow> bool" where
  "pinned exe A c \<longleftrightarrow> c = context_command exe \<or>
     (\<exists>endpoint cargs. is_local_docker_endpoint endpoint \<and> cargs \<in> A \<and>
        c = docker_command \<lparr>dc_executable = exe, dc_endpoint = endpoint\<rparr> cargs)"

definition local_client :: "string \<Rightarrow> DockerClient \<Rightarrow> bool" where
  "local_client exe d \<longleftrightarrow> dc_executable d = exe \<and> is_local_docker_endpoint (dc_endpoint d)"

lemma pinned_docker_command: "local_client exe d \<Longrightarrow> cargs \<in> A \<Longrightarrow> pinned exe A (docker_command d cargs)"
  unfolding pinned_def local_client_def by (cases d) auto

lemma local_docker_client_spec: "act_spec (pinned exe A) (local_client exe) (local_docker_client env docker_host exe)"
proof (cases docker_host)
  case None
  show ?thesis
    unfolding local_docker_client_def context_command_def[symmetric] None option.case
    by (rule act_spec_command)
      (simp add: pinned_def, rule act_spec_ret, auto simp: local_client_def Let_def split: if_splits)
next
  case (Some host)
  show ?thesis
    unfolding local_docker_client_def Some option.case by (rule act_spec_ret) (auto simp: local_client_def split: if_splits)
qed

lemma inspect_image_id_spec:
  "P (docker_command d [''image'', ''inspect'', ''--format'', ''{{.Id}}'', img]) \<Longrightarrow>
     act_spec P (\<lambda>r. \<forall>i. r = Some i \<longrightarrow> valid_image_id i) (inspect_image_id env d img)"
  unfolding inspect_image_id_def by (rule act_spec_command, assumption) (rule act_spec_ret, auto split: if_splits)

lemma resolve_session_image_spec:
  assumes "P (docker_command d [''image'', ''inspect'', ''--format'', ''{{.Id}}'', img])" and "P (docker_command d [''pull'', img])"
  shows "act_spec P valid_image_id (resolve_session_image env d img)"
  unfolding resolve_session_image_def
proof (rule act_spec_bind[OF inspect_image_id_spec[where P = P, OF assms(1)]])
  fix found :: "string option"
  assume "\<forall>i. found = Some i \<longrightarrow> valid_image_id i"
  then show "act_spec P valid_image_id (case found of Some image_id \<Rightarrow> act_ret (Ok image_id)
      | None \<Rightarrow> if img = LOCAL_DEVELOPMENT_IMAGE then act_ret (Err (CR_DockerOperation ''resolve the local evaluation image''))
         else act_bind (run_required env d [''pull'', img] ''pull the digest-pinned image'') (\<lambda>_.
             act_bind (inspect_image_id env d img) (\<lambda>found.
               act_ret (ok_or found (CR_DockerOperation ''resolve the digest-pinned image'')))))"
    by (cases found)
      (auto intro!: act_spec_ret act_spec_bind[OF act_spec_run_required[where P = P, OF assms(2)]] act_spec_bind[OF inspect_image_id_spec[where P = P, OF assms(1)]]
        simp: ok_or_ok_iff)
qed

lemma preflight_spec:
  "act_spec (pinned exe (preflight_commands img)) (\<lambda>(d, i, identity). local_client exe d \<and> valid_image_id i) (preflight env docker_host ids exe img)"
  unfolding preflight_def
proof (rule act_spec_bind[OF local_docker_client_spec])
  fix d assume d: "local_client exe d"
  note pin = pinned_docker_command[OF d, of _ "preflight_commands img"]
  show "act_spec (pinned exe (preflight_commands img)) (\<lambda>(d, i, identity). local_client exe d \<and> valid_image_id i)
      (act_bind (ensure_docker_available env d) (\<lambda>_. act_bind (resolve_session_image env d img) (\<lambda>image_id.
        act_ret (res_map (\<lambda>identity. (d, image_id, identity)) (host_identity ids)))))"
    unfolding ensure_docker_available_def
    by (rule act_spec_then, rule act_spec_command, rule pin, simp add: preflight_commands_def, rule act_spec_ret, simp,
        rule act_spec_bind[OF resolve_session_image_spec])
      (rule pin, simp add: preflight_commands_def, rule pin, simp add: preflight_commands_def, rule act_spec_ret, auto simp: res_map_ok_iff d)
qed

lemma checked_resource_exists_spec:
  "P (docker_command d cargs) \<Longrightarrow> P (docker_command d info_command) \<Longrightarrow> act_spec P (\<lambda>_. True) (checked_resource_exists env d cargs)"
  unfolding checked_resource_exists_def
  by (rule act_spec_then[OF act_spec_docker_success], assumption)
    (auto intro!: act_spec_ret act_spec_then[OF act_spec_docker_success])

lemma cleanup_gateway_spec:
  assumes "P (docker_command d info_command)" "P (docker_command d (gateway_inspect_command s))"
    "P (docker_command d (gateway_stop_command s))" "P (docker_command d (gateway_remove_command s))"
  shows "act_spec P (\<lambda>_. True) (cleanup_gateway env d s failed)"
  unfolding cleanup_gateway_def
  by (rule act_spec_then[OF checked_resource_exists_spec[where P = P, OF assms(2,1)]])
    (auto intro!: act_spec_ret act_spec_then[OF checked_resource_exists_spec[where P = P, OF assms(2,1)]] act_spec_then[OF act_spec_cleanup_when]
      act_spec_cleanup_when assms)

lemma cleanup_session_spec:
  assumes cs: "\<And>cargs. cargs \<in> session_commands spec s i \<Longrightarrow> P (docker_command d cargs)"
  shows "act_spec P (\<lambda>_. True) (cleanup_session env d s)"
proof -
  have P: "P (docker_command d info_command)" "P (docker_command d (agent_inspect_command s))" "P (docker_command d (agent_remove_command s))"
    "P (docker_command d (gateway_inspect_command s))" "P (docker_command d (gateway_stop_command s))"
    "P (docker_command d (gateway_remove_command s))" "P (docker_command d (volume_inspect_command s))"
    "P (docker_command d (volume_remove_command s))"
    by (simp_all add: cs session_commands_def)
  let ?rest = "act_bind (checked_resource_exists env d (agent_inspect_command s)) (\<lambda>agent_exists.
          act_bind (cleanup_when env d False agent_exists (agent_remove_command s)) (\<lambda>failed.
          act_bind (cleanup_gateway env d s failed) (\<lambda>failed.
          act_bind (checked_resource_exists env d (volume_inspect_command s)) (\<lambda>volume_exists.
          act_bind (cleanup_when env d failed volume_exists (volume_remove_command s)) (\<lambda>failed.
            act_ret (if failed then Err CR_CleanupFailed else Ok ()))))))"
  have rest: "act_spec P (\<lambda>_. True) ?rest"
    by (intro act_spec_then checked_resource_exists_spec cleanup_gateway_spec act_spec_cleanup_when act_spec_ret P) simp
  have alive: "act_spec P (\<lambda>_. True) (docker_success env d info_command)" by (rule act_spec_docker_success[where P = P, OF P(1)])
  show ?thesis
    unfolding act_spec_def
  proof
    fix h
    obtain r h1 where r: "docker_success env d info_command h = (r, h1)" by force
    obtain cs1 where cs1: "h1 = h @ cs1" "list_all P cs1" using alive r unfolding act_spec_def by (metis snd_conv)
    obtain cs2 where cs2: "snd (?rest h1) = h1 @ cs2" "list_all P cs2" using rest unfolding act_spec_def by meson
    show "\<exists>cs. snd (cleanup_session env d s h) = h @ cs \<and> list_all P cs \<and> (\<forall>x. fst (cleanup_session env d s h) = Ok x \<longrightarrow> True)"
      using cs1 cs2 by (cases "r = Ok True") (auto simp: cleanup_session_def r intro: exI[of _ "cs1 @ cs2"])
  qed
qed

lemma stop_agent_commands:
  "stop_agent_after_interrupt env d s ws h = Some (r, h') \<Longrightarrow> P (docker_command d (agent_remove_command s)) \<Longrightarrow>
     \<exists>cs. h' = h @ cs \<and> list_all P cs"
proof (induction env d s ws h rule: stop_agent_after_interrupt.induct)
  case (2 env d s w ws h)
  then show ?case by (cases w) (fastforce simp: run_cleanup_def)+
qed simp

lemma run_required_commands:
  "P (docker_command d cargs) \<Longrightarrow> \<exists>cs. snd (run_required env d cargs op h) = h @ cs \<and> list_all P cs"
  using act_spec_run_required[of P d cargs env op] unfolding act_spec_def by meson

lemma run_after_volume_commands:
  assumes cs: "\<And>cargs. cargs \<in> session_commands spec s i \<Longrightarrow> P (docker_command d cargs)"
    and run: "run_after_volume_created env d spec s i ints child h = Some (r, h')"
  shows "\<exists>cs. h' = h @ cs \<and> list_all P cs"
proof -
  have P: "P (docker_command d (gateway_run_command spec s))" "P (docker_command d (agent_run_command spec s i))"
    "P (docker_command d (agent_remove_command s))"
    by (simp_all add: cs session_commands_def)
  obtain g h1 where g: "run_required env d (gateway_run_command spec s) ''start the boundary gateway'' h = (g, h1)" by force
  obtain cs1 where cs1: "h1 = h @ cs1" "list_all P cs1"
    using run_required_commands[where P = P, OF P(1), of env "''start the boundary gateway''" h] by (auto simp: g)
  let ?h2 = "h1 @ [docker_command d (agent_run_command spec s i)]"
  have "h' = h1 \<or> h' = ?h2 \<or> (\<exists>r. stop_agent_after_interrupt env d s (ac_try_wait child) ?h2 = Some (r, h'))"
    using run by (auto simp: run_after_volume_created_def g issue_def split: option.splits sum.splits prod.splits if_splits)
  then show ?thesis
  proof (elim disjE exE)
    fix r assume "stop_agent_after_interrupt env d s (ac_try_wait child) ?h2 = Some (r, h')"
    from stop_agent_commands[OF this, of P] P show ?thesis using cs1 by auto
  qed (use cs1 P in auto)
qed

lemma run_session_ends:
  assumes "run_session env d spec s i ints child h = Some (r, h')"
  obtains h1 h2 cleanup where "h1 = snd (run_required env d (volume_create_command s) ''create the socket volume'' h)"
    and "h2 = h1 \<or> (\<exists>oc. run_after_volume_created env d spec s i ints child h1 = Some (oc, h2))"
    and "cleanup_session env d s h2 = (cleanup, h')" and "cleanup = Ok () \<or> (\<exists>e. cleanup = Err e \<and> r = Err e)"
proof -
  obtain v h1 where v: "run_required env d (volume_create_command s) ''create the socket volume'' h = (v, h1)" by force
  define mid where "mid = (case in_volume ints of
      Some delivered \<Rightarrow> Some ((Err (signal_error delivered), True), h1)
    | None \<Rightarrow> (case v of Inl e \<Rightarrow> Some ((Err e, False), h1) | Inr _ \<Rightarrow> run_after_volume_created env d spec s i ints child h1))"
  obtain outcome consumed h2 where mid: "mid = Some ((outcome, consumed), h2)"
    using assms by (auto simp: run_session_def v mid_def[symmetric] bind_eq_Some_conv)
  obtain cleanup h3 where cl: "cleanup_session env d s h2 = (cleanup, h3)" by force
  have "(case cleanup of Inl e \<Rightarrow> Err e | Inr _ \<Rightarrow> if consumed then outcome
      else case in_cleanup ints of None \<Rightarrow> outcome | Some delivered \<Rightarrow> Err (signal_error delivered)) = r \<and> h3 = h'"
    using assms by (simp add: run_session_def v mid_def[symmetric] mid cl Let_def)
  moreover have "h2 = h1 \<or> (\<exists>oc. run_after_volume_created env d spec s i ints child h1 = Some (oc, h2))"
    using mid by (auto simp: mid_def split: option.splits sum.splits)
  ultimately show ?thesis using that[of h1 h2 cleanup] cl v by (cases cleanup) auto
qed

lemma run_session_commands:
  assumes cs: "\<And>cargs. cargs \<in> session_commands spec s i \<Longrightarrow> P (docker_command d cargs)"
    and run: "run_session env d spec s i ints child h = Some (r, h')"
  shows "\<exists>cs. h' = h @ cs \<and> list_all P cs"
proof -
  have P: "P (docker_command d (volume_create_command s))" by (simp add: cs session_commands_def)
  obtain h1 h2 cleanup where h1: "h1 = snd (run_required env d (volume_create_command s) ''create the socket volume'' h)"
    and h2: "h2 = h1 \<or> (\<exists>oc. run_after_volume_created env d spec s i ints child h1 = Some (oc, h2))"
    and cl: "cleanup_session env d s h2 = (cleanup, h')"
    by (rule run_session_ends[OF run])
  obtain cs1 where cs1: "h1 = h @ cs1" "list_all P cs1"
    using run_required_commands[where P = P, OF P, of env "''create the socket volume''" h] h1 by auto
  have "\<exists>cs. h2 = h1 @ cs \<and> list_all P cs"
    using h2 by (elim disjE exE) (simp, rule run_after_volume_commands[where P = P, OF cs])
  then obtain cs2 where cs2: "h2 = h1 @ cs2" "list_all P cs2" by blast
  have h': "h' = snd (cleanup_session env d s h2)" by (simp add: cl)
  obtain cs3 where "h' = h2 @ cs3" "list_all P cs3"
    using cleanup_session_spec[where P = P and env = env, OF cs] unfolding act_spec_def h' by meson
  then show ?thesis using cs1 cs2 by (auto intro: exI[of _ "cs1 @ cs2 @ cs3"])
qed

lemma pinned_mono: "pinned exe A c \<Longrightarrow> A \<subseteq> B \<Longrightarrow> pinned exe B c"
  unfolding pinned_def by blast

lemma docker_search_trusted: "docker_search fs workspace ds = Ok exe \<Longrightarrow> \<not> path_starts_with workspace exe"
  by (induction ds) (auto simp: Let_def canonical_docker_executable_def res_bind_ok_iff split: sum.splits if_splits)

definition run_commands :: "LockedRunSpec \<Rightarrow> DockerInvocation set" where
  "run_commands spec = preflight_commands (lr_image spec) \<union>
     {cargs. \<exists>i s identity. valid_image_id i \<and> cargs \<in> session_commands (spec\<lparr>lr_image := i\<rparr>) s identity}"

lemma list_all_take: "list_all P xs \<Longrightarrow> list_all P (take n xs)"
  by (meson in_set_takeD list_all_iff)

text \<open>
  Whatever the container engine answers and whenever an interrupt arrives, every command of a locked run
  is run by an executable that does not lie in the workspace and, but for the one that asks for the
  engine's endpoint, names a local endpoint itself and ignores the variables that select another; its
  arguments are those of the preflight or of the session, with an image given by its content identifier.
\<close>

theorem locked_run_commands:
  assumes "run_locked fs env path_env docker_host ids clock pid counter ints child spec = Some (r, h)"
  shows "h = [] \<or> (\<exists>exe. \<not> path_starts_with (lr_workspace spec) exe \<and> list_all (pinned exe (run_commands spec)) h)"
proof (cases "resolve_docker_executable fs path_env (lr_workspace spec)")
  case (Inl e)
  then show ?thesis using assms by (simp add: run_locked_def)
next
  case (Inr exe)
  have trusted: "\<not> path_starts_with (lr_workspace spec) exe"
    using Inr docker_search_trusted by (auto simp: resolve_docker_executable_def res_bind_ok_iff)
  let ?P = "pinned exe (run_commands spec)"
  obtain ready h0 where pre: "preflight env docker_host ids exe (lr_image spec) [] = (ready, h0)" by force
  have ready: "list_all (pinned exe (preflight_commands (lr_image spec))) h0"
    "ready = Ok (d, i, identity) \<Longrightarrow> local_client exe d \<and> valid_image_id i" for d i identity
    using preflight_spec[of exe "lr_image spec" env docker_host ids] pre unfolding act_spec_def by (auto dest!: spec[of _ "[]"])
  have h0: "list_all ?P h0"
    by (rule list.pred_mono_strong[OF ready(1)]) (erule pinned_mono, auto simp: run_commands_def)
  have "list_all ?P h"
  proof (cases "in_preflight ints")
    case (Some cut)
    then show ?thesis using assms h0 by (auto simp: run_locked_def Inr pre list_all_take split: prod.splits)
  next
    case None
    show ?thesis
    proof (cases ready)
      case (Inl e)
      then show ?thesis using assms h0 None by (simp add: run_locked_def \<open>resolve_docker_executable _ _ _ = _\<close> pre)
    next
      case ok: (Inr t)
      obtain d i identity where t: "t = (d, i, identity)" by (cases t)
      have d: "local_client exe d" "valid_image_id i" using ready(2)[of d i identity] by (simp_all add: ok t)
      have P: "?P (docker_command d cargs)" if "cargs \<in> session_commands (spec\<lparr>lr_image := i\<rparr>) s identity" for cargs s
        by (rule pinned_docker_command[OF d(1)]) (use that d(2) in \<open>auto simp: run_commands_def\<close>)
      show ?thesis
      proof (cases "SessionNames_new clock pid counter")
        case (Inl e)
        then show ?thesis using assms h0 None by (simp add: run_locked_def \<open>resolve_docker_executable _ _ _ = _\<close> pre ok t)
      next
        case s: (Inr s)
        obtain v h1 where v: "docker_success env d (volume_inspect_command s) h0 = (v, h1)" by force
        have "h1 = h0 @ [docker_command d (volume_inspect_command s)]"
          using v by (auto simp: docker_success_def act_bind_def issue_def act_ret_def split: sum.splits)
        then have h1: "list_all ?P h1" using h0 P[of "volume_inspect_command s" s] by (simp add: session_commands_def)
        have "h = h1 \<or> run_session env d (spec\<lparr>lr_image := i\<rparr>) s identity ints child h1 = Some (r, h)"
          using assms None by (auto simp: run_locked_def \<open>resolve_docker_executable _ _ _ = _\<close> pre ok t s v split: sum.splits bool.splits)
        then show ?thesis using h1 run_session_commands[where P = ?P, OF P] by fastforce
      qed
    qed
  qed
  then show ?thesis using trusted by blast
qed

section \<open>Cleanup removes the session\<close>

datatype Resource = Container string | Volume string

fun inspect_of :: "Resource \<Rightarrow> DockerInvocation" where
  "inspect_of (Container n) = [''container'', ''inspect'', ''--format'', ''{{.Id}}'', n]"
| "inspect_of (Volume n) = [''volume'', ''inspect'', ''--format'', ''{{.Name}}'', n]"

fun remove_of :: "Resource \<Rightarrow> DockerInvocation" where
  "remove_of (Container n) = [''rm'', ''--force'', n]"
| "remove_of (Volume n) = [''volume'', ''rm'', ''--force'', n]"

text \<open>
  What the engine documents, with \<open>present h r\<close> telling whether the resource exists after the history:
  a failed inspection by a reachable engine means that the resource does not exist, a successful removal
  removes, and inspecting, stopping and removing create nothing.
\<close>

definition quiet :: "DockerInvocation set" where
  "quiet = insert info_command (range inspect_of \<union> range remove_of \<union> {[''stop'', ''--time'', ''5'', n] | n. True})"

definition honest :: "Engine \<Rightarrow> (DockerCommand list \<Rightarrow> Resource \<Rightarrow> bool) \<Rightarrow> DockerClient \<Rightarrow> bool" where
  "honest env present d \<longleftrightarrow>
     (\<forall>h r out out'. env h (docker_command d (inspect_of r)) = Some out \<longrightarrow> \<not> co_success out \<longrightarrow>
        env (h @ [docker_command d (inspect_of r)]) (docker_command d info_command) = Some out' \<longrightarrow> co_success out' \<longrightarrow>
        \<not> present (h @ [docker_command d (inspect_of r), docker_command d info_command]) r) \<and>
     (\<forall>h r out. env h (docker_command d (remove_of r)) = Some out \<longrightarrow> co_success out \<longrightarrow>
        \<not> present (h @ [docker_command d (remove_of r)]) r) \<and>
     (\<forall>h r cargs. cargs \<in> quiet \<longrightarrow> \<not> present h r \<longrightarrow> \<not> present (h @ [docker_command d cargs]) r)"

definition stays_absent :: "(DockerCommand list \<Rightarrow> Resource \<Rightarrow> bool) \<Rightarrow> DockerCommand list \<Rightarrow> DockerCommand list \<Rightarrow> bool" where
  "stays_absent present h h' \<longleftrightarrow> (\<forall>r. \<not> present h r \<longrightarrow> \<not> present h' r)"

lemma stays_absent_trans: "stays_absent present h1 h2 \<Longrightarrow> stays_absent present h2 h3 \<Longrightarrow> stays_absent present h1 h3"
  by (simp add: stays_absent_def)

lemma stays_absent_quiet:
  assumes "honest env present d"
  shows "list_all (\<lambda>c. \<exists>cargs\<in>quiet. c = docker_command d cargs) cs \<Longrightarrow> stays_absent present h (h @ cs)"
proof (induction cs rule: rev_induct)
  case (snoc c cs)
  then obtain cargs where c: "cargs \<in> quiet" "c = docker_command d cargs" by auto
  have "\<forall>h r cargs. cargs \<in> quiet \<longrightarrow> \<not> present h r \<longrightarrow> \<not> present (h @ [docker_command d cargs]) r"
    using assms unfolding honest_def by (elim conjE)
  then have "stays_absent present (h @ cs) ((h @ cs) @ [c])" unfolding stays_absent_def using c by blast
  moreover have "stays_absent present h (h @ cs)" using snoc by simp
  ultimately show ?case by (simp add: stays_absent_def)
qed (simp add: stays_absent_def)

lemma quiet_commands:
  "info_command \<in> quiet" "inspect_of r \<in> quiet" "remove_of r \<in> quiet" "gateway_stop_command s \<in> quiet"
  by (auto simp: quiet_def gateway_stop_command_def)

lemma act_spec_quiet:
  assumes "honest env present d" and "act_spec (\<lambda>c. \<exists>cargs\<in>quiet. c = docker_command d cargs) Q m" and "m h = (r, h')"
  shows "stays_absent present h h'"
proof -
  obtain cs where "snd (m h) = h @ cs" "list_all (\<lambda>c. \<exists>cargs\<in>quiet. c = docker_command d cargs) cs"
    using assms(2) unfolding act_spec_def by blast
  then show ?thesis using stays_absent_quiet[OF assms(1)] by (simp add: assms(3))
qed

lemma checked_exists_absent:
  assumes "honest env present d" and "checked_resource_exists env d (inspect_of r) h = (Ok False, h')"
  shows "\<not> present h' r"
proof -
  from assms(2) obtain out out' where "env h (docker_command d (inspect_of r)) = Some out" "\<not> co_success out"
    "env (h @ [docker_command d (inspect_of r)]) (docker_command d info_command) = Some out'" "co_success out'"
    and "h' = h @ [docker_command d (inspect_of r), docker_command d info_command]"
    by (auto simp: checked_resource_exists_def docker_success_def act_bind_def issue_def act_ret_def ok_or_ok_iff
        split: sum.splits if_splits prod.splits)
  then show ?thesis using assms(1) unfolding honest_def by blast
qed

lemma act_bind_ok: "act_bind m f h = (Ok y, h') \<longleftrightarrow> (\<exists>x h1. m h = (Ok x, h1) \<and> f x h1 = (Ok y, h'))"
  by (auto simp: act_bind_def split: prod.splits sum.splits)

text \<open>Checking a resource and removing it when it exists leaves it absent unless a failure is noted.\<close>

lemma check_and_remove:
  assumes "honest env present d" and "checked_resource_exists env d (inspect_of r) h = (Ok found, h1)"
    and "cleanup_when env d failed found (remove_of r) h1 = (Ok failed', h')"
  shows "stays_absent present h h' \<and> (failed \<longrightarrow> failed') \<and> (\<not> failed' \<longrightarrow> \<not> present h' r)"
proof -
  let ?Q = "\<lambda>c. \<exists>cargs\<in>quiet. c = docker_command d cargs"
  have "act_spec ?Q (\<lambda>_. True) (checked_resource_exists env d (inspect_of r))"
    by (rule checked_resource_exists_spec) (use quiet_commands in blast)+
  from act_spec_quiet[OF assms(1) this assms(2)] have "stays_absent present h h1" .
  moreover have "act_spec ?Q (\<lambda>_. True) (cleanup_when env d failed found (remove_of r))"
    by (rule act_spec_cleanup_when) (use quiet_commands in blast)
  from act_spec_quiet[OF assms(1) this assms(3)] have "stays_absent present h1 h'" .
  ultimately have "stays_absent present h h'" by (rule stays_absent_trans)
  moreover have "\<not> present h' r" if "\<not> failed'"
  proof (cases found)
    case True
    with that obtain out where "env h1 (docker_command d (remove_of r)) = Some out" "co_success out"
      "h' = h1 @ [docker_command d (remove_of r)]"
      using assms(3) by (auto simp: cleanup_when_def run_cleanup_def split: option.splits)
    moreover have "\<forall>h r out. env h (docker_command d (remove_of r)) = Some out \<longrightarrow> co_success out \<longrightarrow>
        \<not> present (h @ [docker_command d (remove_of r)]) r"
      using assms(1) unfolding honest_def by (elim conjE)
    ultimately show ?thesis by blast
  next
    case False
    then have "h1 = h'" using assms(3) by (simp add: cleanup_when_def)
    then show ?thesis using checked_exists_absent[OF assms(1), of r h h'] assms(2) False by simp
  qed
  moreover have "failed \<longrightarrow> failed'"
    using assms(3) by (auto simp: cleanup_when_def split: if_splits prod.splits)
  ultimately show ?thesis by blast
qed

lemma command_resources:
  "agent_inspect_command s = inspect_of (Container (sn_agent s))" "agent_remove_command s = remove_of (Container (sn_agent s))"
  "gateway_inspect_command s = inspect_of (Container (sn_gateway s))" "gateway_remove_command s = remove_of (Container (sn_gateway s))"
  "volume_inspect_command s = inspect_of (Volume (sn_volume s))" "volume_remove_command s = remove_of (Volume (sn_volume s))"
  by (simp_all add: agent_inspect_command_def agent_remove_command_def gateway_inspect_command_def gateway_remove_command_def
      volume_inspect_command_def volume_remove_command_def)

definition session_resources :: "SessionNames \<Rightarrow> Resource set" where
  "session_resources s = {Container (sn_agent s), Container (sn_gateway s), Volume (sn_volume s)}"

lemma cleanup_gateway_removes:
  assumes honest: "honest env present d" and "cleanup_gateway env d s failed h = (Ok failed', h')"
  shows "stays_absent present h h' \<and> (failed \<longrightarrow> failed') \<and> (\<not> failed' \<longrightarrow> \<not> present h' (Container (sn_gateway s)))"
proof -
  let ?Q = "\<lambda>c. \<exists>cargs\<in>quiet. c = docker_command d cargs"
  have spec: "act_spec ?Q (\<lambda>_. True) (cleanup_gateway env d s failed)"
    by (rule cleanup_gateway_spec) (unfold command_resources, (use quiet_commands in blast)+)
  have stays: "stays_absent present h h'" by (rule act_spec_quiet[OF honest spec assms(2)])
  obtain found h1 where found: "checked_resource_exists env d (inspect_of (Container (sn_gateway s))) h = (Ok found, h1)"
    using assms(2) unfolding cleanup_gateway_def command_resources act_bind_ok by blast
  show ?thesis
  proof (cases found)
    case False
    then show ?thesis
      using stays found assms(2) checked_exists_absent[OF honest] by (auto simp: cleanup_gateway_def command_resources act_bind_def act_ret_def)
  next
    case True
    then obtain f1 h2 still h3 where "cleanup_when env d failed True (gateway_stop_command s) h1 = (Ok f1, h2)"
      and "checked_resource_exists env d (inspect_of (Container (sn_gateway s))) h2 = (Ok still, h3)"
      and "cleanup_when env d f1 still (remove_of (Container (sn_gateway s))) h3 = (Ok failed', h')"
      using assms(2) found unfolding cleanup_gateway_def command_resources by (auto simp: act_bind_ok)
    moreover from this(1) have "failed \<longrightarrow> f1" by (auto simp: cleanup_when_def split: prod.splits)
    ultimately show ?thesis using stays check_and_remove[OF honest] by blast
  qed
qed

lemma cleanup_session_removes:
  assumes honest: "honest env present d" and "cleanup_session env d s h = (Ok (), h')"
  shows "\<forall>r\<in>session_resources s. \<not> present h' r"
proof -
  obtain h0 where "docker_success env d info_command h = (Ok True, h0)"
    using assms(2) by (auto simp: cleanup_session_def split: prod.splits if_splits)
  then obtain fa h1 f1 h2 f2 h3 fv h4 f3 where
    a: "checked_resource_exists env d (inspect_of (Container (sn_agent s))) h0 = (Ok fa, h1)"
       "cleanup_when env d False fa (remove_of (Container (sn_agent s))) h1 = (Ok f1, h2)"
    and g: "cleanup_gateway env d s f1 h2 = (Ok f2, h3)"
    and v: "checked_resource_exists env d (inspect_of (Volume (sn_volume s))) h3 = (Ok fv, h4)"
       "cleanup_when env d f2 fv (remove_of (Volume (sn_volume s))) h4 = (Ok f3, h')" and "\<not> f3"
    using assms(2) by (auto simp: cleanup_session_def act_bind_ok command_resources act_ret_def split: if_splits)
  then show ?thesis
    using check_and_remove[OF honest a] cleanup_gateway_removes[OF honest g] check_and_remove[OF honest v]
    by (auto simp: session_resources_def stays_absent_def)
qed

definition act_errors :: "ContainerRunError set \<Rightarrow> 'a act \<Rightarrow> bool" where
  "act_errors E m \<longleftrightarrow> (\<forall>h e. fst (m h) = Err e \<longrightarrow> e \<in> E)"

lemma act_errors_bind: "act_errors E m \<Longrightarrow> (\<And>x. act_errors E (f x)) \<Longrightarrow> act_errors E (act_bind m f)"
  by (auto simp: act_errors_def act_bind_def split: prod.splits sum.splits) (metis fst_conv)+

lemma act_errors_steps:
  "act_errors E (act_ret (Ok x))" "e \<in> E \<Longrightarrow> act_errors E (act_ret (Err e))" "e \<in> E \<Longrightarrow> act_errors E (issue env c e)"
  "act_errors E (cleanup_when env d failed needed cargs)"
  by (auto simp: act_errors_def act_ret_def issue_def cleanup_when_def ok_or_err_iff split: prod.splits)

lemma cleanup_errors: "cleanup_session env d s h = (Err e, h') \<Longrightarrow> e \<in> {CR_CleanupFailed, CR_DockerUnavailable}"
proof -
  let ?E = "{CR_CleanupFailed, CR_DockerUnavailable}"
  have success: "act_errors ?E (docker_success env d cargs)" for cargs
    unfolding docker_success_def by (intro act_errors_bind act_errors_steps) simp
  have exists: "act_errors ?E (checked_resource_exists env d cargs)" for cargs
    unfolding checked_resource_exists_def by (auto intro!: act_errors_bind success act_errors_steps)
  have gateway: "act_errors ?E (cleanup_gateway env d s failed)" for failed
    unfolding cleanup_gateway_def by (auto intro!: act_errors_bind exists act_errors_steps)
  have rest: "act_errors ?E (act_bind (checked_resource_exists env d (agent_inspect_command s)) (\<lambda>agent_exists.
          act_bind (cleanup_when env d False agent_exists (agent_remove_command s)) (\<lambda>failed.
          act_bind (cleanup_gateway env d s failed) (\<lambda>failed.
          act_bind (checked_resource_exists env d (volume_inspect_command s)) (\<lambda>volume_exists.
          act_bind (cleanup_when env d failed volume_exists (volume_remove_command s)) (\<lambda>failed.
            act_ret (if failed then Err CR_CleanupFailed else Ok ())))))))"
    by (auto intro!: act_errors_bind exists gateway act_errors_steps)
  assume "cleanup_session env d s h = (Err e, h')"
  then show ?thesis
    using rest unfolding cleanup_session_def act_errors_def by (auto split: prod.splits if_splits) (metis fst_conv insertE singletonD)+
qed

text \<open>A command that creates a container or a volume, after the two arguments that pin the engine.\<close>

definition creates :: "DockerCommand \<Rightarrow> bool" where
  "creates c \<longleftrightarrow>
     (case drop 2 (dcmd_args c) of
        [] \<Rightarrow> False
      | a # rest \<Rightarrow> a = ''run'' \<or> a = ''volume'' \<and> rest \<noteq> [] \<and> hd rest = ''create'')"

lemma preflight_creates_nothing:
  assumes "pinned exe (preflight_commands img) c" shows "\<not> creates c"
  using assms unfolding pinned_def preflight_commands_def
  by (auto simp: creates_def docker_command_def context_command_def unpinned_command_def info_command_def)

lemma run_locked_session:
  assumes "run_locked fs env path_env docker_host ids clock pid counter ints child spec = Some (r, h)"
    and "SessionNames_new clock pid counter = Ok s" and "\<not> list_all (\<lambda>c. \<not> creates c) h"
  obtains d i identity h1 where "run_session env d (spec\<lparr>lr_image := i\<rparr>) s identity ints child h1 = Some (r, h)"
proof (cases "resolve_docker_executable fs path_env (lr_workspace spec)")
  case (Inl e)
  then show ?thesis using assms by (simp add: run_locked_def)
next
  case exe: (Inr exe)
  obtain ready h0 where pre: "preflight env docker_host ids exe (lr_image spec) [] = (ready, h0)" by force
  have "list_all (pinned exe (preflight_commands (lr_image spec))) h0"
    using preflight_spec[of exe "lr_image spec" env docker_host ids] pre unfolding act_spec_def by (auto dest!: spec[of _ "[]"])
  then have h0: "list_all (\<lambda>c. \<not> creates c) h0" by (rule list.pred_mono_strong) (rule preflight_creates_nothing)
  then have cut: "list_all (\<lambda>c. \<not> creates c) (take n h0)" for n by (rule list_all_take)
  have none: "in_preflight ints = None"
    using assms(1,3) cut by (auto simp: run_locked_def exe pre split: option.splits prod.splits)
  obtain d i identity where ready: "ready = Ok (d, i, identity)"
    using assms(1,3) h0 none by (cases ready) (auto simp: run_locked_def exe pre)
  obtain v h1 where v: "docker_success env d (volume_inspect_command s) h0 = (v, h1)" by force
  have "h1 = h0 @ [docker_command d (volume_inspect_command s)]"
    using v by (auto simp: docker_success_def act_bind_def issue_def act_ret_def split: sum.splits)
  then have "list_all (\<lambda>c. \<not> creates c) h1"
    using h0 by (simp add: creates_def docker_command_def volume_inspect_command_def)
  then have "run_session env d (spec\<lparr>lr_image := i\<rparr>) s identity ints child h1 = Some (r, h)"
    using assms none by (auto simp: run_locked_def exe pre ready v split: sum.splits bool.splits)
  then show ?thesis by (rule that)
qed

section \<open>Properties\<close>

text \<open>
  C29. A locked run leaves nothing behind: if it created anything and does not report that cleaning up failed
  or that the engine is gone, then neither its containers nor its volume exist at the end, whether the
  agent succeeded, failed or was interrupted at any point.
\<close>

theorem locked_run_cleans_up:
  assumes "run_locked fs env path_env docker_host ids clock pid counter ints child spec = Some (r, h)"
    and "SessionNames_new clock pid counter = Ok s" and "\<forall>d. honest env present d"
    and "r \<noteq> Err CR_CleanupFailed" and "r \<noteq> Err CR_DockerUnavailable" and "\<not> list_all (\<lambda>c. \<not> creates c) h"
  shows "{x \<in> session_resources s. present h x} = {}"
proof -
  obtain d i identity h1 where run: "run_session env d (spec\<lparr>lr_image := i\<rparr>) s identity ints child h1 = Some (r, h)"
    by (rule run_locked_session[OF assms(1,2,6)])
  obtain h2 cleanup where cl: "cleanup_session env d s h2 = (cleanup, h)" "cleanup = Ok () \<or> (\<exists>e. cleanup = Err e \<and> r = Err e)"
    using run_session_ends[OF run] by metis
  have "cleanup = Ok ()" using cl cleanup_errors[of env d s h2 _ h] assms(4,5) by auto
  then show ?thesis using cleanup_session_removes[of env present d s h2 h] cl assms(3) by auto
qed

section \<open>An engine\<close>

definition demo_step :: "Resource set \<Rightarrow> DockerCommand \<Rightarrow> Resource set" where
  "demo_step st c =
     (let a = drop 2 (dcmd_args c) in
      if take 2 a = [''rm'', ''--force''] then st - {Container (last a)}
      else if take 3 a = [''volume'', ''rm'', ''--force''] then st - {Volume (last a)}
      else if take 2 a = [''volume'', ''create''] then insert (Volume (last a)) st
      else if take 1 a = [''run''] then set (map Container (option_values ''--name'' (fst (run_options (tl a))))) \<union> st
      else st)"

definition demo_engine :: Engine where
  "demo_engine h c =
     (let a = drop 2 (dcmd_args c); st = foldl demo_step {} h in
      Some \<lparr>co_code =
              (if take 2 a = [''container'', ''inspect''] then (if Container (last a) \<in> st then Some 0 else Some 1)
               else if take 2 a = [''volume'', ''inspect''] then (if Volume (last a) \<in> st then Some 0 else Some 1)
               else Some 0),
            co_stdout = (if take 2 a = [''image'', ''inspect''] then ''sha256:'' @ replicate 64 (CHR ''0'') else [])\<rparr>)"

definition demo_present :: "DockerCommand list \<Rightarrow> Resource \<Rightarrow> bool" where
  "demo_present h r \<longleftrightarrow> r \<in> foldl demo_step {} h"

lemma demo_step_quiet:
  assumes "cargs \<in> quiet" shows "demo_step st (docker_command d cargs) \<subseteq> st"
proof -
  have "demo_step st (docker_command d (inspect_of r)) \<subseteq> st" "demo_step st (docker_command d (remove_of r)) \<subseteq> st" for r
    by (cases r; auto simp: demo_step_def docker_command_def)+
  moreover have "demo_step st (docker_command d info_command) \<subseteq> st" "demo_step st (docker_command d [''stop'', ''--time'', ''5'', n]) \<subseteq> st" for n
    by (simp_all add: demo_step_def docker_command_def info_command_def)
  ultimately show ?thesis using assms unfolding quiet_def by blast
qed

lemma demo_engine_honest: "honest demo_engine demo_present d"
proof -
  have absent: "r \<notin> foldl demo_step {} h" if "demo_engine h (docker_command d (inspect_of r)) = Some out" "\<not> co_success out" for h r out
    using that by (cases r) (auto simp: demo_engine_def docker_command_def co_success_def Let_def split: if_splits)
  have removed: "r \<notin> demo_step st (docker_command d (remove_of r))" for st r
    by (cases r) (auto simp: demo_step_def docker_command_def)
  have quiet: "r \<notin> demo_step st (docker_command d cargs)" if "cargs \<in> quiet" "r \<notin> st" for cargs st r
    using demo_step_quiet[OF that(1)] that(2) by blast
  show ?thesis
    unfolding honest_def demo_present_def foldl_append foldl.simps
  proof (intro conjI allI impI)
    fix h r out out'
    assume "demo_engine h (docker_command d (inspect_of r)) = Some out" "\<not> co_success out"
    then have "r \<notin> foldl demo_step {} h" by (rule absent)
    then show "r \<notin> demo_step (demo_step (foldl demo_step {} h) (docker_command d (inspect_of r))) (docker_command d info_command)"
      by (intro quiet quiet_commands)
  next
    fix h r
    show "r \<notin> demo_step (foldl demo_step {} h) (docker_command d (remove_of r))" by (rule removed)
  next
    fix h r cargs
    assume "cargs \<in> quiet" "r \<notin> foldl demo_step {} h"
    then show "r \<notin> demo_step (foldl demo_step {} h) (docker_command d cargs)" by (rule quiet)
  qed
qed

definition demo_run :: "((ContainerRunError + ExitStatus) \<times> DockerCommand list) option" where
  "demo_run = run_locked (locked_fs\<lparr>hf_metadata := \<lambda>p. Inr \<lparr>nm_kind = Nk_File, nm_mode = 0x1ED\<rparr>\<rparr>) demo_engine (Some ''/bin'') (Some ''unix:///s'')
     (\<lambda>_. Some (''7'', True)) 0 1 0
     \<lparr>in_preflight = None, in_volume = None, in_gateway = None, in_agent = Some True, in_cleanup = None\<rparr>
     \<lparr>ac_wait = None, ac_try_wait = [TW_Running, TW_Exited \<lparr>es_code = None, es_signal = Some 9\<rparr>]\<rparr> locked_spec"

lemma demo_run_interrupted:
  "case demo_run of Some (r, h) \<Rightarrow> r = Err CR_Interrupted \<and> length h = 16 \<and> \<not> list_all (\<lambda>c. \<not> creates c) h | None \<Rightarrow> False"
  by code_simp

theorem locked_run_commands_witness:
  "case demo_run of Some (r, h) \<Rightarrow> (\<exists>exe. \<not> path_starts_with ''/w'' exe \<and> list_all (pinned exe (run_commands locked_spec)) h) | None \<Rightarrow> False"
proof -
  obtain r h where run: "demo_run = Some (r, h)" "length h = 16" using demo_run_interrupted by (auto split: option.splits)
  have w: "lr_workspace locked_spec = ''/w''" by (simp add: locked_spec_def)
  show ?thesis using locked_run_commands[OF run(1)[unfolded demo_run_def]] run(2) by (auto simp: run(1) w)
qed

theorem locked_run_cleans_up_witness:
  "case demo_run of Some (r, h) \<Rightarrow> r = Err CR_Interrupted \<and> {x \<in> session_resources (SessionNames_from_id ''1-0-0''). demo_present h x} = {} | None \<Rightarrow> False"
proof -
  obtain r h where run: "demo_run = Some (r, h)" "r = Err CR_Interrupted" "\<not> list_all (\<lambda>c. \<not> creates c) h"
    using demo_run_interrupted by (auto split: option.splits)
  have s: "SessionNames_new 0 1 0 = Ok (SessionNames_from_id ''1-0-0'')" by code_simp
  have "\<forall>d. honest demo_engine demo_present d" by (simp add: demo_engine_honest)
  from locked_run_cleans_up[OF run(1)[unfolded demo_run_def] s this _ _ run(3)] show ?thesis by (simp add: run(1,2))
qed

end
