(* ===== verification/Cli_Sanitize.thy ===== *)
theory Cli_Sanitize
  imports Redaction Proxy Mcp Vault Audit_Log
begin

text \<open>
  The adapters of the command line front end that connect the crates
  (\<open>crates/blindfold-cli/src/commands.rs\<close> and the sanitizer of \<open>boundary.rs\<close>): the detector-based sanitizer
  behind the proxy and the MCP mediator, the resolver that refuses everything, the master key, the audit
  and trace sinks.  The contract \<open>text_sanitizer\<close> of the proxy is interpreted on the detector sanitizer.
\<close>

section \<open>The detector sanitizer\<close>

definition placeholder_options :: RedactionOptions where
  "placeholder_options = \<lparr>ro_mode = RM_Placeholder, ro_dotenv = None\<rparr>"

definition blocked :: string where
  "blocked = ''[BLOCKED]''"

text \<open>Randomness and the keyed hash are not used in this mode.\<close>

definition placeholder_redact :: "DetectorSet \<Rightarrow> string \<Rightarrow> RedactionError + RedactionOutput" where
  "placeholder_redact ds text = redact None (\<lambda>_ _. []) ds text placeholder_options"

definition sanitize_text :: "DetectorSet \<Rightarrow> string \<Rightarrow> string" where
  "sanitize_text ds text = (case placeholder_redact ds text of Inl _ \<Rightarrow> blocked | Inr output \<Rightarrow> out_text output)"

fun trace_category :: "DetKind \<Rightarrow> Category" where
  "trace_category DK_OpenAiApiKey = Cat_OpenAiApiKey"
| "trace_category DK_AnthropicApiKey = Cat_AnthropicApiKey"
| "trace_category DK_GitHubToken = Cat_GitHubToken"
| "trace_category DK_StripeKey = Cat_StripeKey"
| "trace_category DK_SlackToken = Cat_SlackToken"
| "trace_category DK_AwsAccessKeyId = Cat_AwsAccessKeyId"
| "trace_category DK_AwsSecretAccessKey = Cat_AwsSecretAccessKey"
| "trace_category DK_BearerToken = Cat_BearerToken"
| "trace_category DK_JsonWebToken = Cat_Jwt"
| "trace_category DK_OAuthToken = Cat_OAuthToken"
| "trace_category DK_PemPrivateKey = Cat_PemPrivateKey"
| "trace_category DK_CredentialUrl = Cat_CredentialUrl"
| "trace_category DK_EmailAddress = Cat_EmailAddress"
| "trace_category DK_PhoneNumber = Cat_PhoneNumber"
| "trace_category DK_Password = Cat_Password"
| "trace_category DK_ApiKey = Cat_ApiKey"
| "trace_category DK_Token = Cat_Token"

definition detector_sanitize_traced :: "DetectorSet \<Rightarrow> string \<Rightarrow> SanitizedText" where
  "detector_sanitize_traced ds text =
     (case placeholder_redact ds text of
        Inr output \<Rightarrow> (out_text output, map (\<lambda>f. trace_category (df_kind f)) (out_findings output))
      | Inl _ \<Rightarrow> (blocked, [Cat_Sensitive]))"

definition DetectorSanitizer :: "DetectorSet \<Rightarrow> Sanitizer" where
  "DetectorSanitizer ds = \<lparr>sanitize = sanitize_text ds, sanitize_traced = detector_sanitize_traced ds\<rparr>"

text \<open>The sanitizer of the gateway container has the same text and the trait's default trace.\<close>

definition BoundarySanitizer :: "DetectorSet \<Rightarrow> Sanitizer" where
  "BoundarySanitizer ds = \<lparr>sanitize = sanitize_text ds, sanitize_traced = default_traced (sanitize_text ds)\<rparr>"

definition detector_mcp_sanitize :: "DetectorSet \<Rightarrow> McpSanitizer" where
  "detector_mcp_sanitize ds text =
     (case placeholder_redact ds text of
        Inr output \<Rightarrow> (out_text output, length (out_findings output))
      | Inl _ \<Rightarrow> (blocked, 1))"

definition RejectResolver :: Resolver where
  "RejectResolver = \<lparr>allows = (\<lambda>server tool pointer. False), resolve = (\<lambda>safe_ref. None)\<rparr>"

section \<open>The MCP mediator\<close>

definition MAX_MESSAGE_BYTES :: nat where
  "MAX_MESSAGE_BYTES = 1024 * 1024"

text \<open>
  \<open>fill_buf\<close> answers with some of the bytes that follow, or nothing at the end; the buffers are a list, a
  failure is \<open>None\<close>, the end of the list is the end of the input.  The result is the line and what is left.
\<close>

fun read_bounded_line ::
  "nat \<Rightarrow> string \<Rightarrow> string option list \<Rightarrow> (string + string option) \<times> string option list"
where
  "read_bounded_line max_bytes line [] =
     (if line = [] then Ok None
      else if utf8_valid line then Ok (Some line) else Err ''invalid MCP JSON-RPC message'', [])"
| "read_bounded_line max_bytes line (None # buffers) = (Err ''could not read MCP message'', None # buffers)"
| "read_bounded_line max_bytes line (Some buffer # buffers) =
     (if buffer = [] then
        (if line = [] then Ok None
         else if utf8_valid line then Ok (Some line) else Err ''invalid MCP JSON-RPC message'', Some buffer # buffers)
      else
        case split_once (CHR 0x0A) buffer of
          Some (before, after) \<Rightarrow>
            (let line = line @ before; rest = (if after = [] then buffers else Some after # buffers) in
             if length line > max_bytes then (Err ''MCP message exceeds the configured size limit'', rest)
             else if utf8_valid line then (Ok (Some line), rest) else (Err ''invalid MCP JSON-RPC message'', rest))
        | None \<Rightarrow>
            (let line = line @ buffer in
             if length line > max_bytes then (Err ''MCP message exceeds the configured size limit'', buffers)
             else read_bounded_line max_bytes line buffers))"

lemma split_once_shorter: "split_once d s = Some (a, b) \<Longrightarrow> length s = length a + length b + 1"
  by (auto simp: split_once_some_iff)

fun buffered :: "string option list \<Rightarrow> nat" where
  "buffered [] = 0"
| "buffered (b # buffers) = Suc (case b of None \<Rightarrow> 0 | Some s \<Rightarrow> length s) + buffered buffers"

lemma read_bounded_line_shorter:
  "read_bounded_line m line buffers = (Ok (Some l), left) \<Longrightarrow>
     buffered left \<le> buffered buffers \<and> (line = [] \<longrightarrow> buffered left < buffered buffers)"
proof (induction m line buffers rule: read_bounded_line.induct)
  case (3 m line buffer buffers)
  show ?case
  proof (cases "split_once (CHR 0x0A) buffer")
    case None
    then show ?thesis using 3 by (auto simp: Let_def split: if_splits)
  next
    case (Some p)
    obtain a b where p: "p = (a, b)" by force
    show ?thesis using 3(2) Some split_once_shorter[OF Some[unfolded p]] by (auto simp: p Let_def split: if_splits)
  qed
qed (auto split: if_splits)

text \<open>
  The loop of the command: what is printed, and how it ends.  A blank line is skipped; the first failure
  ends the command.
\<close>

type_synonym McpRun = "(string \<times> Audit_counts) list \<times> (string + unit)"

definition mcp_printed :: "string \<times> Audit_counts \<Rightarrow> McpRun \<Rightarrow> McpRun" where
  "mcp_printed x r = (x # fst r, snd r)"

function mcp_loop :: "JsonCodec \<Rightarrow> Transformer \<Rightarrow> Direction \<Rightarrow> string \<Rightarrow> string option list \<Rightarrow> McpRun" where
  "mcp_loop c tr direction server buffers =
     (case read_bounded_line MAX_MESSAGE_BYTES [] buffers of
        (Inl error, _) \<Rightarrow> ([], Err error)
      | (Inr None, _) \<Rightarrow> ([], Ok ())
      | (Inr (Some line), buffers') \<Rightarrow>
          (if str_trim line = [] then mcp_loop c tr direction server buffers'
           else case transform c tr direction server line of
             Inl error \<Rightarrow> ([], Err (McpError_fmt error))
           | Inr printed \<Rightarrow> mcp_printed printed (mcp_loop c tr direction server buffers')))"
  by pat_completeness auto
termination
  by (relation "measure (\<lambda>(c, tr, direction, server, buffers). buffered buffers)")
    (auto dest: read_bounded_line_shorter[OF sym])

declare mcp_loop.simps [simp del]

definition mcp_command ::
  "JsonCodec \<Rightarrow> DetectorSet \<Rightarrow> string option \<Rightarrow> string option \<Rightarrow> string option list \<Rightarrow> McpRun"
where
  "mcp_command c ds direction server buffers =
     (case Transformer_new RejectResolver (detector_mcp_sanitize ds) MAX_MESSAGE_BYTES of
        Inl error \<Rightarrow> ([], Err (McpError_fmt error))
      | Inr tr \<Rightarrow>
          mcp_loop c tr (if direction = Some ''to-server'' then Dir_ToServer else Dir_ToAgent)
            (case server of None \<Rightarrow> ''preview'' | Some name \<Rightarrow> name) buffers)"

section \<open>The vault, the audit log and the trace sink\<close>

definition hex_value :: "char \<Rightarrow> nat option" where
  "hex_value v =
     (if is_ascii_digit v then Some (byte v - 48)
      else if 97 \<le> byte v \<and> byte v \<le> 102 then Some (byte v - 97 + 10)
      else if 65 \<le> byte v \<and> byte v \<le> 70 then Some (byte v - 65 + 10) else None)"

text \<open>The loop over the chunks of two bytes.\<close>

fun decode_pairs :: "string \<Rightarrow> string option" where
  "decode_pairs (a # b # chunks) =
     Option.bind (hex_value a) (\<lambda>high. Option.bind (hex_value b) (\<lambda>low.
       map_option (\<lambda>output. char_of (16 * high + low) # output) (decode_pairs chunks)))"
| "decode_pairs _ = Some []"

definition decode_key :: "string \<Rightarrow> string option" where
  "decode_key input = (if length input \<noteq> 64 then None else decode_pairs input)"

definition key_message :: string where
  "key_message = ''BLINDFOLD_MASTER_KEY must be 64 hexadecimal characters''"

text \<open>\<open>raw\<close> is the environment variable of the key, \<open>dir\<close> the working directory.\<close>

definition open_vault :: "VaultEnv \<Rightarrow> string option \<Rightarrow> path \<Rightarrow> (string, Vault) fsm" where
  "open_vault env raw dir =
     fs_bind (fs_lift (ok_or raw key_message)) (\<lambda>raw.
     fs_bind (fs_lift (ok_or (decode_key raw) key_message)) (\<lambda>key.
       (\<lambda>s. case Vault_open env (dir @ [''.blindfold'', ''vault.bin'']) key s of (r, s') \<Rightarrow> (map_err VaultError_fmt r, s'))))"

definition project_scope :: "string \<Rightarrow> VaultError + Scope" where
  "project_scope dir = Scope_new dir ''default''"

text \<open>Failures of the audit log are ignored here; the file system after them is what is left.\<close>

definition append_audit ::
  "AuditCodec \<Rightarrow> int \<Rightarrow> path \<Rightarrow> AuditAction \<Rightarrow> AuditOutcome \<Rightarrow> SafeRef option \<Rightarrow> Fs \<Rightarrow> Fs"
where
  "append_audit c clock dir action outcome safe_ref s =
     (case RotationPolicy_new (1024 * 1024) 3 of
        Inl _ \<Rightarrow> s
      | Inr rotation \<Rightarrow>
          (case AuditLog_open (dir @ [''.blindfold'', ''audit.jsonl'']) rotation s of
             (Inl _, s') \<Rightarrow> s'
           | (Inr audit_log, s') \<Rightarrow> snd (AuditLog_append c audit_log (AuditEvent_now clock action outcome safe_ref) s')))"

record CliTraceSink =
  cs_store :: Store
  cs_failed :: bool

definition CliTraceSink_new :: "Store \<Rightarrow> CliTraceSink" where
  "CliTraceSink_new st = \<lparr>cs_store = st, cs_failed = False\<rparr>"

definition sink_record :: "TraceCodec \<Rightarrow> Record \<Rightarrow> CliTraceSink \<times> Fs \<Rightarrow> CliTraceSink \<times> Fs" where
  "sink_record c r st =
     (case Store_append c (cs_store (fst st)) r (snd st) of
        (Inl _, s) \<Rightarrow> ((fst st)\<lparr>cs_failed := True\<rparr>, s)
      | (Inr _, s) \<Rightarrow> (fst st, s))"

definition open_trace_store :: "path \<Rightarrow> (TraceError, Store) fsm" where
  "open_trace_store dir = Store_open (dir @ [''.blindfold'', ''trace.jsonl'']) (1024 * 1024) 3"

text \<open>The clock in nanoseconds since the epoch and the counter of requests.\<close>

definition next_trace_request_id :: "int \<Rightarrow> 64 word \<Rightarrow> string" where
  "next_trace_request_id clock counter =
     ''req_'' @ hex_str (if clock < 0 then 0 else nat clock mod 2 ^ 128) @ ''_'' @ hex_str (unat counter)"

definition append_trace_to_store ::
  "TraceCodec \<Rightarrow> int \<Rightarrow> 64 word \<Rightarrow> Store \<Rightarrow> Route \<Rightarrow> Coverage \<Rightarrow> Outcome \<Rightarrow> 64 word \<times> 64 word \<Rightarrow> 64 word \<times> 64 word \<Rightarrow>
     Replacement list \<Rightarrow> Issue option \<Rightarrow> (TraceError, unit) fsm"
where
  "append_trace_to_store c clock counter st route coverage outcome request_bytes response_bytes replacements issue =
     fs_bind (fs_lift (Record_now clock (next_trace_request_id clock counter) route coverage outcome request_bytes
         response_bytes replacements issue)) (\<lambda>r. Store_append c st r)"

definition append_trace_record ::
  "TraceCodec \<Rightarrow> int \<Rightarrow> 64 word \<Rightarrow> path \<Rightarrow> Route \<Rightarrow> Coverage \<Rightarrow> Outcome \<Rightarrow> 64 word \<times> 64 word \<Rightarrow> Replacement list \<Rightarrow>
     Issue option \<Rightarrow> (TraceError, unit) fsm"
where
  "append_trace_record c clock counter dir route coverage outcome bytes replacements issue =
     fs_bind (open_trace_store dir) (\<lambda>st.
       append_trace_to_store c clock counter st route coverage outcome bytes (0, 0) replacements issue)"

definition append_command_trace ::
  "TraceCodec \<Rightarrow> int \<Rightarrow> 64 word \<Rightarrow> path \<Rightarrow> Route \<Rightarrow> 64 word \<times> 64 word \<Rightarrow> Replacement list \<Rightarrow> (TraceError, unit) fsm"
where
  "append_command_trace c clock counter dir route bytes replacements =
     append_trace_record c clock counter dir route Cov_Protected Out_Observed bytes replacements None"

definition append_degraded_run_trace ::
  "TraceCodec \<Rightarrow> int \<Rightarrow> 64 word \<Rightarrow> path \<Rightarrow> Route \<Rightarrow> Issue \<Rightarrow> (TraceError, unit) fsm"
where
  "append_degraded_run_trace c clock counter dir route issue =
     append_trace_record c clock counter dir route Cov_Degraded Out_Observed (0, 0) [] (Some issue)"

section \<open>The contract of the sanitizers\<close>

text \<open>What may cross: the text of a redaction, or the marker of a refused one.\<close>

definition redacted_text :: "DetectorSet \<Rightarrow> string \<Rightarrow> bool" where
  "redacted_text ds t \<longleftrightarrow> t = blocked \<or> (\<exists>s res. placeholder_redact ds s = Ok res \<and> t = out_text res)"

lemma redacted_sanitize: "redacted_text ds (sanitize_text ds t)"
  by (auto simp: redacted_text_def sanitize_text_def split: sum.splits)

lemma detector_traced_text: "fst (detector_sanitize_traced ds t) = sanitize_text ds t"
  by (simp add: detector_sanitize_traced_def sanitize_text_def split: sum.splits)

lemma detector_mcp_text: "fst (detector_mcp_sanitize ds t) = sanitize_text ds t"
  by (simp add: detector_mcp_sanitize_def sanitize_text_def split: sum.splits)

interpretation detector: text_sanitizer "DetectorSanitizer ds" "redacted_text ds" for ds
  by unfold_locales (simp_all add: DetectorSanitizer_def detector_traced_text redacted_sanitize)

interpretation boundary: text_sanitizer "BoundarySanitizer ds" "redacted_text ds" for ds
  by unfold_locales (simp_all add: BoundarySanitizer_def default_traced_def redacted_sanitize Let_def)

text \<open>
  Two texts that differ only in the protected bytes: the same bytes outside the findings, and findings of
  the same kinds.
\<close>

definition same_outside :: "DetectorSet \<Rightarrow> string \<Rightarrow> string \<Rightarrow> bool" where
  "same_outside ds t u \<longleftrightarrow>
     detectors_ok ds t \<and> detectors_ok ds u \<and>
     gaps t 0 (DetectorSet_detect ds t) = gaps u 0 (DetectorSet_detect ds u) \<and>
     map df_kind (DetectorSet_detect ds t) = map df_kind (DetectorSet_detect ds u)"

lemma placeholder_redact_ok:
  assumes "detectors_ok ds t"
  shows "placeholder_redact ds t =
    Ok \<lparr>out_text = interleave (gaps t 0 (DetectorSet_detect ds t)) (map write_placeholder (map df_kind (DetectorSet_detect ds t))),
        out_findings = DetectorSet_detect ds t\<rparr>"
proof -
  have rep: "map2 (\<lambda>raw f. write_replacement h raw f placeholder_options k) (secrets s fs) fs = map write_placeholder (map df_kind fs)"
    for h s k fs
    by (induction fs) (auto simp: secrets_def write_replacement_def placeholder_options_def)
  show ?thesis
    unfolding placeholder_redact_def redact_outcome[OF assms] Let_def rep
    by (simp add: placeholder_options_def)
qed

lemma sanitizers_noninterference:
  assumes "same_outside ds t u"
  shows "sanitize_text ds u = sanitize_text ds t" and "detector_sanitize_traced ds u = detector_sanitize_traced ds t"
    and "detector_mcp_sanitize ds u = detector_mcp_sanitize ds t"
proof -
  have ok: "detectors_ok ds t" "detectors_ok ds u"
    and eq: "gaps u 0 (DetectorSet_detect ds u) = gaps t 0 (DetectorSet_detect ds t)"
      "map df_kind (DetectorSet_detect ds u) = map df_kind (DetectorSet_detect ds t)"
    using assms by (simp_all add: same_outside_def)
  note run = placeholder_redact_ok[OF ok(1)] placeholder_redact_ok[OF ok(2)]
  have cats: "map (\<lambda>f. trace_category (df_kind f)) fs = map trace_category (map df_kind fs)" for fs by simp
  have "length (map df_kind (DetectorSet_detect ds u)) = length (map df_kind (DetectorSet_detect ds t))" by (simp only: eq)
  then have findings: "length (DetectorSet_detect ds u) = length (DetectorSet_detect ds t)" by simp
  show "sanitize_text ds u = sanitize_text ds t"
    by (simp only: sanitize_text_def run sum.case RedactionOutput.simps eq)
  show "detector_sanitize_traced ds u = detector_sanitize_traced ds t"
    by (simp only: detector_sanitize_traced_def run sum.case RedactionOutput.simps cats eq)
  show "detector_mcp_sanitize ds u = detector_mcp_sanitize ds t"
    by (simp only: detector_mcp_sanitize_def run sum.case RedactionOutput.simps findings eq)
qed

section \<open>JSON bodies\<close>

lemma jmap_jmap: "jmap f (jmap g v) = jmap (\<lambda>t. f (g t)) v"
  by (induction v rule: json_induct) auto

lemma jmap_strings_cong: "(\<And>t. t \<in> set (jstrings v) \<Longrightarrow> f t = g t) \<Longrightarrow> jmap f v = jmap g v"
proof (induction v rule: json_induct)
  case (JObj fs)
  have "jmap f w = jmap g w" if "(k, w) \<in> set fs" for k w
    by (rule JObj.IH[OF that]) (use JObj.prems that in force)
  then show ?case by (auto intro!: map_cong)
qed auto

lemma sanitize_json_cong:
  assumes "\<And>t. t \<in> set (jstrings v) \<Longrightarrow> safe_text san (g t) = safe_text san t"
    and "sanitize_json provider v san = Ok (w, obs)" and "sanitize_json provider (jmap g v) san = Ok (w', obs')"
  shows "w' = w"
proof -
  have "jmap (safe_text san) (jmap g v) = jmap (safe_text san) v"
    unfolding jmap_jmap by (rule jmap_strings_cong) (simp add: assms(1))
  then show ?thesis using assms(2,3) by (simp add: sanitize_json_ok)
qed

lemma sanitizer_for_upstream_cong:
  assumes "safe_text san (f t) = safe_text san t"
  shows "safe_text (sanitizer_for_upstream san u) (f t) = safe_text (sanitizer_for_upstream san u) t"
  using assms
  by (simp add: sanitizer_for_upstream_def credential_sanitizer_def credential_traced_def Let_def case_prod_unfold split: option.split)

section \<open>Line by line\<close>

text \<open>The lines of an input; a last line need not be terminated.\<close>

definition nl_pieces :: "string \<Rightarrow> string list" where
  "nl_pieces s = (let ps = split_on (CHR 0x0A) s in if last ps = [] then butlast ps else ps)"

fun mediate :: "JsonCodec \<Rightarrow> Transformer \<Rightarrow> Direction \<Rightarrow> string \<Rightarrow> string list \<Rightarrow> McpRun" where
  "mediate c tr direction server [] = ([], Ok ())"
| "mediate c tr direction server (line # ls) =
     (if length line > MAX_MESSAGE_BYTES then ([], Err ''MCP message exceeds the configured size limit'')
      else if \<not> utf8_valid line then ([], Err ''invalid MCP JSON-RPC message'')
      else if str_trim line = [] then mediate c tr direction server ls
      else case transform c tr direction server line of
        Inl error \<Rightarrow> ([], Err (McpError_fmt error))
      | Inr printed \<Rightarrow> mcp_printed printed (mediate c tr direction server ls))"

lemma nl_pieces_Nil [simp]: "nl_pieces [] = []"
  by (simp add: nl_pieces_def)

lemma nl_pieces_line: "CHR 0x0A \<notin> set a \<Longrightarrow> nl_pieces (a @ CHR 0x0A # b) = a # nl_pieces b"
  by (simp add: nl_pieces_def Let_def split_on_append split_on_free)

lemma nl_pieces_last: "CHR 0x0A \<notin> set a \<Longrightarrow> a \<noteq> [] \<Longrightarrow> nl_pieces a = [a]"
  by (simp add: nl_pieces_def split_on_free)

lemma split_once_found: "d \<notin> set a \<Longrightarrow> split_once d (a @ d # b) = Some (a, b)"
  by (simp add: split_once_some_iff)

text \<open>What the reader answers when nothing fails: it depends on the bytes, not on the buffers they come in.\<close>

definition line_result :: "nat \<Rightarrow> string \<Rightarrow> string + string option" where
  "line_result m line =
     (if length line > m then Err ''MCP message exceeds the configured size limit''
      else if utf8_valid line then Ok (Some line) else Err ''invalid MCP JSON-RPC message'')"

lemma read_bounded_line_bytes:
  assumes "[] \<notin> set chunks" and "length line \<le> m"
  shows "case split_once (CHR 0x0A) (concat chunks) of
      Some (a, b) \<Rightarrow> (\<exists>left. read_bounded_line m line (map Some chunks) = (line_result m (line @ a), map Some left) \<and>
        (is_ok (line_result m (line @ a)) \<longrightarrow> concat left = b \<and> [] \<notin> set left))
    | None \<Rightarrow> (\<exists>left. read_bounded_line m line (map Some chunks) =
        (if line @ concat chunks = [] then Ok None else line_result m (line @ concat chunks), map Some left) \<and>
        (is_ok (line_result m (line @ concat chunks)) \<longrightarrow> left = []))"
  using assms
proof (induction chunks arbitrary: line)
  case Nil
  then show ?case by (simp add: split_once_def line_result_def)
next
  case (Cons chunk chunks)
  show ?case
  proof (cases "split_once (CHR 0x0A) chunk")
    case (Some p)
    obtain a b where p: "p = (a, b)" by force
    have c: "chunk = a @ CHR 0x0A # b" "CHR 0x0A \<notin> set a" using Some by (auto simp: p split_once_some_iff)
    then have "split_once (CHR 0x0A) (concat (chunk # chunks)) = Some (a, b @ concat chunks)"
      by (simp add: split_once_some_iff)
    moreover have "read_bounded_line m line (map Some (chunk # chunks)) =
        (line_result m (line @ a), map Some (if b = [] then chunks else b # chunks))"
      using Some Cons.prems(1) by (auto simp: p line_result_def Let_def c)
    ultimately show ?thesis using Cons.prems(1) by (auto intro!: exI[of _ "if b = [] then chunks else b # chunks"])
  next
    case None
    then have free: "CHR 0x0A \<notin> set chunk" by (simp add: split_once_none_iff)
    have ne: "chunk \<noteq> []" using Cons.prems(1) by auto
    have split: "split_once (CHR 0x0A) (concat (chunk # chunks)) =
        map_option (\<lambda>(a, b). (chunk @ a, b)) (split_once (CHR 0x0A) (concat chunks))"
    proof (cases "split_once (CHR 0x0A) (concat chunks)")
      case (Some q)
      obtain a b where q: "q = (a, b)" by force
      have ab: "concat chunks = a @ CHR 0x0A # b" "CHR 0x0A \<notin> set a" using Some by (auto simp: q split_once_some_iff)
      then have "split_once (CHR 0x0A) ((chunk @ a) @ CHR 0x0A # b) = Some (chunk @ a, b)"
        using free by (intro split_once_found) simp
      then show ?thesis using Some ab(1) by (simp add: q)
    next
      case None
      then have "split_once (CHR 0x0A) (concat (chunk # chunks)) = None" using free by (simp add: split_once_none_iff)
      then show ?thesis using None by simp
    qed
    show ?thesis
    proof (cases "length (line @ chunk) > m")
      case True
      have over: "line_result m (line @ chunk @ x) = Err ''MCP message exceeds the configured size limit''" for x
        using True by (simp add: line_result_def)
      have "read_bounded_line m line (map Some (chunk # chunks)) = (Err ''MCP message exceeds the configured size limit'', map Some chunks)"
        using True None ne by (simp add: Let_def)
      then show ?thesis unfolding split using ne by (auto simp: over split: option.splits)
    next
      case False
      have "read_bounded_line m line (map Some (chunk # chunks)) = read_bounded_line m (line @ chunk) (map Some chunks)"
        using False None ne by (simp add: Let_def)
      moreover have "case split_once (CHR 0x0A) (concat chunks) of
          Some (a, b) \<Rightarrow> (\<exists>left. read_bounded_line m (line @ chunk) (map Some chunks) = (line_result m ((line @ chunk) @ a), map Some left) \<and>
            (is_ok (line_result m ((line @ chunk) @ a)) \<longrightarrow> concat left = b \<and> [] \<notin> set left))
        | None \<Rightarrow> (\<exists>left. read_bounded_line m (line @ chunk) (map Some chunks) =
            (if (line @ chunk) @ concat chunks = [] then Ok None else line_result m ((line @ chunk) @ concat chunks), map Some left) \<and>
            (is_ok (line_result m ((line @ chunk) @ concat chunks)) \<longrightarrow> left = []))"
        using Cons.IH[of "line @ chunk"] Cons.prems False by simp
      ultimately show ?thesis unfolding split using ne by (auto split: option.splits)
    qed
  qed
qed

lemma mcp_loop_lines:
  "[] \<notin> set chunks \<Longrightarrow>
     mcp_loop c tr direction server (map Some chunks) = mediate c tr direction server (nl_pieces (concat chunks))"
proof (induction "length (concat chunks)" arbitrary: chunks rule: less_induct)
  case less
  show ?case
  proof (cases "split_once (CHR 0x0A) (concat chunks)")
    case (Some p)
    obtain a b where p: "p = (a, b)" by force
    have c: "concat chunks = a @ CHR 0x0A # b" "CHR 0x0A \<notin> set a" using Some by (auto simp: p split_once_some_iff)
    obtain left where left: "read_bounded_line MAX_MESSAGE_BYTES [] (map Some chunks) = (line_result MAX_MESSAGE_BYTES a, map Some left)"
      "is_ok (line_result MAX_MESSAGE_BYTES a) \<longrightarrow> concat left = b \<and> [] \<notin> set left"
      using read_bounded_line_bytes[OF less.prems, of "[]"] Some by (auto simp: p)
    have rest: "is_ok (line_result MAX_MESSAGE_BYTES a) \<Longrightarrow>
        mcp_loop c tr direction server (map Some left) = mediate c tr direction server (nl_pieces b)"
      using less.hyps[of left] left(2) c by simp
    show ?thesis
      unfolding mcp_loop.simps[of c tr direction server "map Some chunks"] left(1) c(1) nl_pieces_line[OF c(2)]
      using rest by (auto simp: line_result_def split: sum.splits)
  next
    case None
    then have free: "CHR 0x0A \<notin> set (concat chunks)" by (simp add: split_once_none_iff)
    obtain left where left: "read_bounded_line MAX_MESSAGE_BYTES [] (map Some chunks) =
        (if concat chunks = [] then Ok None else line_result MAX_MESSAGE_BYTES (concat chunks), map Some left)"
      "is_ok (line_result MAX_MESSAGE_BYTES (concat chunks)) \<longrightarrow> left = []"
      using read_bounded_line_bytes[OF less.prems, of "[]" MAX_MESSAGE_BYTES, unfolded None option.case append_Nil]
      by (simp only: list.size le0) blast
    have fin: "mcp_loop c tr direction server [] = ([], Ok ())" by (subst mcp_loop.simps) simp
    show ?thesis
    proof (cases "concat chunks = []")
      case True
      then show ?thesis using left(1) unfolding True by (subst mcp_loop.simps) simp
    next
      case False
      show ?thesis
        unfolding mcp_loop.simps[of c tr direction server "map Some chunks"] left(1) nl_pieces_last[OF free False]
        using False left(2) fin by (auto simp: line_result_def split: sum.splits)
    qed
  qed
qed

section \<open>Properties\<close>

lemma mcp_loop_printed:
  "x \<in> set (fst (mcp_loop c tr direction server buffers)) \<Longrightarrow> \<exists>line. transform c tr direction server line = Ok x"
proof (induction c tr direction server buffers rule: mcp_loop.induct)
  case (1 c tr direction server buffers)
  show ?case
  proof (cases "read_bounded_line MAX_MESSAGE_BYTES [] buffers")
    case (Pair r left)
    show ?thesis
      using "1.prems" "1.IH"[OF Pair[symmetric]] unfolding mcp_loop.simps[of c tr direction server buffers] Pair
      by (auto simp: mcp_printed_def split: sum.splits option.splits if_splits)
  qed
qed

definition mcp_transformer :: "DetectorSet \<Rightarrow> Transformer" where
  "mcp_transformer ds = \<lparr>tr_resolver = RejectResolver, tr_sanitizer = detector_mcp_sanitize ds, tr_max_bytes = MAX_MESSAGE_BYTES\<rparr>"

lemma mcp_command_loop:
  "mcp_command c ds direction server buffers =
     mcp_loop c (mcp_transformer ds) (if direction = Some ''to-server'' then Dir_ToServer else Dir_ToAgent)
       (case server of None \<Rightarrow> ''preview'' | Some name \<Rightarrow> name) buffers"
  by (simp add: mcp_command_def Transformer_new_def mcp_transformer_def MAX_MESSAGE_BYTES_def)

text \<open>
  C31. The MCP command is a function of the bytes it reads.  However the input arrives in buffers, it is
  mediated line by line: lines that are blank are skipped, each other line is transformed and printed in
  order, and the first line that is too long, not UTF-8, or refused ends the command with its message; at
  the end of the input the command succeeds.
\<close>

theorem mcp_command_exact:
  assumes "[] \<notin> set chunks"
  shows "mcp_command c ds direction server (map Some chunks) =
    mediate c (mcp_transformer ds) (if direction = Some ''to-server'' then Dir_ToServer else Dir_ToAgent)
      (case server of None \<Rightarrow> ''preview'' | Some name \<Rightarrow> name) (nl_pieces (concat chunks))"
  using assms by (simp add: mcp_command_loop mcp_loop_lines)

text \<open>
  What the MCP command prints holds no secret it detected.  Towards the agent every string value of
  every message is a redacted text.  Towards the server no reference is ever resolved: the arguments of a
  tool call are redacted texts, and a message of another kind holds no reference.
\<close>

theorem mcp_command_redacted:
  assumes "(line, audit) \<in> set (fst (mcp_command c ds direction server buffers))"
  shows "\<exists>v. to_string c v = Some line \<and> restored audit = 0 \<and>
    (if direction \<noteq> Some ''to-server'' then list_all (redacted_text ds) (jstrings v)
     else if mcp_method v = Some ''tools/call''
       then \<exists>args. mcp_param ''arguments'' v = Some args \<and> list_all (redacted_text ds) (jstrings args)
     else list_all (\<lambda>t. \<not> is_ok (SafeRef_parse t)) (jstrings v))"
proof -
  let ?d = "if direction = Some ''to-server'' then Dir_ToServer else Dir_ToAgent"
  let ?s = "case server of None \<Rightarrow> ''preview'' | Some name \<Rightarrow> name"
  have safe: "redacted_text ds (fst (detector_mcp_sanitize ds t))" for t
    by (simp add: detector_mcp_text redacted_sanitize)
  obtain l where l: "transform c (mcp_transformer ds) ?d ?s l = Ok (line, audit)"
    using mcp_loop_printed assms unfolding mcp_command_loop by blast
  obtain v v' where v: "to_string c v' = Some line"
    "?d = Dir_ToServer \<Longrightarrow> restore_server_message (mcp_transformer ds) ?s v Audit_default = Ok (v', audit)"
    "?d = Dir_ToAgent \<Longrightarrow> sanitize_value (tr_sanitizer (mcp_transformer ds)) v Audit_default = (v', audit)"
    using l by (rule transform_ok) blast
  show ?thesis
  proof (cases "direction = Some ''to-server''")
    case False
    then have *: "v' = jmap (\<lambda>t. fst (detector_mcp_sanitize ds t)) v" "restored audit = 0"
      using v(3) by (auto simp: sanitize_value_map mcp_transformer_def Audit_default_def)
    have "list_all (redacted_text ds) (jstrings v')" unfolding * using safe by (simp add: list_all_iff)
    then show ?thesis using v(1) False *(2) by auto
  next
    case True
    then have r: "restore_server_message (mcp_transformer ds) ?s v Audit_default = Ok (v', audit)" using v(2) by simp
    show ?thesis
    proof (cases "mcp_method v = Some ''tools/call''")
      case False
      then have "v' = v" "audit = Audit_default" "list_all (\<lambda>t. \<not> is_ok (SafeRef_parse t)) (jstrings v)"
        using r by (auto simp: restore_server_message_def reject_any_reference_ok res_map_ok_iff list_all_iff)
      then show ?thesis using v(1) True False by (auto simp: Audit_default_def)
    next
      case call: True
      then obtain tool args where t: "mcp_param ''name'' v = Some (JStr tool)" "mcp_param ''arguments'' v = Some args"
        using r by (auto simp: restore_server_message_def res_bind_ok_iff bind_eq_Some_conv elim!: ok_or.elims as_str.elims)
      have "restore_outcome RejectResolver (?s, tool) (jleaves is_sensitive_field ''/params/arguments'' False args)
        (put_arguments (jmap (leaf_text RejectResolver (detector_mcp_sanitize ds)) args) v,
         count_leaves (detector_mcp_sanitize ds) (jstrings args) Audit_default) = Ok (v', audit)"
        using restore_server_message_call[OF call t, of "mcp_transformer ds" ?s Audit_default] r by (simp add: mcp_transformer_def)
      then have n: "first_error RejectResolver (?s, tool) (jleaves is_sensitive_field ''/params/arguments'' False args) = None"
        and v': "v' = put_arguments (jmap (leaf_text RejectResolver (detector_mcp_sanitize ds)) args) v"
        and a: "audit = count_leaves (detector_mcp_sanitize ds) (jstrings args) Audit_default"
        by (auto simp: restore_outcome_def split: option.splits)
      have plain: "\<not> is_ok (SafeRef_parse t)" if "t \<in> set (jstrings args)" for t
      proof -
        have "t \<in> set (map (\<lambda>(p, b, s). s) (jleaves is_sensitive_field ''/params/arguments'' False args))"
          using that by (simp only: jleaves_strings)
        then obtain p b where "(p, b, t) \<in> set (jleaves is_sensitive_field ''/params/arguments'' False args)" by auto
        from first_error_none[OF n this] show ?thesis
          by (cases "SafeRef_parse t") (simp_all add: leaf_error_none RejectResolver_def)
      qed
      have leaf: "redacted_text ds (leaf_text RejectResolver (detector_mcp_sanitize ds) t)" if "t \<in> set (jstrings args)" for t
        using plain[OF that] safe by (cases "SafeRef_parse t") (simp_all add: leaf_text_def)
      have none: "filter (\<lambda>t. is_ok (SafeRef_parse t)) (jstrings args) = []" using plain by (simp add: filter_empty_conv)
      have "mcp_param ''arguments'' v' = Some (jmap (leaf_text RejectResolver (detector_mcp_sanitize ds)) args)"
        and m: "json_get ''method'' v' = json_get ''method'' v"
        using get_put_arguments(1,3)[OF t(2)] by (simp_all add: v')
      moreover have "list_all (redacted_text ds) (jstrings (jmap (leaf_text RejectResolver (detector_mcp_sanitize ds)) args))"
        using leaf by (auto simp: list_all_iff)
      moreover have "restored audit = 0" by (simp add: a count_leaves_def none Audit_default_def)
      moreover have "mcp_method v' = Some ''tools/call''" using call m by (simp add: mcp_method_def)
      ultimately show ?thesis using v(1) True by auto
    qed
  qed
qed

text \<open>
  C30. End to end, the proxy's upstream learns nothing of the bytes it protects.  Take two requests that are
  alike but for their bodies, and let the second body be the first with some string values exchanged for
  others that differ only inside what the detectors find, kind for kind.  Then, with the detector
  sanitizer, the proxy sends the very same bytes, headers and address for both.
\<close>

theorem proxy_noninterference:
  assumes "st_upstreams st name = Some u" and "st_sanitizer st = DetectorSanitizer ds \<or> st_sanitizer st = BoundarySanitizer ds"
    and "to_bytes net (rq_body request) (st_max_request_body st) = Some body" and "from_slice c body = Some v"
    and "to_bytes net body' (st_max_request_body st) = Some bytes" and "from_slice c bytes = Some (jmap exchange v)"
    and "\<And>t. t \<in> set (jstrings v) \<Longrightarrow> same_outside ds t (exchange t)"
    and "fr_sent (forward_inner lib c net st name path request deadline trace) = Some sent"
    and "fr_sent (forward_inner lib c net st name path (request\<lparr>rq_body := body'\<rparr>) deadline' trace') = Some sent'"
  shows "sent' = sent"
proof -
  let ?san = "sanitizer_for_upstream (st_sanitizer st) u"
  obtain hop out obs where 1: "check_request lib st u path request ?san = Ok hop"
    "sanitize_body c (up_provider u) BS_Request path (content_type lib (rq_headers request)) body ?san = Ok (out, obs)"
    "sent = outbound_request lib u path request hop out"
    using assms(8) by (rule forward_inner_sent) (use assms(1,3) in auto)
  obtain hop' out' obs' where 2: "check_request lib st u path (request\<lparr>rq_body := body'\<rparr>) ?san = Ok hop'"
    "sanitize_body c (up_provider u) BS_Request path (content_type lib (rq_headers request)) bytes ?san = Ok (out', obs')"
    "sent' = outbound_request lib u path (request\<lparr>rq_body := body'\<rparr>) hop' out'"
    using assms(9) by (rule forward_inner_sent) (use assms(1,5) in auto)
  obtain w where w: "sanitize_json (up_provider u) v ?san = Ok (w, obs)" "to_vec c w = Some out"
    using 1(2) by (rule sanitize_body_json) (use assms(4) in auto)
  obtain w' where w': "sanitize_json (up_provider u) (jmap exchange v) ?san = Ok (w', obs')" "to_vec c w' = Some out'"
    using 2(2) by (rule sanitize_body_json) (use assms(6) in auto)
  have "safe_text ?san (exchange t) = safe_text ?san t" if "t \<in> set (jstrings v)" for t
  proof (rule sanitizer_for_upstream_cong)
    show "safe_text (st_sanitizer st) (exchange t) = safe_text (st_sanitizer st) t"
      using assms(2) sanitizers_noninterference(1)[OF assms(7)[OF that]]
      by (auto simp: DetectorSanitizer_def BoundarySanitizer_def default_traced_def detector_traced_text Let_def)
  qed
  from sanitize_json_cong[OF this w(1) w'(1)] have "out' = out" using w(2) w'(2) by simp
  moreover have "hop' = hop" using 1(1) 2(1) by (simp add: check_request_def)
  ultimately show ?thesis using 1(3) 2(3) by (simp add: outbound_request_def)
qed

text \<open>The master key is read back from its printed form.\<close>

lemma hex_value_digit: "n < 16 \<Longrightarrow> hex_value (''0123456789abcdef'' ! n) = Some n"
proof -
  have "list_all (\<lambda>n. hex_value (''0123456789abcdef'' ! n) = Some n) [0..<16]" by code_simp
  then show "n < 16 \<Longrightarrow> hex_value (''0123456789abcdef'' ! n) = Some n" by (simp add: list_all_iff)
qed

lemma char_of_nibbles: "char_of (16 * (byte c div 16) + byte c mod 16) = c"
  by (simp add: byte_def)

lemma decode_pairs_push_hex: "decode_pairs (push_hex k) = Some k"
proof (induction k)
  case (Cons c k)
  have "byte c div 16 < 16" "byte c mod 16 < 16" using byte_less[of c] by simp_all
  then show ?case using Cons char_of_nibbles[of c] by (simp add: push_hex_def hex_value_digit)
qed (simp add: push_hex_def)

lemma length_push_hex: "length (push_hex k) = 2 * length k"
  by (induction k) (simp_all add: push_hex_def)

lemma decode_key_push_hex: "length k = 32 \<Longrightarrow> decode_key (push_hex k) = Some k"
  by (simp add: decode_key_def length_push_hex decode_pairs_push_hex)

lemma decode_pairs_ok:
  "decode_pairs s = Some k \<Longrightarrow> even (length s) \<Longrightarrow> length s = 2 * length k \<and> (\<forall>c\<in>set s. hex_value c \<noteq> None)"
  by (induction s arbitrary: k rule: decode_pairs.induct) (auto simp: bind_eq_Some_conv)

lemma decode_key_ok: "decode_key s = Some k \<Longrightarrow> length k = 32 \<and> (\<forall>c\<in>set s. hex_value c \<noteq> None)"
  using decode_pairs_ok[of s k] by (auto simp: decode_key_def split: if_splits)

text \<open>
  The sink reports a loss: it has not failed exactly when every record given to it was appended, in
  order.
\<close>

lemma sink_records:
  "\<not> cs_failed (fst (foldl (\<lambda>st r. sink_record c r st) (sink, s) rs)) \<Longrightarrow>
     \<not> cs_failed sink \<and> append_each (Store_append c (cs_store sink)) rs s =
       (Ok (), snd (foldl (\<lambda>st r. sink_record c r st) (sink, s) rs))"
proof (induction rs arbitrary: sink s)
  case (Cons r rs)
  obtain x s1 where app: "Store_append c (cs_store sink) r s = (x, s1)" by force
  show ?case
  proof (cases x)
    case (Inl e)
    then have "foldl (\<lambda>st r. sink_record c r st) (sink, s) (r # rs) = foldl (\<lambda>st r. sink_record c r st) (sink\<lparr>cs_failed := True\<rparr>, s1) rs"
      by (simp add: sink_record_def app)
    then show ?thesis using Cons.IH[of "sink\<lparr>cs_failed := True\<rparr>" s1] Cons.prems by simp
  next
    case (Inr u)
    then have "foldl (\<lambda>st r. sink_record c r st) (sink, s) (r # rs) = foldl (\<lambda>st r. sink_record c r st) (sink, s1) rs"
      by (simp add: sink_record_def app)
    then show ?thesis using Cons.IH[of sink s1] Cons.prems Inr by (simp add: app)
  qed
qed simp

text \<open>A record of the command line has a valid identifier, so it is refused only for its content or its date.\<close>

lemma hex_str_bounded: "n < 16 ^ Suc k \<Longrightarrow> length (hex_str n) \<le> Suc k"
proof (induction k arbitrary: n)
  case 0
  then show ?case by (simp add: hex_str.simps)
next
  case (Suc k)
  then show ?case by (cases "n < 16") (simp_all add: hex_str.simps[of n] div_less_iff_less_mult)
qed

lemma hex_str_ne: "hex_str n \<noteq> []"
  by (simp add: hex_str.simps[of n])

lemma next_trace_request_id_ok:
  "length (next_trace_request_id clock counter) \<le> 80 \<and>
     (\<exists>x. next_trace_request_id clock counter = ''req_'' @ x \<and> x \<noteq> [] \<and> list_all (\<lambda>b. is_ascii_hexdigit b \<or> b = CHR ''_'') x)"
proof -
  let ?t = "if clock < 0 then 0 else nat clock mod 2 ^ 128" and ?n = "unat counter"
  have "(16::nat) ^ 32 = 2 ^ 128" "(16::nat) ^ 16 = 2 ^ 64" by (simp_all add: power_mult[symmetric, of "2::nat" 4, simplified])
  moreover have "?n < 2 ^ 64" using unsigned_less[of counter] by simp
  ultimately have "length (hex_str ?t) \<le> 32" "length (hex_str ?n) \<le> 16"
    using hex_str_bounded[of ?t 31] hex_str_bounded[of ?n 15] by simp_all
  moreover have "list_all (\<lambda>b. is_ascii_hexdigit b \<or> b = CHR ''_'') (hex_str m)" for m
    using hex_str_digits[of m] by (simp add: list_all_iff)
  ultimately show ?thesis
    by (auto simp: next_trace_request_id_def hex_str_ne intro!: exI[of _ "hex_str ?t @ ''_'' @ hex_str ?n"])
qed

lemma command_record_closed:
  "0 \<le> clock \<Longrightarrow> length replacements \<le> 1024 \<Longrightarrow> list_all closed_replacement replacements \<Longrightarrow>
     (issue = None \<longleftrightarrow> coverage = Cov_Protected) \<Longrightarrow>
     \<exists>r. Record_now clock (next_trace_request_id clock counter) route coverage outcome a b replacements issue = Ok r"
  using next_trace_request_id_ok[of clock counter]
  by (auto simp: Record_now_def res_bind_ok_iff Record_validate_iff closed_record_def Let_def)

section \<open>A concrete run\<close>

text \<open>A detector that finds the text after an equals sign, and a codec with texts of one letter.\<close>

definition cli_detectors :: DetectorSet where
  "cli_detectors = [\<lambda>s. if s = ''=x'' \<or> s = ''=yz'' then
     [\<lparr>df_kind = DK_Token, df_span = \<lparr>span_start = 1, span_end = length s\<rparr>, df_confidence = Conf_High, df_detector = ''t''\<rparr>] else []]"

definition cli_codec :: JsonCodec where
  "cli_codec = \<lparr>from_str = (\<lambda>s. if s = ''m'' then Some (JObj [(''k'', JStr ''=x'')]) else None),
     to_string = (\<lambda>v. if v = JObj [(''k'', JStr ''=[REDACTED:token]'')] then Some ''o'' else None),
     from_slice = (\<lambda>s. if s = ''1'' then Some (JStr ''=x'') else if s = ''2'' then Some (JStr ''=yz'') else None),
     to_vec = (\<lambda>v. if v = JStr ''=[REDACTED:token]'' then Some ''3'' else None)\<rparr>"

lemma cli_detect:
  "DetectorSet_detect cli_detectors ''=x'' =
     [\<lparr>df_kind = DK_Token, df_span = \<lparr>span_start = 1, span_end = 2\<rparr>, df_confidence = Conf_High, df_detector = ''t''\<rparr>]"
  "DetectorSet_detect cli_detectors ''=yz'' =
     [\<lparr>df_kind = DK_Token, df_span = \<lparr>span_start = 1, span_end = 3\<rparr>, df_confidence = Conf_High, df_detector = ''t''\<rparr>]"
  by (simp_all add: DetectorSet_detect_def resolve_overlaps_def cli_detectors_def)

lemma cli_detectors_ok: "detectors_ok cli_detectors ''=x''" "detectors_ok cli_detectors ''=yz''"
  by (simp_all add: detectors_ok_def cli_detectors_def span_in_def is_char_boundary_def is_continuation_def byte_def)

lemma cli_same_outside: "same_outside cli_detectors ''=x'' ''=yz''"
  by (simp add: same_outside_def cli_detect cli_detectors_ok str_slice_def)

lemma cli_redact:
  "placeholder_redact cli_detectors ''=x'' =
     Ok \<lparr>out_text = ''=[REDACTED:token]'', out_findings = DetectorSet_detect cli_detectors ''=x''\<rparr>"
  by (simp add: placeholder_redact_ok[OF cli_detectors_ok(1)] cli_detect str_slice_def write_placeholder_def)

lemma cli_texts:
  "detector_mcp_sanitize cli_detectors ''=x'' = (''=[REDACTED:token]'', 1)"
  "safe_text (DetectorSanitizer cli_detectors) ''=x'' = ''=[REDACTED:token]''"
  by (simp_all add: detector_mcp_sanitize_def cli_redact cli_detect DetectorSanitizer_def detector_traced_text sanitize_text_def)

lemma cli_transform:
  "transform cli_codec (mcp_transformer cli_detectors) Dir_ToAgent ''preview'' ''m'' =
     Ok (''o'', \<lparr>restored = 0, sanitized = 1, rejected = 0\<rparr>)"
  by (simp add: transform_def mcp_transformer_def cli_codec_def cli_texts MAX_MESSAGE_BYTES_def Audit_default_def)

lemma cli_mediate:
  "mediate cli_codec (mcp_transformer cli_detectors) Dir_ToAgent ''preview'' (nl_pieces (concat [''m'' @ nl, ''m''])) =
     (replicate 2 (''o'', \<lparr>restored = 0, sanitized = 1, rejected = 0\<rparr>), Ok ())"
proof -
  have "nl_pieces (concat [''m'' @ nl, ''m'']) = [''m'', ''m'']" "utf8_valid ''m''" "str_trim ''m'' \<noteq> []" by code_simp+
  then show ?thesis by (simp add: cli_transform mcp_printed_def MAX_MESSAGE_BYTES_def numeral_2_eq_2)
qed

theorem mcp_command_exact_witness:
  "mcp_command cli_codec cli_detectors None None (map Some [''m'' @ nl, ''m'']) =
     (replicate 2 (''o'', \<lparr>restored = 0, sanitized = 1, rejected = 0\<rparr>), Ok ())"
  using mcp_command_exact[of "[''m'' @ nl, ''m'']" cli_codec cli_detectors None None] cli_mediate by simp

lemma cli_printed:
  "(''o'', \<lparr>restored = 0, sanitized = 1, rejected = 0\<rparr>) \<in>
     set (fst (mcp_command cli_codec cli_detectors None None (map Some [''m'' @ nl, ''m''])))"
  using mcp_loop_lines[of "[''m'' @ nl, ''m'']" cli_codec "mcp_transformer cli_detectors" Dir_ToAgent "''preview''"] cli_mediate
  by (simp add: mcp_command_loop)

theorem mcp_command_redacted_witness:
  "\<exists>v. to_string cli_codec v = Some ''o'' \<and> list_all (redacted_text cli_detectors) (jstrings v)"
  using mcp_command_redacted[OF cli_printed] by auto

definition cli_state :: AppState where
  "cli_state = px_state\<lparr>st_sanitizer := DetectorSanitizer cli_detectors\<rparr>"

definition cli_sent :: "string \<Rightarrow> Outbound option" where
  "cli_sent body = fr_sent (forward_inner px_lib cli_codec px_net cli_state ''anthropic'' ''v1/messages''
     ((px_request [])\<lparr>rq_body := body\<rparr>) None px_trace)"

abbreviation cli_san :: Sanitizer where
  "cli_san \<equiv> credential_sanitizer (DetectorSanitizer cli_detectors) ''raw''"

lemma cli_check: "check_request px_lib cli_state px_upstream ''v1/messages'' (px_request []) cli_san = Ok False"
  by code_simp

lemma cli_safe_text: "safe_text cli_san ''=x'' = ''=[REDACTED:token]''" "safe_text cli_san ''=yz'' = ''=[REDACTED:token]''"
proof -
  have "\<not> str_contains ''raw'' ''=[REDACTED:token]''" by code_simp
  moreover have "safe_text (DetectorSanitizer cli_detectors) ''=yz'' = ''=[REDACTED:token]''"
    using sanitizers_noninterference(1)[OF cli_same_outside] cli_texts(2)
    by (simp add: DetectorSanitizer_def detector_traced_text)
  ultimately show "safe_text cli_san ''=x'' = ''=[REDACTED:token]''" "safe_text cli_san ''=yz'' = ''=[REDACTED:token]''"
    using cli_texts(2) by (simp_all add: credential_sanitizer_def credential_traced_def case_prod_unfold)
qed

lemma cli_body:
  "\<exists>obs. sanitize_body cli_codec Prov_Anthropic BS_Request ''v1/messages'' (Some ''application/json'') ''1'' cli_san = Ok (''3'', obs)"
  "\<exists>obs. sanitize_body cli_codec Prov_Anthropic BS_Request ''v1/messages'' (Some ''application/json'') ''2'' cli_san = Ok (''3'', obs)"
proof -
  have j: "is_json ''application/json''" by code_simp
  have "sanitize_json Prov_Anthropic (JStr t) cli_san =
      Ok (JStr (safe_text cli_san t), leaf_observations cli_san (jleaves (\<lambda>_. False) [] False (JStr t)))" for t
    by (simp add: sanitize_json_ok)
  then show "\<exists>obs. sanitize_body cli_codec Prov_Anthropic BS_Request ''v1/messages'' (Some ''application/json'') ''1'' cli_san = Ok (''3'', obs)"
    "\<exists>obs. sanitize_body cli_codec Prov_Anthropic BS_Request ''v1/messages'' (Some ''application/json'') ''2'' cli_san = Ok (''3'', obs)"
    using j by (simp_all add: sanitize_body_def cli_codec_def cli_safe_text)
qed

lemma cli_sent:
  "\<exists>o1. cli_sent ''1'' = Some o1 \<and> ou_body o1 = ''3''" "\<exists>o2. cli_sent ''2'' = Some o2 \<and> ou_body o2 = ''3''"
proof -
  have st: "st_upstreams cli_state ''anthropic'' = Some px_upstream" "sanitizer_for_upstream (st_sanitizer cli_state) px_upstream = cli_san"
    "st_max_request_body cli_state = 8"
    by (simp_all add: cli_state_def px_state_def sanitizer_for_upstream_def px_upstream_def)
  note ct = px_parts(7)[of "[]"]
  have ck: "check_request px_lib cli_state px_upstream ''v1/messages'' ((px_request [])\<lparr>rq_body := b\<rparr>) cli_san = Ok False" for b
    using cli_check by (simp add: check_request_def)
  have tb: "to_bytes px_net b 8 = Some b" if "length b \<le> 8" for b using that by (simp add: px_net_def)
  have "\<exists>o1. cli_sent b = Some o1 \<and> ou_body o1 = ''3''"
    if "length b \<le> 8" "\<exists>obs. sanitize_body cli_codec Prov_Anthropic BS_Request ''v1/messages'' (Some ''application/json'') b cli_san = Ok (''3'', obs)" for b
    using that(2) tb[OF that(1)]
    by (elim exE) (simp add: cli_sent_def forward_inner_def st ct ck px_values Let_def outbound_request_def)
  from this[of "''1''"] this[of "''2''"] cli_body
  show "\<exists>o1. cli_sent ''1'' = Some o1 \<and> ou_body o1 = ''3''" "\<exists>o2. cli_sent ''2'' = Some o2 \<and> ou_body o2 = ''3''" by simp_all
qed

theorem proxy_noninterference_witness:
  "cli_sent ''2'' = cli_sent ''1'' \<and> map_option ou_body (cli_sent ''1'') = Some ''3''"
proof -
  obtain a b where sent: "cli_sent ''1'' = Some a" "cli_sent ''2'' = Some b" "ou_body a = ''3''" using cli_sent by blast
  have st: "st_upstreams cli_state ''anthropic'' = Some px_upstream"
    "st_sanitizer cli_state = DetectorSanitizer cli_detectors \<or> st_sanitizer cli_state = BoundarySanitizer cli_detectors"
    "to_bytes px_net (rq_body ((px_request [])\<lparr>rq_body := ''1''\<rparr>)) (st_max_request_body cli_state) = Some ''1''"
    "from_slice cli_codec ''1'' = Some (JStr ''=x'')"
    "to_bytes px_net ''2'' (st_max_request_body cli_state) = Some ''2''"
    "from_slice cli_codec ''2'' = Some (jmap (\<lambda>_. ''=yz'') (JStr ''=x''))"
    by (simp_all add: cli_state_def px_state_def px_net_def px_request_def cli_codec_def)
  have out: "same_outside cli_detectors t ''=yz''" if "t \<in> set (jstrings (JStr ''=x''))" for t
    using that cli_same_outside by simp
  have again: "(px_request [])\<lparr>rq_body := ''2''\<rparr> = (px_request [])\<lparr>rq_body := ''1'', rq_body := ''2''\<rparr>" by simp
  show ?thesis
    using proxy_noninterference[OF st out sent(1)[unfolded cli_sent_def] sent(2)[unfolded cli_sent_def again]] sent by simp
qed

end
