(* ===== verification/Cli_Egress.thy ===== *)
theory Cli_Egress
  imports Cli_Sanitize Exec
begin

text \<open>
  The egress guard and the project's network policy (\<open>crates/blindfold-cli/src/commands.rs\<close>): the commands
  that allow and deny a domain, the file they keep, and the CONNECT proxy that decides every tunnel of a
  managed agent.  The reader and printer of the policy file, the sockets and the clock are parameters.
\<close>

section \<open>The project policy\<close>

record ProjectNetworkPolicy =
  np_allow :: "string set"
  np_deny :: "string set"

definition ProjectNetworkPolicy_default :: ProjectNetworkPolicy where
  "ProjectNetworkPolicy_default = \<lparr>np_allow = {}, np_deny = {}\<rparr>"

definition DEFAULT_ALLOWED_DOMAINS :: "string list" where
  "DEFAULT_ALLOWED_DOMAINS =
     [''github.com'', ''api.github.com'', ''registry.npmjs.org'', ''pypi.org'', ''files.pythonhosted.org'', ''crates.io'',
      ''static.crates.io'', ''index.crates.io'', ''proxy.golang.org'', ''sum.golang.org'']"

definition domain_message :: string where
  "domain_message = ''domain must be a hostname using letters, digits, dots, or hyphens''"

definition normalize_policy_domain :: "string \<Rightarrow> string + string" where
  "normalize_policy_domain input =
     (let domain = to_ascii_lowercase (trim_end_matches (\<lambda>c. c = CHR ''.'') (str_trim input)) in
      if domain = [] \<or> length domain > 253 \<or> starts_with ''-'' domain \<or> ends_with ''-'' domain \<or> str_contains ''..'' domain \<or>
         \<not> list_all (\<lambda>b. is_ascii_alphanumeric b \<or> b = CHR ''.'' \<or> b = CHR ''-'') domain
      then Err domain_message else Ok domain)"

definition project_network_policy_path :: "path \<Rightarrow> path" where
  "project_network_policy_path dir = dir @ [''.blindfold'', ''network-policy.json'']"

record PolicyCodec =
  pc_from_str :: "string \<Rightarrow> ProjectNetworkPolicy option"
  pc_to_string_pretty :: "ProjectNetworkPolicy \<Rightarrow> string option"

text \<open>
  What the code relies on: the printed policy, with a line break after it, is UTF-8 and reads back.
\<close>

definition policy_codec_ok :: "PolicyCodec \<Rightarrow> bool" where
  "policy_codec_ok c \<longleftrightarrow> (\<forall>p t. pc_to_string_pretty c p = Some t \<longrightarrow> utf8_valid (t @ nl) \<and> pc_from_str c (t @ nl) = Some p)"

datatype ReadText = RT_NotFound | RT_Error | RT_Text string

text \<open>\<open>fs::read_to_string\<close>; \<open>follow\<close> is what reading through a symbolic link answers.\<close>

definition read_to_string :: "(path \<Rightarrow> ReadText) \<Rightarrow> Fs \<Rightarrow> path \<Rightarrow> ReadText" where
  "read_to_string follow s p =
     (if \<not> fs_allows s Op_Read p then RT_Error
      else case fs_nodes s p of
        None \<Rightarrow> RT_NotFound
      | Some NSymlink \<Rightarrow> follow p
      | Some (NDir _) \<Rightarrow> RT_Error
      | Some (NFile b _) \<Rightarrow> if utf8_valid b then RT_Text b else RT_Error)"

definition load_project_network_policy ::
  "PolicyCodec \<Rightarrow> (path \<Rightarrow> ReadText) \<Rightarrow> path \<Rightarrow> (string, ProjectNetworkPolicy) fsm"
where
  "load_project_network_policy c follow dir s =
     (case read_to_string follow s (project_network_policy_path dir) of
        RT_NotFound \<Rightarrow> Ok ProjectNetworkPolicy_default
      | RT_Error \<Rightarrow> Err ''could not read project network policy''
      | RT_Text contents \<Rightarrow>
          if length contents > 1024 * 1024 then Err ''project network policy is too large''
          else ok_or (pc_from_str c contents) ''project network policy is invalid'', s)"

definition is_link :: "Fs \<Rightarrow> path \<Rightarrow> bool" where
  "is_link s p \<longleftrightarrow> fs_allows s Op_Stat p \<and> fs_nodes s p = Some NSymlink"

text \<open>\<open>kind\<close> is the printed kind of an I/O error, \<open>mode\<close> the mode a new file gets.\<close>

definition prepare_project_storage_dir :: "string \<Rightarrow> path \<Rightarrow> (string, unit) fsm" where
  "prepare_project_storage_dir kind p =
     fs_bind (fs_get (\<lambda>s. is_link s p)) (\<lambda>link.
     if link then fs_err ''project policy directory is unavailable''
     else
       fs_bind (create_dir_all (''could not create policy directory: '' @ kind) p) (\<lambda>_.
       fs_bind (fs_get (\<lambda>s. is_link s p)) (\<lambda>link.
       if link then fs_err ''project policy directory is unavailable''
       else os_chmod (''could not secure policy directory: '' @ kind) p 0x1C0)))"

definition save_project_network_policy ::
  "PolicyCodec \<Rightarrow> string \<Rightarrow> nat \<Rightarrow> path \<Rightarrow> ProjectNetworkPolicy \<Rightarrow> (string, unit) fsm"
where
  "save_project_network_policy c kind mode dir policy =
     (let p = project_network_policy_path dir in
      fs_bind (prepare_project_storage_dir kind (butlast p)) (\<lambda>_.
      fs_bind (fs_lift (ok_or (pc_to_string_pretty c policy) ''could not serialize project network policy'')) (\<lambda>contents.
      os_write_atomic (''could not write project network policy: '' @ kind) p (contents @ nl) mode)))"

definition allow_command ::
  "PolicyCodec \<Rightarrow> (path \<Rightarrow> ReadText) \<Rightarrow> string \<Rightarrow> nat \<Rightarrow> path \<Rightarrow> string \<Rightarrow> (string, string) fsm"
where
  "allow_command c follow kind mode dir domain =
     fs_bind (fs_lift (normalize_policy_domain domain)) (\<lambda>domain.
     fs_bind (load_project_network_policy c follow dir) (\<lambda>policy.
     fs_bind (save_project_network_policy c kind mode dir
       (policy\<lparr>np_deny := np_deny policy - {domain}, np_allow := insert domain (np_allow policy)\<rparr>)) (\<lambda>_.
     fs_ret domain)))"

definition deny_command ::
  "PolicyCodec \<Rightarrow> (path \<Rightarrow> ReadText) \<Rightarrow> string \<Rightarrow> nat \<Rightarrow> path \<Rightarrow> string \<Rightarrow> (string, string) fsm"
where
  "deny_command c follow kind mode dir domain =
     fs_bind (fs_lift (normalize_policy_domain domain)) (\<lambda>domain.
     fs_bind (load_project_network_policy c follow dir) (\<lambda>policy.
     fs_bind (save_project_network_policy c kind mode dir
       (policy\<lparr>np_allow := np_allow policy - {domain}, np_deny := insert domain (np_deny policy)\<rparr>)) (\<lambda>_.
     fs_ret domain)))"

section \<open>The decision\<close>

record EgressNetworkPolicy =
  eg_allow :: "string set"
  eg_deny :: "string set"

datatype EgressDecision = ED_Allow | ED_BlockKnownProvider | ED_BlockDenied | ED_BlockUnknown

definition EgressNetworkPolicy_from_project :: "ProjectNetworkPolicy \<Rightarrow> EgressNetworkPolicy" where
  "EgressNetworkPolicy_from_project project =
     \<lparr>eg_allow = set DEFAULT_ALLOWED_DOMAINS \<union> np_allow project, eg_deny = np_deny project\<rparr>"

definition EgressNetworkPolicy_load ::
  "PolicyCodec \<Rightarrow> (path \<Rightarrow> ReadText) \<Rightarrow> path \<Rightarrow> (string, EgressNetworkPolicy) fsm"
where
  "EgressNetworkPolicy_load c follow dir =
     fs_bind (load_project_network_policy c follow dir) (\<lambda>project. fs_ret (EgressNetworkPolicy_from_project project))"

definition normalize_connect_host :: "string \<Rightarrow> string" where
  "normalize_connect_host host = to_ascii_lowercase (trim_end_matches (\<lambda>c. c = CHR ''.'') host)"

definition domain_matches :: "string \<Rightarrow> string \<Rightarrow> bool" where
  "domain_matches host domain \<longleftrightarrow>
     host = domain \<or> (case strip_suffix domain host of Some p \<Rightarrow> ends_with ''.'' p | None \<Rightarrow> False)"

definition blocked_providers :: "string list" where
  "blocked_providers = [''api.openai.com'', ''api.anthropic.com'', ''openrouter.ai'', ''generativelanguage.googleapis.com'',
     ''api.mistral.ai'', ''api.groq.com'']"

definition is_blocked_llm_provider :: "string \<Rightarrow> bool" where
  "is_blocked_llm_provider host \<longleftrightarrow> list_ex (domain_matches (normalize_connect_host host)) blocked_providers"

definition egress_decision :: "EgressNetworkPolicy \<Rightarrow> string \<Rightarrow> EgressDecision" where
  "egress_decision policy host =
     (let host = normalize_connect_host host in
      if is_blocked_llm_provider host then ED_BlockKnownProvider
      else if \<exists>domain\<in>eg_deny policy. domain_matches host domain then ED_BlockDenied
      else if \<exists>domain\<in>eg_allow policy. domain_matches host domain then ED_Allow
      else ED_BlockUnknown)"

definition rsplit_once :: "'a \<Rightarrow> 'a list \<Rightarrow> ('a list \<times> 'a list) option" where
  "rsplit_once d s = map_option (\<lambda>(a, b). (rev b, rev a)) (split_once d (rev s))"

definition authority_host :: "string \<Rightarrow> string" where
  "authority_host authority =
     (let host = (case rsplit_once (CHR ''@'') authority of None \<Rightarrow> authority | Some (_, host) \<Rightarrow> host) in
      case split_once (CHR '']'') (dropWhile (\<lambda>c. c = CHR ''['') host) of
        Some (host, _) \<Rightarrow> host
      | None \<Rightarrow> (case rsplit_once (CHR '':'') host of Some (host, _) \<Rightarrow> host | None \<Rightarrow> host))"

section \<open>One connection\<close>

text \<open>What a connection does, in order: a record given to the sink, a connection attempt, bytes written to the client, the tunnel.\<close>

datatype EgressEffect = EE_Record Record | EE_Connect string | EE_Write string | EE_Tunnel

definition crlf :: string where
  "crlf = [CHR 0x0D, CHR 0x0A]"

definition http_response :: "string \<Rightarrow> string \<Rightarrow> string" where
  "http_response status body =
     ''HTTP/1.1 '' @ status @ crlf @ ''Connection: close'' @ crlf @ ''Content-Length: '' @ nat_str (length body) @ crlf @ crlf @ body"

definition MAX_HEADER_BYTES :: nat where
  "MAX_HEADER_BYTES = 8192"

text \<open>The end of the list is the end of the stream; \<open>None\<close> is the failure of the read or a header too large.\<close>

fun read_http_header :: "string \<Rightarrow> ReadResult list \<Rightarrow> string option" where
  "read_http_header header [] = Some header"
| "read_http_header header (Read_Error # reads) = None"
| "read_http_header header (Read_Bytes buffer # reads) =
     (if buffer = [] then Some header
      else
        let header = header @ buffer in
        if str_contains (crlf @ crlf) header then Some header
        else if length header > MAX_HEADER_BYTES then None
        else read_http_header header reads)"

text \<open>\<open>sink\<close> holds the clock and the counter of trace records when there is a trace sink.\<close>

definition emit_egress_trace ::
  "(int \<times> 64 word) option \<Rightarrow> EgressDecision \<Rightarrow> 64 word \<Rightarrow> Outcome \<Rightarrow> Issue option \<Rightarrow> EgressEffect list"
where
  "emit_egress_trace sink decision request_bytes outcome issue =
     (case sink of
        None \<Rightarrow> []
      | Some (clock, counter) \<Rightarrow>
          (let issue = (case issue of Some i \<Rightarrow> Some i | None \<Rightarrow> if decision = ED_Allow then None else Some Issue_RouteNotAllowed);
               coverage = (if issue = None then Cov_Protected else Cov_Unprotected)
           in case Record_now clock (next_trace_request_id clock counter) Route_Egress coverage outcome
                  (request_bytes, request_bytes) (0, 0) [] issue of
                Inl _ \<Rightarrow> [] | Inr r \<Rightarrow> [EE_Record r]))"

fun block_body :: "EgressDecision \<Rightarrow> string" where
  "block_body ED_BlockKnownProvider =
     ''Blocked direct LLM provider access; route provider traffic through Blindfold'' @ [CHR 0x27] @ ''s LLM proxy.'' @ nl"
| "block_body ED_BlockDenied = ''Blocked by Blindfold egress policy: domain is denied for this project.'' @ nl"
| "block_body ED_BlockUnknown =
     ''Blocked by Blindfold egress policy: unknown domains are blocked by default. Use `blindfold allow domain <host>` to allow this destination.'' @ nl"
| "block_body ED_Allow = []"

text \<open>\<open>connects\<close> and \<open>writes\<close> tell whether connecting to an authority and writing to the client succeed.\<close>

definition handle_connect ::
  "(string \<Rightarrow> bool) \<Rightarrow> (string \<Rightarrow> bool) \<Rightarrow> (int \<times> 64 word) option \<Rightarrow> EgressNetworkPolicy \<Rightarrow> string \<Rightarrow> 64 word \<Rightarrow> EgressEffect list"
where
  "handle_connect connects writes sink policy authority header_len =
     (let decision = egress_decision policy (authority_host authority) in
      if decision \<noteq> ED_Allow
      then emit_egress_trace sink decision header_len Out_Rejected None @ [EE_Write (http_response ''403 Forbidden'' (block_body decision))]
      else if \<not> connects authority
      then [EE_Connect authority] @ emit_egress_trace sink ED_Allow header_len Out_Failed (Some Issue_UpstreamFailure) @
        [EE_Write (http_response ''502 Bad Gateway'' [])]
      else [EE_Connect authority] @ emit_egress_trace sink ED_Allow header_len Out_Succeeded None @
        [EE_Write (''HTTP/1.1 200 Connection Established'' @ crlf @ crlf)] @
        (if writes (''HTTP/1.1 200 Connection Established'' @ crlf @ crlf) then [EE_Tunnel] else []))"

definition handle_egress_connection ::
  "(string \<Rightarrow> bool) \<Rightarrow> (string \<Rightarrow> bool) \<Rightarrow> (int \<times> 64 word) option \<Rightarrow> EgressNetworkPolicy \<Rightarrow> ReadResult list \<Rightarrow> EgressEffect list"
where
  "handle_egress_connection connects writes sink policy reads =
     (case read_http_header [] reads of
        None \<Rightarrow> []
      | Some header \<Rightarrow>
          if \<not> utf8_valid header then [EE_Write (http_response ''400 Bad Request'' [])]
          else case str_lines header of
            [] \<Rightarrow> [EE_Write (http_response ''400 Bad Request'' [])]
          | first_line # _ \<Rightarrow>
              (let parts = split_whitespace first_line in
               if length parts < 3 then [EE_Write (http_response ''400 Bad Request'' [])]
               else if eq_ignore_ascii_case (parts ! 0) ''CONNECT''
               then handle_connect connects writes sink policy (parts ! 1) (of_nat (length header))
               else [EE_Write (http_response ''501 Not Implemented'' (''Blindfold egress guard currently supports CONNECT only.'' @ nl))]))"

section \<open>Zones\<close>

text \<open>A host is in the zone of a domain when it is the domain or a name below it.\<close>

definition in_zone :: "string \<Rightarrow> string \<Rightarrow> bool" where
  "in_zone host domain \<longleftrightarrow> host = domain \<or> (\<exists>x. host = x @ CHR ''.'' # domain)"

lemma domain_matches_iff: "domain_matches host domain \<longleftrightarrow> in_zone host domain"
proof (cases "strip_suffix domain host")
  case None
  have "host \<noteq> x @ CHR ''.'' # domain" for x
    using None strip_suffix_append[of domain "x @ ''.''"] by auto
  then show ?thesis using None by (auto simp: domain_matches_def in_zone_def)
next
  case (Some r)
  then have "host = r @ domain" by (simp add: strip_suffix_some_iff)
  moreover have "ends_with ''.'' r \<longleftrightarrow> (\<exists>x. r @ domain = x @ CHR ''.'' # domain)"
    by (auto simp: ends_with_iff)
  ultimately show ?thesis using Some by (auto simp: domain_matches_def in_zone_def)
qed

lemma trim_end_idem [simp]: "trim_end_matches P (trim_end_matches P s) = trim_end_matches P s"
  by (simp add: trim_end_matches_def dropWhile_idem)

lemma lower_idem_char: "to_ascii_lowercase_char (to_ascii_lowercase_char c) = to_ascii_lowercase_char c"
  by (auto simp: to_ascii_lowercase_char_def is_ascii_uppercase_def byte_char_of)

lemma lower_idem [simp]: "to_ascii_lowercase (to_ascii_lowercase s) = to_ascii_lowercase s"
  by (simp add: to_ascii_lowercase_def lower_idem_char)

lemma lower_dot: "to_ascii_lowercase_char c = CHR ''.'' \<longleftrightarrow> c = CHR ''.''"
proof (cases "is_ascii_uppercase c")
  case True
  then have "byte c + 32 < 256" "65 \<le> byte c" by (auto simp: is_ascii_uppercase_def)
  then have "byte (to_ascii_lowercase_char c) = byte c + 32"
    using True by (simp add: to_ascii_lowercase_char_def byte_char_of)
  moreover have "byte (CHR ''.'') = 46" by (simp add: byte_def)
  ultimately have "to_ascii_lowercase_char c \<noteq> CHR ''.''" "c \<noteq> CHR ''.''" using \<open>65 \<le> byte c\<close> by auto
  then show ?thesis by simp
qed (simp add: to_ascii_lowercase_char_def)

lemma trim_dots_lower:
  "trim_end_matches (\<lambda>c. c = CHR ''.'') (to_ascii_lowercase s) = to_ascii_lowercase (trim_end_matches (\<lambda>c. c = CHR ''.'') s)"
  by (simp add: trim_end_matches_def to_ascii_lowercase_def rev_map dropWhile_map comp_def lower_dot)

lemma normalize_connect_host_idem [simp]: "normalize_connect_host (normalize_connect_host h) = normalize_connect_host h"
  by (simp add: normalize_connect_host_def trim_dots_lower)

lemma normalize_policy_domain_ok:
  assumes "normalize_policy_domain x = Ok d"
  shows "normalize_connect_host d = d \<and> d \<noteq> [] \<and> length d \<le> 253 \<and>
    list_all (\<lambda>b. is_ascii_alphanumeric b \<or> b = CHR ''.'' \<or> b = CHR ''-'') d"
  using assms by (auto simp: normalize_policy_domain_def normalize_connect_host_def Let_def trim_dots_lower split: if_splits)

text \<open>When the policy opens a host.\<close>

definition opens :: "EgressNetworkPolicy \<Rightarrow> string \<Rightarrow> bool" where
  "opens policy host \<longleftrightarrow>
     list_all (\<lambda>p. \<not> in_zone host p) blocked_providers \<and> (\<forall>d\<in>eg_deny policy. \<not> in_zone host d) \<and>
     (\<exists>d\<in>eg_allow policy. in_zone host d)"

lemma egress_decision_iff:
  "egress_decision policy host =
     (let h = normalize_connect_host host in
      if list_ex (in_zone h) blocked_providers then ED_BlockKnownProvider
      else if \<exists>d\<in>eg_deny policy. in_zone h d then ED_BlockDenied
      else if \<exists>d\<in>eg_allow policy. in_zone h d then ED_Allow else ED_BlockUnknown)"
  by (simp add: egress_decision_def is_blocked_llm_provider_def domain_matches_iff[abs_def] Let_def)

lemma egress_allow_iff: "egress_decision policy host = ED_Allow \<longleftrightarrow> opens policy (normalize_connect_host host)"
  by (auto simp: egress_decision_iff opens_def Let_def list_ex_iff list_all_iff)

section \<open>Lemmas: the policy file\<close>

lemma mkdir_steps_allows: "mkdir_steps e ps s = (r, s') \<Longrightarrow> fs_allows s' = fs_allows s"
  by (induction ps arbitrary: s) (auto split: option.splits node.splits if_splits dest: sym)

lemma prepare_dir_allows: "prepare_project_storage_dir kind p s = (r, s') \<Longrightarrow> fs_allows s' = fs_allows s"
  by (auto simp: prepare_project_storage_dir_def create_dir_all_def os_chmod_def
      split: if_splits prod.splits sum.splits option.splits node.splits dest!: mkdir_steps_allows)

lemma save_ok:
  assumes "save_project_network_policy c kind mode dir policy s = (Ok u, s')"
  obtains t where "pc_to_string_pretty c policy = Some t" "fs_allows s' = fs_allows s"
    "fs_nodes s' (project_network_policy_path dir) = Some (NFile (t @ nl) mode)"
  using assms
  by (auto simp: save_project_network_policy_def Let_def os_write_atomic_def
      split: if_splits prod.splits sum.splits option.splits node.splits elim!: ok_or.elims dest!: prepare_dir_allows)

lemma load_state: "load_project_network_policy c follow dir s = (r, s') \<Longrightarrow> s' = s"
  by (simp add: load_project_network_policy_def)

lemma load_readable: "load_project_network_policy c follow dir s = (Ok p, s') \<Longrightarrow> fs_allows s Op_Read (project_network_policy_path dir)"
  by (auto simp: load_project_network_policy_def read_to_string_def split: if_splits)

lemma load_saved:
  assumes "policy_codec_ok c" and "save_project_network_policy c kind mode dir policy s = (Ok u, s')"
    and "fs_allows s Op_Read (project_network_policy_path dir)"
  shows "load_project_network_policy c follow dir s' = (Ok policy, s') \<or>
    load_project_network_policy c follow dir s' = (Err ''project network policy is too large'', s')"
proof -
  obtain t where t: "pc_to_string_pretty c policy = Some t" "fs_allows s' = fs_allows s"
    "fs_nodes s' (project_network_policy_path dir) = Some (NFile (t @ nl) mode)"
    by (rule save_ok[OF assms(2)])
  then show ?thesis
    using assms(1,3) by (simp add: policy_codec_ok_def load_project_network_policy_def read_to_string_def)
qed

lemma allow_command_ok:
  assumes "allow_command c follow kind mode dir domain s = (Ok d, s')"
  obtains old where "normalize_policy_domain domain = Ok d" "load_project_network_policy c follow dir s = (Ok old, s)"
    "save_project_network_policy c kind mode dir (old\<lparr>np_deny := np_deny old - {d}, np_allow := insert d (np_allow old)\<rparr>) s = (Ok (), s')"
  using assms by (auto simp: allow_command_def split: prod.splits sum.splits dest: load_state)

lemma deny_command_ok:
  assumes "deny_command c follow kind mode dir domain s = (Ok d, s')"
  obtains old where "normalize_policy_domain domain = Ok d" "load_project_network_policy c follow dir s = (Ok old, s)"
    "save_project_network_policy c kind mode dir (old\<lparr>np_allow := np_allow old - {d}, np_deny := insert d (np_deny old)\<rparr>) s = (Ok (), s')"
  using assms by (auto simp: deny_command_def split: prod.splits sum.splits dest: load_state)

section \<open>Properties\<close>

text \<open>
  C33. The commands that allow and deny a domain decide what the guard does from then on, and only for that
  domain.  When one succeeds, the policy that is loaded afterwards - from the file it wrote, unless that
  has grown too large to be read - refuses every host in the zone of a denied domain, opens every host in
  the zone of an allowed domain that is no model provider and in no other denied zone, and decides every
  host outside the zone as before.
\<close>

theorem policy_commands_exact:
  assumes "policy_codec_ok c" and "EgressNetworkPolicy_load c follow dir s = (Ok old, s)"
    and "cmd = deny_command \<or> cmd = allow_command" and "cmd c follow kind mode dir domain s = (Ok d, s')"
  shows "EgressNetworkPolicy_load c follow dir s' = (Err ''project network policy is too large'', s') \<or>
    (\<exists>new. EgressNetworkPolicy_load c follow dir s' = (Ok new, s') \<and>
      (\<forall>host. if in_zone (normalize_connect_host host) d
        then egress_decision new host =
          (if list_ex (in_zone (normalize_connect_host host)) blocked_providers then ED_BlockKnownProvider
           else if cmd = deny_command \<or> (\<exists>other\<in>eg_deny old - {d}. in_zone (normalize_connect_host host) other) then ED_BlockDenied
           else ED_Allow)
        else egress_decision new host = egress_decision old host))"
proof -
  obtain p where p: "load_project_network_policy c follow dir s = (Ok p, s)" "old = EgressNetworkPolicy_from_project p"
    using assms(2) by (auto simp: EgressNetworkPolicy_load_def split: prod.splits sum.splits dest: load_state)
  have load: "EgressNetworkPolicy_load c follow dir s' = (Ok (EgressNetworkPolicy_from_project q), s') \<or>
      EgressNetworkPolicy_load c follow dir s' = (Err ''project network policy is too large'', s')"
    if "save_project_network_policy c kind mode dir q s = (Ok (), s')" for q
    using load_saved[OF assms(1) that load_readable[OF p(1)], of follow] by (auto simp: EgressNetworkPolicy_load_def)
  show ?thesis
  proof (cases "cmd = deny_command")
    case True
    with assms(4) have "deny_command c follow kind mode dir domain s = (Ok d, s')" by simp
    then obtain q where q: "load_project_network_policy c follow dir s = (Ok q, s)"
      "save_project_network_policy c kind mode dir (q\<lparr>np_allow := np_allow q - {d}, np_deny := insert d (np_deny q)\<rparr>) s = (Ok (), s')"
      by (rule deny_command_ok)
    let ?new = "EgressNetworkPolicy_from_project (q\<lparr>np_allow := np_allow q - {d}, np_deny := insert d (np_deny q)\<rparr>)"
    have "q = p" using q(1) p(1) by simp
    have "if in_zone (normalize_connect_host host) d
        then egress_decision ?new host =
          (if list_ex (in_zone (normalize_connect_host host)) blocked_providers then ED_BlockKnownProvider else ED_BlockDenied)
        else egress_decision ?new host = egress_decision old host" for host
      unfolding p(2) \<open>q = p\<close> by (auto simp: egress_decision_iff EgressNetworkPolicy_from_project_def Let_def)
    then show ?thesis using load[OF q(2)] True by (auto simp del: if_split)
  next
    case False
    with assms(3,4) have "allow_command c follow kind mode dir domain s = (Ok d, s')" by simp
    then obtain q where q: "load_project_network_policy c follow dir s = (Ok q, s)"
      "save_project_network_policy c kind mode dir (q\<lparr>np_deny := np_deny q - {d}, np_allow := insert d (np_allow q)\<rparr>) s = (Ok (), s')"
      by (rule allow_command_ok)
    let ?new = "EgressNetworkPolicy_from_project (q\<lparr>np_deny := np_deny q - {d}, np_allow := insert d (np_allow q)\<rparr>)"
    have "q = p" using q(1) p(1) by simp
    have "if in_zone (normalize_connect_host host) d
        then egress_decision ?new host =
          (if list_ex (in_zone (normalize_connect_host host)) blocked_providers then ED_BlockKnownProvider
           else if \<exists>other\<in>eg_deny old - {d}. in_zone (normalize_connect_host host) other then ED_BlockDenied else ED_Allow)
        else egress_decision ?new host = egress_decision old host" for host
      unfolding p(2) \<open>q = p\<close> by (auto simp: egress_decision_iff EgressNetworkPolicy_from_project_def Let_def)
    then show ?thesis using load[OF q(2)] False by (auto simp del: if_split)
  qed
qed

text \<open>The authority a client asks a tunnel to, if the request is well formed.\<close>

definition connect_request :: "ReadResult list \<Rightarrow> string option" where
  "connect_request reads =
     Option.bind (read_http_header [] reads) (\<lambda>header.
       if \<not> utf8_valid header \<or> str_lines header = [] then None
       else
         let parts = split_whitespace (hd (str_lines header)) in
         if length parts \<ge> 3 \<and> eq_ignore_ascii_case (parts ! 0) ''CONNECT'' then Some (parts ! 1) else None)"

lemma handle_egress_cases:
  obtains a n where "connect_request reads = Some a"
      "handle_egress_connection connects writes sink policy reads = handle_connect connects writes sink policy a n"
  | "connect_request reads = None" "handle_egress_connection connects writes sink policy reads = []"
  | response where "connect_request reads = None" "handle_egress_connection connects writes sink policy reads = [EE_Write response]"
proof (cases "read_http_header [] reads")
  case None
  then show ?thesis using that(2) by (simp add: connect_request_def handle_egress_connection_def)
next
  case (Some header)
  show ?thesis
  proof (cases "str_lines header")
    case Nil
    then show ?thesis using Some that(3) by (cases "utf8_valid header") (simp_all add: connect_request_def handle_egress_connection_def)
  next
    case (Cons l ls)
    then show ?thesis
      using Some that(1,3)
      by (cases "utf8_valid header"; cases "length (split_whitespace l) < 3"; cases "eq_ignore_ascii_case (split_whitespace l ! 0) ''CONNECT''")
        (simp_all add: connect_request_def handle_egress_connection_def Let_def)
  qed
qed

lemma emit_egress_trace_cases:
  "emit_egress_trace sink decision n outcome issue = [] \<or>
   (\<exists>r. emit_egress_trace sink decision n outcome issue = [EE_Record r] \<and> closed_record r \<and> rec_route r = Route_Egress \<and>
      rec_outcome r = outcome \<and>
      rec_issue r = (case issue of Some i \<Rightarrow> Some i | None \<Rightarrow> if decision = ED_Allow then None else Some Issue_RouteNotAllowed) \<and>
      (rec_coverage r = Cov_Protected \<longleftrightarrow> rec_issue r = None))"
  by (auto simp: emit_egress_trace_def Let_def Record_now_def res_bind_ok_iff Record_validate_iff split: option.splits sum.splits)

text \<open>
  C32. The guard opens a tunnel exactly where the policy lets it.  It connects to an authority only on a
  well-formed CONNECT for it whose host is in no zone of a model provider, in no denied zone and in some
  allowed zone, and bytes flow only over a connection that was made.  For an authority of the plain form
  \<open>host:port\<close> the host that was decided is the host that is connected to.  Every record of the guard is
  closed, is marked as protected only for a tunnel that was opened, and a refusal is recorded as
  route not allowed.
\<close>

theorem egress_guard_exact:
  assumes "effects = handle_egress_connection connects writes sink policy reads"
  shows "(EE_Connect a \<in> set effects \<longleftrightarrow> connect_request reads = Some a \<and> opens policy (normalize_connect_host (authority_host a))) \<and>
    (EE_Tunnel \<in> set effects \<longrightarrow> (\<exists>b. EE_Connect b \<in> set effects \<and> connects b)) \<and>
    (rsplit_once (CHR '':'') a = Some (target, port) \<and> set a \<inter> set ''@[]'' = {} \<longrightarrow> authority_host a = target) \<and>
    (EE_Record r \<in> set effects \<longrightarrow> closed_record r \<and> rec_route r = Route_Egress \<and>
       (rec_coverage r = Cov_Protected \<longrightarrow> (\<exists>b. EE_Connect b \<in> set effects \<and> connects b)) \<and>
       ((\<forall>b. EE_Connect b \<notin> set effects) \<longrightarrow> rec_issue r = Some Issue_RouteNotAllowed \<and> rec_outcome r = Out_Rejected))"
proof -
  have host: "authority_host a = target" if "rsplit_once (CHR '':'') a = Some (target, port)" "set a \<inter> set ''@[]'' = {}"
  proof -
    have free: "CHR ''@'' \<notin> set a" "CHR '']'' \<notin> set a" "CHR ''['' \<notin> set a" using that(2) by auto
    then have "rsplit_once (CHR ''@'') a = None" by (simp add: rsplit_once_def split_once_none_iff)
    moreover have d: "dropWhile (\<lambda>c. c = CHR ''['') a = a" using free(3) by (cases a) auto
    moreover have "split_once (CHR '']'') a = None" using free(2) by (simp add: split_once_none_iff)
    ultimately show ?thesis using that(1) by (simp add: authority_host_def Let_def)
  qed
  have "(EE_Connect a \<in> set effects \<longleftrightarrow> connect_request reads = Some a \<and> opens policy (normalize_connect_host (authority_host a))) \<and>
    (EE_Tunnel \<in> set effects \<longrightarrow> (\<exists>b. EE_Connect b \<in> set effects \<and> connects b)) \<and>
    (EE_Record r \<in> set effects \<longrightarrow> closed_record r \<and> rec_route r = Route_Egress \<and>
       (rec_coverage r = Cov_Protected \<longrightarrow> (\<exists>b. EE_Connect b \<in> set effects \<and> connects b)) \<and>
       ((\<forall>b. EE_Connect b \<notin> set effects) \<longrightarrow> rec_issue r = Some Issue_RouteNotAllowed \<and> rec_outcome r = Out_Rejected))"
  proof (cases rule: handle_egress_cases[of reads connects writes sink policy])
    case (1 b n)
    show ?thesis
    proof (cases "egress_decision policy (authority_host b) = ED_Allow")
      case allow: True
      show ?thesis
        using emit_egress_trace_cases[of sink ED_Allow n Out_Failed "Some Issue_UpstreamFailure"]
          emit_egress_trace_cases[of sink ED_Allow n Out_Succeeded None] allow
        unfolding assms 1(2) handle_connect_def Let_def
        by (auto simp: 1(1) egress_allow_iff split: if_splits)
    next
      case False
      then show ?thesis
        using emit_egress_trace_cases[of sink "egress_decision policy (authority_host b)" n Out_Rejected None]
        unfolding assms 1(2) handle_connect_def Let_def
        by (auto simp: 1(1) egress_allow_iff split: if_splits)
    qed
  next
    case 2
    then show ?thesis by (simp add: assms)
  next
    case (3 response)
    then show ?thesis by (simp add: assms)
  qed
  then show ?thesis using host by blast
qed

section \<open>A concrete session\<close>

text \<open>A codec that knows one policy: a single denied domain.\<close>

definition eg_policy :: ProjectNetworkPolicy where
  "eg_policy = \<lparr>np_allow = {}, np_deny = {''evil.example''}\<rparr>"

definition eg_codec :: PolicyCodec where
  "eg_codec = \<lparr>pc_from_str = (\<lambda>t. if t = ''d'' @ nl then Some eg_policy else None),
     pc_to_string_pretty = (\<lambda>p. if p = eg_policy then Some ''d'' else None)\<rparr>"

lemma eg_codec_ok: "policy_codec_ok eg_codec"
proof -
  have "utf8_valid (''d'' @ nl)" by code_simp
  then show ?thesis by (auto simp: policy_codec_ok_def eg_codec_def split: if_splits)
qed

lemma eg_deny:
  "fst (deny_command eg_codec (\<lambda>_. RT_NotFound) [] 0x1A4 [''home''] ''Evil.example.'' wit_dir) = Ok ''evil.example''"
proof -
  have n: "normalize_policy_domain ''Evil.example.'' = Ok ''evil.example''" by code_simp
  show ?thesis
    by (simp add: deny_command_def n load_project_network_policy_def read_to_string_def save_project_network_policy_def
        project_network_policy_path_def prepare_project_storage_dir_def is_link_def create_dir_all_def wit_dir_def
        ProjectNetworkPolicy_default_def eg_codec_def eg_policy_def os_chmod_def os_write_atomic_def set_node_def upt_rec Let_def)
qed

theorem policy_commands_exact_witness:
  "case deny_command eg_codec (\<lambda>_. RT_NotFound) [] 0x1A4 [''home''] ''Evil.example.'' wit_dir of (_, s') \<Rightarrow>
     \<exists>new. egress_decision new ''www.evil.example'' = ED_BlockDenied \<and> egress_decision new ''github.com'' = ED_Allow \<and>
       fst (EgressNetworkPolicy_load eg_codec (\<lambda>_. RT_NotFound) [''home''] s') \<in> {Ok new, Err ''project network policy is too large''}"
proof -
  obtain s' where run: "deny_command eg_codec (\<lambda>_. RT_NotFound) [] 0x1A4 [''home''] ''Evil.example.'' wit_dir = (Ok ''evil.example'', s')"
    using eg_deny by (cases "deny_command eg_codec (\<lambda>_. RT_NotFound) [] 0x1A4 [''home''] ''Evil.example.'' wit_dir") simp
  let ?old = "EgressNetworkPolicy_from_project ProjectNetworkPolicy_default"
  have old: "EgressNetworkPolicy_load eg_codec (\<lambda>_. RT_NotFound) [''home''] wit_dir = (Ok ?old, wit_dir)"
    by (simp add: EgressNetworkPolicy_load_def load_project_network_policy_def read_to_string_def project_network_policy_path_def wit_dir_def)
  have hosts: "egress_decision ?old ''github.com'' = ED_Allow" by code_simp
  have "normalize_connect_host ''www.evil.example'' = ''www'' @ CHR ''.'' # ''evil.example''"
    "normalize_connect_host ''github.com'' = ''github.com''" by code_simp+
  then have zone: "in_zone (normalize_connect_host ''www.evil.example'') ''evil.example''"
    "\<not> in_zone (normalize_connect_host ''github.com'') ''evil.example''"
    using domain_matches_iff[of "''github.com''" "''evil.example''"] by (auto simp: in_zone_def domain_matches_def strip_suffix_def)
  have prov: "\<not> list_ex (in_zone (normalize_connect_host ''www.evil.example'')) blocked_providers"
    unfolding domain_matches_iff[abs_def, symmetric] by code_simp
  have "\<exists>new. egress_decision new ''www.evil.example'' = ED_BlockDenied \<and> egress_decision new ''github.com'' = ED_Allow \<and>
       fst (EgressNetworkPolicy_load eg_codec (\<lambda>_. RT_NotFound) [''home''] s') \<in> {Ok new, Err ''project network policy is too large''}"
  proof (rule disjE[OF policy_commands_exact[OF eg_codec_ok old disjI1[OF refl] run]], goal_cases)
    case 1
    have "egress_decision (EgressNetworkPolicy_from_project eg_policy) ''www.evil.example'' = ED_BlockDenied \<and>
      egress_decision (EgressNetworkPolicy_from_project eg_policy) ''github.com'' = ED_Allow" by code_simp
    then show ?case using 1 by auto
  next
    case 2
    then obtain new where new: "EgressNetworkPolicy_load eg_codec (\<lambda>_. RT_NotFound) [''home''] s' = (Ok new, s')"
      "egress_decision new ''www.evil.example'' = ED_BlockDenied"
      "egress_decision new ''github.com'' = egress_decision ?old ''github.com''"
      using zone prov by (metis (no_types, lifting))
    then show ?case using hosts by auto
  qed
  then show ?thesis unfolding run by simp
qed

definition eg_reads :: "ReadResult list" where
  "eg_reads = [Read_Bytes (''CONNECT api.github.com:443 HTTP/1.1'' @ crlf), Read_Bytes crlf]"

theorem egress_guard_exact_witness:
  "EE_Connect ''api.github.com:443'' \<in>
     set (handle_egress_connection (\<lambda>_. True) (\<lambda>_. True) (Some (0, 1)) (EgressNetworkPolicy_from_project eg_policy) eg_reads) \<and>
   authority_host ''api.github.com:443'' = ''api.github.com''"
proof -
  have "connect_request eg_reads = Some ''api.github.com:443''"
    "egress_decision (EgressNetworkPolicy_from_project eg_policy) (authority_host ''api.github.com:443'') = ED_Allow"
    "rsplit_once (CHR '':'') ''api.github.com:443'' = Some (''api.github.com'', ''443'')"
    by code_simp+
  moreover have "set ''api.github.com:443'' \<inter> set ''@[]'' = {}" by simp
  ultimately show ?thesis
    using egress_guard_exact[OF refl, of "''api.github.com:443''" "\<lambda>_. True" "\<lambda>_. True" "Some (0, 1)"
        "EgressNetworkPolicy_from_project eg_policy" eg_reads "''api.github.com''" "''443''"]
    by (simp only: egress_allow_iff[symmetric])
qed

text \<open>
  The host that is decided need not be the host that is connected to: with a closing bracket in the
  authority the decision is about the text before it, while the connection resolves all of it.
\<close>

lemma bracket_authority_confusion:
  "egress_decision (EgressNetworkPolicy_from_project ProjectNetworkPolicy_default) (authority_host ''github.com]evil.example:443'') = ED_Allow"
  "rsplit_once (CHR '':'') ''github.com]evil.example:443'' = Some (''github.com]evil.example'', ''443'')"
  "egress_decision (EgressNetworkPolicy_from_project ProjectNetworkPolicy_default) ''github.com]evil.example'' = ED_BlockUnknown"
  by code_simp+

end
