(* ===== verification/Cli_Boundary.thy ===== *)
theory Cli_Boundary
  imports Cli_Sanitize Container_Run
begin

text \<open>
  The trusted boundary of a locked run: the gateway and the agent relay (\<open>crates/blindfold-cli/src/boundary.rs\<close>),
  the materialization of the provider credential on the host (\<open>host_credential.rs\<close>) and the command that
  starts a run (\<open>container_command\<close> of \<open>commands.rs\<close>).  File contents, sockets, processes and the clock are
  parameters; the byte relays between sockets are I/O and not modelled.
\<close>

section \<open>The gateway provider\<close>

datatype GatewayProvider = GP_Anthropic | GP_OpenAi | GP_OpenRouter

definition GatewayProvider_parse :: "string \<Rightarrow> GatewayProvider option" where
  "GatewayProvider_parse v =
     (if v = ''anthropic'' then Some GP_Anthropic
      else if v = ''openai'' then Some GP_OpenAi
      else if v = ''openrouter'' then Some GP_OpenRouter else None)"

fun provider_route_name :: "GatewayProvider \<Rightarrow> string" where
  "provider_route_name GP_Anthropic = ''anthropic''"
| "provider_route_name GP_OpenAi = ''openai''"
| "provider_route_name GP_OpenRouter = ''openrouter''"

fun wire_provider :: "GatewayProvider \<Rightarrow> Provider" where
  "wire_provider GP_Anthropic = Prov_Anthropic"
| "wire_provider GP_OpenAi = Prov_OpenAi"
| "wire_provider GP_OpenRouter = Prov_OpenAi"

section \<open>Checks\<close>

definition MAX_CREDENTIAL_BYTES :: nat where
  "MAX_CREDENTIAL_BYTES = 16 * 1024"

definition GATEWAY_CONNECT_ATTEMPTS :: nat where
  "GATEWAY_CONNECT_ATTEMPTS = 50"

text \<open>A file as its metadata tells it: kind, length, device and inode.\<close>

record FileMeta =
  fm_kind :: NodeKind
  fm_len :: nat
  fm_identity :: "nat \<times> nat"

text \<open>\<open>cf_open\<close>: the metadata of the opened file and the bytes read from it, each of which can fail.\<close>

record CredentialFs =
  cf_symlink_metadata :: "string \<Rightarrow> FileMeta option"
  cf_open :: "string \<Rightarrow> (FileMeta option \<times> string option) option"

definition same_file :: "FileMeta \<Rightarrow> FileMeta \<Rightarrow> bool" where
  "same_file expected opened \<longleftrightarrow> fm_identity expected = fm_identity opened"

definition line_end :: "char \<Rightarrow> bool" where
  "line_end c \<longleftrightarrow> c = CHR 0x0D \<or> c = CHR 0x0A"

definition read_credential :: "CredentialFs \<Rightarrow> string \<Rightarrow> string + string" where
  "read_credential fs p =
     res_bind (ok_or (cf_symlink_metadata fs p) ''gateway credential file is unavailable'') (\<lambda>expected.
     if fm_kind expected \<noteq> Nk_File \<or> fm_len expected > MAX_CREDENTIAL_BYTES
     then Err ''gateway credential must be a small regular file, not a symlink''
     else
       res_bind (ok_or (cf_open fs p) ''gateway credential file is unavailable'') (\<lambda>(metadata, contents).
       res_bind (ok_or metadata ''gateway credential file is unavailable'') (\<lambda>opened.
       if \<not> same_file expected opened \<or> fm_kind opened \<noteq> Nk_File
       then Err ''gateway credential file changed while it was opened''
       else
         res_bind (ok_or contents ''gateway credential file could not be read'') (\<lambda>contents.
         let bytes = take (MAX_CREDENTIAL_BYTES + 1) contents in
         if length bytes > MAX_CREDENTIAL_BYTES then Err ''gateway credential must be a small regular file, not a symlink''
         else if \<not> utf8_valid bytes then Err ''gateway credential file is not valid UTF-8''
         else
           let v = trim_end_matches line_end bytes in
           if v = [] \<or> list_ex (\<lambda>c. line_end c \<or> c = CHR 0x00) v then Err ''gateway credential file contains an invalid value''
           else Ok v))))"

text \<open>The parent of a path with at least one component.\<close>

definition path_parent :: "string \<Rightarrow> string option" where
  "path_parent p =
     (if path_parts p = [] then None
      else Some ((if is_absolute p then ''/'' else []) @ join_with ''/'' (butlast (path_parts p))))"

definition validate_socket_path :: "HostFs \<Rightarrow> string \<Rightarrow> string + unit" where
  "validate_socket_path fs p =
     (if \<not> is_absolute p then Err ''gateway socket path must be absolute''
      else
        res_bind (ok_or (path_parent p) ''gateway socket path has no parent'') (\<lambda>parent.
        res_bind (ok_or (hf_symlink_metadata fs parent) ''gateway socket parent is unavailable'') (\<lambda>md.
        if nm_kind md \<noteq> Nk_Dir then Err ''gateway socket parent must be a real directory'' else Ok ())))"

definition routes_message :: string where
  "routes_message = ''locked agent requires a Linux network namespace with no non-loopback routes''"

text \<open>\<open>read\<close> is \<open>fs::read_to_string\<close>.\<close>

definition verify_network_none :: "(string \<Rightarrow> string option) \<Rightarrow> string + unit" where
  "verify_network_none read =
     res_bind (ok_or (read ''/proc/net/route'') ''could not verify the locked IPv4 route table'') (\<lambda>ipv4.
     if length ipv4 > 64 * 1024 \<or>
        list_ex (\<lambda>line. (case split_whitespace line of [] \<Rightarrow> True | w # _ \<Rightarrow> w \<noteq> ''lo''))
          (filter (\<lambda>line. str_trim line \<noteq> []) (drop 1 (str_lines ipv4)))
     then Err routes_message
     else
       res_bind (ok_or (read ''/proc/net/ipv6_route'') ''could not verify the locked IPv6 route table'') (\<lambda>ipv6.
       if length ipv6 > 64 * 1024 \<or>
          list_ex (\<lambda>line. (case rev (split_whitespace line) of [] \<Rightarrow> True | w # _ \<Rightarrow> w \<noteq> ''lo''))
            (filter (\<lambda>line. str_trim line \<noteq> []) (str_lines ipv6))
       then Err routes_message else Ok ()))"

text \<open>The answers of the successive connection attempts.\<close>

fun gateway_attempts :: "nat \<Rightarrow> (nat \<Rightarrow> bool) \<Rightarrow> nat \<Rightarrow> bool" where
  "gateway_attempts 0 connects i = False"
| "gateway_attempts (Suc n) connects i = (if connects i then True else gateway_attempts n connects (i + 1))"

definition wait_for_gateway :: "(nat \<Rightarrow> bool) \<Rightarrow> string + unit" where
  "wait_for_gateway connects =
     (if gateway_attempts GATEWAY_CONNECT_ATTEMPTS connects 0 then Ok () else Err ''locked gateway did not become ready'')"

text \<open>
  What the system answers about the socket: whether something is there and is a socket, and the errors of
  the calls (the printed kind).
\<close>

record SocketOs =
  so_existing :: "bool option"
  so_remove :: "string + unit"
  so_bind :: "string + unit"
  so_chmod :: "string + unit"

definition bind_unix_listener :: "SocketOs \<Rightarrow> string + unit" where
  "bind_unix_listener os =
     res_bind (case so_existing os of
         None \<Rightarrow> Ok ()
       | Some is_socket \<Rightarrow>
           if \<not> is_socket then Err ''gateway socket path already exists and is not a socket''
           else map_err (\<lambda>kind. ''could not replace the stale gateway socket: '' @ kind) (so_remove os)) (\<lambda>_.
     res_bind (map_err (\<lambda>kind. ''could not bind the gateway socket: '' @ kind) (so_bind os)) (\<lambda>_.
     map_err (\<lambda>kind. ''could not set gateway socket permissions: '' @ kind) (so_chmod os)))"

section \<open>The gateway\<close>

definition gateway_upstream ::
  "(string \<Rightarrow> Url option) \<Rightarrow> (string \<Rightarrow> string option) \<Rightarrow> GatewayProvider \<Rightarrow> string \<Rightarrow> string \<Rightarrow> string + Upstream"
where
  "gateway_upstream url_parse header_from_str provider upstream_url credential =
     map_err ConfigError_fmt
       (res_bind (Upstream_new url_parse (provider_route_name provider) upstream_url (wire_provider provider)) (\<lambda>u.
        res_map with_trusted_proxy_hop (with_gateway_credential header_from_str u credential)))"

text \<open>How the wait of a running gateway ends; \<open>None\<close> is a task that could not be joined.\<close>

datatype GatewayEnd = GE_Signal "string + unit" | GE_Proxy "(string + unit) option" | GE_Relay "(string + unit) option"

fun gateway_end :: "GatewayEnd \<Rightarrow> string + unit" where
  "gateway_end (GE_Signal r) = map_err (\<lambda>kind. ''could not listen for shutdown: '' @ kind) r"
| "gateway_end (GE_Proxy None) = Err ''gateway proxy task failed''"
| "gateway_end (GE_Proxy (Some r)) = map_err (\<lambda>kind. ''gateway proxy stopped: '' @ kind) r"
| "gateway_end (GE_Relay None) = Err ''gateway relay task failed''"
| "gateway_end (GE_Relay (Some r)) = map_err (\<lambda>kind. ''gateway relay stopped: '' @ kind) r"

record GatewayOs =
  go_fs :: HostFs
  go_credential :: CredentialFs
  go_url :: "string \<Rightarrow> Url option"
  go_header :: "string \<Rightarrow> string option"
  go_http :: HttpLib
  go_bound :: "SocketAddr option"
  go_socket :: SocketOs

text \<open>Everything before the gateway serves: the state of its proxy.\<close>

definition gateway_setup ::
  "GatewayOs \<Rightarrow> DetectorSet \<Rightarrow> string \<Rightarrow> GatewayProvider \<Rightarrow> string \<Rightarrow> string \<Rightarrow> string + AppState"
where
  "gateway_setup os ds socket_path provider upstream_url credential_file =
     res_bind (validate_socket_path (go_fs os) socket_path) (\<lambda>_.
     res_bind (read_credential (go_credential os) credential_file) (\<lambda>credential.
     res_bind (gateway_upstream (go_url os) (go_header os) provider upstream_url credential) (\<lambda>upstream.
     res_bind (map_err ConfigError_fmt
         (Proxy_new (Config_default\<lparr>cfg_bind_addr := \<lparr>sa_ip = ipv4_localhost, sa_port = 0\<rparr>, cfg_upstreams := [upstream]\<rparr>))) (\<lambda>config.
     res_bind (map_err ConfigError_fmt (Proxy_bind (go_http os) (go_bound os) config (BoundarySanitizer ds) False)) (\<lambda>(st, _).
     res_map (\<lambda>_. st) (bind_unix_listener (go_socket os)))))))"

text \<open>The result, and whether the socket was removed at the end.\<close>

definition run_gateway ::
  "GatewayOs \<Rightarrow> DetectorSet \<Rightarrow> string \<Rightarrow> GatewayProvider \<Rightarrow> string \<Rightarrow> string \<Rightarrow> GatewayEnd \<Rightarrow> (string + unit) \<times> bool"
where
  "run_gateway os ds socket_path provider upstream_url credential_file ge =
     (case gateway_setup os ds socket_path provider upstream_url credential_file of
        Inl e \<Rightarrow> (Err e, False)
      | Inr _ \<Rightarrow> (case gateway_end ge of Inl e \<Rightarrow> (Err e, False) | Inr _ \<Rightarrow> (Ok (), True)))"

section \<open>The agent relay\<close>

record RelayOs =
  ro_read :: "string \<Rightarrow> string option"
  ro_fs :: HostFs
  ro_connects :: "nat \<Rightarrow> bool"
  ro_listen :: "string + unit"
  ro_local_addr :: "string + string"
  ro_executable :: "string + string"
  ro_status :: "string + ExitStatus"

record AgentCommand =
  ag_program :: string
  ag_args :: "string list"
  ag_env :: "(string \<times> string) list"

definition run_agent_relayed :: "string \<Rightarrow> string \<Rightarrow> string \<Rightarrow> string list \<Rightarrow> AgentCommand" where
  "run_agent_relayed executable origin agent agent_args =
     \<lparr>ag_program = executable,
      ag_args = [''run'', agent, ''--anthropic-upstream'', origin @ ''/anthropic'', ''--openai-upstream'', origin @ ''/openai'',
        ''--openrouter-upstream'', origin @ ''/openrouter'', ''--''] @ agent_args,
      ag_env = [(''BLINDFOLD_LOCKED_BOUNDARY'', ''1'')]\<rparr>"

text \<open>An exit code that is no byte is the code of a failure.\<close>

definition relay_exit :: "ExitStatus \<Rightarrow> nat" where
  "relay_exit status = (case es_code status of Some code \<Rightarrow> if 0 \<le> code \<and> code \<le> 255 then nat code else 1 | None \<Rightarrow> 1)"

text \<open>The command that is started, if any, and the exit code.\<close>

definition run_agent :: "RelayOs \<Rightarrow> string \<Rightarrow> string \<Rightarrow> string list \<Rightarrow> AgentCommand option \<times> (string + nat)" where
  "run_agent os socket_path agent agent_args =
     (case res_bind (verify_network_none (ro_read os)) (\<lambda>_.
           res_bind (validate_socket_path (ro_fs os) socket_path) (\<lambda>_.
           res_bind (wait_for_gateway (ro_connects os)) (\<lambda>_.
           res_bind (map_err (\<lambda>kind. ''could not bind the agent relay: '' @ kind) (ro_listen os)) (\<lambda>_.
           res_bind (map_err (\<lambda>kind. ''could not inspect the agent relay: '' @ kind) (ro_local_addr os)) (\<lambda>addr.
           res_map (\<lambda>executable. run_agent_relayed executable (''http://'' @ addr) agent agent_args)
             (map_err (\<lambda>kind. ''could not resolve the Blindfold executable: '' @ kind) (ro_executable os))))))) of
        Inl e \<Rightarrow> (None, Err e)
      | Inr command \<Rightarrow>
          (Some command, map_err (\<lambda>kind. ''could not start the managed agent: '' @ kind) (res_map relay_exit (ro_status os))))"

section \<open>The credential on the host\<close>

text \<open>
  The part of the file system the credential is written to: its nodes by path, newest first.  Whether a
  call succeeds is up to the environment; \<open>te_write\<close> tells which bytes reach the file and whether writing
  and syncing succeed.
\<close>

type_synonym TmpFs = "(path \<times> node) list"

record TmpEnv =
  te_allows :: "FsOp \<Rightarrow> path \<Rightarrow> bool"
  te_write :: "string \<Rightarrow> string \<times> bool"
  te_kind :: "path \<Rightarrow> NodeKind option"
  te_canonicalize :: "path \<Rightarrow> path option"

record HostCredential =
  hc_path :: path
  hc_cleanup_directory :: "path option"

datatype HostCredentialError = HC_File | HC_EnvironmentName | HC_EnvironmentMissing | HC_Value | HC_Create

fun HostCredentialError_fmt :: "HostCredentialError \<Rightarrow> string" where
  "HostCredentialError_fmt HC_File = ''credential file must be a readable regular file and not a symbolic link''"
| "HostCredentialError_fmt HC_EnvironmentName = ''credential environment name is invalid''"
| "HostCredentialError_fmt HC_EnvironmentMissing = ''provider credential environment variable is not set''"
| "HostCredentialError_fmt HC_Value = ''provider credential value is invalid''"
| "HostCredentialError_fmt HC_Create = ''could not create the temporary gateway credential''"

definition valid_environment_name :: "string \<Rightarrow> bool" where
  "valid_environment_name name \<longleftrightarrow>
     (case name of
        [] \<Rightarrow> False
      | first # rest \<Rightarrow>
          (is_ascii_uppercase first \<or> first = CHR ''_'') \<and>
          list_all (\<lambda>b. is_ascii_uppercase b \<or> is_ascii_digit b \<or> b = CHR ''_'') rest)"

definition validate_value :: "string \<Rightarrow> HostCredentialError + unit" where
  "validate_value v =
     (if v = [] \<or> length v > MAX_CREDENTIAL_BYTES \<or> list_ex (\<lambda>c. line_end c \<or> c = CHR 0x00) v then Err HC_Value else Ok ())"

definition create_private_directory :: "TmpEnv \<Rightarrow> path \<Rightarrow> TmpFs \<Rightarrow> (HostCredentialError + unit) \<times> TmpFs" where
  "create_private_directory env p fs =
     (if te_allows env Op_Mkdir p \<and> map_of fs p = None then (Ok (), (p, NDir 0x1C0) # fs) else (Err HC_Create, fs))"

definition write_private_file :: "TmpEnv \<Rightarrow> path \<Rightarrow> string \<Rightarrow> TmpFs \<Rightarrow> (HostCredentialError + unit) \<times> TmpFs" where
  "write_private_file env p v fs =
     (if \<not> te_allows env Op_Open p \<or> map_of fs p \<noteq> None then (Err HC_Create, fs)
      else case te_write env v of (bytes, synced) \<Rightarrow>
        (if synced then Ok () else Err HC_Create, (p, NFile bytes 0x180) # fs))"

text \<open>The removals, whose errors are ignored; a directory with an entry is not removed.\<close>

definition remove_tmp_file :: "TmpEnv \<Rightarrow> path \<Rightarrow> TmpFs \<Rightarrow> TmpFs" where
  "remove_tmp_file env p fs =
     (if te_allows env Op_Remove p \<and> (case map_of fs p of Some (NFile _ _) \<Rightarrow> True | _ \<Rightarrow> False)
      then filter (\<lambda>(q, n). q \<noteq> p) fs else fs)"

definition remove_tmp_dir :: "TmpEnv \<Rightarrow> path \<Rightarrow> TmpFs \<Rightarrow> TmpFs" where
  "remove_tmp_dir env p fs =
     (if te_allows env Op_Remove p \<and> \<not> list_ex (\<lambda>(q, n). q \<noteq> [] \<and> butlast q = p) fs \<and>
        (case map_of fs p of Some (NDir _) \<Rightarrow> True | _ \<Rightarrow> False)
      then filter (\<lambda>(q, n). q \<noteq> p) fs else fs)"

definition HostCredential_from_file :: "TmpEnv \<Rightarrow> path \<Rightarrow> HostCredentialError + HostCredential" where
  "HostCredential_from_file env p =
     res_bind (ok_or (te_kind env p) HC_File) (\<lambda>kind.
     if kind \<noteq> Nk_File then Err HC_File
     else
       res_bind (ok_or (te_canonicalize env p) HC_File) (\<lambda>p. Ok \<lparr>hc_path = p, hc_cleanup_directory = None\<rparr>))"

text \<open>The clock in nanoseconds since the epoch and the counter of credentials name the directory.\<close>

definition credential_directory :: "path \<Rightarrow> nat \<Rightarrow> int \<Rightarrow> 64 word \<Rightarrow> path" where
  "credential_directory temp_dir pid clock counter =
     temp_dir @ [''blindfold-credential-'' @ nat_str pid @ ''-'' @ hex_str (nat clock) @ ''-'' @ hex_str (unat counter)]"

definition HostCredential_from_environment ::
  "TmpEnv \<Rightarrow> (string \<Rightarrow> string option) \<Rightarrow> path \<Rightarrow> nat \<Rightarrow> int \<Rightarrow> 64 word \<Rightarrow> string \<Rightarrow> TmpFs \<Rightarrow> (HostCredentialError + HostCredential) \<times> TmpFs"
where
  "HostCredential_from_environment env var temp_dir pid clock counter name fs =
     (if \<not> valid_environment_name name then (Err HC_EnvironmentName, fs)
      else case var name of
        None \<Rightarrow> (Err HC_EnvironmentMissing, fs)
      | Some v \<Rightarrow>
        (case validate_value v of
           Inl e \<Rightarrow> (Err e, fs)
         | Inr _ \<Rightarrow>
           if clock < 0 then (Err HC_Create, fs)
           else
             let directory = credential_directory temp_dir pid clock counter; p = directory @ [''provider.key''] in
             case create_private_directory env directory fs of
               (Inl e, fs) \<Rightarrow> (Err e, fs)
             | (Inr _, fs) \<Rightarrow>
               (case write_private_file env p v fs of
                  (Inl e, fs) \<Rightarrow> (Err e, remove_tmp_dir env directory fs)
                | (Inr _, fs) \<Rightarrow>
                  (case te_canonicalize env p of
                     None \<Rightarrow> (Err HC_Create, remove_tmp_dir env directory (remove_tmp_file env p fs))
                   | Some canonical \<Rightarrow> (Ok \<lparr>hc_path = canonical, hc_cleanup_directory = Some directory\<rparr>, fs)))))"

definition HostCredential_drop :: "TmpEnv \<Rightarrow> HostCredential \<Rightarrow> TmpFs \<Rightarrow> TmpFs" where
  "HostCredential_drop env c fs =
     (case hc_cleanup_directory c of
        None \<Rightarrow> fs
      | Some directory \<Rightarrow> remove_tmp_dir env directory (remove_tmp_file env (hc_path c) fs))"

section \<open>The container command\<close>

definition provider_environment :: "string \<Rightarrow> string" where
  "provider_environment provider =
     (if provider = ''anthropic'' then ''ANTHROPIC_API_KEY''
      else if provider = ''openrouter'' then ''OPENROUTER_API_KEY'' else ''OPENAI_API_KEY'')"

definition container_provider :: "string \<Rightarrow> string option \<Rightarrow> string + string" where
  "container_provider agent selected =
     (if agent = ''claude'' then
        (if selected = None \<or> selected = Some ''anthropic'' then Ok ''anthropic'' else Err ''Claude locked runs require the Anthropic provider'')
      else if agent = ''codex'' then
        (if selected = None \<or> selected = Some ''openai'' then Ok ''openai'' else Err ''Codex locked runs require the OpenAI provider'')
      else if agent = ''opencode'' then
        (case selected of Some provider \<Rightarrow> Ok provider | None \<Rightarrow> Err ''OpenCode locked runs require --provider'')
      else Err ''container agent is invalid'')"

definition container_upstream :: "string \<Rightarrow> string \<Rightarrow> string + string" where
  "container_upstream agent provider =
     (if provider = ''anthropic'' then Ok ''https://api.anthropic.com''
      else if agent = ''codex'' \<and> provider = ''openai'' then Ok ''https://api.openai.com/v1''
      else if agent = ''opencode'' \<and> provider = ''openai'' then Ok ''https://api.openai.com''
      else if provider = ''openrouter'' then Ok ''https://openrouter.ai/api''
      else Err ''container provider is invalid'')"

definition exit_from_code :: "int option \<Rightarrow> nat" where
  "exit_from_code code = (case code of Some v \<Rightarrow> if 0 \<le> v \<and> v \<le> 255 then nat v else 1 | None \<Rightarrow> 1)"

text \<open>The arguments of the command line, and what the command asks of the host.\<close>

record ContainerArgs =
  ca_agent :: string
  ca_provider :: "string option"
  ca_credential_file :: "path option"
  ca_credential_env :: "string option"
  ca_agent_args :: "string list"
  ca_image :: "string option"

record ContainerHost =
  ch_env :: TmpEnv
  ch_var :: "string \<Rightarrow> string option"
  ch_temp :: path
  ch_pid :: nat
  ch_clock :: int
  ch_counter :: "64 word"
  ch_session_clock :: int
  ch_session_counter :: "64 word"
  ch_workspace :: "string + string"
  ch_ws_fs :: WsFs
  ch_engine :: Engine
  ch_ids :: "string \<Rightarrow> (string \<times> bool) option"

definition path_string :: "path \<Rightarrow> string" where
  "path_string p = ''/'' @ join_with ''/'' p"

definition container_credential :: "ContainerHost \<Rightarrow> ContainerArgs \<Rightarrow> string \<Rightarrow> TmpFs \<Rightarrow> (HostCredentialError + HostCredential) \<times> TmpFs" where
  "container_credential h args provider fs =
     (case ca_credential_file args of
        Some p \<Rightarrow> (HostCredential_from_file (ch_env h) p, fs)
      | None \<Rightarrow>
          HostCredential_from_environment (ch_env h) (ch_var h) (ch_temp h) (ch_pid h) (ch_clock h) (ch_counter h)
            (case ca_credential_env args of None \<Rightarrow> provider_environment provider | Some name \<Rightarrow> name) fs)"

text \<open>The run with a credential: the message and the exit code; \<open>None\<close> while the agent does not stop.\<close>

definition container_run ::
  "ContainerHost \<Rightarrow> ContainerArgs \<Rightarrow> string \<Rightarrow> HostCredential \<Rightarrow> Interrupts \<Rightarrow> AgentChild \<Rightarrow> (string + nat) option"
where
  "container_run h args provider credential ints child =
     (case res_bind (map_err (\<lambda>kind. ''could not resolve the container workspace: '' @ kind) (ch_workspace h)) (\<lambda>workspace.
           res_bind (container_upstream (ca_agent args) provider) (\<lambda>upstream.
           map_err ContainerRunError_fmt
             (LockedRunSpec_new (ch_ws_fs h) (ca_agent args) (ca_agent_args args) workspace (path_string (hc_path credential)) upstream provider
               (case ca_image args of None \<Rightarrow> ''blindfold-locked:local'' | Some img \<Rightarrow> img)))) of
        Inl message \<Rightarrow> Some (Err message)
      | Inr spec \<Rightarrow>
          map_option (\<lambda>(r, _). case r of
              Inr status \<Rightarrow> Ok (exit_from_code (es_code status))
            | Inl e \<Rightarrow> if e = CR_Interrupted then Ok 130 else Err (ContainerRunError_fmt e))
            (run_locked (ch_ws_fs h) (ch_engine h) (ch_var h ''PATH'') (ch_var h ''DOCKER_HOST'') (ch_ids h) (ch_session_clock h) (ch_pid h)
              (ch_session_counter h) ints child spec))"

definition container_command ::
  "ContainerHost \<Rightarrow> ContainerArgs \<Rightarrow> Interrupts \<Rightarrow> AgentChild \<Rightarrow> TmpFs \<Rightarrow> ((string + nat) \<times> TmpFs) option"
where
  "container_command h args ints child fs =
     (case container_provider (ca_agent args) (ca_provider args) of
        Inl message \<Rightarrow> Some (Err message, fs)
      | Inr provider \<Rightarrow>
          (case container_credential h args provider fs of
             (Inl e, fs) \<Rightarrow> Some (Err (HostCredentialError_fmt e), fs)
           | (Inr credential, fs) \<Rightarrow>
               map_option (\<lambda>r. (r, HostCredential_drop (ch_env h) credential fs))
                 (container_run h args provider credential ints child)))"


section \<open>Lemmas\<close>

lemma trim_end_matches_split: "\<exists>x. s = trim_end_matches P s @ x \<and> list_all P x"
proof -
  have "rev s = takeWhile P (rev s) @ dropWhile P (rev s)" by simp
  then have "s = rev (dropWhile P (rev s)) @ rev (takeWhile P (rev s))" by (metis rev_append rev_rev_ident)
  then show ?thesis
    unfolding trim_end_matches_def by (metis list_all_iff set_rev set_takeWhileD)
qed

lemma read_credential_ok:
  assumes "read_credential fs p = Ok v"
  obtains expected opened contents x where "cf_symlink_metadata fs p = Some expected" "fm_kind expected = Nk_File"
    "cf_open fs p = Some (Some opened, Some contents)" "same_file expected opened" "fm_kind opened = Nk_File"
    "length contents \<le> MAX_CREDENTIAL_BYTES" "contents = v @ x" "list_all line_end x"
    "v \<noteq> []" "list_all (\<lambda>c. \<not> line_end c \<and> c \<noteq> CHR 0x00) v"
proof -
  from assms obtain expected opened contents where o: "cf_symlink_metadata fs p = Some expected" "fm_kind expected = Nk_File"
    "cf_open fs p = Some (Some opened, Some contents)" "same_file expected opened" "fm_kind opened = Nk_File"
    and c: "\<not> length (take (MAX_CREDENTIAL_BYTES + 1) contents) > MAX_CREDENTIAL_BYTES"
    and v: "v = trim_end_matches line_end (take (MAX_CREDENTIAL_BYTES + 1) contents)" "v \<noteq> []"
      "\<not> list_ex (\<lambda>c. line_end c \<or> c = CHR 0x00) v"
    by (auto simp: read_credential_def res_bind_ok_iff Let_def split: if_splits elim!: ok_or.elims)
  from c have len: "length contents \<le> MAX_CREDENTIAL_BYTES" by simp
  then have t: "take (MAX_CREDENTIAL_BYTES + 1) contents = contents" by simp
  obtain x where "contents = v @ x" "list_all line_end x"
    using trim_end_matches_split[of contents line_end] v(1) unfolding t by blast
  then show ?thesis using that o len v(2,3) by (simp add: list_ex_iff list_all_iff)
qed

lemma verify_network_none_ok:
  "verify_network_none read = Ok () \<longleftrightarrow>
     (\<exists>ipv4 ipv6. read ''/proc/net/route'' = Some ipv4 \<and> read ''/proc/net/ipv6_route'' = Some ipv6 \<and>
        length ipv4 \<le> 64 * 1024 \<and> length ipv6 \<le> 64 * 1024 \<and>
        (\<forall>line\<in>set (drop 1 (str_lines ipv4)). str_trim line \<noteq> [] \<longrightarrow> (\<exists>ws. split_whitespace line = ''lo'' # ws)) \<and>
        (\<forall>line\<in>set (str_lines ipv6). str_trim line \<noteq> [] \<longrightarrow> (\<exists>ws. split_whitespace line = ws @ [''lo''])))"
proof -
  have first: "(case ws of [] \<Rightarrow> True | w # _ \<Rightarrow> w \<noteq> x) \<longleftrightarrow> \<not> (\<exists>r. ws = x # r)" for ws and x :: string
    by (cases ws) auto
  have lst: "(case rev ws of [] \<Rightarrow> True | w # _ \<Rightarrow> w \<noteq> x) \<longleftrightarrow> \<not> (\<exists>r. ws = r @ [x])" for ws and x :: string
    by (cases ws rule: rev_cases) auto
  show ?thesis
    unfolding verify_network_none_def lst unfolding first
    by (cases "read ''/proc/net/route''"; cases "read ''/proc/net/ipv6_route''") (auto simp: list_ex_iff not_less)
qed

lemma gateway_attempts_iff: "gateway_attempts n connects i \<longleftrightarrow> (\<exists>j<n. connects (i + j))"
proof (induction n arbitrary: i)
  case (Suc n)
  show ?case
  proof (cases "connects i")
    case True
    then show ?thesis by (auto intro!: exI[of _ 0])
  next
    case False
    have "(\<exists>j<Suc n. connects (i + j)) \<longleftrightarrow> (\<exists>j<n. connects (i + 1 + j))"
      using False less_Suc_eq_0_disj[of _ n] by (metis Nat.add_0_right add_Suc_right add_Suc_shift Suc_eq_plus1)
    then show ?thesis using False Suc by simp
  qed
qed simp

lemma container_pair_ok:
  "container_provider agent selected = Ok provider \<Longrightarrow> container_upstream agent provider = Ok upstream \<Longrightarrow>
     validate_boundary_pair agent provider upstream = Ok ()"
  by (auto simp: container_provider_def container_upstream_def validate_boundary_pair_def split: if_splits option.splits)

text \<open>Nothing of the file system lies in a directory.\<close>

definition unused :: "path \<Rightarrow> TmpFs \<Rightarrow> bool" where
  "unused directory fs \<longleftrightarrow> list_all (\<lambda>(q, n). \<not> prefix directory q) fs"

lemma unused_filter:
  "unused directory fs \<Longrightarrow> filter (\<lambda>(q, n). q \<noteq> directory @ x) fs = fs"
  by (induction fs) (auto simp: unused_def)

lemma unused_children: "unused directory fs \<Longrightarrow> \<not> list_ex (\<lambda>(q, n). q \<noteq> [] \<and> butlast q = directory) fs"
proof -
  have "prefix directory q" if "q \<noteq> []" "butlast q = directory" for q
    using that by (metis append_butlast_last_id prefixI)
  then show "unused directory fs \<Longrightarrow> ?thesis" by (auto simp: unused_def list_ex_iff list_all_iff)
qed

lemma remove_created:
  assumes "unused directory fs" and "\<And>p. te_allows env Op_Remove p"
  shows "remove_tmp_dir env directory ((directory, NDir m) # fs) = fs"
    and "remove_tmp_dir env directory (remove_tmp_file env (directory @ [x]) ((directory @ [x], NFile b k) # (directory, NDir m) # fs)) = fs"
proof -
  have self: "\<not> (directory \<noteq> [] \<and> butlast directory = directory)"
    by (metis append_butlast_last_id append_self_conv not_Cons_self2)
  show 1: "remove_tmp_dir env directory ((directory, NDir m) # fs) = fs"
    using unused_filter[OF assms(1), of "[]"] unused_children[OF assms(1)] assms(2) self by (simp add: remove_tmp_dir_def)
  show "remove_tmp_dir env directory (remove_tmp_file env (directory @ [x]) ((directory @ [x], NFile b k) # (directory, NDir m) # fs)) = fs"
    using unused_filter[OF assms(1), of "[x]"] assms(2) 1 by (simp add: remove_tmp_file_def)
qed

text \<open>A host on which the temporary directory is canonical, removals are allowed and started writes end.\<close>

definition tidy_host :: "TmpEnv \<Rightarrow> path \<Rightarrow> bool" where
  "tidy_host env directory \<longleftrightarrow>
     (\<forall>p. te_allows env Op_Remove p) \<and> (\<forall>v. te_write env v = (v, True)) \<and>
     te_canonicalize env (directory @ [''provider.key'']) \<in> {None, Some (directory @ [''provider.key''])}"

lemma host_credential_lifecycle:
  assumes "HostCredential_from_environment env var temp_dir pid clock counter name fs = (r, fs')"
    and "tidy_host env (credential_directory temp_dir pid clock counter)"
    and "unused (credential_directory temp_dir pid clock counter) fs"
  shows "case r of
      Inl e \<Rightarrow> fs' = fs
    | Inr c \<Rightarrow> HostCredential_drop env c fs' = fs \<and>
        (\<exists>v. var name = Some v \<and> validate_value v = Ok () \<and> map_of fs' (hc_path c) = Some (NFile v 0x180) \<and>
           map_of fs' (butlast (hc_path c)) = Some (NDir 0x1C0))"
proof (cases "valid_environment_name name")
  case False
  then show ?thesis using assms(1) by (auto simp: HostCredential_from_environment_def)
next
  case name: True
  let ?d = "credential_directory temp_dir pid clock counter"
  have allow: "\<And>p. te_allows env Op_Remove p" and wr: "\<And>v. te_write env v = (v, True)"
    and can: "te_canonicalize env (?d @ [''provider.key'']) \<in> {None, Some (?d @ [''provider.key''])}"
    using assms(2) by (simp_all add: tidy_host_def)
  note rm = remove_created[OF assms(3) allow]
  show ?thesis
  proof (cases "\<exists>v. var name = Some v \<and> validate_value v = Ok () \<and> \<not> clock < 0")
    case False
    then show ?thesis using assms(1) name
      by (auto simp: HostCredential_from_environment_def split: option.splits sum.splits if_splits)
  next
    case True
    then obtain v where v: "var name = Some v" "validate_value v = Ok ()" "\<not> clock < 0" by blast
    have r: "(r, fs') = (case create_private_directory env ?d fs of
               (Inl e, fs) \<Rightarrow> (Err e, fs)
             | (Inr _, fs) \<Rightarrow>
               (case write_private_file env (?d @ [''provider.key'']) v fs of
                  (Inl e, fs) \<Rightarrow> (Err e, remove_tmp_dir env ?d fs)
                | (Inr _, fs) \<Rightarrow>
                  (case te_canonicalize env (?d @ [''provider.key'']) of
                     None \<Rightarrow> (Err HC_Create, remove_tmp_dir env ?d (remove_tmp_file env (?d @ [''provider.key'']) fs))
                   | Some canonical \<Rightarrow> (Ok \<lparr>hc_path = canonical, hc_cleanup_directory = Some ?d\<rparr>, fs))))"
      using assms(1) name v by (simp add: HostCredential_from_environment_def Let_def)
    show ?thesis
      using r can
      by (auto simp: create_private_directory_def write_private_file_def wr rm HostCredential_drop_def v split: if_splits)
  qed
qed

lemma run_agent_started:
  "run_agent os socket agent args = (Some command, r) \<Longrightarrow>
     verify_network_none (ro_read os) = Ok () \<and> (\<exists>i<GATEWAY_CONNECT_ATTEMPTS. ro_connects os i) \<and>
     (\<exists>exe addr. command = run_agent_relayed exe (''http://'' @ addr) agent args)"
  by (auto simp: run_agent_def res_bind_ok_iff res_map_ok_iff wait_for_gateway_def gateway_attempts_iff split: sum.splits if_splits)

lemma gateway_setup_ok:
  assumes "gateway_setup os ds socket provider url file = Ok st"
  obtains secret header base where "read_credential (go_credential os) file = Ok secret"
    "go_header os (if provider = GP_Anthropic then secret else ''Bearer '' @ secret) = Some header"
    "st_sanitizer st = BoundarySanitizer ds"
    "st_upstreams st = [provider_route_name provider \<mapsto>
       \<lparr>up_name = provider_route_name provider, up_base_url = base, up_provider = wire_provider provider,
        up_gateway_credential = Some \<lparr>gc_secret = secret, gc_header_value = header\<rparr>, up_trusted_proxy_hop = True\<rparr>]"
  using assms
  by (cases provider)
    (auto simp: gateway_setup_def gateway_upstream_def Upstream_new_def with_gateway_credential_def with_trusted_proxy_hop_def
      gateway_credential_header_value_def Proxy_new_def Proxy_bind_def res_bind_ok_iff res_map_ok_iff map_err_ok_iff ok_or_ok_iff Let_def
      split: if_splits)

text \<open>
  The release of the credential when writing it fails half way does not happen: the directory is not empty.
\<close>

lemma failed_write_leaves_credential:
  assumes "valid_environment_name name" and "var name = Some v" and "validate_value v = Ok ()" and "0 \<le> clock"
    and "unused (credential_directory temp_dir pid clock counter) fs" and "\<And>k p. te_allows env k p" and "te_write env v = (bytes, False)"
  shows "\<exists>fs'. HostCredential_from_environment env var temp_dir pid clock counter name fs = (Err HC_Create, fs') \<and>
    map_of fs' (credential_directory temp_dir pid clock counter @ [''provider.key'']) = Some (NFile bytes 0x180)"
proof -
  let ?d = "credential_directory temp_dir pid clock counter"
  have free: "map_of fs ?d = None" "map_of fs (?d @ [''provider.key'']) = None"
    using assms(5) unfolding unused_def list_all_iff map_of_eq_None_iff by fastforce+
  have left: "remove_tmp_dir env ?d ((?d @ [''provider.key''], n) # fs'') = (?d @ [''provider.key''], n) # fs''" for n fs''
    by (simp add: remove_tmp_dir_def)
  show ?thesis
    using assms(1-4,6,7) free left
    by (auto simp: HostCredential_from_environment_def create_private_directory_def write_private_file_def Let_def)
qed

section \<open>Properties\<close>

text \<open>
  C34. The gateway of a locked run.  Once its setup has succeeded, a request is forwarded only on the one
  route named after the provider; the credential is the content of a small regular file, read through the
  file that was checked, without its trailing line ends and without line ends or NUL inside; it is the
  only provider authentication of the request; and the body sent is a JSON document that does not contain it.
\<close>

theorem gateway_isolates_credential:
  assumes "gateway_setup os ds socket provider url file = Ok st" and "codec_ok c"
    and "fr_sent (forward_inner lib c net st name path request deadline trace) = Some sent"
  shows "\<exists>secret ends expected opened header.
    cf_symlink_metadata (go_credential os) file = Some expected \<and> fm_kind expected = Nk_File \<and>
    cf_open (go_credential os) file = Some (Some opened, Some (secret @ ends)) \<and> same_file expected opened \<and>
    length (secret @ ends) \<le> MAX_CREDENTIAL_BYTES \<and> list_all line_end ends \<and> secret \<noteq> [] \<and>
    list_all (\<lambda>x. \<not> line_end x \<and> x \<noteq> CHR 0x00) secret \<and>
    name = provider_route_name provider \<and>
    go_header os (if provider = GP_Anthropic then secret else ''Bearer '' @ secret) = Some header \<and>
    filter (\<lambda>(n, v). is_provider_auth_header n) (ou_headers sent) =
      [(if provider = GP_Anthropic then ''x-api-key'' else ''authorization'', header)] \<and>
    (clean_value secret ''[REDACTED]'' \<longrightarrow>
       (\<exists>v. from_slice c (ou_body sent) = Some v \<and> json_safe (\<lambda>t. \<not> str_contains secret t) v))"
proof -
  obtain secret header base where cred: "read_credential (go_credential os) file = Ok secret"
    and hd: "go_header os (if provider = GP_Anthropic then secret else ''Bearer '' @ secret) = Some header"
    and up: "st_upstreams st = [provider_route_name provider \<mapsto>
       \<lparr>up_name = provider_route_name provider, up_base_url = base, up_provider = wire_provider provider,
        up_gateway_credential = Some \<lparr>gc_secret = secret, gc_header_value = header\<rparr>, up_trusted_proxy_hop = True\<rparr>]"
    by (rule gateway_setup_ok[OF assms(1)])
  obtain u hop body s obs where u: "st_upstreams st name = Some u"
    and sb: "sanitize_body c (up_provider u) BS_Request path (content_type lib (rq_headers request)) body
       (sanitizer_for_upstream (st_sanitizer st) u) = Ok (s, obs)"
    and o: "sent = outbound_request lib u path request hop s"
    by (rule forward_inner_sent[OF assms(3)])
  have name: "name = provider_route_name provider" and gc: "up_gateway_credential u = Some \<lparr>gc_secret = secret, gc_header_value = header\<rparr>"
    and wp: "up_provider u = wire_provider provider"
    using u by (auto simp: up split: if_splits)
  have auth: "filter (\<lambda>(n, v). is_provider_auth_header n) (ou_headers sent) =
      [(if provider = GP_Anthropic then ''x-api-key'' else ''authorization'', header)]"
    unfolding o by (subst outbound_auth) (cases provider; simp add: gc wp gateway_auth_header_def)+
  have san: "sanitizer_for_upstream (st_sanitizer st) u = credential_sanitizer (st_sanitizer st) secret"
    by (simp add: sanitizer_for_upstream_def gc)
  have "\<exists>v. from_slice c (ou_body sent) = Some v \<and>
      json_safe (\<lambda>t. clean_value secret ''[REDACTED]'' \<longrightarrow> \<not> str_contains secret t) v"
    using sb[unfolded san] credential.sanitize_json_safe assms(2)
    by (rule_tac sanitize_body_json) (auto simp: o outbound_request_def json_safe_def codec_ok_def)
  then have body: "clean_value secret ''[REDACTED]'' \<longrightarrow>
       (\<exists>v. from_slice c (ou_body sent) = Some v \<and> json_safe (\<lambda>t. \<not> str_contains secret t) v)"
    by (auto simp: json_safe_def)
  from cred show ?thesis
    by (rule read_credential_ok) (use name hd auth body in blast)
qed


section \<open>Witnesses\<close>

definition gw_os :: GatewayOs where
  "gw_os = \<lparr>go_fs = \<lparr>hf_symlink_metadata = (\<lambda>_. Some \<lparr>nm_kind = Nk_Dir, nm_mode = 0x1C0\<rparr>),
       hf_metadata = (\<lambda>_. Inr \<lparr>nm_kind = Nk_Dir, nm_mode = 0x1C0\<rparr>), hf_canonicalize = Some, hf_open = (\<lambda>_. False), hf_read = (\<lambda>_. None)\<rparr>,
     go_credential = \<lparr>cf_symlink_metadata = (\<lambda>_. Some \<lparr>fm_kind = Nk_File, fm_len = 4, fm_identity = (1, 2)\<rparr>),
       cf_open = (\<lambda>_. Some (Some \<lparr>fm_kind = Nk_File, fm_len = 4, fm_identity = (1, 2)\<rparr>, Some ''raw\<newline>''))\<rparr>,
     go_url = (\<lambda>_. Some (up_base_url px_upstream)), go_header = Some, go_http = px_lib,
     go_bound = Some \<lparr>sa_ip = ipv4_localhost, sa_port = 7\<rparr>,
     go_socket = \<lparr>so_existing = None, so_remove = Ok (), so_bind = Ok (), so_chmod = Ok ()\<rparr>\<rparr>"

definition gw_state :: AppState where
  "gw_state = \<lparr>st_sanitizer = BoundarySanitizer [], st_upstreams = [''anthropic'' \<mapsto> px_upstream],
     st_max_request_body = 1024 * 1024, st_max_response_body = 8 * 1024 * 1024, st_trace_sink = False\<rparr>"

lemma gw_setup: "gateway_setup gw_os [] ''/run/g'' GP_Anthropic ''https://api.example'' ''/run/key'' = Ok gw_state"
proof -
  have "validate_socket_path (go_fs gw_os) ''/run/g'' = Ok ()" by code_simp
  moreover have "read_credential (go_credential gw_os) ''/run/key'' = Ok ''raw''"
    by (simp add: read_credential_def gw_os_def MAX_CREDENTIAL_BYTES_def same_file_def) code_simp
  moreover have "gateway_upstream (go_url gw_os) (go_header gw_os) GP_Anthropic ''https://api.example'' ''raw'' = Ok px_upstream" by code_simp
  moreover have "try_fold validate_upstream {} [px_upstream] = Ok {''anthropic''}" by code_simp
  moreover have "reject_direct_loops px_lib \<lparr>sa_ip = ipv4_localhost, sa_port = 7\<rparr> [px_upstream] = Ok ()" by code_simp
  moreover have "bind_unix_listener (go_socket gw_os) = Ok ()" by code_simp
  moreover have "sa_ip \<lparr>sa_ip = ipv4_localhost, sa_port = 0\<rparr> = ipv4_localhost" "is_loopback ipv4_localhost" by code_simp+
  moreover have "go_bound gw_os = Some \<lparr>sa_ip = ipv4_localhost, sa_port = 7\<rparr>" "go_http gw_os = px_lib" "up_name px_upstream = ''anthropic''"
    by (simp_all add: gw_os_def px_upstream_def)
  ultimately show ?thesis
    by (simp add: gateway_setup_def Proxy_new_def Config_validate_def Config_default_def Proxy_bind_def gw_state_def)
qed

lemma gw_sent:
  "fr_sent (forward_inner px_lib px_codec px_net gw_state ''anthropic'' ''v1/messages'' (px_request []) None px_trace) =
     Some (px_outbound ''1'')"
proof -
  let ?san = "credential_sanitizer (BoundarySanitizer []) ''raw''"
  have "check_request px_lib gw_state px_upstream ''v1/messages'' (px_request []) ?san = Ok False"
  proof -
    have "accept_proxy_hop (rq_headers (px_request [])) px_upstream = Ok False"
      "reject_unsupported_gateway_path px_upstream ''v1/messages'' (rq_uri (px_request [])) = Ok ()"
      "reject_unsupported_transport px_lib (rq_headers (px_request [])) = Ok ()"
      "reject_unsupported_method (rq_method (px_request [])) = Ok ()"
      "reject_sensitive_request_metadata px_lib (rq_uri (px_request [])) (rq_headers (px_request [])) ?san = Ok ()"
      by code_simp+
    moreover have "reject_oversize_content_length px_lib (rq_headers (px_request [])) n = Ok ()" for n
      by (simp add: reject_oversize_content_length_def hdr_get_def px_request_def)
    ultimately show ?thesis by (simp add: check_request_def)
  qed
  moreover have "sanitize_body px_codec Prov_Anthropic BS_Request ''v1/messages'' (Some ''application/json'') ''1'' ?san =
     Ok (''2'', [\<lparr>ob_category = Cat_Sensitive, ob_pointer = []\<rparr>])"
    by code_simp
  moreover have "to_bytes px_net (rq_body (px_request [])) (st_max_request_body gw_state) = Some ''1''"
    by (simp add: px_net_def px_request_def gw_state_def)
  moreover have "st_upstreams gw_state ''anthropic'' = Some px_upstream"
    "sanitizer_for_upstream (st_sanitizer gw_state) px_upstream = ?san"
    by (simp_all add: gw_state_def px_upstream_def sanitizer_for_upstream_def)
  ultimately show ?thesis by (simp add: forward_inner_def px_parts px_values)
qed

theorem gateway_isolates_credential_witness:
  "\<exists>secret ends. ''raw\<newline>'' = secret @ ends \<and> list_all line_end ends \<and>
     filter (\<lambda>(n, v). is_provider_auth_header n) (ou_headers (px_outbound ''1'')) = [(''x-api-key'', secret)]"
  using gateway_isolates_credential[OF gw_setup px_hyps(1) gw_sent] by (auto simp: gw_os_def)

definition cc_env :: TmpEnv where
  "cc_env = \<lparr>te_allows = (\<lambda>_ _. True), te_write = (\<lambda>v. (v, True)), te_kind = (\<lambda>_. None), te_canonicalize = Some\<rparr>"

definition cc_host :: ContainerHost where
  "cc_host = \<lparr>ch_env = cc_env,
     ch_var = (\<lambda>n. if n = ''OPENAI_API_KEY'' then Some ''key'' else if n = ''PATH'' then Some ''/bin'' else Some ''unix:///s''),
     ch_temp = [''tmp''], ch_pid = 1, ch_clock = 0, ch_counter = 0, ch_session_clock = 0, ch_session_counter = 0,
     ch_workspace = Ok ''/w'', ch_ws_fs = locked_fs\<lparr>hf_metadata := \<lambda>p. Inr \<lparr>nm_kind = (if p = ''/w'' then Nk_Dir else Nk_File), nm_mode = 0x1ED\<rparr>\<rparr>,
     ch_engine = demo_engine, ch_ids = (\<lambda>_. Some (''7'', True))\<rparr>"

definition cc_args :: ContainerArgs where
  "cc_args = \<lparr>ca_agent = ''codex'', ca_provider = None, ca_credential_file = None, ca_credential_env = None,
     ca_agent_args = [''exec''], ca_image = None\<rparr>"

definition cc_ints :: Interrupts where
  "cc_ints = \<lparr>in_preflight = None, in_volume = None, in_gateway = None, in_agent = Some True, in_cleanup = None\<rparr>"

definition cc_child :: AgentChild where
  "cc_child = \<lparr>ac_wait = None, ac_try_wait = [TW_Running, TW_Exited \<lparr>es_code = None, es_signal = Some 9\<rparr>]\<rparr>"

definition cc_key :: path where
  "cc_key = [''tmp'', ''blindfold-credential-1-0-0'', ''provider.key'']"

lemma cc_credential:
  "container_credential cc_host cc_args ''openai'' [] =
     (Ok \<lparr>hc_path = cc_key, hc_cleanup_directory = Some (butlast cc_key)\<rparr>, [(cc_key, NFile ''key'' 0x180), (butlast cc_key, NDir 0x1C0)])"
  by code_simp

lemma cc_spec:
  "LockedRunSpec_new (ch_ws_fs cc_host) ''codex'' [''exec''] ''/w'' (path_string cc_key) ''https://api.openai.com/v1'' ''openai'' ''blindfold-locked:local'' =
     Ok (locked_spec\<lparr>lr_credential_file := path_string cc_key\<rparr>)"
proof -
  have "validate_canonical_directory (ch_ws_fs cc_host) ''/w'' ''workspace'' = Ok ()" "validate_credential_file (ch_ws_fs cc_host) (path_string cc_key) = Ok ()"
    "validate_mount_source ''/w'' = Ok ()" "validate_mount_source (path_string cc_key) = Ok ()"
    "validate_image_reference ''blindfold-locked:local'' = Ok ()"
    "validate_boundary_pair ''codex'' ''openai'' ''https://api.openai.com/v1'' = Ok ()"
    by code_simp+
  moreover have "validate_workspace_tree (ch_ws_fs cc_host) ''/w'' (path_string cc_key) = Ok ()"
    by (simp add: validate_workspace_tree_def tree_loop.simps cc_host_def locked_fs_def MAX_WORKSPACE_ENTRIES_def Let_def path_string_def cc_key_def)
  ultimately show ?thesis by (simp add: LockedRunSpec_new_def locked_spec_def LOCAL_DEVELOPMENT_IMAGE_def)
qed

lemma cc_command:
  "container_command cc_host cc_args cc_ints cc_child [] = Some (Ok 130, [])"
proof -
  have p: "container_provider ''codex'' None = Ok ''openai''" "container_upstream ''codex'' ''openai'' = Ok ''https://api.openai.com/v1''" by code_simp+
  have r: "case run_locked (ch_ws_fs cc_host) demo_engine (Some ''/bin'') (Some ''unix:///s'') (\<lambda>_. Some (''7'', True)) 0 1 0 cc_ints cc_child
      (locked_spec\<lparr>lr_credential_file := path_string cc_key\<rparr>) of Some (r, _) \<Rightarrow> r = Err CR_Interrupted | None \<Rightarrow> False"
    by code_simp
  have d: "HostCredential_drop cc_env \<lparr>hc_path = cc_key, hc_cleanup_directory = Some (butlast cc_key)\<rparr>
      [(cc_key, NFile ''key'' 0x180), (butlast cc_key, NDir 0x1C0)] = []" by code_simp
  have h: "ch_workspace cc_host = Ok ''/w''" "ch_engine cc_host = demo_engine" "ch_var cc_host ''PATH'' = Some ''/bin''"
    "ch_var cc_host ''DOCKER_HOST'' = Some ''unix:///s''" "ch_ids cc_host = (\<lambda>_. Some (''7'', True))" "ch_session_clock cc_host = 0"
    "ch_pid cc_host = 1" "ch_session_counter cc_host = 0" "ch_env cc_host = cc_env"
    "ca_agent cc_args = ''codex''" "ca_provider cc_args = None" "ca_agent_args cc_args = [''exec'']" "ca_image cc_args = None"
    by (simp_all add: cc_host_def cc_args_def)
  show ?thesis
    using r by (auto simp: container_command_def container_run_def h p cc_credential cc_spec d split: option.splits)
qed


end
