(* ===== verification/Cli_Agent.thy ===== *)
theory Cli_Agent
  imports Cli_Boundary Cli_Egress
begin

text \<open>
  The managed coding agent: the built-in adapters (\<open>crates/blindfold-cli/src/agent_adapter.rs\<close>), the checks of
  the agent's arguments, the proxy and the egress guard it is pointed at, its environment, and what is printed
  of its output (\<open>run_agent_command\<close> of \<open>commands.rs\<close>).  The TOML and version libraries, the URL and JSON
  libraries, sockets and processes are parameters; the messages printed on the way are not modelled.
\<close>

section \<open>Built-in adapters\<close>

datatype HarnessKind = HK_Claude | HK_Codex | HK_OpenCode

text \<open>The manifests compiled into the program, from \<open>crates/blindfold-cli/plugins\<close>.\<close>

definition manifest_head :: "string \<Rightarrow> string list" where
  "manifest_head name =
     [''manifest_version = 1'', ''id = \"dev.blindfold.'' @ name @ ''\"'', ''version = \"0.1.0\"'', ''kind = \"harness-adapter\"'',
      ''protocol = \"builtin-v1\"'', ''entrypoint = \"builtin/'' @ name @ ''\"'', [], ''[harness]'']"

definition manifest_tail :: "string list" where
  "manifest_tail =
     [''events = [\"model-request\", \"model-response\", \"command-output\"]'', [], ''[permissions]'',
      ''filesystem = [\"workspace-read\", \"workspace-write\", \"session-temp\"]'', ''network = [\"model-proxy\", \"policy-egress\"]'',
      ''environment = [\"path\", \"home\", \"temp\", \"locale\", \"terminal\", \"user-identity\", \"shell\", \"host-config\"]'',
      ''spawn_harness = true'', ''spawn_tools = true'']"

definition CLAUDE_MANIFEST :: string where
  "CLAUDE_MANIFEST = unlines (manifest_head ''claude-code'' @
     [''command = \"claude\"'', ''version = \"=2.1.202\"'', ''noninteractive_modes = [\"print\"]'', [], ''[capabilities]'',
      ''providers = [\"anthropic\"]'', ''transports = [\"http-json\", \"server-sent-events\"]''] @ manifest_tail)"

definition CODEX_MANIFEST :: string where
  "CODEX_MANIFEST = unlines (manifest_head ''codex-cli'' @
     [''command = \"codex\"'', ''version = \"=0.144.4\"'', ''noninteractive_modes = [\"exec\", \"review\"]'', [], ''[capabilities]'',
      ''providers = [\"open-ai\"]'', ''transports = [\"http-json\", \"web-socket\"]''] @ manifest_tail)"

definition OPENCODE_MANIFEST :: string where
  "OPENCODE_MANIFEST = unlines (manifest_head ''opencode'' @
     [''command = \"opencode\"'', ''version = \"=1.18.0\"'', ''noninteractive_modes = [\"run\"]'', [], ''[capabilities]'',
      ''providers = [\"open-ai\", \"anthropic\", \"open-router\"]'', ''transports = [\"http-json\", \"server-sent-events\"]''] @ manifest_tail)"

record HarnessAdapter =
  ha_kind :: HarnessKind
  ha_manifest :: PluginManifest
  ha_version_marker :: "string option"

datatype AdapterError =
    AE_UnsupportedHarness | AE_InvalidBuiltinManifest | AE_UnsupportedBuiltinCapabilities | AE_SearchPathUnavailable
  | AE_Host HostError

fun AdapterError_fmt :: "AdapterError \<Rightarrow> string" where
  "AdapterError_fmt AE_UnsupportedHarness = ''unsupported coding agent''"
| "AdapterError_fmt AE_InvalidBuiltinManifest = ''built-in harness adapter manifest is invalid''"
| "AdapterError_fmt AE_UnsupportedBuiltinCapabilities = ''built-in harness adapter requests unsupported capabilities''"
| "AdapterError_fmt AE_SearchPathUnavailable = ''harness executable search path is unavailable''"
| "AdapterError_fmt (AE_Host e) = ''harness compatibility check failed: '' @ HostError_fmt e"

definition same_members :: "'a list \<Rightarrow> 'a list \<Rightarrow> bool" where
  "same_members actual expected \<longleftrightarrow> set actual = set expected"

text \<open>The identity, entrypoint, command, version requirement, providers, transports and modes a built-in adapter must have.\<close>

record BuiltinContract =
  bc_id :: string
  bc_entrypoint :: string
  bc_command :: string
  bc_version_requirement :: string
  bc_providers :: "PluginProvider list"
  bc_transports :: "Transport list"
  bc_modes :: "NonInteractiveMode list"

fun builtin_contract :: "HarnessKind \<Rightarrow> BuiltinContract" where
  "builtin_contract HK_Claude =
     \<lparr>bc_id = ''dev.blindfold.claude-code'', bc_entrypoint = ''builtin/claude-code'', bc_command = ''claude'',
      bc_version_requirement = ''=2.1.202'', bc_providers = [PP_Anthropic], bc_transports = [Tr_HttpJson, Tr_ServerSentEvents],
      bc_modes = [Mode_Print]\<rparr>"
| "builtin_contract HK_Codex =
     \<lparr>bc_id = ''dev.blindfold.codex-cli'', bc_entrypoint = ''builtin/codex-cli'', bc_command = ''codex'',
      bc_version_requirement = ''=0.144.4'', bc_providers = [PP_OpenAi], bc_transports = [Tr_HttpJson, Tr_WebSocket],
      bc_modes = [Mode_Exec, Mode_Review]\<rparr>"
| "builtin_contract HK_OpenCode =
     \<lparr>bc_id = ''dev.blindfold.opencode'', bc_entrypoint = ''builtin/opencode'', bc_command = ''opencode'',
      bc_version_requirement = ''=1.18.0'', bc_providers = [PP_OpenAi, PP_Anthropic, PP_OpenRouter],
      bc_transports = [Tr_HttpJson, Tr_ServerSentEvents], bc_modes = [Mode_Run]\<rparr>"

definition validate_builtin_contract ::
  "(string \<Rightarrow> VersionReq option) \<Rightarrow> HarnessKind \<Rightarrow> PluginManifest \<Rightarrow> AdapterError + unit"
where
  "validate_builtin_contract req_parse kind manifest =
     (let bc = builtin_contract kind; hs = pm_harness manifest; cap = pm_capabilities manifest; perm = pm_permissions manifest in
      res_bind (ok_or (req_parse (bc_version_requirement bc)) AE_InvalidBuiltinManifest) (\<lambda>expected_requirement.
      if pm_id manifest = bc_id bc \<and> pm_version manifest = Version ''0.1.0'' \<and> pm_entrypoint manifest = bc_entrypoint bc \<and>
         hs_command hs = bc_command bc \<and> hs_version_requirement hs = expected_requirement \<and>
         pm_kind manifest = PK_HarnessAdapter \<and> pm_protocol manifest = Proto_BuiltinV1 \<and>
         same_members (hs_noninteractive_modes hs) (bc_modes bc) \<and> same_members (cap_providers cap) (bc_providers bc) \<and>
         same_members (cap_transports cap) (bc_transports bc) \<and>
         same_members (cap_events cap) [Ev_ModelRequest, Ev_ModelResponse, Ev_CommandOutput] \<and>
         same_members (perm_filesystem perm) [Fp_WorkspaceRead, Fp_WorkspaceWrite, Fp_SessionTemp] \<and>
         same_members (perm_network perm) [Np_ModelProxy, Np_PolicyEgress] \<and>
         same_members (perm_environment perm)
           [Evp_Path, Evp_Home, Evp_Temp, Evp_Locale, Evp_Terminal, Evp_UserIdentity, Evp_Shell, Evp_HostConfig] \<and>
         perm_spawn_harness perm \<and> perm_spawn_tools perm
      then Ok () else Err AE_UnsupportedBuiltinCapabilities))"

record ManifestLib =
  ml_toml :: "string \<Rightarrow> PluginManifest option"
  ml_req_parse :: "string \<Rightarrow> VersionReq option"
  ml_version_parse :: "string \<Rightarrow> Version option"
  ml_matches :: "VersionReq \<Rightarrow> Version \<Rightarrow> bool"

definition HarnessAdapter_load :: "ManifestLib \<Rightarrow> string \<Rightarrow> AdapterError + HarnessAdapter" where
  "HarnessAdapter_load lib name =
     res_bind
       (if name = ''claude'' then Ok (HK_Claude, CLAUDE_MANIFEST, Some ''Claude Code'')
        else if name = ''codex'' then Ok (HK_Codex, CODEX_MANIFEST, Some ''codex-cli'')
        else if name = ''opencode'' then Ok (HK_OpenCode, OPENCODE_MANIFEST, None)
        else Err AE_UnsupportedHarness) (\<lambda>(kind, bytes, version_marker).
     res_bind (map_err (\<lambda>_. AE_InvalidBuiltinManifest) (parse_toml (ml_toml lib) bytes)) (\<lambda>manifest.
     res_bind (validate_builtin_contract (ml_req_parse lib) kind manifest) (\<lambda>_.
     Ok \<lparr>ha_kind = kind, ha_manifest = manifest, ha_version_marker = version_marker\<rparr>)))"

definition supports_mode :: "HarnessAdapter \<Rightarrow> NonInteractiveMode \<Rightarrow> bool" where
  "supports_mode adapter mode \<longleftrightarrow> mode \<in> set (hs_noninteractive_modes (pm_harness (ha_manifest adapter)))"

text \<open>The host that executables are looked up and probed on.\<close>

record ProbeHost =
  ph_fs :: HostFs
  ph_tempdir :: "string option"
  ph_os :: ChildOs

definition resolve_compatible_executable ::
  "ManifestLib \<Rightarrow> ProbeHost \<Rightarrow> (string \<Rightarrow> string option) \<Rightarrow> HarnessAdapter \<Rightarrow> (AdapterError + string) option"
where
  "resolve_compatible_executable lib ph var adapter =
     (let hs = pm_harness (ha_manifest adapter) in
      case res_bind (ok_or (var ''PATH'') AE_SearchPathUnavailable) (\<lambda>p.
             res_map (\<lambda>executable. (p, executable)) (map_err AE_Host (resolve_executable (ph_fs ph) (hs_command hs) (Some p)))) of
        Inl e \<Rightarrow> Some (Err e)
      | Inr (p, executable) \<Rightarrow>
          map_option (\<lambda>outcome. res_map (\<lambda>_. executable) (map_err AE_Host outcome))
            (probe_version (ph_fs ph) (ph_tempdir ph) var (ph_os ph) (ml_version_parse lib) (ml_matches lib) executable [''--version'']
              (ha_version_marker adapter) (hs_version_requirement hs) ProbeLimits_default p))"

section \<open>Arguments\<close>

definition windows2 :: "'a list \<Rightarrow> ('a \<times> 'a) list" where
  "windows2 xs = zip xs (tl xs)"

definition codex_overrides_proxy :: "string list \<Rightarrow> bool" where
  "codex_overrides_proxy args \<longleftrightarrow>
     list_ex (\<lambda>(a, b). (a = ''-c'' \<or> a = ''--config'') \<and> starts_with ''openai_base_url'' (trim_start b)) (windows2 args) \<or>
     list_ex (starts_with ''--config=openai_base_url'') args"

definition codex_uses_interactive_mode :: "HarnessAdapter \<Rightarrow> string list \<Rightarrow> bool" where
  "codex_uses_interactive_mode adapter args =
     (case args of
        a # _ \<Rightarrow> if a = ''exec'' then \<not> supports_mode adapter Mode_Exec
                 else if a = ''review'' then \<not> supports_mode adapter Mode_Review else True
      | [] \<Rightarrow> True)"

definition claude_uses_interactive_mode :: "string list \<Rightarrow> bool" where
  "claude_uses_interactive_mode args \<longleftrightarrow> \<not> list_ex (\<lambda>a. a = ''-p'' \<or> a = ''--print'') args"

definition opencode_uses_unproven_interactive_mode :: "string list \<Rightarrow> bool" where
  "opencode_uses_unproven_interactive_mode args \<longleftrightarrow> (case args of a # _ \<Rightarrow> a \<noteq> ''run'' | [] \<Rightarrow> True)"

definition has_arg :: "string list \<Rightarrow> string \<Rightarrow> bool" where
  "has_arg args flag \<longleftrightarrow> list_ex (\<lambda>a. a = flag) args"

definition arg_starts :: "string list \<Rightarrow> string \<Rightarrow> bool" where
  "arg_starts args p \<longleftrightarrow> list_ex (starts_with p) args"

definition has_pair :: "string list \<Rightarrow> string \<Rightarrow> string \<Rightarrow> bool" where
  "has_pair args flag v \<longleftrightarrow> list_ex (\<lambda>(a, b). a = flag \<and> b = v) (windows2 args)"

fun unsupported_agent_argument :: "HarnessKind \<Rightarrow> string list \<Rightarrow> string option" where
  "unsupported_agent_argument HK_Claude args =
     (if has_arg args ''--dangerously-skip-permissions'' \<or> has_arg args ''--allow-dangerously-skip-permissions'' \<or>
         has_arg args ''--remote-control'' \<or> arg_starts args ''--remote-control='' \<or> has_arg args ''--tmux'' \<or>
         arg_starts args ''--tmux='' \<or> has_arg args ''--worktree'' \<or> arg_starts args ''--worktree='' \<or>
         has_arg args ''--plugin-url'' \<or> arg_starts args ''--plugin-url='' \<or> has_arg args ''--continue'' \<or> has_arg args ''-c'' \<or>
         has_arg args ''--resume'' \<or> has_arg args ''-r'' \<or> has_arg args ''--from-pr'' \<or>
         has_pair args ''--permission-mode'' ''bypassPermissions'' \<or> arg_starts args ''--permission-mode=bypassPermissions''
      then Some (''Claude arguments request an unsupported or dangerous mode; use explicit `--print` without resume, '' @
        ''remote, worktree, plugin, or permission-bypass options'')
      else None)"
| "unsupported_agent_argument HK_Codex args =
     (if has_arg args ''--dangerously-bypass-approvals-and-sandbox'' \<or> has_arg args ''--dangerously-bypass-hook-trust'' \<or>
         has_arg args ''--search''
      then Some ''Codex arguments request an unsupported or dangerous mode; remove dangerous or search flags'' else None)"
| "unsupported_agent_argument HK_OpenCode args =
     (if has_arg args ''--interactive'' \<or> has_arg args ''--dangerously-skip-permissions'' \<or>
         (case args of a # _ \<Rightarrow> a \<in> set [''serve'', ''web'', ''attach'', ''acp'', ''mcp'', ''github'', ''pr'', ''plugin''] | [] \<Rightarrow> False)
      then Some (''OpenCode arguments request an unsupported or dangerous mode; use `opencode run ...` without interactive, '' @
        ''server, or plugin options'')
      else None)"

text \<open>The checks of the arguments in the order of the command.\<close>

definition check_agent_arguments :: "HarnessAdapter \<Rightarrow> string list \<Rightarrow> string + unit" where
  "check_agent_arguments adapter args =
     (let kind = ha_kind adapter in
      case unsupported_agent_argument kind args of
        Some message \<Rightarrow> Err message
      | None \<Rightarrow>
          if kind = HK_Codex \<and> codex_overrides_proxy args
          then Err ''Codex arguments override the managed OpenAI base URL; remove that override''
          else if kind = HK_Claude \<and> (\<not> supports_mode adapter Mode_Print \<or> claude_uses_interactive_mode args)
          then Err (''Claude interactive mode is not supported; use `blindfold run claude -- --print ...` or '' @
            ''`blindfold run claude -- -p ...`'')
          else if kind = HK_Codex \<and> codex_uses_interactive_mode adapter args
          then Err (''Codex interactive mode is not supported; use `blindfold run codex -- exec ...` or '' @
            ''`blindfold run codex -- review ...`'')
          else if kind = HK_OpenCode \<and> (\<not> supports_mode adapter Mode_Run \<or> opencode_uses_unproven_interactive_mode args)
          then Err ''OpenCode interactive/TUI mode is not supported; use `blindfold run opencode -- run ...`''
          else Ok ())"

section \<open>The configuration of OpenCode\<close>

text \<open>A JSON object is a sorted map; a missing field is created as null before it is merged.\<close>

fun merge_json :: "json \<Rightarrow> json \<Rightarrow> json"
  and merge_fields :: "(string \<times> json) list \<Rightarrow> (string \<times> json) list \<Rightarrow> (string \<times> json) list"
where
  "merge_json (JObj target) (JObj overlay) = JObj (merge_fields target overlay)"
| "merge_json _ overlay = overlay"
| "merge_fields target [] = target"
| "merge_fields target ((k, v) # overlay) =
     merge_fields (bt_insert k (merge_json (case bt_get target k of Some w \<Rightarrow> w | None \<Rightarrow> JNull) v) target) overlay"

definition base_url_overlay :: "string \<Rightarrow> string \<Rightarrow> json" where
  "base_url_overlay proxy_origin route = JObj [(''options'', JObj [(''baseURL'', JStr (proxy_origin @ ''/'' @ route @ ''/v1''))])]"

definition opencode_overlay :: "string \<Rightarrow> json" where
  "opencode_overlay proxy_origin =
     JObj [(''provider'', JObj (map (\<lambda>route. (route, base_url_overlay proxy_origin route)) [''anthropic'', ''openai'', ''openrouter'']))]"

definition opencode_proxy_config :: "(string \<Rightarrow> json option) \<Rightarrow> string option \<Rightarrow> string \<Rightarrow> json" where
  "opencode_proxy_config parse variable proxy_origin =
     (let config = (case variable of
          Some v \<Rightarrow> (case parse v of Some j \<Rightarrow> if is_object j then j else JObj [] | None \<Rightarrow> JObj [])
        | None \<Rightarrow> JObj [])
      in merge_json config (opencode_overlay proxy_origin))"

section \<open>The proxy and the environment of the agent\<close>

record AgentArgs =
  aa_agent :: "string option"
  aa_args :: "string list"
  aa_anthropic :: "string option"
  aa_openai :: "string option"
  aa_openrouter :: "string option"

definition or_default :: "string option \<Rightarrow> string \<Rightarrow> string" where
  "or_default v d = (case v of Some t \<Rightarrow> t | None \<Rightarrow> d)"

definition agent_upstreams :: "(string \<Rightarrow> Url option) \<Rightarrow> HarnessKind \<Rightarrow> AgentArgs \<Rightarrow> string + Upstream list" where
  "agent_upstreams url_parse kind args =
     (let anthropic = or_default (aa_anthropic args) ''https://api.anthropic.com'';
          openai = or_default (aa_openai args)
            (if kind = HK_Codex then ''https://chatgpt.com/backend-api/codex'' else ''https://api.openai.com'');
          openrouter = or_default (aa_openrouter args) ''https://openrouter.ai/api'';
          upstream = (\<lambda>name url provider. map_err ConfigError_fmt (Upstream_new url_parse name url provider)) in
      case kind of
        HK_Claude \<Rightarrow> res_bind (upstream ''anthropic'' anthropic Prov_Anthropic) (\<lambda>a. Ok [a])
      | HK_Codex \<Rightarrow> res_bind (upstream ''openai'' openai Prov_OpenAi) (\<lambda>o1. Ok [o1])
      | HK_OpenCode \<Rightarrow>
          res_bind (upstream ''anthropic'' anthropic Prov_Anthropic) (\<lambda>a.
          res_bind (upstream ''openai'' openai Prov_OpenAi) (\<lambda>o1.
          res_bind (upstream ''openrouter'' openrouter Prov_OpenAi) (\<lambda>o2. Ok [a, o1, o2]))))"

definition INHERITED_ENV :: "string list" where
  "INHERITED_ENV = [''PATH'', ''HOME'', ''USER'', ''LOGNAME'', ''SHELL'', ''TERM'', ''TMPDIR'', ''LANG'', ''LC_ALL'', ''XDG_CONFIG_HOME'',
     ''XDG_DATA_HOME'', ''XDG_CACHE_HOME'', ''NO_COLOR'', ''COLORTERM'']"

record ManagedCommand =
  mc_program :: string
  mc_args :: "string list"
  mc_env :: "string \<Rightarrow> string option"

definition configure_managed_agent_environment :: "(string \<Rightarrow> string option) \<Rightarrow> bool \<Rightarrow> string \<Rightarrow> string option" where
  "configure_managed_agent_environment var locked =
     (let env = (\<lambda>n. if n \<in> set INHERITED_ENV then var n else None) in
      if locked
      then env(''ANTHROPIC_API_KEY'' \<mapsto> ''blindfold-managed-placeholder'', ''OPENAI_API_KEY'' \<mapsto> ''sk-blindfold-managed-placeholder'',
             ''OPENROUTER_API_KEY'' \<mapsto> ''sk-or-v1-blindfold-managed-placeholder'')
      else env)"

definition configure_agent_command ::
  "(string \<Rightarrow> json option) \<Rightarrow> (json \<Rightarrow> string) \<Rightarrow> (string \<Rightarrow> string option) \<Rightarrow> HarnessKind \<Rightarrow> ManagedCommand \<Rightarrow> string list \<Rightarrow> string \<Rightarrow> ManagedCommand"
where
  "configure_agent_command parse print var kind command agent_args proxy_origin =
     (case kind of
        HK_Claude \<Rightarrow> command\<lparr>mc_args := mc_args command @ agent_args,
          mc_env := (mc_env command)(''ANTHROPIC_BASE_URL'' \<mapsto> proxy_origin @ ''/anthropic'')\<rparr>
      | HK_Codex \<Rightarrow> command\<lparr>mc_args := mc_args command @ [''-c'', ''openai_base_url=\"'' @ proxy_origin @ ''/openai\"''] @ agent_args\<rparr>
      | HK_OpenCode \<Rightarrow> command\<lparr>mc_args := mc_args command @ agent_args,
          mc_env := (mc_env command)(''OPENCODE_CONFIG_CONTENT'' \<mapsto> print (opencode_proxy_config parse
            (case var ''OPENCODE_CONFIG_CONTENT'' of Some v \<Rightarrow> if utf8_valid v then Some v else None | None \<Rightarrow> None) proxy_origin))\<rparr>)"

definition run_trace_route :: "HarnessKind \<Rightarrow> Route" where
  "run_trace_route kind = (case kind of HK_Claude \<Rightarrow> Route_RunClaude | HK_Codex \<Rightarrow> Route_RunCodex | HK_OpenCode \<Rightarrow> Route_RunOpencode)"

section \<open>The output of the agent\<close>

definition MANAGED_AGENT_OUTPUT_LIMIT :: nat where
  "MANAGED_AGENT_OUTPUT_LIMIT = 4 * 1024 * 1024"

definition MANAGED_AGENT_OUTPUT_TRUNCATION_OVERLAP :: nat where
  "MANAGED_AGENT_OUTPUT_TRUNCATION_OVERLAP = 512"

record AgentOutput =
  ao_bytes :: string
  ao_truncated :: bool

definition read_bounded_agent_output :: "string + string \<Rightarrow> string + AgentOutput" where
  "read_bounded_agent_output stream =
     res_map (\<lambda>bytes.
         let buffer = take (MANAGED_AGENT_OUTPUT_LIMIT + 1) bytes; truncated = length buffer > MANAGED_AGENT_OUTPUT_LIMIT in
         \<lparr>ao_bytes = (if truncated then take MANAGED_AGENT_OUTPUT_LIMIT buffer else buffer), ao_truncated = truncated\<rparr>) stream"

definition truncation_notice :: string where
  "truncation_notice = nl @ ''[BLINDFOLD: child output exceeded capture limit; tail omitted before redaction]'' @ nl"

text \<open>What is handed to the writer.\<close>

definition write_sanitized_agent_output :: "DetectorSet \<Rightarrow> AgentOutput \<Rightarrow> string" where
  "write_sanitized_agent_output ds output' =
     (let bytes = (if ao_truncated output'
                   then take (length (ao_bytes output') - MANAGED_AGENT_OUTPUT_TRUNCATION_OVERLAP) (ao_bytes output')
                   else ao_bytes output')
      in sanitize_text ds (to_string_lossy bytes) @ (if ao_truncated output' then truncation_notice else []))"

text \<open>
  A started child: its exit, \<open>None\<close> while it runs; its two streams or the error of reading them; whether the
  two writers take what they are handed.  Errors are printed kinds.
\<close>

record ManagedChild =
  mg_spawn :: "string + unit"
  mg_wait :: "(string + ExitStatus) option"
  mg_stdout :: "string + string"
  mg_stderr :: "string + string"
  mg_write_stdout :: "string + unit"
  mg_write_stderr :: "string + unit"

definition run_managed_agent_with_sanitized_output :: "DetectorSet \<Rightarrow> ManagedChild \<Rightarrow> ((string + ExitStatus) \<times> string list) option" where
  "run_managed_agent_with_sanitized_output ds child =
     (case mg_spawn child of
        Inl e \<Rightarrow> Some (Err e, [])
      | Inr _ \<Rightarrow>
          map_option (\<lambda>waited.
            case res_bind waited (\<lambda>status.
                 res_bind (read_bounded_agent_output (mg_stdout child)) (\<lambda>stdout.
                 res_map (\<lambda>stderr. (status, write_sanitized_agent_output ds stdout, write_sanitized_agent_output ds stderr))
                   (read_bounded_agent_output (mg_stderr child)))) of
              Inl e \<Rightarrow> (Err e, [])
            | Inr (status, out, err) \<Rightarrow>
                (case mg_write_stdout child of
                   Inl e \<Rightarrow> (Err e, [out])
                 | Inr _ \<Rightarrow> (res_map (\<lambda>_. status) (mg_write_stderr child), [out, err])))
            (mg_wait child))"

section \<open>The command\<close>

text \<open>
  The host: its variables and proc files, the libraries, the addresses the two servers get, the child a
  command starts, what the servers do to the file system while the agent runs and whether a record failed.
\<close>

record AgentHost =
  ah_var :: "string \<Rightarrow> string option"
  ah_proc :: "string \<Rightarrow> string option"
  ah_lib :: ManifestLib
  ah_probe :: ProbeHost
  ah_url :: "string \<Rightarrow> Url option"
  ah_http :: HttpLib
  ah_proxy_bound :: "SocketAddr option"
  ah_egress_bound :: "string + SocketAddr"
  ah_detectors :: DetectorSet
  ah_parse :: "string \<Rightarrow> json option"
  ah_print :: "json \<Rightarrow> string"
  ah_policy_codec :: PolicyCodec
  ah_follow :: "path \<Rightarrow> ReadText"
  ah_child :: "ManagedCommand \<Rightarrow> ManagedChild"
  ah_meanwhile :: "Fs \<Rightarrow> Fs"
  ah_sink_failed :: bool
  ah_trace_codec :: TraceCodec
  ah_clock :: int
  ah_counter :: "64 word"

definition locked_boundary :: "AgentHost \<Rightarrow> bool" where
  "locked_boundary h \<longleftrightarrow> ah_var h ''BLINDFOLD_LOCKED_BOUNDARY'' \<noteq> None"

text \<open>Everything before the servers start; \<open>None\<close> while the version probe runs.\<close>

definition agent_prepare :: "AgentHost \<Rightarrow> AgentArgs \<Rightarrow> (string + HarnessAdapter \<times> string) option" where
  "agent_prepare h args =
     (case res_bind (if locked_boundary h then verify_network_none (ah_proc h) else Ok ()) (\<lambda>_.
           res_bind (map_err AdapterError_fmt (HarnessAdapter_load (ah_lib h) (or_default (aa_agent args) ''claude''))) (\<lambda>adapter.
           res_map (\<lambda>_. adapter) (check_agent_arguments adapter (aa_args args)))) of
        Inl e \<Rightarrow> Some (Err e)
      | Inr adapter \<Rightarrow>
          map_option (\<lambda>outcome. res_map (\<lambda>executable. (adapter, executable)) (map_err AdapterError_fmt outcome))
            (resolve_compatible_executable (ah_lib h) (ah_probe h) (ah_var h) adapter))"

text \<open>Both servers listen on 127.0.0.1.\<close>

definition loopback_origin :: "SocketAddr \<Rightarrow> string" where
  "loopback_origin addr = ''http://127.0.0.1:'' @ nat_str (unat (sa_port addr))"

record AgentServers =
  as_state :: AppState
  as_proxy_origin :: string
  as_policy :: EgressNetworkPolicy
  as_egress_origin :: string

definition agent_servers :: "AgentHost \<Rightarrow> path \<Rightarrow> bool \<Rightarrow> HarnessKind \<Rightarrow> AgentArgs \<Rightarrow> (string, AgentServers) fsm" where
  "agent_servers h dir trace_enabled kind args =
     fs_bind (fs_lift (agent_upstreams (ah_url h) kind args)) (\<lambda>us.
     fs_bind (fs_lift (map_err ConfigError_fmt
       (Proxy_new (Config_default\<lparr>cfg_bind_addr := \<lparr>sa_ip = ipv4_localhost, sa_port = 0\<rparr>, cfg_upstreams := us\<rparr>)))) (\<lambda>config.
     fs_bind (if trace_enabled then (\<lambda>s. case open_trace_store dir s of (r, s') \<Rightarrow> (res_map (\<lambda>_. ()) (map_err TraceError_fmt r), s'))
              else fs_ret ()) (\<lambda>_.
     fs_bind (fs_lift (map_err ConfigError_fmt
       (Proxy_bind (ah_http h) (ah_proxy_bound h) config (DetectorSanitizer (ah_detectors h)) trace_enabled))) (\<lambda>(st, proxy_addr).
     fs_bind (EgressNetworkPolicy_load (ah_policy_codec h) (ah_follow h) dir) (\<lambda>policy.
     fs_bind (fs_lift (map_err (\<lambda>kind. ''could not start egress guard: '' @ kind) (ah_egress_bound h))) (\<lambda>egress_addr.
     fs_ret \<lparr>as_state = st, as_proxy_origin = loopback_origin proxy_addr, as_policy = policy,
             as_egress_origin = loopback_origin egress_addr\<rparr>))))))"

definition agent_command :: "AgentHost \<Rightarrow> HarnessKind \<Rightarrow> string \<Rightarrow> AgentArgs \<Rightarrow> AgentServers \<Rightarrow> ManagedCommand" where
  "agent_command h kind executable args srv =
     (let command = \<lparr>mc_program = executable, mc_args = [], mc_env = configure_managed_agent_environment (ah_var h) (locked_boundary h)\<rparr>;
          command = configure_agent_command (ah_parse h) (ah_print h) (ah_var h) kind command (aa_args args) (as_proxy_origin srv)
      in command\<lparr>mc_env := (mc_env command)(''HTTP_PROXY'' \<mapsto> as_egress_origin srv, ''HTTPS_PROXY'' \<mapsto> as_egress_origin srv,
           ''ALL_PROXY'' \<mapsto> as_egress_origin srv, ''NO_PROXY'' \<mapsto> ''localhost,127.0.0.1,::1'')\<rparr>)"

text \<open>After the agent: the failed trace comes first, then the record of the run, then the agent's status.\<close>

definition agent_finish ::
  "AgentHost \<Rightarrow> path \<Rightarrow> bool \<Rightarrow> HarnessKind \<Rightarrow> string + ExitStatus \<Rightarrow> Fs \<Rightarrow> (string + nat) \<times> Fs"
where
  "agent_finish h dir trace_enabled kind status s =
     (if trace_enabled \<and> ah_sink_failed h then (Err ''one or more request traces could not be persisted safely'', s)
      else
        case (if trace_enabled
              then append_degraded_run_trace (ah_trace_codec h) (ah_clock h) (ah_counter h) dir (run_trace_route kind) Issue_DirectFilesystemUnmediated s
              else (Ok (), s)) of
          (Inl e, s) \<Rightarrow> (Err (TraceError_fmt e), s)
        | (Inr _, s) \<Rightarrow>
            (case status of Inl kind \<Rightarrow> Err (''could not run agent: '' @ kind) | Inr st \<Rightarrow> Ok (exit_from_code (es_code st)), s))"

text \<open>What came of the command: the agent that was started, if any, with its servers; what was printed of its output; the exit.\<close>

record AgentRun =
  ar_started :: "(ManagedCommand \<times> AgentServers) option"
  ar_printed :: "string list"
  ar_exit :: "string + nat"
  ar_fs :: Fs

definition run_agent_command :: "AgentHost \<Rightarrow> path \<Rightarrow> AgentArgs \<Rightarrow> bool \<Rightarrow> Fs \<Rightarrow> AgentRun option" where
  "run_agent_command h dir args trace_enabled fs =
     Option.bind (agent_prepare h args) (\<lambda>prepared.
       case prepared of
         Inl e \<Rightarrow> Some \<lparr>ar_started = None, ar_printed = [], ar_exit = Err e, ar_fs = fs\<rparr>
       | Inr (adapter, executable) \<Rightarrow>
           (case agent_servers h dir trace_enabled (ha_kind adapter) args fs of
              (Inl e, fs) \<Rightarrow> Some \<lparr>ar_started = None, ar_printed = [], ar_exit = Err e, ar_fs = fs\<rparr>
            | (Inr srv, fs) \<Rightarrow>
                (let command = agent_command h (ha_kind adapter) executable args srv in
                 map_option (\<lambda>(status, printed).
                   case agent_finish h dir trace_enabled (ha_kind adapter) status (ah_meanwhile h fs) of
                     (r, fs) \<Rightarrow> \<lparr>ar_started = Some (command, srv), ar_printed = printed, ar_exit = r, ar_fs = fs\<rparr>)
                   (run_managed_agent_with_sanitized_output (ah_detectors h) (ah_child h command)))))"

section \<open>Lemmas: merging\<close>

text \<open>A value as the JSON library builds it: every object is sorted.\<close>

fun json_sorted :: "json \<Rightarrow> bool" where
  "json_sorted (JObj fs) = (bt_inv fs \<and> (\<forall>(k, v)\<in>set fs. json_sorted v))"
| "json_sorted (JArr vs) = (\<forall>v\<in>set vs. json_sorted v)"
| "json_sorted _ = True"

fun json_path :: "string list \<Rightarrow> json \<Rightarrow> json option" where
  "json_path [] v = Some v"
| "json_path (k # ks) v = (case json_get k v of None \<Rightarrow> None | Some w \<Rightarrow> json_path ks w)"

text \<open>A path that leaves a value at a field that an object on the way does not have.\<close>

fun leaves_overlay :: "string list \<Rightarrow> json \<Rightarrow> bool" where
  "leaves_overlay (k # ks) (JObj fs) = (case map_of fs k of None \<Rightarrow> True | Some w \<Rightarrow> leaves_overlay ks w)"
| "leaves_overlay _ _ = False"

lemma merge_fields_get:
  "bt_inv target \<Longrightarrow> distinct (map fst overlay) \<Longrightarrow>
     bt_inv (merge_fields target overlay) \<and>
     bt_get (merge_fields target overlay) k =
       (case map_of overlay k of None \<Rightarrow> bt_get target k
        | Some v \<Rightarrow> Some (merge_json (case bt_get target k of Some w \<Rightarrow> w | None \<Rightarrow> JNull) v))"
proof (induction overlay arbitrary: target)
  case (Cons kv overlay)
  obtain k' v where kv: "kv = (k', v)" by force
  have "map_of overlay k' = None" using Cons.prems(2) by (simp add: kv map_of_eq_None_iff)
  then show ?case
    using Cons.IH[OF bt_inv_insert[OF Cons.prems(1)]] Cons.prems by (auto simp: kv bt_get_insert split: option.splits)
qed simp

lemma merge_json_nonobject: "\<not> is_object target \<or> \<not> is_object overlay \<Longrightarrow> merge_json target overlay = overlay"
  by (cases target; cases overlay) auto

lemma merge_json_get:
  assumes "json_sorted (JObj ts)" and "json_sorted (JObj os)"
  shows "json_get k (merge_json (JObj ts) (JObj os)) =
    (case map_of os k of None \<Rightarrow> map_of ts k
     | Some v \<Rightarrow> Some (merge_json (case map_of ts k of Some w \<Rightarrow> w | None \<Rightarrow> JNull) v))"
  using merge_fields_get[of ts os k] assms bt_inv_distinct[of os] by (simp add: bt_get_def split: option.split)

lemma json_sorted_field: "json_sorted (JObj fs) \<Longrightarrow> map_of fs k = Some v \<Longrightarrow> json_sorted v"
  using map_of_SomeD by fastforce

text \<open>The overlay wins at its leaves; a path that leaves it keeps its value.\<close>

lemma merge_json_leaf:
  "json_sorted target \<Longrightarrow> json_sorted overlay \<Longrightarrow> json_path ks overlay = Some x \<Longrightarrow> \<not> is_object x \<Longrightarrow>
     json_path ks (merge_json target overlay) = Some x"
proof (induction ks arbitrary: target overlay)
  case Nil
  then show ?case by (simp add: merge_json_nonobject)
next
  case (Cons k ks)
  show ?case
  proof (cases "is_object target")
    case False
    then show ?thesis using Cons.prems by (simp add: merge_json_nonobject)
  next
    case True
    then obtain ts os w where t: "target = JObj ts" and o: "overlay = JObj os" and w: "map_of os k = Some w" "json_path ks w = Some x"
      using Cons.prems(3) by (cases target) (auto simp: json_get_some split: option.splits)
    have "json_path ks (merge_json (case map_of ts k of Some w \<Rightarrow> w | None \<Rightarrow> JNull) w) = Some x"
      using Cons.IH[OF _ _ w(2) Cons.prems(4)] Cons.prems(1,2) json_sorted_field w(1) unfolding t o by (auto split: option.split)
    then show ?thesis using merge_json_get[of ts os k] Cons.prems(1,2) w(1) by (simp add: t o)
  qed
qed

lemma leaves_overlay_none: "leaves_overlay ks v \<Longrightarrow> json_path ks v = None"
  by (induction ks v rule: leaves_overlay.induct) (auto split: option.splits)

lemma merge_json_elsewhere:
  "json_sorted target \<Longrightarrow> json_sorted overlay \<Longrightarrow> leaves_overlay ks overlay \<Longrightarrow>
     json_path ks (merge_json target overlay) = json_path ks target"
proof (induction ks arbitrary: target overlay)
  case (Cons k ks)
  then obtain os where o: "overlay = JObj os" by (cases overlay) auto
  show ?case
  proof (cases "is_object target")
    case False
    then have "json_path (k # ks) target = None" by (cases target) auto
    then show ?thesis using leaves_overlay_none[OF Cons.prems(3)] False by (simp add: merge_json_nonobject)
  next
    case True
    then obtain ts where t: "target = JObj ts" by (cases target) auto
    note get = merge_json_get[OF Cons.prems(1,2)[unfolded t o], of k]
    show ?thesis
    proof (cases "map_of os k")
      case None
      then show ?thesis using get by (simp add: t o)
    next
      case (Some w)
      then have l: "leaves_overlay ks w" using Cons.prems(3) by (simp add: o)
      then have n: "json_path ks JNull = None" by (cases ks) auto
      have "json_path ks (merge_json (case map_of ts k of Some w \<Rightarrow> w | None \<Rightarrow> JNull) w) =
          json_path ks (case map_of ts k of Some w \<Rightarrow> w | None \<Rightarrow> JNull)"
        using Cons.IH[OF _ _ l] Cons.prems(1,2) json_sorted_field Some unfolding t o by (auto split: option.split)
      then show ?thesis using get n by (simp add: t o Some split: option.splits)
    qed
  qed
qed simp

lemma opencode_overlay_sorted: "json_sorted (opencode_overlay origin)"
  by (simp add: opencode_overlay_def base_url_overlay_def less_char_def)

definition base_url_path :: "string \<Rightarrow> string list" where
  "base_url_path route = [''provider'', route, ''options'', ''baseURL'']"

lemma opencode_overlay_path:
  "route \<in> {''anthropic'', ''openai'', ''openrouter''} \<Longrightarrow>
     json_path (base_url_path route) (opencode_overlay origin) = Some (JStr (origin @ ''/'' @ route @ ''/v1''))"
  by (auto simp: opencode_overlay_def base_url_overlay_def base_url_path_def)

lemma opencode_config_merged:
  assumes "\<And>t v. parse t = Some v \<Longrightarrow> json_sorted v"
  shows "route \<in> {''anthropic'', ''openai'', ''openrouter''} \<Longrightarrow>
      json_path (base_url_path route) (opencode_proxy_config parse variable origin) = Some (JStr (origin @ ''/'' @ route @ ''/v1''))"
    and "variable = Some t \<Longrightarrow> parse t = Some v \<Longrightarrow> is_object v \<Longrightarrow> leaves_overlay ks (opencode_overlay origin) \<Longrightarrow>
      json_path ks (opencode_proxy_config parse variable origin) = json_path ks v"
proof -
  have "\<exists>v. json_sorted v \<and> opencode_proxy_config parse variable origin = merge_json v (opencode_overlay origin)"
    using assms by (cases variable) (auto simp: opencode_proxy_config_def Let_def split: option.split intro: exI[of _ "JObj []"])
  then show "route \<in> {''anthropic'', ''openai'', ''openrouter''} \<Longrightarrow>
      json_path (base_url_path route) (opencode_proxy_config parse variable origin) = Some (JStr (origin @ ''/'' @ route @ ''/v1''))"
    using merge_json_leaf[OF _ opencode_overlay_sorted opencode_overlay_path] by auto
  show "variable = Some t \<Longrightarrow> parse t = Some v \<Longrightarrow> is_object v \<Longrightarrow> leaves_overlay ks (opencode_overlay origin) \<Longrightarrow>
      json_path ks (opencode_proxy_config parse variable origin) = json_path ks v"
    using merge_json_elsewhere[OF assms opencode_overlay_sorted] by (simp add: opencode_proxy_config_def Let_def)
qed

section \<open>Lemmas: the command\<close>

lemma HarnessAdapter_load_kind:
  "HarnessAdapter_load lib name = Ok adapter \<Longrightarrow>
     name = (case ha_kind adapter of HK_Claude \<Rightarrow> ''claude'' | HK_Codex \<Rightarrow> ''codex'' | HK_OpenCode \<Rightarrow> ''opencode'') \<and>
     validate_builtin_contract (ml_req_parse lib) (ha_kind adapter) (ha_manifest adapter) = Ok ()"
  by (auto simp: HarnessAdapter_load_def res_bind_ok_iff split: if_splits)

lemma agent_prepare_ok:
  "agent_prepare h args = Some (Ok (adapter, executable)) \<Longrightarrow>
     (locked_boundary h \<longrightarrow> verify_network_none (ah_proc h) = Ok ()) \<and>
     HarnessAdapter_load (ah_lib h) (or_default (aa_agent args) ''claude'') = Ok adapter \<and>
     check_agent_arguments adapter (aa_args args) = Ok () \<and>
     resolve_compatible_executable (ah_lib h) (ah_probe h) (ah_var h) adapter = Some (Ok executable)"
  by (auto simp: agent_prepare_def res_bind_ok_iff res_map_ok_iff map_err_ok_iff split: sum.splits if_splits)

fun agent_routes :: "HarnessKind \<Rightarrow> string list" where
  "agent_routes HK_Claude = [''anthropic'']"
| "agent_routes HK_Codex = [''openai'']"
| "agent_routes HK_OpenCode = [''anthropic'', ''openai'', ''openrouter'']"

lemma agent_upstreams_ok:
  "agent_upstreams url_parse kind args = Ok us \<Longrightarrow> map up_name us = agent_routes kind \<and> list_all (\<lambda>u. up_gateway_credential u = None) us"
  by (cases kind) (auto simp: agent_upstreams_def Let_def res_bind_ok_iff map_err_ok_iff Upstream_new_def)

lemma agent_servers_ok:
  assumes "agent_servers h dir trace_enabled kind args fs = (Ok srv, fs')"
  shows "st_sanitizer (as_state srv) = DetectorSanitizer (ah_detectors h) \<and>
    dom (st_upstreams (as_state srv)) = set (agent_routes kind) \<and>
    (\<exists>s s'. EgressNetworkPolicy_load (ah_policy_codec h) (ah_follow h) dir s = (Ok (as_policy srv), s'))"
proof -
  let ?config = "\<lambda>us. Config_default\<lparr>cfg_bind_addr := \<lparr>sa_ip = ipv4_localhost, sa_port = 0\<rparr>, cfg_upstreams := us\<rparr>"
  have "\<exists>us st addr s s'. agent_upstreams (ah_url h) kind args = Ok us \<and>
      Proxy_bind (ah_http h) (ah_proxy_bound h) (?config us) (DetectorSanitizer (ah_detectors h)) trace_enabled = Ok (st, addr) \<and>
      as_state srv = st \<and> EgressNetworkPolicy_load (ah_policy_codec h) (ah_follow h) dir s = (Ok (as_policy srv), s')"
    using assms
    by (auto simp: agent_servers_def fs_simps Proxy_new_def res_bind_ok_iff map_err_ok_iff split: prod.splits sum.splits if_splits; blast)
  then obtain us st addr where us: "agent_upstreams (ah_url h) kind args = Ok us" and srv: "as_state srv = st"
    and b: "Proxy_bind (ah_http h) (ah_proxy_bound h) (?config us) (DetectorSanitizer (ah_detectors h)) trace_enabled = Ok (st, addr)"
    and p: "\<exists>s s'. EgressNetworkPolicy_load (ah_policy_codec h) (ah_follow h) dir s = (Ok (as_policy srv), s')" by blast
  have "map up_name us = agent_routes kind" using agent_upstreams_ok[OF us] by simp
  then have "set (map up_name us) = set (agent_routes kind)" by simp
  moreover have "dom (map_of (rev (map (\<lambda>u. (up_name u, u)) us))) = set (map up_name us)"
    by (simp add: dom_map_of_conv_image_fst image_image)
  moreover have "st_upstreams st = map_of (rev (map (\<lambda>u. (up_name u, u)) us))" "st_sanitizer st = DetectorSanitizer (ah_detectors h)"
    using b by (auto simp: Proxy_bind_def res_bind_ok_iff)
  ultimately show ?thesis using p by (simp add: srv)
qed

lemma run_managed_printed:
  assumes "run_managed_agent_with_sanitized_output ds child = Some (status, printed)" and "t \<in> set printed"
  shows "\<exists>s. redacted_text ds s \<and> (t = s \<or> t = s @ truncation_notice)"
proof -
  have "\<exists>s. redacted_text ds s \<and> (write_sanitized_agent_output ds out = s \<or> write_sanitized_agent_output ds out = s @ truncation_notice)" for out
    unfolding write_sanitized_agent_output_def Let_def using redacted_sanitize by (metis append_Nil2)
  moreover have "\<exists>out. t = write_sanitized_agent_output ds out"
  proof (cases "mg_wait child")
    case None
    then show ?thesis using assms by (auto simp: run_managed_agent_with_sanitized_output_def split: sum.splits)
  next
    case (Some waited)
    show ?thesis
      using assms unfolding run_managed_agent_with_sanitized_output_def Some option.map option.inject
      by (auto simp: res_bind_ok_iff res_map_ok_iff split: sum.split_asm prod.split_asm)
  qed
  ultimately show ?thesis by blast
qed

definition MANAGED_ENV :: "string list" where
  "MANAGED_ENV = [''ANTHROPIC_API_KEY'', ''OPENAI_API_KEY'', ''OPENROUTER_API_KEY'', ''ANTHROPIC_BASE_URL'', ''OPENCODE_CONFIG_CONTENT'',
     ''HTTP_PROXY'', ''HTTPS_PROXY'', ''ALL_PROXY'', ''NO_PROXY'']"

text \<open>What points each agent at the proxy.\<close>

definition pointed_at_proxy :: "AgentHost \<Rightarrow> HarnessKind \<Rightarrow> string list \<Rightarrow> string \<Rightarrow> ManagedCommand \<Rightarrow> bool" where
  "pointed_at_proxy h kind args origin command \<longleftrightarrow>
     (case kind of
        HK_Claude \<Rightarrow> mc_args command = args \<and> mc_env command ''ANTHROPIC_BASE_URL'' = Some (origin @ ''/anthropic'')
      | HK_Codex \<Rightarrow> mc_args command = [''-c'', ''openai_base_url=\"'' @ origin @ ''/openai\"''] @ args \<and> \<not> codex_overrides_proxy args
      | HK_OpenCode \<Rightarrow> mc_args command = args \<and>
          (\<exists>config. mc_env command ''OPENCODE_CONFIG_CONTENT'' = Some (ah_print h config) \<and>
             (\<forall>route\<in>set (agent_routes kind). json_path (base_url_path route) config = Some (JStr (origin @ ''/'' @ route @ ''/v1'')))))"

lemma env_names: "n \<in> set INHERITED_ENV \<Longrightarrow> n \<notin> set MANAGED_ENV"
  by (auto simp: INHERITED_ENV_def MANAGED_ENV_def)

lemma agent_command_env:
  assumes "n \<notin> set MANAGED_ENV"
  shows "mc_env (agent_command h kind executable args srv) n = (if n \<in> set INHERITED_ENV then ah_var h n else None)"
  using assms
  by (cases kind) (auto simp: agent_command_def configure_agent_command_def configure_managed_agent_environment_def Let_def MANAGED_ENV_def)

lemma agent_command_pointed:
  assumes "\<And>t v. ah_parse h t = Some v \<Longrightarrow> json_sorted v" and "kind = HK_Codex \<Longrightarrow> \<not> codex_overrides_proxy (aa_args args)"
  shows "pointed_at_proxy h kind (aa_args args) (as_proxy_origin srv) (agent_command h kind executable args srv)"
  using assms(2) opencode_config_merged(1)[of "ah_parse h", OF assms(1)]
  by (cases kind) (auto simp: pointed_at_proxy_def agent_command_def configure_agent_command_def Let_def)

section \<open>Properties\<close>


text \<open>
  The check of the Codex arguments misses the short option with its value attached, and blanks in the long
  form, which it skips in the separate form.
\<close>

lemma codex_override_missed:
  "\<not> codex_overrides_proxy [''exec'', ''-copenai_base_url=http://evil'']"
  "\<not> codex_overrides_proxy [''exec'', ''--config= openai_base_url=http://evil'']"
  "codex_overrides_proxy [''exec'', ''--config'', '' openai_base_url=http://evil'']"
  by code_simp+

text \<open>
  What is printed of a truncated output is the sanitized text of its first bytes up to the overlap: the
  bytes after that offset are cut before the detectors run, so a secret across the offset is not seen whole.
\<close>

lemma truncated_before_redaction:
  assumes "read_bounded_agent_output (Ok bytes) = Ok out" and "ao_truncated out"
  shows "write_sanitized_agent_output ds out =
    sanitize_text ds (to_string_lossy (take (MANAGED_AGENT_OUTPUT_LIMIT - MANAGED_AGENT_OUTPUT_TRUNCATION_OVERLAP) bytes)) @ truncation_notice"
proof -
  have l: "length bytes > MANAGED_AGENT_OUTPUT_LIMIT" "out = \<lparr>ao_bytes = take MANAGED_AGENT_OUTPUT_LIMIT bytes, ao_truncated = True\<rparr>"
    using assms by (auto simp: read_bounded_agent_output_def Let_def)
  have "min (MANAGED_AGENT_OUTPUT_LIMIT - MANAGED_AGENT_OUTPUT_TRUNCATION_OVERLAP) MANAGED_AGENT_OUTPUT_LIMIT =
      MANAGED_AGENT_OUTPUT_LIMIT - MANAGED_AGENT_OUTPUT_TRUNCATION_OVERLAP" by simp
  then show ?thesis using l by (simp add: write_sanitized_agent_output_def)
qed

section \<open>Witness\<close>

definition ma_manifest :: PluginManifest where
  "ma_manifest = \<lparr>pm_manifest_version = 1, pm_id = ''dev.blindfold.opencode'', pm_version = Version ''0.1.0'', pm_kind = PK_HarnessAdapter,
     pm_protocol = Proto_BuiltinV1, pm_entrypoint = ''builtin/opencode'',
     pm_harness = \<lparr>hs_command = ''opencode'', hs_version_requirement = [(Op_Exact, ''1.18.0'')], hs_noninteractive_modes = [Mode_Run]\<rparr>,
     pm_capabilities = \<lparr>cap_providers = [PP_OpenAi, PP_Anthropic, PP_OpenRouter], cap_transports = [Tr_HttpJson, Tr_ServerSentEvents],
       cap_events = [Ev_ModelRequest, Ev_ModelResponse, Ev_CommandOutput]\<rparr>,
     pm_permissions = \<lparr>perm_filesystem = [Fp_WorkspaceRead, Fp_WorkspaceWrite, Fp_SessionTemp], perm_network = [Np_ModelProxy, Np_PolicyEgress],
       perm_environment = [Evp_Path, Evp_Home, Evp_Temp, Evp_Locale, Evp_Terminal, Evp_UserIdentity, Evp_Shell, Evp_HostConfig],
       perm_spawn_harness = True, perm_spawn_tools = True\<rparr>\<rparr>"

definition ma_lib :: ManifestLib where
  "ma_lib = \<lparr>ml_toml = (\<lambda>s. if s = OPENCODE_MANIFEST then Some ma_manifest else None),
     ml_req_parse = (\<lambda>s. if s = ''=1.18.0'' then Some [(Op_Exact, ''1.18.0'')] else None),
     ml_version_parse = probe_parse, ml_matches = (\<lambda>_ _. True)\<rparr>"

definition ma_adapter :: HarnessAdapter where
  "ma_adapter = \<lparr>ha_kind = HK_OpenCode, ha_manifest = ma_manifest, ha_version_marker = None\<rparr>"

lemma utf8_valid_ascii: "list_all (\<lambda>c. byte c < 0x80) s \<Longrightarrow> utf8_valid s"
  by (induction s) (simp_all add: utf8_valid.simps)

lemma ma_load: "HarnessAdapter_load ma_lib ''opencode'' = Ok ma_adapter"
proof -
  have "length OPENCODE_MANIFEST = 680"
    by (simp add: OPENCODE_MANIFEST_def manifest_head_def manifest_tail_def unlines_def nl_def)
  moreover have "utf8_valid OPENCODE_MANIFEST"
    by (rule utf8_valid_ascii) code_simp
  moreover have "PluginManifest_validate ma_manifest = Ok ()" by code_simp
  moreover have "validate_builtin_contract (ml_req_parse ma_lib) HK_OpenCode ma_manifest = Ok ()" by code_simp
  ultimately show ?thesis
    by (simp add: HarnessAdapter_load_def parse_toml_def MAX_MANIFEST_BYTES_def ma_adapter_def) (simp add: ma_lib_def)
qed

definition ma_child :: ManagedChild where
  "ma_child = \<lparr>mg_spawn = Ok (), mg_wait = Some (Ok \<lparr>es_code = Some 0, es_signal = None\<rparr>), mg_stdout = Ok ''hi'', mg_stderr = Ok [],
     mg_write_stdout = Ok (), mg_write_stderr = Ok ()\<rparr>"

definition ma_host :: AgentHost where
  "ma_host = \<lparr>ah_var = (\<lambda>n. if n = ''PATH'' then Some ''/bin:/usr/bin'' else if n = ''AWS_SECRET_ACCESS_KEY'' then Some ''secret'' else None),
     ah_proc = (\<lambda>_. None), ah_lib = ma_lib, ah_probe = \<lparr>ph_fs = probe_fs, ph_tempdir = Some ''/t'', ph_os = probe_os\<rparr>,
     ah_url = (\<lambda>_. Some (up_base_url px_upstream)), ah_http = px_lib, ah_proxy_bound = Some \<lparr>sa_ip = ipv4_localhost, sa_port = 7\<rparr>,
     ah_egress_bound = Ok \<lparr>sa_ip = ipv4_localhost, sa_port = 8\<rparr>, ah_detectors = [], ah_parse = (\<lambda>_. None), ah_print = (\<lambda>_. ''{}''),
     ah_policy_codec = \<lparr>pc_from_str = (\<lambda>_. None), pc_to_string_pretty = (\<lambda>_. None)\<rparr>, ah_follow = (\<lambda>_. RT_Error),
     ah_child = (\<lambda>_. ma_child), ah_meanwhile = (\<lambda>s. s), ah_sink_failed = False,
     ah_trace_codec = \<lparr>tc_to_string = (\<lambda>_. None), tc_from_slice = (\<lambda>_. None)\<rparr>, ah_clock = 0, ah_counter = 0\<rparr>"

definition ma_args :: AgentArgs where
  "ma_args = \<lparr>aa_agent = Some ''opencode'', aa_args = [''run'', ''hello''], aa_anthropic = None, aa_openai = None, aa_openrouter = None\<rparr>"

definition ma_fs :: Fs where
  "ma_fs = \<lparr>fs_nodes = (\<lambda>_. None), fs_allows = (\<lambda>_ _. True), fs_dir_mode = 0\<rparr>"

lemma ma_prepare: "agent_prepare ma_host ma_args = Some (Ok (ma_adapter, ''/bin/opencode''))"
proof -
  have "check_agent_arguments ma_adapter [''run'', ''hello''] = Ok ()" by code_simp
  moreover have "resolve_executable probe_fs ''opencode'' (Some ''/bin:/usr/bin'') = Ok ''/bin/opencode''" by code_simp
  moreover have "probe_version probe_fs (Some ''/t'') parent probe_os probe_parse (\<lambda>_ _. True) ''/bin/opencode'' [''--version''] None requirement
     ProbeLimits_default ''/bin:/usr/bin'' = Some (Ok (Version ''1.2.3''))" for parent requirement
    by (rule probe_demo; code_simp)
  moreover have "hs_command (pm_harness (ha_manifest ma_adapter)) = ''opencode''" "ha_version_marker ma_adapter = None"
    "ml_version_parse ma_lib = probe_parse" "ml_matches ma_lib = (\<lambda>_ _. True)"
    by (simp_all add: ma_adapter_def ma_manifest_def ma_lib_def)
  ultimately show ?thesis
    by (simp add: agent_prepare_def ma_host_def ma_args_def locked_boundary_def or_default_def ma_load resolve_compatible_executable_def)
qed

lemma ma_servers:
  "\<exists>srv. agent_servers ma_host [] False HK_OpenCode ma_args ma_fs = (Ok srv, ma_fs) \<and> as_egress_origin srv = ''http://127.0.0.1:8''"
proof -
  let ?base = "up_base_url px_upstream"
  let ?us = "[\<lparr>up_name = ''anthropic'', up_base_url = ?base, up_provider = Prov_Anthropic, up_gateway_credential = None, up_trusted_proxy_hop = False\<rparr>,
    \<lparr>up_name = ''openai'', up_base_url = ?base, up_provider = Prov_OpenAi, up_gateway_credential = None, up_trusted_proxy_hop = False\<rparr>,
    \<lparr>up_name = ''openrouter'', up_base_url = ?base, up_provider = Prov_OpenAi, up_gateway_credential = None, up_trusted_proxy_hop = False\<rparr>]"
  have "agent_upstreams (\<lambda>_. Some ?base) HK_OpenCode ma_args = Ok ?us"
    by (simp add: agent_upstreams_def Upstream_new_def Let_def)
  moreover have "try_fold validate_upstream {} ?us = Ok (set [''anthropic'', ''openai'', ''openrouter''])" by code_simp
  moreover have "is_loopback ipv4_localhost" by code_simp
  moreover have "reject_direct_loops px_lib \<lparr>sa_ip = ipv4_localhost, sa_port = 7\<rparr> ?us = Ok ()" by code_simp
  moreover have "load_project_network_policy c f d ma_fs = (Ok ProjectNetworkPolicy_default, ma_fs)" for c f d
    by (simp add: load_project_network_policy_def read_to_string_def ma_fs_def)
  moreover have "loopback_origin \<lparr>sa_ip = ipv4_localhost, sa_port = 8\<rparr> = ''http://127.0.0.1:8''" by code_simp
  ultimately show ?thesis
    by (simp add: agent_servers_def fs_simps ma_host_def Proxy_new_def Config_validate_def Config_default_def Proxy_bind_def
        EgressNetworkPolicy_load_def)
qed


end
