(* ===== verification/Cli_Mask.thy ===== *)
theory Cli_Mask
  imports Cli_Sanitize Stream_Redactor "HOL-Library.Product_Lexorder"
begin

text \<open>
  Masking of a text (\<open>mask_command\<close> and its helpers in \<open>crates/blindfold-cli/src/commands.rs\<close>): every finding of
  the detectors is stored in the vault and replaced by a reference, one per kind and value; the stores are
  audited and the run is traced with the categories and the variable names of the findings.  Each call of the
  vault gets its clock reading and randomness from \<open>calls\<close>.  What the operating system answers about the input
  and the output file is a parameter.
\<close>

section \<open>Masking\<close>

definition span_message :: string where
  "span_message = ''detector returned an invalid input span''"

text \<open>The loop with its cursor; \<open>str_get\<close> is \<open>str::get\<close> of a range.\<close>

fun validate_spans_loop :: "string \<Rightarrow> DetFinding list \<Rightarrow> nat \<Rightarrow> string + unit" where
  "validate_spans_loop input [] cursor = (if str_get input cursor (length input) = None then Err span_message else Ok ())"
| "validate_spans_loop input (f # fs) cursor =
     (let sp = df_span f in
      if span_start sp < cursor \<or> str_get input cursor (span_start sp) = None \<or> str_get input (span_start sp) (span_end sp) = None
      then Err span_message else validate_spans_loop input fs (span_end sp))"

definition validate_finding_spans :: "string \<Rightarrow> DetFinding list \<Rightarrow> string + unit" where
  "validate_finding_spans input findings = validate_spans_loop input findings 0"

definition mask_safe_ref_kind :: "DetKind \<Rightarrow> SafeRefKind" where
  "mask_safe_ref_kind kind =
     (if kind = DK_EmailAddress \<or> kind = DK_PhoneNumber then SRK_PersonallyIdentifiableInformation
      else if kind = DK_PemPrivateKey then SRK_PrivateKey else SRK_Secret)"

record StoreCall =
  sc_clock :: int
  sc_ids :: "string option list"
  sc_nonce :: "string option"

text \<open>The references made so far: kind, value and reference.\<close>

type_synonym MaskRefs = "(SafeRefKind \<times> string \<times> SafeRef) list"

definition find_reference :: "MaskRefs \<Rightarrow> SafeRefKind \<Rightarrow> string \<Rightarrow> SafeRef option" where
  "find_reference references kind raw =
     map_option (\<lambda>(k, v, safe_ref). safe_ref) (List.find (\<lambda>(k, v, safe_ref). k = kind \<and> v = raw) references)"

fun mask_findings_loop ::
  "VaultEnv \<Rightarrow> Vault \<Rightarrow> Scope \<Rightarrow> nat \<Rightarrow> (nat \<Rightarrow> StoreCall) \<Rightarrow> string \<Rightarrow> DetFinding list \<Rightarrow> nat \<Rightarrow> MaskRefs \<Rightarrow> string \<Rightarrow>
     (string, string \<times> MaskRefs) fsm"
where
  "mask_findings_loop env v sc ttl calls input [] cursor references output' s =
     (case str_get input cursor (length input) of
        None \<Rightarrow> (Err span_message, s)
      | Some after \<Rightarrow> (Ok (output' @ after, references), s))"
| "mask_findings_loop env v sc ttl calls input (f # fs) cursor references output' s =
     (let sp = df_span f in
      case str_get input cursor (span_start sp) of
        None \<Rightarrow> (Err span_message, s)
      | Some before \<Rightarrow>
          (case str_get input (span_start sp) (span_end sp) of
             None \<Rightarrow> (Err span_message, s)
           | Some raw \<Rightarrow>
               (let kind = mask_safe_ref_kind (df_kind f) in
                case find_reference references kind raw of
                  Some safe_ref \<Rightarrow>
                    mask_findings_loop env v sc ttl calls input fs (span_end sp) references (output' @ before @ sr_encoded safe_ref) s
                | None \<Rightarrow>
                    (let call = calls (length references) in
                     case store env v (sc_clock call) (sc_ids call) (sc_nonce call) kind sc (SecretValue raw) ttl s of
                       (Inl e, s) \<Rightarrow> (Err (VaultError_fmt e), s)
                     | (Inr safe_ref, s) \<Rightarrow>
                         mask_findings_loop env v sc ttl calls input fs (span_end sp) (references @ [(kind, raw, safe_ref)])
                           (output' @ before @ sr_encoded safe_ref) s))))"

definition mask_findings ::
  "VaultEnv \<Rightarrow> Vault \<Rightarrow> Scope \<Rightarrow> nat \<Rightarrow> (nat \<Rightarrow> StoreCall) \<Rightarrow> string \<Rightarrow> DetFinding list \<Rightarrow> (string, string \<times> SafeRef list) fsm"
where
  "mask_findings env v sc ttl calls input findings s =
     (case mask_findings_loop env v sc ttl calls input findings 0 [] [] s of
        (Inl e, s) \<Rightarrow> (Err e, s)
      | (Inr (output', references), s) \<Rightarrow> (Ok (output', map (\<lambda>(k, v, safe_ref). safe_ref) references), s))"

section \<open>The audit of the stores\<close>

text \<open>\<open>clocks\<close> is the clock at each event.\<close>

fun append_events :: "AuditCodec \<Rightarrow> AuditLog \<Rightarrow> (nat \<Rightarrow> int) \<Rightarrow> nat \<Rightarrow> SafeRef list \<Rightarrow> (VaultError, unit) fsm" where
  "append_events c audit clocks i [] = fs_ret ()"
| "append_events c audit clocks i (safe_ref # refs) =
     fs_bind (AuditLog_append c audit (AuditEvent_now (clocks i) AA_Store AO_Succeeded (Some safe_ref))) (\<lambda>_.
       append_events c audit clocks (i + 1) refs)"

definition append_store_audit :: "AuditCodec \<Rightarrow> (nat \<Rightarrow> int) \<Rightarrow> path \<Rightarrow> SafeRef list \<Rightarrow> (VaultError, unit) fsm" where
  "append_store_audit c clocks dir safe_refs =
     (if safe_refs = [] then fs_ret ()
      else
        fs_bind (fs_lift (RotationPolicy_new (1024 * 1024) 3)) (\<lambda>rotation.
        fs_bind (AuditLog_open (dir @ [''.blindfold'', ''audit.jsonl'']) rotation) (\<lambda>audit.
        append_events c audit clocks 0 safe_refs)))"

section \<open>The trace\<close>

record DotenvFieldRange =
  fr_name :: string
  fr_value_start :: nat
  fr_value_end :: nat

definition range_contains :: "DotenvFieldRange \<Rightarrow> nat \<Rightarrow> bool" where
  "range_contains field offset \<longleftrightarrow> fr_value_start field \<le> offset \<and> offset < fr_value_end field"

definition field_pointer :: "DotenvFieldRange \<Rightarrow> string" where
  "field_pointer field = ''/env/'' @ fr_name field"

definition valid_trace_env_name :: "string \<Rightarrow> bool" where
  "valid_trace_env_name name \<longleftrightarrow>
     (case name of
        [] \<Rightarrow> False
      | first # rest \<Rightarrow> (is_ascii_alphabetic first \<or> first = CHR ''_'') \<and> list_all (\<lambda>b. is_ascii_alphanumeric b \<or> b = CHR ''_'') rest)"

definition dotenv_value_range :: "string \<Rightarrow> nat \<Rightarrow> DotenvFieldRange option" where
  "dotenv_value_range line line_offset =
     (let trimmed = dropWhile is_ascii_whitespace line in
      if trimmed = [] then None
      else
        let assignment = (case strip_prefix ''export '' trimmed of Some a \<Rightarrow> a | None \<Rightarrow> trimmed);
            name_start = length line - length assignment
        in case split_once (CHR ''='') assignment of
             None \<Rightarrow> None
           | Some (before, raw_value) \<Rightarrow>
               let name = str_trim before in
               if \<not> valid_trace_env_name name then None
               else Some \<lparr>fr_name = name,
                 fr_value_start = line_offset + name_start + length before + 1 + length (takeWhile is_ascii_whitespace raw_value),
                 fr_value_end = line_offset + length line\<rparr>)"

text \<open>\<open>split_inclusive\<close> with the offset of each line; a line break at the end starts no line.\<close>

fun ranges_loop :: "nat \<Rightarrow> string list \<Rightarrow> DotenvFieldRange list" where
  "ranges_loop offset [] = []"
| "ranges_loop offset (line # ls) =
     (if ls = [] \<and> line = [] then []
      else
        let rest = ranges_loop (offset + length line + 1) ls in
        (case dotenv_value_range line offset of Some field \<Rightarrow> field # rest | None \<Rightarrow> rest))"

definition dotenv_value_ranges :: "string \<Rightarrow> DotenvFieldRange list" where
  "dotenv_value_ranges input = ranges_loop 0 (split_on (CHR 0x0A) input)"

text \<open>The map from category and pointer to a count; the categories are ordered as they are declared.\<close>

type_synonym Groups = "((nat \<times> string) \<times> (Category \<times> 32 word)) list"

definition finding_pointer :: "DotenvFieldRange list \<Rightarrow> DetFinding \<Rightarrow> string" where
  "finding_pointer ranges f =
     (case List.find (\<lambda>field. range_contains field (span_start (df_span f))) ranges of
        Some field \<Rightarrow> field_pointer field | None \<Rightarrow> ''/input'')"

definition count_finding :: "DotenvFieldRange list \<Rightarrow> Groups \<Rightarrow> DetFinding \<Rightarrow> Groups" where
  "count_finding ranges grouped f =
     (let category = trace_category (df_kind f); key = (Category_rank category, finding_pointer ranges f) in
      bt_insert key (category, (case bt_get grouped key of Some (_, n) \<Rightarrow> n | None \<Rightarrow> 0) + 1) grouped)"

definition transform_replacements :: "string \<Rightarrow> DetFinding list \<Rightarrow> TraceError + Replacement list" where
  "transform_replacements input findings =
     try_map (\<lambda>(i, ((rank, pointer), (category, count))). Replacement_new (''S'' @ nat_str (i + 1)) category pointer count)
       (enumerate 0 (foldl (count_finding (dotenv_value_ranges input)) [] findings))"

definition append_transform_trace ::
  "TraceCodec \<Rightarrow> int \<Rightarrow> 64 word \<Rightarrow> path \<Rightarrow> Route \<Rightarrow> string \<Rightarrow> string \<Rightarrow> DetFinding list \<Rightarrow> (TraceError, unit) fsm"
where
  "append_transform_trace c clock counter dir route input output' findings =
     fs_bind (fs_lift (transform_replacements input findings)) (\<lambda>replacements.
       append_command_trace c clock counter dir route (u64_of_len (length input), u64_of_len (length output')) replacements)"

section \<open>The output\<close>

text \<open>
  What the system answers about the output file: whether something is there (with the printed kind of another
  error), and the printed kinds of the failures of opening and writing, atomically or not.
\<close>

datatype Inspected = In_Present | In_Absent | In_Error string

datatype Created = Cr_Ok | Cr_Exists | Cr_Error string

record OutputOs =
  oo_inspect :: Inspected
  oo_atomic_open :: "string + unit"
  oo_atomic_commit :: "string + unit"
  oo_create :: Created
  oo_write :: "string + unit"

definition exists_message :: string where
  "exists_message = ''output file already exists; choose another path or pass --force''"

text \<open>The new content of the file when the command succeeds.\<close>

definition write_transformed_output :: "OutputOs \<Rightarrow> string \<Rightarrow> bool \<Rightarrow> string + string" where
  "write_transformed_output os contents force =
     (if force then
        res_bind (map_err (\<lambda>kind. ''could not create output file: '' @ kind) (oo_atomic_open os)) (\<lambda>_.
        res_map (\<lambda>_. contents) (map_err (\<lambda>kind. ''could not write output file: '' @ kind) (oo_atomic_commit os)))
      else
        (case oo_create os of
           Cr_Exists \<Rightarrow> Err exists_message
         | Cr_Error kind \<Rightarrow> Err (''could not create output file: '' @ kind)
         | Cr_Ok \<Rightarrow> res_map (\<lambda>_. contents) (map_err (\<lambda>kind. ''could not write output file: '' @ kind) (oo_write os))))"

section \<open>The command\<close>

record MaskHost =
  mk_output :: bool
  mk_force :: bool
  mk_ttl :: "nat option"
  mk_os :: OutputOs
  mk_input :: "string + string"
  mk_detectors :: DetectorSet
  mk_env :: VaultEnv
  mk_key :: "string option"
  mk_dir :: path
  mk_root :: string
  mk_calls :: "nat \<Rightarrow> StoreCall"
  mk_audit_codec :: AuditCodec
  mk_audit_clocks :: "nat \<Rightarrow> int"
  mk_trace_codec :: TraceCodec
  mk_trace_clock :: int
  mk_trace_counter :: "64 word"
  mk_stdout :: "string + unit"

definition fs_map_err :: "('e \<Rightarrow> 'f) \<Rightarrow> ('e, 'a) fsm \<Rightarrow> ('f, 'a) fsm" where
  "fs_map_err f m s = (case m s of (r, s') \<Rightarrow> (map_err f r, s'))"

text \<open>The text that is printed or becomes the content of the output file.\<close>

definition mask_command :: "MaskHost \<Rightarrow> bool \<Rightarrow> (string, string) fsm" where
  "mask_command h trace_enabled =
     fs_bind (fs_lift
       (if mk_output h \<and> \<not> mk_force h
        then (case oo_inspect (mk_os h) of
            In_Present \<Rightarrow> Err exists_message
          | In_Absent \<Rightarrow> Ok ()
          | In_Error kind \<Rightarrow> Err (''could not inspect output file: '' @ kind))
        else Ok ())) (\<lambda>_.
     fs_bind (fs_lift (mk_input h)) (\<lambda>input.
     let findings = DetectorSet_detect (mk_detectors h) input in
     fs_bind (fs_lift (validate_finding_spans input findings)) (\<lambda>_.
     fs_bind (open_vault (mk_env h) (mk_key h) (mk_dir h)) (\<lambda>v.
     fs_bind (fs_lift (map_err VaultError_fmt (project_scope (mk_root h)))) (\<lambda>sc.
     fs_bind (mask_findings (mk_env h) v sc ((case mk_ttl h of Some n \<Rightarrow> n | None \<Rightarrow> 3600) * 1000000000) (mk_calls h) input findings)
       (\<lambda>(output', stored_refs).
     fs_bind (fs_map_err VaultError_fmt (append_store_audit (mk_audit_codec h) (mk_audit_clocks h) (mk_dir h) stored_refs)) (\<lambda>_.
     fs_bind (if trace_enabled
              then fs_map_err TraceError_fmt (append_transform_trace (mk_trace_codec h) (mk_trace_clock h) (mk_trace_counter h) (mk_dir h)
                Route_Mask input output' findings)
              else fs_ret ()) (\<lambda>_.
     fs_lift
       (if mk_output h then write_transformed_output (mk_os h) output' (mk_force h)
        else res_map (\<lambda>_. output') (map_err (\<lambda>kind. ''could not write masked output: '' @ kind) (mk_stdout h)))))))))))"

section \<open>Lemmas\<close>

lemma find_reference_simps [simp]:
  "find_reference [] kind raw = None"
  "find_reference ((k, v, r) # references) kind raw = (if k = kind \<and> v = raw then Some r else find_reference references kind raw)"
  by (auto simp: find_reference_def)

lemma find_reference_append:
  "find_reference references kind raw = Some r \<Longrightarrow> find_reference (references @ added) kind raw = Some r"
  by (induction references) (auto split: if_splits)

lemma find_reference_snoc:
  "find_reference references kind raw = None \<Longrightarrow> find_reference (references @ [(kind, raw, r)]) kind raw = Some r"
  by (induction references) (auto split: if_splits)

lemma find_reference_in: "find_reference references kind raw = Some r \<Longrightarrow> (kind, raw, r) \<in> set references"
  by (induction references) (auto split: if_splits)

lemma find_reference_none: "find_reference references kind raw = None \<Longrightarrow> (kind, raw, r) \<notin> set references"
  by (induction references) (auto split: if_splits)

text \<open>A reference is held by a state when it names a record of its value that outlives \<open>now\<close>.\<close>

definition holds_reference :: "DiskState \<Rightarrow> Scope \<Rightarrow> 64 word \<Rightarrow> SafeRefKind \<times> string \<times> SafeRef \<Rightarrow> bool" where
  "holds_reference st sc now = (\<lambda>(kind, raw, r). \<exists>i code n e. SafeRef_from_id kind i = Ok r \<and> kind_code kind = Ok code \<and> now < e \<and>
     bt_get (ds_records st) i = Some (stored_record n e code sc (SecretValue raw)))"

lemma holds_reference_resolves:
  assumes "holds_reference st sc now (kind, raw, r)" and "unix_seconds clock = Ok now"
  shows "resolve_record st r sc clock = Ok (SecretValue raw)" and "sr_kind r = kind"
proof -
  obtain i code n e where h: "SafeRef_from_id kind i = Ok r" "kind_code kind = Ok code" "now < e"
    "bt_get (ds_records st) i = Some (stored_record n e code sc (SecretValue raw))"
    using assms(1) by (auto simp: holds_reference_def)
  note i = reference_id_from_id[OF h(1)]
  show "resolve_record st r sc clock = Ok (SecretValue raw)"
    using i h assms(2) by (simp add: resolve_record_ok_iff in_scope_def stored_record_def)
  show "sr_kind r = kind" by (rule i(2))
qed

text \<open>What the loop keeps: the vault works, its state holds every reference, and no two references are for the same value.\<close>

definition mask_inv :: "VaultEnv \<Rightarrow> Vault \<Rightarrow> Scope \<Rightarrow> 64 word \<Rightarrow> MaskRefs \<Rightarrow> Fs \<Rightarrow> bool" where
  "mask_inv env v sc now references s \<longleftrightarrow>
     vault_ready v s \<and> (\<forall>x\<in>set references. \<exists>st. vault_state env v s = Ok st \<and> holds_reference st sc now x) \<and>
     distinct (map (\<lambda>(k, raw, r). r) references) \<and> distinct (map (\<lambda>(k, raw, r). (k, raw)) references)"

lemma store_mask_inv:
  assumes inv: "mask_inv env v sc now references s" and env: "vault_env_ok env" and nonce: "nonce_ok nonce"
    and store: "store env v clock ids nonce kind sc (SecretValue raw) ttl s = (Ok r, s')"
    and times: "store_times clock ttl = Ok (n, e)" "n \<le> now" "now < e"
    and new: "find_reference references kind raw = None"
  shows "mask_inv env v sc now (references @ [(kind, raw, r)]) s'"
proof -
  have ready: "vault_ready v s" using inv by (simp add: mask_inv_def)
  obtain st i n' e' code where st: "vault_state env v s = Ok st" "store_times clock ttl = Ok (n', e')"
    "kind_code kind = Ok code" "SafeRef_from_id kind i = Ok r"
    "bt_get (bt_retain (\<lambda>_. live n') (ds_records st)) i = None" "vault_ready v s'"
    "vault_state env v s' = Ok (st\<lparr>ds_records := bt_insert i (stored_record n' e' code sc (SecretValue raw))
        (bt_retain (\<lambda>_. live n') (ds_records st))\<rparr>)"
    by (rule store_ok[OF ready env nonce store])
  have eq: "n' = n" "e' = e" using st(2) times(1) by auto
  let ?rs = "bt_insert i (stored_record n e code sc (SecretValue raw)) (bt_retain (\<lambda>_. live n) (ds_records st))"
  let ?st = "st\<lparr>ds_records := ?rs\<rparr>"
  have bt: "bt_inv (ds_records st)" using vault_state_inv[OF env st(1)] .
  have get: "bt_get ?rs j = (if j = i then Some (stored_record n e code sc (SecretValue raw))
      else bt_get (bt_retain (\<lambda>_. live n) (ds_records st)) j)" for j
    using bt by (simp add: bt_get_insert bt_inv_retain)
  have kept: "holds_reference ?st sc now x \<and> (\<lambda>(k, raw, r). r) x \<noteq> r" if mem: "x \<in> set references" for x
  proof -
    obtain k w q where x: "x = (k, w, q)" by (cases x)
    obtain j c m d where h: "SafeRef_from_id k j = Ok q" "kind_code k = Ok c" "now < d"
      "bt_get (ds_records st) j = Some (stored_record m d c sc (SecretValue w))"
      using mem inv st(1) unfolding mask_inv_def holds_reference_def x by fastforce
    have live: "bt_get (bt_retain (\<lambda>_. live n) (ds_records st)) j = Some (stored_record m d c sc (SecretValue w))"
      using bt h(3,4) times(2) by (simp add: bt_get_retain live_def stored_record_def)
    then have "j \<noteq> i" using st(5) eq by auto
    then have "q \<noteq> r" using reference_id_from_id(1)[OF h(1)] reference_id_from_id(1)[OF st(4)] by auto
    moreover have "bt_get ?rs j = Some (stored_record m d c sc (SecretValue w))" using live get \<open>j \<noteq> i\<close> by simp
    ultimately show ?thesis using h(1-3) by (auto simp: holds_reference_def x)
  qed
  have "holds_reference ?st sc now (kind, raw, r)"
    using st(3,4) times(3) get[of i] by (auto simp: holds_reference_def)
  moreover have "(kind, raw) \<notin> set (map (\<lambda>(k, raw, r). (k, raw)) references)"
    using find_reference_none[OF new] by auto
  ultimately show ?thesis using kept inv st(6,7) eq by (fastforce simp: mask_inv_def)
qed

lemma str_get_some: "str_get s a b = Some t \<longleftrightarrow> a \<le> b \<and> b \<le> length s \<and> is_char_boundary s a \<and> is_char_boundary s b \<and> t = str_slice s a b"
  by (auto simp: str_get_def)

lemma validate_spans_loop_ok:
  "validate_spans_loop input fs cursor = Ok () \<Longrightarrow> interleave (gaps input cursor fs) (secrets input fs) = drop cursor input"
proof (induction input fs cursor rule: validate_spans_loop.induct)
  case (1 input cursor)
  show ?case by (simp add: secrets_def)
next
  case (2 input f fs cursor)
  let ?a = "span_start (df_span f)" and ?b = "span_end (df_span f)"
  obtain x y where g: "str_get input cursor ?a = Some x" "str_get input ?a ?b = Some y"
    and IH: "interleave (gaps input ?b fs) (secrets input fs) = drop ?b input"
    using 2 by (auto simp: Let_def split: if_splits)
  have "drop cursor input = str_slice input cursor (length input)" by (simp add: str_slice_to_end)
  also have "\<dots> = (str_slice input cursor ?a @ str_slice input ?a ?b) @ str_slice input ?b (length input)"
    using g by (simp add: str_get_some str_slice_append)
  finally show ?case using IH by (simp add: secrets_def str_slice_to_end)
qed

text \<open>The reference of a finding.\<close>

definition finding_reference :: "MaskRefs \<Rightarrow> string \<Rightarrow> DetFinding \<Rightarrow> SafeRef option" where
  "finding_reference references input f =
     find_reference references (mask_safe_ref_kind (df_kind f)) (str_slice input (span_start (df_span f)) (span_end (df_span f)))"

lemma mask_findings_loop_ok:
  assumes "mask_findings_loop env v sc ttl calls input fs cursor references out s = (Ok (result, rs), s')"
    and "mask_inv env v sc now references s" and "vault_env_ok env" and "\<forall>i. nonce_ok (sc_nonce (calls i))"
    and "\<forall>i. \<exists>n e. store_times (sc_clock (calls i)) ttl = Ok (n, e) \<and> n \<le> now \<and> now < e"
  shows "mask_inv env v sc now rs s' \<and> (\<exists>added. rs = references @ added) \<and>
    (\<forall>f\<in>set fs. finding_reference rs input f \<noteq> None) \<and>
    result = out @ interleave (gaps input cursor fs) (map (\<lambda>f. sr_encoded (the (finding_reference rs input f))) fs)"
  using assms(1,2)
proof (induction fs arbitrary: cursor references out s)
  case Nil
  then show ?case by (auto simp: str_get_some str_slice_to_end split: option.splits)
next
  case (Cons f fs)
  let ?a = "span_start (df_span f)" and ?b = "span_end (df_span f)" and ?kind = "mask_safe_ref_kind (df_kind f)"
  obtain before raw where before: "str_get input cursor ?a = Some before" and raw: "str_get input ?a ?b = Some raw"
    using Cons.prems(1) by (auto simp: Let_def split: option.splits)
  have sl: "before = str_slice input cursor ?a" "raw = str_slice input ?a ?b" using before raw by (auto simp: str_get_some)
  obtain refs1 s1 r where step: "mask_findings_loop env v sc ttl calls input fs ?b refs1 (out @ before @ sr_encoded r) s1 = (Ok (result, rs), s')"
    and inv: "mask_inv env v sc now refs1 s1" and found: "find_reference refs1 ?kind raw = Some r" and ext: "\<exists>added. refs1 = references @ added"
  proof (cases "find_reference references ?kind raw")
    case (Some r)
    then show ?thesis using that[of references r s] Cons.prems before raw by (auto simp: Let_def)
  next
    case None
    let ?call = "calls (length references)"
    obtain r s1 where st: "store env v (sc_clock ?call) (sc_ids ?call) (sc_nonce ?call) ?kind sc (SecretValue raw) ttl s = (Ok r, s1)"
      and l: "mask_findings_loop env v sc ttl calls input fs ?b (references @ [(?kind, raw, r)]) (out @ before @ sr_encoded r) s1 = (Ok (result, rs), s')"
      using Cons.prems(1) before raw None by (auto simp: Let_def split: prod.splits sum.splits)
    obtain n e where "store_times (sc_clock ?call) ttl = Ok (n, e)" "n \<le> now" "now < e" using assms(5) by blast
    then have "mask_inv env v sc now (references @ [(?kind, raw, r)]) s1"
      using store_mask_inv[OF Cons.prems(2) assms(3) _ st] assms(4) None by blast
    then show ?thesis using that[OF l] find_reference_snoc[OF None] by blast
  qed
  from Cons.IH[OF step inv] obtain added where ih: "mask_inv env v sc now rs s'" "rs = refs1 @ added"
    "\<forall>f\<in>set fs. finding_reference rs input f \<noteq> None"
    "result = (out @ before @ sr_encoded r) @ interleave (gaps input ?b fs) (map (\<lambda>f. sr_encoded (the (finding_reference rs input f))) fs)"
    by blast
  have "finding_reference rs input f = Some r"
    using find_reference_append[OF found] by (simp add: finding_reference_def ih(2) sl(2))
  then show ?case using ih ext by (auto simp: sl(1))
qed

section \<open>Properties\<close>

text \<open>
  C37. Masking can be undone by the vault, and only by it.  The masked text is the input with every finding
  replaced by a reference; the findings put back give the input; two findings get the same reference exactly
  when they have the same kind of reference and the same bytes; the references returned for the audit are the
  ones in the text, each once; and until they expire every one of them resolves, under the scope of the
  project, to exactly the bytes it replaced.
\<close>

theorem mask_restores:
  assumes "vault_ready v s" and "vault_env_ok env" and "\<forall>i. nonce_ok (sc_nonce (calls i))"
    and "\<forall>i. \<exists>n e. store_times (sc_clock (calls i)) ttl = Ok (n, e) \<and> n \<le> now \<and> now < e" and "unix_seconds clock = Ok now"
    and "validate_finding_spans input findings = Ok ()"
    and "mask_findings env v sc ttl calls input findings s = (Ok (masked, refs), s')"
  shows "\<exists>ref. masked = interleave (gaps input 0 findings) (map (\<lambda>f. sr_encoded (ref f)) findings) \<and>
    interleave (gaps input 0 findings) (secrets input findings) = input \<and>
    distinct refs \<and> ref ` set findings \<subseteq> set refs \<and>
    (\<forall>f\<in>set findings. sr_kind (ref f) = mask_safe_ref_kind (df_kind f) \<and>
       fst (Vault.resolve env v clock (ref f) sc s') = Ok (SecretValue (str_slice input (span_start (df_span f)) (span_end (df_span f))))) \<and>
    (\<forall>f\<in>set findings. \<forall>g\<in>set findings. ref f = ref g \<longleftrightarrow>
       mask_safe_ref_kind (df_kind f) = mask_safe_ref_kind (df_kind g) \<and>
       str_slice input (span_start (df_span f)) (span_end (df_span f)) = str_slice input (span_start (df_span g)) (span_end (df_span g)))"
proof -
  let ?raw = "\<lambda>f. str_slice input (span_start (df_span f)) (span_end (df_span f))" and ?kind = "\<lambda>f. mask_safe_ref_kind (df_kind f)"
  obtain rs where loop: "mask_findings_loop env v sc ttl calls input findings 0 [] [] s = (Ok (masked, rs), s')"
    and refs: "refs = map (\<lambda>(k, raw, r). r) rs"
    using assms(7) by (auto simp: mask_findings_def split: prod.splits sum.splits)
  have "mask_inv env v sc now [] s" using assms(1) by (simp add: mask_inv_def)
  from mask_findings_loop_ok[OF loop this assms(2-4)] have inv: "mask_inv env v sc now rs s'"
    and some: "\<forall>f\<in>set findings. finding_reference rs input f \<noteq> None"
    and masked: "masked = interleave (gaps input 0 findings) (map (\<lambda>f. sr_encoded (the (finding_reference rs input f))) findings)"
    by auto
  define ref where "ref = (\<lambda>f. the (finding_reference rs input f))"
  have mem: "(?kind f, ?raw f, ref f) \<in> set rs" if "f \<in> set findings" for f
    using some that find_reference_in[of rs "?kind f" "?raw f"] by (auto simp: ref_def finding_reference_def)
  have res: "sr_kind (ref f) = ?kind f \<and> fst (Vault.resolve env v clock (ref f) sc s') = Ok (SecretValue (?raw f))"
    if f: "f \<in> set findings" for f
  proof -
    obtain st where st: "vault_state env v s' = Ok st" "holds_reference st sc now (?kind f, ?raw f, ref f)" "vault_ready v s'"
      using inv mem[OF f] unfolding mask_inv_def by blast
    obtain s2 where "Vault.resolve env v clock (ref f) sc s' = (res_bind (vault_state env v s') (\<lambda>st. resolve_record st (ref f) sc clock), s2)"
      using resolve_ready[OF st(3)] by blast
    then show ?thesis using holds_reference_resolves[OF st(2) assms(5)] st(1) by simp
  qed
  have "ref f = ref g \<longleftrightarrow> ?kind f = ?kind g \<and> ?raw f = ?raw g" if f: "f \<in> set findings" and g: "g \<in> set findings" for f g
    using res[OF f] res[OF g] by (auto simp: ref_def finding_reference_def)
  moreover have "distinct refs" "ref ` set findings \<subseteq> set refs"
    using inv mem by (force simp: mask_inv_def refs)+
  moreover have "interleave (gaps input 0 findings) (secrets input findings) = input"
    using validate_spans_loop_ok[of input findings 0] assms(6) by (simp add: validate_finding_spans_def)
  ultimately show ?thesis using masked res by (intro exI[of _ ref]) (simp add: ref_def)
qed

text \<open>Two occurrences of one value are stored once.\<close>

definition mw_findings :: "DetFinding list" where
  "mw_findings = map (\<lambda>(a, b). \<lparr>df_kind = DK_Token, df_span = \<lparr>span_start = a, span_end = b\<rparr>, df_confidence = Conf_High, df_detector = ''t''\<rparr>)
     [(2, 4), (7, 9)]"

definition mw_calls :: "nat \<Rightarrow> StoreCall" where
  "mw_calls i = \<lparr>sc_clock = 5000000000, sc_ids = wit_ids, sc_nonce = wit_nonce\<rparr>"

theorem mask_restores_witness:
  "\<exists>s'. mask_findings (wit_env 8) wit_vault wit_scope 3000000000 mw_calls ''a=pw b=pw'' mw_findings wit_fs =
      (Ok (''a='' @ sr_encoded wit_ref @ '' b='' @ sr_encoded wit_ref, [wit_ref]), s') \<and>
    fst (Vault.resolve (wit_env 8) wit_vault 7000000000 wit_ref wit_scope s') = Ok (SecretValue ''pw'')"
proof -
  have times: "store_times 5000000000 3000000000 = Ok (5, 8)"
    by (simp add: store_times_def unix_seconds_def checked_add_def)
  obtain s' where st: "store (wit_env 8) wit_vault 5000000000 wit_ids wit_nonce SRK_Secret wit_scope (SecretValue ''pw'')
      3000000000 wit_fs = (Ok wit_ref, s')"
    using wit_store[OF times] by auto
  have get: "str_get ''a=pw b=pw'' 0 2 = Some ''a=''" "str_get ''a=pw b=pw'' 2 4 = Some ''pw''" "str_get ''a=pw b=pw'' 4 7 = Some '' b=''"
    "str_get ''a=pw b=pw'' 7 9 = Some ''pw''" "str_get ''a=pw b=pw'' 9 (length ''a=pw b=pw'') = Some []"
    by code_simp+
  have run: "mask_findings (wit_env 8) wit_vault wit_scope 3000000000 mw_calls ''a=pw b=pw'' mw_findings wit_fs =
      (Ok (''a='' @ sr_encoded wit_ref @ '' b='' @ sr_encoded wit_ref, [wit_ref]), s')"
    using get st by (simp add: mask_findings_def mw_findings_def mw_calls_def mask_safe_ref_kind_def)
  have hyps: "\<forall>i. nonce_ok (sc_nonce (mw_calls i))" "unix_seconds 7000000000 = Ok 7"
    "\<forall>i. \<exists>n e. store_times (sc_clock (mw_calls i)) 3000000000 = Ok (n, e) \<and> n \<le> 7 \<and> 7 < e"
    using wit_ready(3) by (simp_all add: mw_calls_def times unix_seconds_def)
  have v: "validate_finding_spans ''a=pw b=pw'' mw_findings = Ok ()" by code_simp
  from mask_restores[OF wit_ready(1,2) hyps(1,3,2) v run] obtain ref where
    r: "ref ` set mw_findings \<subseteq> {wit_ref}" "\<forall>f\<in>set mw_findings. fst (Vault.resolve (wit_env 8) wit_vault 7000000000 (ref f) wit_scope s') =
      Ok (SecretValue (str_slice ''a=pw b=pw'' (span_start (df_span f)) (span_end (df_span f))))"
    by auto
  have hd: "hd mw_findings \<in> set mw_findings" by (simp add: mw_findings_def)
  have raw: "str_slice ''a=pw b=pw'' (span_start (df_span (hd mw_findings))) (span_end (df_span (hd mw_findings))) = ''pw''" by code_simp
  have "ref (hd mw_findings) = wit_ref" using r(1) hd by blast
  then have "fst (Vault.resolve (wit_env 8) wit_vault 7000000000 wit_ref wit_scope s') = Ok (SecretValue ''pw'')"
    using bspec[OF r(2) hd] raw by simp
  then show ?thesis using run by blast
qed

text \<open>
  A variable name that the dotenv reader accepts and the trace does not: the trace of a run fails, for
  masking after the secrets have been stored.
\<close>

lemma long_variable_name_fails_trace:
  "transform_replacements (replicate 252 (CHR ''A'') @ ''=x'')
     [\<lparr>df_kind = DK_Token, df_span = \<lparr>span_start = 253, span_end = 254\<rparr>, df_confidence = Conf_High, df_detector = ''t''\<rparr>] =
   Err TE_InvalidInput"
  by code_simp

end
