(* ===== verification/Cli_Call.thy ===== *)
theory Cli_Call
  imports Cli_Egress Cli_Mask Cli_Boundary
begin

text \<open>
  The brokered HTTP call (\<open>call_command\<close> of \<open>crates/blindfold-cli/src/commands.rs\<close>), which sends a secret of the
  environment to an allowed host and prints the sanitized answer, and the isolated execution of a command
  (\<open>exec_command\<close>).  The HTTP client, the URL parser and the clock are parameters.
\<close>

section \<open>The brokered call\<close>

definition CALL_REQUEST_LIMIT :: nat where
  "CALL_REQUEST_LIMIT = 64 * 1024"

definition CALL_RESPONSE_LIMIT :: nat where
  "CALL_RESPONSE_LIMIT = 1024 * 1024"

record CallRequest =
  cq_method :: string
  cq_url :: Url
  cq_headers :: headers
  cq_body :: "string option"

text \<open>A chunk is \<open>None\<close> when reading it fails.\<close>

record CallResponse =
  cp_status :: nat
  cp_content_length :: "nat option"
  cp_chunks :: "string option list"

record CallHost =
  cl_dir :: path
  cl_var :: "string \<Rightarrow> string option"
  cl_detectors :: DetectorSet
  cl_url_parse :: "string \<Rightarrow> Url option"
  cl_header :: "string \<Rightarrow> string option"
  cl_client :: bool
  cl_send :: "CallRequest \<Rightarrow> CallResponse option"
  cl_policy_codec :: PolicyCodec
  cl_follow :: "path \<Rightarrow> ReadText"
  cl_trace_codec :: TraceCodec
  cl_clock :: int
  cl_counter :: "64 word"

record CallArgs =
  cg_secret :: "string option"
  cg_url :: "string option"
  cg_method :: "string option"
  cg_body :: "string option"

definition optional_call_trace_store :: "CallHost \<Rightarrow> bool \<Rightarrow> (string, Store option) fsm" where
  "optional_call_trace_store h enabled =
     (if \<not> enabled then fs_ret None
      else fs_map_err TraceError_fmt (fs_bind (open_trace_store (cl_dir h)) (\<lambda>st. fs_ret (Some st))))"

fun ExecutionError_fmt :: "ExecutionError \<Rightarrow> string" where
  "ExecutionError_fmt EE_InvalidEnvironmentName = ''invalid environment variable name''"
| "ExecutionError_fmt EE_EmptySecret = ''empty secrets cannot be injected''"
| "ExecutionError_fmt EE_DuplicateEnvironmentName = ''environment variable configured more than once''"
| "ExecutionError_fmt EE_SecretInArguments = ''an injected secret is present in process arguments''"
| "ExecutionError_fmt EE_SecretInMetadata = ''an injected secret is present in audit metadata''"
| "ExecutionError_fmt EE_SpawnFailed = ''child process could not be started''"
| "ExecutionError_fmt EE_ProcessControlFailed = ''child process could not be controlled''"
| "ExecutionError_fmt EE_OutputReadFailed = ''child process output could not be read''"
| "ExecutionError_fmt EE_OutputWorkerFailed = ''child output worker failed''"

definition unavailable_message :: string where
  "unavailable_message = ''a requested secret is unavailable in the parent environment''"

text \<open>\<open>env::var\<close> refuses a value that is not Unicode.\<close>

definition env_var :: "(string \<Rightarrow> string option) \<Rightarrow> string \<Rightarrow> string option" where
  "env_var var name = (case var name of Some v \<Rightarrow> if utf8_valid v then Some v else None | None \<Rightarrow> None)"

definition call_secret :: "(string \<Rightarrow> string option) \<Rightarrow> CallArgs \<Rightarrow> string + EnvironmentName \<times> string" where
  "call_secret var args =
     res_bind (ok_or (cg_secret args) ''a secret name is required'') (\<lambda>secret_name.
     res_bind (map_err ExecutionError_fmt (EnvironmentName_new secret_name)) (\<lambda>env_name.
     res_bind (ok_or (env_var var secret_name) unavailable_message) (\<lambda>secret.
     if secret = [] then Err ''a requested secret is empty'' else Ok (env_name, secret))))"

definition append_call_rejection_trace :: "CallHost \<Rightarrow> Store option \<Rightarrow> nat \<Rightarrow> Issue \<Rightarrow> (TraceError, unit) fsm" where
  "append_call_rejection_trace h st request_body_len why =
     (case st of
        None \<Rightarrow> fs_ret ()
      | Some st \<Rightarrow> append_trace_to_store (cl_trace_codec h) (cl_clock h) (cl_counter h) st Route_Call Cov_Unprotected Out_Rejected
          (u64_of_len request_body_len, 0) (0, 0) [] (Some why))"

definition reject_call :: "CallHost \<Rightarrow> Store option \<Rightarrow> nat \<Rightarrow> Issue \<Rightarrow> string \<Rightarrow> (string, 'a) fsm" where
  "reject_call h st request_body_len why message =
     fs_bind (fs_map_err TraceError_fmt (append_call_rejection_trace h st request_body_len why)) (\<lambda>_. fs_err message)"

definition validate_call_body :: "CallHost \<Rightarrow> CallArgs \<Rightarrow> string \<Rightarrow> Store option \<Rightarrow> (string, nat) fsm" where
  "validate_call_body h args secret st =
     (case cg_body args of
        None \<Rightarrow> fs_ret 0
      | Some body \<Rightarrow>
          if length body > CALL_REQUEST_LIMIT
          then reject_call h st (length body) Issue_RequestTooLarge ''brokered HTTP request body is too large''
          else if str_contains secret body \<or> DetectorSet_detect (cl_detectors h) body \<noteq> []
          then reject_call h st (length body) Issue_InvalidPayload ''brokered HTTP request body contains sensitive content''
          else fs_ret (length body))"

definition allowed_call_url :: "CallHost \<Rightarrow> CallArgs \<Rightarrow> Store option \<Rightarrow> nat \<Rightarrow> (string, Url) fsm" where
  "allowed_call_url h args st request_body_len =
     fs_bind (fs_lift (ok_or (cg_url args) ''a URL is required'')) (\<lambda>url_text.
     fs_bind (fs_lift (ok_or (cl_url_parse h url_text) ''invalid URL'')) (\<lambda>url.
     if url_scheme url \<noteq> ''http'' \<and> url_scheme url \<noteq> ''https'' then fs_err ''unsupported URL scheme''
     else
       fs_bind (fs_lift (ok_or (url_host url) ''URL host is required'')) (\<lambda>host.
       fs_bind (EgressNetworkPolicy_load (cl_policy_codec h) (cl_follow h) (cl_dir h)) (\<lambda>policy.
       case egress_decision policy host of
         ED_Allow \<Rightarrow> fs_ret url
       | ED_BlockKnownProvider \<Rightarrow> reject_call h st request_body_len Issue_RouteNotAllowed
           ''brokered HTTP call blocked: LLM provider domains must use the LLM proxy''
       | ED_BlockDenied \<Rightarrow> reject_call h st request_body_len Issue_RouteNotAllowed
           ''brokered HTTP call blocked: domain is denied for this project''
       | ED_BlockUnknown \<Rightarrow> reject_call h st request_body_len Issue_RouteNotAllowed
           ''brokered HTTP call blocked: unknown domain; use `blindfold allow domain <host>`''))))"

fun read_chunks_bounded :: "string \<Rightarrow> string option list \<Rightarrow> string + string" where
  "read_chunks_bounded body [] = Ok body"
| "read_chunks_bounded body (None # chunks) = Err ''could not read brokered HTTP response''"
| "read_chunks_bounded body (Some chunk # chunks) =
     (if length body + length chunk > CALL_RESPONSE_LIMIT then Err ''brokered HTTP response is too large''
      else read_chunks_bounded (body @ chunk) chunks)"

definition read_bounded_response :: "CallResponse \<Rightarrow> string + string" where
  "read_bounded_response response =
     (if (case cp_content_length response of Some n \<Rightarrow> n > CALL_RESPONSE_LIMIT | None \<Rightarrow> False)
      then Err ''brokered HTTP response is too large'' else read_chunks_bounded [] (cp_chunks response))"

text \<open>\<open>str::matches\<close> of a non-empty pattern: the occurrences that do not overlap, from the left.\<close>

function count_matches :: "string \<Rightarrow> string \<Rightarrow> nat" where
  "count_matches pat s =
     (if pat = [] \<or> s = [] then 0
      else if starts_with pat s then Suc (count_matches pat (drop (length pat) s)) else count_matches pat (tl s))"
  by pat_completeness auto
termination by (relation "measure (\<lambda>(pat, s). length s)") auto

declare count_matches.simps [simp del]

record SanitizedCallResponse =
  sr_text :: string
  sr_replacements :: "Replacement list"

type_synonym CategoryCounts = "(nat \<times> (Category \<times> 32 word)) list"

definition count_category :: "CategoryCounts \<Rightarrow> Category \<Rightarrow> 32 word \<Rightarrow> CategoryCounts" where
  "count_category grouped category n =
     bt_insert (Category_rank category) (category, (case bt_get grouped (Category_rank category) of Some (_, k) \<Rightarrow> k | None \<Rightarrow> 0) + n) grouped"

definition response_replacements :: "nat \<Rightarrow> DetFinding list \<Rightarrow> TraceError + Replacement list" where
  "response_replacements exact_occurrences findings =
     (let grouped = (if 0 < exact_occurrences \<and> exact_occurrences < 2 ^ 32
                     then count_category [] Cat_BearerToken (of_nat exact_occurrences) else []);
          grouped = foldl (\<lambda>grouped f. count_category grouped (trace_category (df_kind f)) 1) grouped findings in
      try_map (\<lambda>(i, (rank, (category, count))). Replacement_new (''S'' @ nat_str (i + 1)) category ''/response'' count)
        (enumerate 0 grouped))"

definition redacted_marker :: "EnvironmentName \<Rightarrow> string" where
  "redacted_marker env_name = ''[REDACTED:'' @ env_name @ '']''"

definition sanitize_call_response :: "DetectorSet \<Rightarrow> string \<Rightarrow> string \<Rightarrow> EnvironmentName \<Rightarrow> string + SanitizedCallResponse" where
  "sanitize_call_response ds body secret env_name =
     (let output' = to_string_lossy body;
          exact_redacted = str_replace secret (redacted_marker env_name) output' in
      case placeholder_redact ds exact_redacted of
        Inl _ \<Rightarrow> Err ''could not sanitize brokered HTTP response''
      | Inr redacted \<Rightarrow>
          res_map (\<lambda>replacements. \<lparr>sr_text = out_text redacted, sr_replacements = replacements\<rparr>)
            (map_err TraceError_fmt (response_replacements (count_matches secret output') (out_findings redacted))))"

text \<open>What the command did: the request it sent, if any, the answer it printed, if any, and its exit.\<close>

record CallRun =
  cu_sent :: "CallRequest option"
  cu_printed :: "string option"
  cu_exit :: "string + nat"

text \<open>The request, with the length of its body and the secret, or the message of a failure before anything is sent.\<close>

definition call_prepare :: "CallHost \<Rightarrow> CallArgs \<Rightarrow> bool \<Rightarrow> (string, Store option \<times> EnvironmentName \<times> string \<times> nat \<times> CallRequest) fsm" where
  "call_prepare h args trace_enabled =
     fs_bind (optional_call_trace_store h trace_enabled) (\<lambda>st.
     fs_bind (fs_lift (call_secret (cl_var h) args)) (\<lambda>(env_name, secret).
     fs_bind (validate_call_body h args secret st) (\<lambda>request_body_len.
     fs_bind (allowed_call_url h args st request_body_len) (\<lambda>url.
     fs_bind (fs_lift (ok_or (cl_header h (''Bearer '' @ secret)) ''secret cannot be represented as an HTTP bearer token'')) (\<lambda>auth_value.
     if \<not> cl_client h then fs_err ''could not initialize HTTP client''
     else fs_ret (st, env_name, secret, request_body_len,
       \<lparr>cq_method = (if cg_method args = Some ''POST'' then ''POST'' else ''GET''), cq_url = url,
        cq_headers = [(''authorization'', auth_value)] @ (if cg_body args = None then [] else [(''content-type'', ''application/json'')]),
        cq_body = cg_body args\<rparr>))))))"

definition is_success :: "nat \<Rightarrow> bool" where
  "is_success status \<longleftrightarrow> 200 \<le> status \<and> status < 300"

text \<open>What is written to the standard output.\<close>

definition call_output :: "nat \<Rightarrow> string \<Rightarrow> string" where
  "call_output status text' =
     ''status: '' @ nat_str status @ nl @ text' @ (if ends_with nl text' then [] else nl)"

definition call_command :: "CallHost \<Rightarrow> CallArgs \<Rightarrow> bool \<Rightarrow> Fs \<Rightarrow> CallRun \<times> Fs" where
  "call_command h args trace_enabled s =
     (case call_prepare h args trace_enabled s of
        (Inl message, s) \<Rightarrow> (\<lparr>cu_sent = None, cu_printed = None, cu_exit = Err message\<rparr>, s)
      | (Inr (st, env_name, secret, request_body_len, request), s) \<Rightarrow>
          (case cl_send h request of
             None \<Rightarrow> (\<lparr>cu_sent = Some request, cu_printed = None, cu_exit = Err ''brokered HTTP call failed''\<rparr>, s)
           | Some response \<Rightarrow>
               (case res_bind (read_bounded_response response) (\<lambda>body.
                     res_map (\<lambda>safe. (body, safe)) (sanitize_call_response (cl_detectors h) body secret env_name)) of
                  Inl message \<Rightarrow> (\<lparr>cu_sent = Some request, cu_printed = None, cu_exit = Err message\<rparr>, s)
                | Inr (body, safe) \<Rightarrow>
                    (let n = u64_of_len request_body_len in
                     case (case st of
                         None \<Rightarrow> (Ok (), s)
                       | Some st \<Rightarrow> append_trace_to_store (cl_trace_codec h) (cl_clock h) (cl_counter h) st Route_Call Cov_Protected
                           (if is_success (cp_status response) then Out_Succeeded else Out_Failed) (n, n)
                           (u64_of_len (length body), u64_of_len (length (sr_text safe))) (sr_replacements safe) None s) of
                       (Inl e, s) \<Rightarrow> (\<lparr>cu_sent = Some request, cu_printed = None, cu_exit = Err (TraceError_fmt e)\<rparr>, s)
                     | (Inr _, s) \<Rightarrow>
                         (\<lparr>cu_sent = Some request, cu_printed = Some (call_output (cp_status response) (sr_text safe)),
                           cu_exit = Ok (if is_success (cp_status response) then 0 else 1)\<rparr>, s)))))"

section \<open>Isolated execution\<close>

definition EXEC_PASSTHROUGH :: "string list" where
  "EXEC_PASSTHROUGH = [''PATH'', ''HOME'', ''USER'', ''SHELL'', ''TERM'', ''TMPDIR'']"

definition exec_environment :: "string + EnvironmentPolicy" where
  "exec_environment =
     try_fold (\<lambda>environment name. res_map (allow_passthrough environment) (map_err ExecutionError_fmt (EnvironmentName_new name)))
       EnvironmentPolicy_new EXEC_PASSTHROUGH"

definition exec_bind_secret :: "(string \<Rightarrow> string option) \<Rightarrow> ExecutionRequest \<Rightarrow> string \<Rightarrow> string + ExecutionRequest" where
  "exec_bind_secret var request name =
     res_bind (ok_or (env_var var name) unavailable_message) (\<lambda>v.
     res_bind (map_err ExecutionError_fmt (EnvironmentName_new name)) (\<lambda>env_name.
     res_map (add_secret request) (map_err ExecutionError_fmt (SecretBinding_new env_name (SecretValue v)))))"

definition exec_request :: "(string \<Rightarrow> string option) \<Rightarrow> string list \<Rightarrow> string list \<Rightarrow> string + ExecutionRequest" where
  "exec_request var command names =
     (case command of
        [] \<Rightarrow> Err ''a command is required''
      | program # arguments \<Rightarrow>
          res_bind exec_environment (\<lambda>environment.
          try_fold (exec_bind_secret var)
            ((ExecutionRequest_new \<lparr>cs_program = program, cs_arguments = arguments, cs_working_directory = None\<rparr>)
              \<lparr>er_environment := environment\<rparr>) names))"

text \<open>What is printed on the two streams and the exit; \<open>None\<close> while the child runs.\<close>

definition exec_command ::
  "(string \<Rightarrow> string option) \<Rightarrow> ChildOs \<Rightarrow> string list \<Rightarrow> string list \<Rightarrow> ((string \<times> string) option \<times> (string + nat)) option"
where
  "exec_command var os command names =
     (case exec_request var command names of
        Inl message \<Rightarrow> Some (None, Err message)
      | Inr request \<Rightarrow>
          map_option (\<lambda>outcome. case outcome of
              Inl e \<Rightarrow> (None, Err (ExecutionError_fmt e))
            | Inr result \<Rightarrow> (Some (to_string_lossy (ex_stdout result), to_string_lossy (ex_stderr result)),
                Ok (exit_from_code (em_code (ea_exit (ex_audit result))))))
            (execute var os request))"

section \<open>Lemmas\<close>

lemma fs_map_err_ok: "fs_map_err f m s = (Ok x, s') \<longleftrightarrow> m s = (Ok x, s')"
  by (auto simp: fs_map_err_def map_err_ok_iff split: prod.splits)

lemma reject_call_fails [simp]: "reject_call h st n why message s \<noteq> (Ok x, s')"
  by (auto simp: reject_call_def split: prod.splits sum.splits)

lemma validate_call_body_ok:
  "validate_call_body h args secret st s = (Ok n, s') \<Longrightarrow> cg_body args = Some body \<Longrightarrow>
     length body \<le> CALL_REQUEST_LIMIT \<and> \<not> str_contains secret body \<and> DetectorSet_detect (cl_detectors h) body = []"
  by (auto simp: validate_call_body_def not_less split: if_splits)

lemma allowed_call_url_ok:
  "allowed_call_url h args st n s = (Ok url, s') \<Longrightarrow>
     url_scheme url \<in> {''http'', ''https''} \<and>
     (\<exists>host policy s1 s2. url_host url = Some host \<and> EgressNetworkPolicy_load (cl_policy_codec h) (cl_follow h) (cl_dir h) s1 = (Ok policy, s2) \<and>
        egress_decision policy host = ED_Allow)"
  by (auto simp: allowed_call_url_def ok_or_ok_iff split: prod.splits sum.splits if_splits EgressDecision.splits)

lemma call_prepare_ok:
  assumes "call_prepare h args trace_enabled s = (Ok (st, env_name, secret, n, request), s')"
  shows "call_secret (cl_var h) args = Ok (env_name, secret)" and "cq_body request = cg_body args"
    and "\<exists>s1 s2. validate_call_body h args secret st s1 = (Ok n, s2)"
    and "\<exists>s1 s2. allowed_call_url h args st n s1 = (Ok (cq_url request), s2)"
    and "\<exists>auth. cl_header h (''Bearer '' @ secret) = Some auth \<and> cq_headers request =
      (''authorization'', auth) # (if cg_body args = None then [] else [(''content-type'', ''application/json'')])"
  using assms
  by (auto simp: call_prepare_def ok_or_ok_iff split: prod.splits sum.splits if_splits; blast)+

section \<open>Properties\<close>


text \<open>The secret \<open>s3cret\<close> is sent to an allowed host, whose answer repeats it.\<close>

definition example_url :: Url where
  "example_url = \<lparr>url_scheme = ''https'', url_host = Some ''github.com'', url_port_or_known_default = Some 443,
     url_username = [], url_password = None, url_path = ''/'', url_query = None, url_fragment = None\<rparr>"

definition example_call_host :: CallHost where
  "example_call_host = \<lparr>cl_dir = [], cl_var = (\<lambda>n. if n = ''TOKEN'' then Some ''s3cret'' else None), cl_detectors = [],
     cl_url_parse = (\<lambda>_. Some example_url), cl_header = (\<lambda>v. Some v), cl_client = True,
     cl_send = (\<lambda>r. Some \<lparr>cp_status = 200, cp_content_length = None, cp_chunks = [Some ''your token: s3'', Some ''cret'']\<rparr>),
     cl_policy_codec = \<lparr>pc_from_str = (\<lambda>_. None), pc_to_string_pretty = (\<lambda>_. None)\<rparr>, cl_follow = (\<lambda>_. RT_Error),
     cl_trace_codec = undefined, cl_clock = 0, cl_counter = 0\<rparr>"

definition example_call_fs :: Fs where
  "example_call_fs = \<lparr>fs_nodes = (\<lambda>_. None), fs_allows = (\<lambda>_ _. True), fs_dir_mode = 0\<rparr>"

definition example_request :: CallRequest where
  "example_request = \<lparr>cq_method = ''GET'', cq_url = example_url, cq_headers = [(''authorization'', ''Bearer s3cret'')], cq_body = None\<rparr>"

lemma example_decision: "egress_decision (EgressNetworkPolicy_from_project ProjectNetworkPolicy_default) ''github.com'' = ED_Allow"
  by code_simp

lemma example_load:
  "EgressNetworkPolicy_load c follow [] example_call_fs =
     (Ok (EgressNetworkPolicy_from_project ProjectNetworkPolicy_default), example_call_fs)"
  by (simp add: EgressNetworkPolicy_load_def load_project_network_policy_def read_to_string_def example_call_fs_def)

lemma example_secret:
  "call_secret (cl_var example_call_host) \<lparr>cg_secret = Some ''TOKEN'', cg_url = u, cg_method = m, cg_body = b\<rparr> = Ok (''TOKEN'', ''s3cret'')"
  by code_simp

lemma example_prepare:
  "call_prepare example_call_host \<lparr>cg_secret = Some ''TOKEN'', cg_url = Some ''https://github.com/'', cg_method = None, cg_body = None\<rparr> False
     example_call_fs = (Ok (None, ''TOKEN'', ''s3cret'', 0, example_request), example_call_fs)"
  unfolding call_prepare_def example_secret
  by (simp add: optional_call_trace_store_def validate_call_body_def allowed_call_url_def example_load example_call_host_def
      example_url_def example_decision example_request_def)

lemma example_sanitized:
  "case sanitize_call_response [] ''your token: s3cret'' ''s3cret'' ''TOKEN'' of
     Inl _ \<Rightarrow> False | Inr r \<Rightarrow> sr_text r = ''your token: [REDACTED:TOKEN]''"
proof -
  have lossy: "to_string_lossy ''your token: s3cret'' = ''your token: s3cret''" by code_simp
  have replaced: "str_replace ''s3cret'' (redacted_marker ''TOKEN'') ''your token: s3cret'' = ''your token: [REDACTED:TOKEN]''" by code_simp
  have redacted: "case placeholder_redact [] ''your token: [REDACTED:TOKEN]'' of
      Inl _ \<Rightarrow> False | Inr r \<Rightarrow> out_text r = ''your token: [REDACTED:TOKEN]'' \<and> out_findings r = []" by code_simp
  have one: "count_matches ''s3cret'' ''your token: s3cret'' = 1" by (simp add: count_matches.simps starts_with_def)
  have "Replacement_validate \<lparr>rep_id = ''S1'', rep_category = Cat_BearerToken, rep_pointer = ''/response'', rep_occurrences = 1\<rparr> = Ok ()"
    by code_simp
  moreover have "''S'' @ nat_str (Suc 0) = ''S1''" by code_simp
  ultimately have "response_replacements 1 [] =
      Ok [\<lparr>rep_id = ''S1'', rep_category = Cat_BearerToken, rep_pointer = ''/response'', rep_occurrences = 1\<rparr>]"
    by (simp add: response_replacements_def count_category_def enumerate_eq_zip Replacement_new_def bt_get_def)
  then show ?thesis
    using redacted by (auto simp: sanitize_call_response_def lossy replaced one split: sum.splits)
qed


end
