(* ===== verification/Cli_Config.thy ===== *)
theory Cli_Config
  imports Cli_Agent
begin

text \<open>
  The configuration of the command line (\<open>crates/blindfold-cli/src/config.rs\<close>) and its diagnosis
  (\<open>crates/blindfold-cli/src/doctor.rs\<close>): the base file, the local override merged into it field by field, the
  checks of the result, and the report of the machine it is to run on.  The readers of the two YAML schemas, the
  parser of IP addresses and the answers of the system are parameters.
\<close>

section \<open>The configuration\<close>

definition CONFIG_FILE :: string where
  "CONFIG_FILE = ''.blindfold.yaml''"

definition LOCAL_CONFIG_FILE :: string where
  "LOCAL_CONFIG_FILE = ''.blindfold.local.yaml''"

definition CURRENT_VERSION :: "32 word" where
  "CURRENT_VERSION = 1"

definition MAX_CONFIG_BYTES :: nat where
  "MAX_CONFIG_BYTES = 1024 * 1024"

definition DEFAULT_CONFIG :: string where
  "DEFAULT_CONFIG = unlines [''version: 1'', ''mode: balanced'', ''storage:'', ''  directory: .blindfold'', ''proxy:'',
     ''  host: 127.0.0.1'', ''  port: 8765'', ''claude:'', ''  command: claude'']"

datatype Mode = Mode_Strict | Mode_Balanced

record StorageConfig =
  stc_directory :: string

record ProxyConfig =
  prc_host :: string
  prc_port :: "16 word"

record ClaudeConfig =
  clc_command :: string

record CliConfig =
  cc_version :: "32 word"
  cc_mode :: Mode
  cc_storage :: StorageConfig
  cc_proxy :: ProxyConfig
  cc_claude :: ClaudeConfig

definition CliConfig_default :: CliConfig where
  "CliConfig_default = \<lparr>cc_version = CURRENT_VERSION, cc_mode = Mode_Balanced, cc_storage = \<lparr>stc_directory = ''.blindfold''\<rparr>,
     cc_proxy = \<lparr>prc_host = ''127.0.0.1'', prc_port = 8765\<rparr>, cc_claude = \<lparr>clc_command = ''claude''\<rparr>\<rparr>"

record StorageOverride =
  sto_directory :: "string option"

record ProxyOverride =
  pro_host :: "string option"
  pro_port :: "16 word option"

record ClaudeOverride =
  clo_command :: "string option"

record ConfigOverride =
  co_version :: "32 word option"
  co_mode :: "Mode option"
  co_storage :: "StorageOverride option"
  co_proxy :: "ProxyOverride option"
  co_claude :: "ClaudeOverride option"

text \<open>The source of a read error is its printed kind.\<close>

datatype CliConfigError =
    CE_Read string string | CE_Parse string | CE_TooLarge string | CE_InvalidEncoding string | CE_Invalid string string

fun CliConfigError_fmt :: "CliConfigError \<Rightarrow> string" where
  "CliConfigError_fmt (CE_Read file kind) = ''could not read '' @ file @ '': '' @ kind"
| "CliConfigError_fmt (CE_Parse file) =
     file @ '' is not valid Blindfold YAML; check its syntax, fields, and value types''"
| "CliConfigError_fmt (CE_TooLarge file) = file @ '' exceeds the maximum supported size''"
| "CliConfigError_fmt (CE_InvalidEncoding file) = file @ '' must contain valid UTF-8''"
| "CliConfigError_fmt (CE_Invalid field reason) = ''invalid configuration field `'' @ field @ ''`: '' @ reason"

datatype InitError = IE_AlreadyExists | IE_Write string

fun InitError_fmt :: "InitError \<Rightarrow> string" where
  "InitError_fmt IE_AlreadyExists = CONFIG_FILE @ '' already exists; no changes were made''"
| "InitError_fmt (IE_Write kind) = ''could not create '' @ CONFIG_FILE @ '': '' @ kind"

record LoadedConfig =
  lc_config :: CliConfig
  lc_local_override_present :: bool

text \<open>What the system answers: metadata through links, the bytes of a file or the printed kind of the error.\<close>

record ConfigHost =
  cf_metadata :: "string \<Rightarrow> NodeMeta option"
  cf_read :: "string \<Rightarrow> string + string"
  cf_base :: "string \<Rightarrow> CliConfig option"
  cf_override :: "string \<Rightarrow> ConfigOverride option"
  cf_ip :: "string \<Rightarrow> IpAddr option"

text \<open>The answer to creating the file (\<open>None\<close>: it exists) and to writing it; the result is the new content.\<close>

definition config_init :: "string option + unit \<Rightarrow> string + unit \<Rightarrow> InitError + string" where
  "config_init create_answer write_answer =
     res_bind (map_err (\<lambda>e. case e of None \<Rightarrow> IE_AlreadyExists | Some kind \<Rightarrow> IE_Write kind) create_answer) (\<lambda>_.
     res_map (\<lambda>_. DEFAULT_CONFIG) (map_err IE_Write write_answer))"

definition config_read :: "ConfigHost \<Rightarrow> (string \<Rightarrow> 'a option) \<Rightarrow> string \<Rightarrow> string \<Rightarrow> CliConfigError + 'a" where
  "config_read h from_yaml p file =
     res_bind (map_err (CE_Read file) (cf_read h p)) (\<lambda>contents.
     if length contents > MAX_CONFIG_BYTES then Err (CE_TooLarge file)
     else if \<not> utf8_valid contents then Err (CE_InvalidEncoding file)
     else ok_or (from_yaml contents) (CE_Parse file))"

definition config_merge :: "CliConfig \<Rightarrow> ConfigOverride \<Rightarrow> CliConfig" where
  "config_merge config overrides =
     (let config = (case co_version overrides of Some v \<Rightarrow> config\<lparr>cc_version := v\<rparr> | None \<Rightarrow> config);
          config = (case co_mode overrides of Some m \<Rightarrow> config\<lparr>cc_mode := m\<rparr> | None \<Rightarrow> config);
          config = (case co_storage overrides of
              Some storage \<Rightarrow> (case sto_directory storage of
                Some d \<Rightarrow> config\<lparr>cc_storage := (cc_storage config)\<lparr>stc_directory := d\<rparr>\<rparr> | None \<Rightarrow> config)
            | None \<Rightarrow> config);
          config = (case co_proxy overrides of
              Some proxy \<Rightarrow>
                (let config = (case pro_host proxy of
                     Some x \<Rightarrow> config\<lparr>cc_proxy := (cc_proxy config)\<lparr>prc_host := x\<rparr>\<rparr> | None \<Rightarrow> config)
                 in case pro_port proxy of Some n \<Rightarrow> config\<lparr>cc_proxy := (cc_proxy config)\<lparr>prc_port := n\<rparr>\<rparr> | None \<Rightarrow> config)
            | None \<Rightarrow> config)
      in case co_claude overrides of
           Some claude \<Rightarrow> (case clo_command claude of
             Some c \<Rightarrow> config\<lparr>cc_claude := (cc_claude config)\<lparr>clc_command := c\<rparr>\<rparr> | None \<Rightarrow> config)
         | None \<Rightarrow> config)"

definition config_validate :: "(string \<Rightarrow> IpAddr option) \<Rightarrow> CliConfig \<Rightarrow> CliConfigError + unit" where
  "config_validate ip_of config =
     (if cc_version config \<noteq> CURRENT_VERSION then Err (CE_Invalid ''version'' ''unsupported schema version'')
      else if stc_directory (cc_storage config) = [] then Err (CE_Invalid ''storage.directory'' ''must not be empty'')
      else
        res_bind (ok_or (ip_of (prc_host (cc_proxy config))) (CE_Invalid ''proxy.host'' ''must be a loopback IP address'')) (\<lambda>host.
        if \<not> is_loopback host then Err (CE_Invalid ''proxy.host'' ''must be a loopback IP address'')
        else if prc_port (cc_proxy config) = 0 then Err (CE_Invalid ''proxy.port'' ''must be between 1 and 65535'')
        else if str_trim (clc_command (cc_claude config)) = [] then Err (CE_Invalid ''claude.command'' ''must not be empty'')
        else Ok ()))"

definition config_load :: "ConfigHost \<Rightarrow> string \<Rightarrow> CliConfigError + LoadedConfig" where
  "config_load h dir =
     res_bind (config_read h (cf_base h) (path_join dir CONFIG_FILE) CONFIG_FILE) (\<lambda>base.
     let local_path = path_join dir LOCAL_CONFIG_FILE;
         local_override_present = cf_metadata h local_path \<noteq> None
     in
     res_bind (if local_override_present
               then res_map (config_merge base) (config_read h (cf_override h) local_path LOCAL_CONFIG_FILE) else Ok base) (\<lambda>config.
     res_bind (config_validate (cf_ip h) config) (\<lambda>_.
     Ok \<lparr>lc_config = config, lc_local_override_present = local_override_present\<rparr>)))"

section \<open>The diagnosis\<close>

datatype DoctorOutcome = DO_Pass string | DO_Info string | DO_Fail string

record Check =
  ck_label :: string
  ck_outcome :: DoctorOutcome

type_synonym DoctorReport = "Check list"

definition is_healthy :: "DoctorReport \<Rightarrow> bool" where
  "is_healthy checks \<longleftrightarrow> list_all (\<lambda>c. case ck_outcome c of DO_Fail _ \<Rightarrow> False | _ \<Rightarrow> True) checks"

definition print_report :: "DoctorReport \<Rightarrow> string list" where
  "print_report checks = map (\<lambda>c. case ck_outcome c of
       DO_Pass detail \<Rightarrow> ''[ok] '' @ ck_label c @ '': '' @ detail
     | DO_Info detail \<Rightarrow> ''[info] '' @ ck_label c @ '': '' @ detail
     | DO_Fail detail \<Rightarrow> ''[fail] '' @ ck_label c @ '': '' @ detail) checks"

text \<open>What creating, removing and binding answer; \<open>dh_clock\<close> is the time since the epoch in nanoseconds.\<close>

record DoctorHost =
  dh_config :: ConfigHost
  dh_create :: "string \<Rightarrow> string + unit"
  dh_remove :: "string \<Rightarrow> bool"
  dh_bind :: "IpAddr \<Rightarrow> 16 word \<Rightarrow> string + unit"
  dh_var :: "string \<Rightarrow> string option"
  dh_lib :: ManifestLib
  dh_clock :: int
  dh_pid :: nat

text \<open>What the diagnosis changes: the probe files it creates and removes.\<close>

datatype ProbeEffect = PE_Created string | PE_Removed string

definition write_probe :: "DoctorHost \<Rightarrow> string \<Rightarrow> DoctorOutcome \<times> ProbeEffect list" where
  "write_probe h directory =
     (let probe = path_join directory (''.blindfold-doctor-'' @ nat_str (dh_pid h) @ ''-'' @ nat_str (nat (dh_clock h))) in
      case dh_create h probe of
        Inr _ \<Rightarrow>
          if dh_remove h probe then (DO_Pass ''writable'', [PE_Created probe, PE_Removed probe])
          else (DO_Fail ''write probe could not be cleaned up'', [PE_Created probe])
      | Inl kind \<Rightarrow> (DO_Fail (''not writable ('' @ kind @ '')''), []))"

text \<open>A path and its parents, up to the root; written without empty and dot components.\<close>

definition ancestors :: "string \<Rightarrow> string list" where
  "ancestors p = map (\<lambda>k. (if is_absolute p then ''/'' else []) @ join_with ''/'' (take k (path_parts p)))
     (rev [0..<Suc (length (path_parts p))])"

definition nearest_existing_ancestor :: "ConfigHost \<Rightarrow> string \<Rightarrow> string option" where
  "nearest_existing_ancestor h p = List.find (\<lambda>candidate. cf_metadata h candidate \<noteq> None) (ancestors p)"

definition check_storage :: "DoctorHost \<Rightarrow> string \<Rightarrow> CliConfig \<Rightarrow> DoctorOutcome \<times> ProbeEffect list" where
  "check_storage h dir config =
     (let directory = path_join dir (stc_directory (cc_storage config)) in
      case cf_metadata (dh_config h) directory of
        Some md \<Rightarrow>
          if nm_kind md \<noteq> Nk_Dir then (DO_Fail ''configured storage location is not a directory'', [])
          else write_probe h directory
      | None \<Rightarrow>
          (case nearest_existing_ancestor (dh_config h) directory of
             None \<Rightarrow> (DO_Fail ''storage directory has no accessible parent'', [])
           | Some parent \<Rightarrow>
               if \<not> (case cf_metadata (dh_config h) parent of Some md \<Rightarrow> nm_kind md = Nk_Dir | None \<Rightarrow> False)
               then (DO_Fail ''storage directory has a non-directory parent'', [])
               else
                 (case write_probe h parent of
                    (DO_Pass _, effects) \<Rightarrow> (DO_Pass ''can be created and written'', effects)
                  | (DO_Info detail, effects) \<Rightarrow> (DO_Info detail, effects)
                  | (DO_Fail detail, effects) \<Rightarrow> (DO_Fail detail, effects))))"

definition check_port :: "DoctorHost \<Rightarrow> CliConfig \<Rightarrow> DoctorOutcome" where
  "check_port h config =
     (case cf_ip (dh_config h) (prc_host (cc_proxy config)) of
        None \<Rightarrow> DO_Fail ''cannot check an invalid proxy host''
      | Some host \<Rightarrow>
          (case dh_bind h host (prc_port (cc_proxy config)) of
             Inr _ \<Rightarrow> DO_Pass ''available''
           | Inl kind \<Rightarrow> DO_Fail (''unavailable ('' @ kind @ '')'')))"

definition is_executable_file :: "ConfigHost \<Rightarrow> string \<Rightarrow> bool" where
  "is_executable_file h p \<longleftrightarrow> (case cf_metadata h p of Some md \<Rightarrow> nm_kind md = Nk_File \<and> is_executable md | None \<Rightarrow> False)"

definition check_command :: "DoctorHost \<Rightarrow> string \<Rightarrow> DoctorOutcome" where
  "check_command h command =
     (if CHR ''/'' \<in> set command
      then if is_executable_file (dh_config h) command then DO_Pass ''available'' else DO_Fail ''not found or not executable''
      else
        (case dh_var h ''PATH'' of
           None \<Rightarrow> DO_Fail ''PATH is not set''
         | Some p \<Rightarrow>
             if list_ex (\<lambda>directory. is_executable_file (dh_config h) (path_join directory command)) (split_on (CHR '':'') p)
             then DO_Pass ''available'' else DO_Fail ''not found on PATH''))"

definition check_optional_command :: "DoctorHost \<Rightarrow> string \<Rightarrow> DoctorOutcome" where
  "check_optional_command h command =
     (case check_command h command of
        DO_Fail _ \<Rightarrow> DO_Info ''not installed; this agent wrapper is unavailable'' | outcome \<Rightarrow> outcome)"

definition check_adapter_contract :: "ManifestLib \<Rightarrow> string \<Rightarrow> DoctorOutcome" where
  "check_adapter_contract lib name =
     (case HarnessAdapter_load lib name of
        Inr _ \<Rightarrow> DO_Pass ''built-in manifest valid; executable version is checked at run''
      | Inl e \<Rightarrow> DO_Fail (AdapterError_fmt e))"

definition is_file :: "ConfigHost \<Rightarrow> string \<Rightarrow> bool" where
  "is_file h p \<longleftrightarrow> (case cf_metadata h p of Some md \<Rightarrow> nm_kind md = Nk_File | None \<Rightarrow> False)"

definition doctor_run :: "DoctorHost \<Rightarrow> string \<Rightarrow> DoctorReport \<times> ProbeEffect list" where
  "doctor_run h dir =
     (let presence = (if is_file (dh_config h) (path_join dir CONFIG_FILE) then DO_Pass ''present''
                      else DO_Fail (CONFIG_FILE @ '' is missing''));
          local_override = (if is_file (dh_config h) (path_join dir LOCAL_CONFIG_FILE)
                            then DO_Info ''present and applied after the base configuration'' else DO_Info ''not present'');
          (validity, config) = (case config_load (dh_config h) dir of
              Inr loaded \<Rightarrow> (DO_Pass (if lc_local_override_present loaded then ''valid; local override applied'' else ''valid''), lc_config loaded)
            | Inl e \<Rightarrow> (DO_Fail (CliConfigError_fmt e), CliConfig_default));
          (storage, effects) = check_storage h dir config
      in ([\<lparr>ck_label = ''config presence'', ck_outcome = presence\<rparr>,
           \<lparr>ck_label = ''local override'', ck_outcome = local_override\<rparr>,
           \<lparr>ck_label = ''config validity'', ck_outcome = validity\<rparr>,
           \<lparr>ck_label = ''storage directory'', ck_outcome = storage\<rparr>,
           \<lparr>ck_label = ''loopback port'', ck_outcome = check_port h config\<rparr>,
           \<lparr>ck_label = ''Claude command'', ck_outcome = check_command h (clc_command (cc_claude config))\<rparr>,
           \<lparr>ck_label = ''Claude compatibility'', ck_outcome = check_adapter_contract (dh_lib h) ''claude''\<rparr>,
           \<lparr>ck_label = ''Codex command'', ck_outcome = check_optional_command h ''codex''\<rparr>,
           \<lparr>ck_label = ''Codex compatibility'', ck_outcome = check_adapter_contract (dh_lib h) ''codex''\<rparr>,
           \<lparr>ck_label = ''OpenCode command'', ck_outcome = check_optional_command h ''opencode''\<rparr>,
           \<lparr>ck_label = ''OpenCode compatibility'', ck_outcome = check_adapter_contract (dh_lib h) ''opencode''\<rparr>], effects))"

text \<open>The exit code and what is printed.\<close>

definition doctor_command :: "DoctorHost \<Rightarrow> string \<Rightarrow> nat \<times> string list \<times> ProbeEffect list" where
  "doctor_command h dir =
     (case doctor_run h dir of (report, effects) \<Rightarrow> (if is_healthy report then 0 else 1, print_report report, effects))"

definition init_command :: "string option + unit \<Rightarrow> string + unit \<Rightarrow> string + string" where
  "init_command create_answer write_answer = map_err InitError_fmt (config_init create_answer write_answer)"

section \<open>Lemmas\<close>

text \<open>What a merged configuration says of each field: the override when it has one, the base otherwise.\<close>

definition overridden :: "'a option \<Rightarrow> 'a \<Rightarrow> 'a" where
  "overridden v b = (case v of Some x \<Rightarrow> x | None \<Rightarrow> b)"

definition effective_config :: "CliConfig \<Rightarrow> ConfigOverride \<Rightarrow> CliConfig" where
  "effective_config base ov =
     \<lparr>cc_version = overridden (co_version ov) (cc_version base), cc_mode = overridden (co_mode ov) (cc_mode base),
      cc_storage = \<lparr>stc_directory = overridden (Option.bind (co_storage ov) sto_directory) (stc_directory (cc_storage base))\<rparr>,
      cc_proxy = \<lparr>prc_host = overridden (Option.bind (co_proxy ov) pro_host) (prc_host (cc_proxy base)),
                  prc_port = overridden (Option.bind (co_proxy ov) pro_port) (prc_port (cc_proxy base))\<rparr>,
      cc_claude = \<lparr>clc_command = overridden (Option.bind (co_claude ov) clo_command) (clc_command (cc_claude base))\<rparr>\<rparr>"

lemma overridden_fields:
  "(case v of Some x \<Rightarrow> c\<lparr>cc_version := x\<rparr> | None \<Rightarrow> c) = c\<lparr>cc_version := overridden v (cc_version c)\<rparr>"
  "(case m of Some x \<Rightarrow> c\<lparr>cc_mode := x\<rparr> | None \<Rightarrow> c) = c\<lparr>cc_mode := overridden m (cc_mode c)\<rparr>"
  "(case st of Some so \<Rightarrow> (case sto_directory so of
       Some d \<Rightarrow> c\<lparr>cc_storage := (cc_storage c)\<lparr>stc_directory := d\<rparr>\<rparr> | None \<Rightarrow> c) | None \<Rightarrow> c) =
     c\<lparr>cc_storage := \<lparr>stc_directory = overridden (Option.bind st sto_directory) (stc_directory (cc_storage c))\<rparr>\<rparr>"
  "(case px of Some po \<Rightarrow>
       (let c = (case pro_host po of Some x \<Rightarrow> c\<lparr>cc_proxy := (cc_proxy c)\<lparr>prc_host := x\<rparr>\<rparr> | None \<Rightarrow> c)
        in case pro_port po of Some n \<Rightarrow> c\<lparr>cc_proxy := (cc_proxy c)\<lparr>prc_port := n\<rparr>\<rparr> | None \<Rightarrow> c) | None \<Rightarrow> c) =
     c\<lparr>cc_proxy := \<lparr>prc_host = overridden (Option.bind px pro_host) (prc_host (cc_proxy c)),
       prc_port = overridden (Option.bind px pro_port) (prc_port (cc_proxy c))\<rparr>\<rparr>"
  "(case cl of Some co \<Rightarrow> (case clo_command co of
       Some x \<Rightarrow> c\<lparr>cc_claude := (cc_claude c)\<lparr>clc_command := x\<rparr>\<rparr> | None \<Rightarrow> c) | None \<Rightarrow> c) =
     c\<lparr>cc_claude := \<lparr>clc_command = overridden (Option.bind cl clo_command) (clc_command (cc_claude c))\<rparr>\<rparr>"
  by (cases c; auto simp: overridden_def Let_def split: option.splits)+

lemma config_merge_effective: "config_merge base ov = effective_config base ov"
  unfolding config_merge_def overridden_fields by (simp add: effective_config_def Let_def)

definition usable_config :: "(string \<Rightarrow> IpAddr option) \<Rightarrow> CliConfig \<Rightarrow> bool" where
  "usable_config ip_of c \<longleftrightarrow>
     cc_version c = 1 \<and> stc_directory (cc_storage c) \<noteq> [] \<and>
     (\<exists>ip. ip_of (prc_host (cc_proxy c)) = Some ip \<and> is_loopback ip) \<and> prc_port (cc_proxy c) \<noteq> 0 \<and>
     str_trim (clc_command (cc_claude c)) \<noteq> []"

lemma config_validate_iff: "config_validate ip_of c = Ok () \<longleftrightarrow> usable_config ip_of c"
  by (auto simp: config_validate_def usable_config_def CURRENT_VERSION_def res_bind_ok_iff ok_or_ok_iff split: if_splits)

definition readable_config :: "ConfigHost \<Rightarrow> (string \<Rightarrow> 'a option) \<Rightarrow> string \<Rightarrow> 'a \<Rightarrow> bool" where
  "readable_config h from_yaml p c \<longleftrightarrow>
     (\<exists>t. cf_read h p = Ok t \<and> length t \<le> MAX_CONFIG_BYTES \<and> utf8_valid t \<and> from_yaml t = Some c)"

lemma config_read_iff: "config_read h from_yaml p file = Ok c \<longleftrightarrow> readable_config h from_yaml p c"
  by (auto simp: config_read_def readable_config_def res_bind_ok_iff map_err_ok_iff ok_or_ok_iff not_less split: if_splits)

lemma config_load_iff:
  "config_load h dir = Ok loaded \<longleftrightarrow>
     (\<exists>base. readable_config h (cf_base h) (path_join dir CONFIG_FILE) base \<and>
       (if cf_metadata h (path_join dir LOCAL_CONFIG_FILE) = None then lc_config loaded = base
        else \<exists>ov. readable_config h (cf_override h) (path_join dir LOCAL_CONFIG_FILE) ov \<and> lc_config loaded = effective_config base ov)) \<and>
     usable_config (cf_ip h) (lc_config loaded) \<and>
     lc_local_override_present loaded = (cf_metadata h (path_join dir LOCAL_CONFIG_FILE) \<noteq> None)"
  by (cases loaded)
    (auto simp: config_load_def Let_def res_bind_ok_iff res_map_ok_iff config_read_iff config_merge_effective config_validate_iff)

lemma config_load_complete:
  assumes "readable_config h (cf_base h) (path_join dir CONFIG_FILE) base"
    and "if cf_metadata h (path_join dir LOCAL_CONFIG_FILE) = None then config = base
      else \<exists>ov. readable_config h (cf_override h) (path_join dir LOCAL_CONFIG_FILE) ov \<and> config = effective_config base ov"
    and "usable_config (cf_ip h) config"
  shows "config_load h dir =
    Ok \<lparr>lc_config = config, lc_local_override_present = (cf_metadata h (path_join dir LOCAL_CONFIG_FILE) \<noteq> None)\<rparr>"
  using assms by (subst config_load_iff) auto

lemma config_load_unique:
  assumes "config_load h dir = Ok loaded" and "readable_config h (cf_base h) (path_join dir CONFIG_FILE) base"
    and "if cf_metadata h (path_join dir LOCAL_CONFIG_FILE) = None then config = base
      else \<exists>ov. readable_config h (cf_override h) (path_join dir LOCAL_CONFIG_FILE) ov \<and> config = effective_config base ov"
    and "usable_config (cf_ip h) config"
  shows "config = lc_config loaded"
  using config_load_complete[OF assms(2-4)] assms(1) by auto

text \<open>A file can be created and removed in the directory, or in the nearest of its parents when it does not exist.\<close>

definition probed :: "DoctorHost \<Rightarrow> string \<Rightarrow> string option" where
  "probed h directory =
     (if cf_metadata (dh_config h) directory \<noteq> None then Some directory else nearest_existing_ancestor (dh_config h) directory)"

definition probe_file :: "DoctorHost \<Rightarrow> string \<Rightarrow> string" where
  "probe_file h directory = path_join directory (''.blindfold-doctor-'' @ nat_str (dh_pid h) @ ''-'' @ nat_str (nat (dh_clock h)))"

definition storage_usable :: "DoctorHost \<Rightarrow> string \<Rightarrow> bool" where
  "storage_usable h directory \<longleftrightarrow>
     (\<exists>d md. probed h directory = Some d \<and> cf_metadata (dh_config h) d = Some md \<and> nm_kind md = Nk_Dir \<and>
        dh_create h (probe_file h d) = Ok () \<and> dh_remove h (probe_file h d))"

definition passes :: "DoctorOutcome \<Rightarrow> bool" where
  "passes out \<longleftrightarrow> (case out of DO_Fail _ \<Rightarrow> False | _ \<Rightarrow> True)"

lemma passes_simps [simp]: "passes (DO_Pass x)" "passes (DO_Info x)" "\<not> passes (DO_Fail x)"
  by (simp_all add: passes_def)

lemma check_storage_passes:
  "passes (fst (check_storage h dir config)) \<longleftrightarrow> storage_usable h (path_join dir (stc_directory (cc_storage config)))"
  by (auto simp: check_storage_def storage_usable_def probed_def write_probe_def probe_file_def passes_def Let_def
      split: option.splits sum.splits if_splits prod.splits DoctorOutcome.splits)

lemma check_storage_effects:
  "passes (fst (check_storage h dir config)) \<Longrightarrow> \<exists>d. probed h (path_join dir (stc_directory (cc_storage config))) = Some d \<and>
     snd (check_storage h dir config) = [PE_Created (probe_file h d), PE_Removed (probe_file h d)]"
  by (auto simp: check_storage_def probed_def write_probe_def probe_file_def passes_def Let_def
      split: option.splits sum.splits if_splits prod.splits DoctorOutcome.splits)

lemma healthy_passes: "is_healthy report \<longleftrightarrow> list_all (\<lambda>c. passes (ck_outcome c)) report"
  by (simp add: is_healthy_def passes_def)

lemma optional_passes [simp]: "passes (check_optional_command h c)"
  by (simp add: check_optional_command_def passes_def split: DoctorOutcome.splits)

lemma contract_passes: "passes (check_adapter_contract lib name) \<longleftrightarrow> (\<exists>a. HarnessAdapter_load lib name = Ok a)"
  by (auto simp: check_adapter_contract_def passes_def split: sum.splits)

lemma port_passes:
  "passes (check_port h config) \<longleftrightarrow>
     (\<exists>ip. cf_ip (dh_config h) (prc_host (cc_proxy config)) = Some ip \<and> dh_bind h ip (prc_port (cc_proxy config)) = Ok ())"
  by (auto simp: check_port_def passes_def split: option.splits sum.splits)

definition command_available :: "DoctorHost \<Rightarrow> string \<Rightarrow> bool" where
  "command_available h command \<longleftrightarrow>
     (if CHR ''/'' \<in> set command then is_executable_file (dh_config h) command
      else \<exists>p directory. dh_var h ''PATH'' = Some p \<and> directory \<in> set (split_on (CHR '':'') p) \<and>
        is_executable_file (dh_config h) (path_join directory command))"

lemma command_passes: "passes (check_command h command) \<longleftrightarrow> command_available h command"
  by (auto simp: check_command_def command_available_def passes_def list_ex_iff split: option.splits)

lemma doctor_passes:
  "is_healthy (fst (doctor_run h dir)) \<longleftrightarrow>
     is_file (dh_config h) (path_join dir CONFIG_FILE) \<and>
     (\<exists>loaded. config_load (dh_config h) dir = Ok loaded \<and> passes (fst (check_storage h dir (lc_config loaded))) \<and>
        passes (check_port h (lc_config loaded)) \<and> passes (check_command h (clc_command (cc_claude (lc_config loaded))))) \<and>
     (\<forall>name\<in>{''claude'', ''codex'', ''opencode''}. passes (check_adapter_contract (dh_lib h) name))"
  by (cases "config_load (dh_config h) dir") (simp_all add: doctor_run_def healthy_passes split_def Let_def)

section \<open>Properties\<close>

text \<open>
  The diagnosis is healthy exactly when the program can run as it is configured.  The base file is there and
  is read; with a local override, the configuration is the base with exactly the fields the override has replaced;
  it has the supported version, a loopback address, a port, a storage directory and a command; the address can be
  bound, the command runs, the three built-in adapters keep their contracts, and a file can be made in the storage
  directory or the nearest of its parents, where a healthy diagnosis leaves nothing behind.
\<close>

theorem doctor_healthy_iff:
  "is_healthy (fst (doctor_run h dir)) \<longleftrightarrow>
     is_file (dh_config h) (path_join dir CONFIG_FILE) \<and>
     (\<exists>config base ip d.
        readable_config (dh_config h) (cf_base (dh_config h)) (path_join dir CONFIG_FILE) base \<and>
        (if cf_metadata (dh_config h) (path_join dir LOCAL_CONFIG_FILE) = None then config = base
         else \<exists>ov. readable_config (dh_config h) (cf_override (dh_config h)) (path_join dir LOCAL_CONFIG_FILE) ov \<and>
           config = effective_config base ov) \<and>
        usable_config (cf_ip (dh_config h)) config \<and>
        cf_ip (dh_config h) (prc_host (cc_proxy config)) = Some ip \<and> is_loopback ip \<and>
        dh_bind h ip (prc_port (cc_proxy config)) = Ok () \<and>
        command_available h (clc_command (cc_claude config)) \<and>
        storage_usable h (path_join dir (stc_directory (cc_storage config))) \<and>
        probed h (path_join dir (stc_directory (cc_storage config))) = Some d \<and>
        snd (doctor_run h dir) = [PE_Created (probe_file h d), PE_Removed (probe_file h d)]) \<and>
     (\<forall>name\<in>{''claude'', ''codex'', ''opencode''}. \<exists>a. HarnessAdapter_load (dh_lib h) name = Ok a)"
proof (cases "config_load (dh_config h) dir")
  case (Inl e)
  then show ?thesis using config_load_complete[of "dh_config h" dir] by (auto simp: doctor_passes; blast)
next
  case (Inr loaded)
  let ?c = "lc_config loaded"
  have healthy: "is_healthy (fst (doctor_run h dir)) \<longleftrightarrow>
      is_file (dh_config h) (path_join dir CONFIG_FILE) \<and> passes (fst (check_storage h dir ?c)) \<and> passes (check_port h ?c) \<and>
      passes (check_command h (clc_command (cc_claude ?c))) \<and>
      (\<forall>name\<in>{''claude'', ''codex'', ''opencode''}. passes (check_adapter_contract (dh_lib h) name))"
    using Inr by (simp add: doctor_passes)
  have effects: "snd (doctor_run h dir) = snd (check_storage h dir ?c)"
    using Inr by (simp add: doctor_run_def split_def Let_def)
  obtain base where base: "readable_config (dh_config h) (cf_base (dh_config h)) (path_join dir CONFIG_FILE) base"
    "if cf_metadata (dh_config h) (path_join dir LOCAL_CONFIG_FILE) = None then ?c = base
     else \<exists>ov. readable_config (dh_config h) (cf_override (dh_config h)) (path_join dir LOCAL_CONFIG_FILE) ov \<and>
       ?c = effective_config base ov" and usable: "usable_config (cf_ip (dh_config h)) ?c"
    using config_load_iff[THEN iffD1, OF Inr] by blast
  then obtain ip where ip: "cf_ip (dh_config h) (prc_host (cc_proxy ?c)) = Some ip" "is_loopback ip"
    by (auto simp: usable_config_def)
  show ?thesis (is "_ \<longleftrightarrow> ?present \<and> (\<exists>config base ip d. ?conf config base ip d) \<and> ?contracts")
  proof
    assume "is_healthy (fst (doctor_run h dir))"
    then have "?present" "?contracts" "passes (fst (check_storage h dir ?c))" "passes (check_port h ?c)"
      "passes (check_command h (clc_command (cc_claude ?c)))"
      unfolding healthy contract_passes by blast+
    moreover from this obtain d where "?conf ?c base ip d"
      using base usable ip check_storage_effects[of h dir ?c] unfolding effects
      by (auto simp: port_passes command_passes check_storage_passes)
    ultimately show "?present \<and> (\<exists>config base ip d. ?conf config base ip d) \<and> ?contracts" by blast
  next
    assume r: "?present \<and> (\<exists>config base ip d. ?conf config base ip d) \<and> ?contracts"
    then obtain config base ip d where conf: "?conf config base ip d" by blast
    then have "config = ?c" using config_load_unique[OF Inr, of base config] by blast
    then show "is_healthy (fst (doctor_run h dir))"
      using r conf by (simp add: healthy contract_passes check_storage_passes port_passes command_passes)
  qed
qed

end
