(* ===== verification/Cli_Commands.thy ===== *)
theory Cli_Commands
  imports Cli_Call Cli_Config Scanner Diff_Scan Policy
begin

text \<open>
  The remaining commands of \<open>crates/blindfold-cli/src/commands.rs\<close>: scan, redact, policy, status, diff-check,
  vault, audit, trace, plugin and proxy, with what they print and the code they exit with, and the trace of a
  command.  What the system answers, the JSON printer and the codecs are parameters.
\<close>

section \<open>Ends of commands\<close>

text \<open>
  A command ends with what it wrote to the standard output and with an exit code or the message it failed with
  (whose exit code is 1); it can panic, and a walk could run forever.
\<close>

datatype CliEnd = End_Endless | End_Panic | End_Exit (end_stdout: string) (end_exit: "string + nat")

definition cli_fail :: "string \<Rightarrow> CliEnd" where
  "cli_fail message = End_Exit [] (Err message)"

definition println :: "string \<Rightarrow> string" where
  "println t = t @ nl"

definition bool_str :: "bool \<Rightarrow> string" where
  "bool_str b = (if b then ''true'' else ''false'')"

text \<open>What a traced command needs.\<close>

record TraceHost =
  th_dir :: path
  th_codec :: TraceCodec
  th_clock :: int
  th_counter :: "64 word"
  th_enabled :: bool

definition traced_end ::
  "TraceHost \<Rightarrow> Route \<Rightarrow> 64 word \<times> 64 word \<Rightarrow> CliEnd \<Rightarrow> Fs \<Rightarrow> CliEnd \<times> Fs"
where
  "traced_end t route bytes result s =
     (case result of
        End_Exit out code \<Rightarrow>
          if \<not> th_enabled t then (End_Exit out code, s)
          else (case append_command_trace (th_codec t) (th_clock t) (th_counter t) (th_dir t) route bytes [] s of
              (Inl e, s) \<Rightarrow> (End_Exit out (Err (TraceError_fmt e)), s)
            | (Inr _, s) \<Rightarrow> (End_Exit out code, s))
      | _ \<Rightarrow> (result, s))"

definition traced_command :: "TraceHost \<Rightarrow> Route \<Rightarrow> (Fs \<Rightarrow> CliEnd \<times> Fs) \<Rightarrow> Fs \<Rightarrow> CliEnd \<times> Fs" where
  "traced_command t route command s = (case command s of (result, s) \<Rightarrow> traced_end t route (0, 0) result s)"

text \<open>The subcommands, and the route under which \<open>run\<close> traces a command around it; the others trace themselves or not at all.\<close>

datatype Subcommand =
    Sub_Init | Sub_Doctor | Sub_Scan | Sub_Redact | Sub_Mask | Sub_Exec | Sub_Call | Sub_Policy | Sub_Allow | Sub_Deny
  | Sub_Status | Sub_DiffCheck | Sub_Vault | Sub_Audit | Sub_Trace | Sub_Proxy | Sub_Mcp | Sub_Plugin | Sub_Container
  | Sub_Boundary | Sub_Run

fun traced_route :: "Subcommand \<Rightarrow> Route option" where
  "traced_route Sub_Init = Some Route_Init"
| "traced_route Sub_Doctor = Some Route_Doctor"
| "traced_route Sub_Scan = None"
| "traced_route Sub_Redact = None"
| "traced_route Sub_Mask = None"
| "traced_route Sub_Exec = Some Route_Exec"
| "traced_route Sub_Call = None"
| "traced_route Sub_Policy = Some Route_Policy"
| "traced_route Sub_Allow = Some Route_Policy"
| "traced_route Sub_Deny = Some Route_Policy"
| "traced_route Sub_Status = Some Route_Policy"
| "traced_route Sub_DiffCheck = Some Route_DiffCheck"
| "traced_route Sub_Vault = Some Route_Vault"
| "traced_route Sub_Audit = Some Route_Audit"
| "traced_route Sub_Trace = None"
| "traced_route Sub_Proxy = Some Route_Proxy"
| "traced_route Sub_Mcp = Some Route_Mcp"
| "traced_route Sub_Plugin = None"
| "traced_route Sub_Container = None"
| "traced_route Sub_Boundary = None"
| "traced_route Sub_Run = None"

text \<open>\<open>command\<close> is what each subcommand does with its arguments; \<open>None\<close> is no subcommand.\<close>

definition run :: "TraceHost \<Rightarrow> string + unit \<Rightarrow> (Subcommand \<Rightarrow> Fs \<Rightarrow> CliEnd \<times> Fs) \<Rightarrow> Subcommand option \<Rightarrow> Fs \<Rightarrow> CliEnd \<times> Fs" where
  "run t current_dir command sub s =
     (case current_dir of
        Inl kind \<Rightarrow> (cli_fail (''could not determine current directory: '' @ kind), s)
      | Inr _ \<Rightarrow>
          (case sub of
             None \<Rightarrow> (End_Exit [] (Ok 1), s)
           | Some sub \<Rightarrow>
               (case traced_route sub of
                  Some route \<Rightarrow> traced_command t route (command sub) s
                | None \<Rightarrow> command sub s)))"

section \<open>Scan\<close>

definition scan_is_incomplete :: "ScanReport \<Rightarrow> bool" where
  "scan_is_incomplete report \<longleftrightarrow> sr_skipped_too_large report > 0 \<or> sr_io_errors report > 0 \<or> sr_limit_reached report"

fun Confidence_debug :: "Confidence \<Rightarrow> string" where
  "Confidence_debug Conf_Contextual = ''Contextual''"
| "Confidence_debug Conf_High = ''High''"
| "Confidence_debug Conf_Certain = ''Certain''"

text \<open>\<open>text_of\<close> gives the bytes of a path; \<open>display\<close> is lossy.\<close>

definition scan_finding_line :: "(path \<Rightarrow> string) \<Rightarrow> FileScan \<Rightarrow> DetFinding \<Rightarrow> string" where
  "scan_finding_line text_of file f =
     println (to_string_lossy (text_of (fsc_path file)) @ '':'' @ nat_str (span_start (df_span f)) @ ''-'' @
       nat_str (span_end (df_span f)) @ '' '' @ DetKind_label (df_kind f) @ '' '' @ Confidence_debug (df_confidence f))"

definition scan_text :: "(path \<Rightarrow> string) \<Rightarrow> ScanReport \<Rightarrow> string" where
  "scan_text text_of report =
     concat (concat (map (\<lambda>file. map (scan_finding_line text_of file) (fsc_findings file)) (sr_files report))) @
     println (''Scanned '' @ nat_str (sr_files_considered report) @ '' files; '' @ nat_str (length (sr_files report)) @
       '' files contained findings.'') @
     println (''Completeness: complete='' @ bool_str (\<not> scan_is_incomplete report) @ '' skipped_binary='' @
       nat_str (sr_skipped_binary report) @ '' skipped_too_large='' @ nat_str (sr_skipped_too_large report) @
       '' skipped_ignored='' @ nat_str (sr_skipped_ignored report) @ '' skipped_symlinks='' @ nat_str (sr_skipped_symlinks report) @
       '' io_errors='' @ nat_str (sr_io_errors report) @ '' limit_reached='' @ bool_str (sr_limit_reached report) @ ''.'')"

text \<open>
  \<open>json!\<close> unwraps the serialisation of each value, and a path that is not UTF-8 has none: the program panics.
  The keys of an object are sorted.
\<close>

definition scan_json_finding :: "(path \<Rightarrow> string) \<Rightarrow> FileScan \<Rightarrow> DetFinding \<Rightarrow> json option" where
  "scan_json_finding text_of file f =
     (if \<not> utf8_valid (text_of (fsc_path file)) then None
      else Some (JObj [(''confidence'', JStr (to_ascii_lowercase (Confidence_debug (df_confidence f)))),
        (''detector'', JStr (df_detector f)), (''end'', JNum (nat_str (span_end (df_span f)))),
        (''kind'', JStr (DetKind_label (df_kind f))), (''path'', JStr (text_of (fsc_path file))),
        (''start'', JNum (nat_str (span_start (df_span f))))]))"

definition scan_json :: "(path \<Rightarrow> string) \<Rightarrow> ScanReport \<Rightarrow> json option" where
  "scan_json text_of report =
     map_option (\<lambda>findings. JObj [(''bytes_read'', JNum (nat_str (unat (sr_bytes_read report)))),
         (''complete'', JBool (\<not> scan_is_incomplete report)), (''files_considered'', JNum (nat_str (sr_files_considered report))),
         (''findings'', JArr findings), (''io_errors'', JNum (nat_str (sr_io_errors report))),
         (''limit_reached'', JBool (sr_limit_reached report)), (''schema_version'', JNum ''1''),
         (''skipped'', JObj [(''binary'', JNum (nat_str (sr_skipped_binary report))),
            (''ignored'', JNum (nat_str (sr_skipped_ignored report))), (''symlinks'', JNum (nat_str (sr_skipped_symlinks report))),
            (''too_large'', JNum (nat_str (sr_skipped_too_large report)))])])
       (those (concat (map (\<lambda>file. map (scan_json_finding text_of file) (fsc_findings file)) (sr_files report))))"

record ScanHost =
  sn_fs :: ScanFs
  sn_path :: "path option"
  sn_json :: bool
  sn_detectors :: DetectorSet
  sn_text_of :: "path \<Rightarrow> string"
  sn_json_text :: "json \<Rightarrow> string"

definition scan_exit :: "ScanReport \<Rightarrow> nat" where
  "scan_exit report = (if scan_is_incomplete report then 3 else if sr_files report = [] then 0 else 2)"

definition scan_command :: "ScanHost \<Rightarrow> TraceHost \<Rightarrow> Fs \<Rightarrow> CliEnd \<times> Fs" where
  "scan_command h t s =
     (case Scanner_scan (sn_fs h) (ScannerBuilder_new (sn_detectors h)) (case sn_path h of Some p \<Rightarrow> p | None \<Rightarrow> [''.'']) of
        None \<Rightarrow> (End_Endless, s)
      | Some (Inl e) \<Rightarrow> (cli_fail (ScanError_fmt e), s)
      | Some (Inr report) \<Rightarrow>
          (case (if sn_json h then map_option (\<lambda>v. println (sn_json_text h v)) (scan_json (sn_text_of h) report)
                 else Some (scan_text (sn_text_of h) report)) of
             None \<Rightarrow> (End_Panic, s)
           | Some out \<Rightarrow> traced_end t Route_Scan (sr_bytes_read report, 0) (End_Exit out (Ok (scan_exit report))) s))"

section \<open>Redact\<close>

text \<open>The text of a file or of the standard input; a failed read answers the printed kind of the error.\<close>

definition read_text_input :: "string option \<Rightarrow> (string \<Rightarrow> string + string) \<Rightarrow> string + string \<Rightarrow> string + string" where
  "read_text_input file read stdin =
     (case file of
        Some p \<Rightarrow> map_err (\<lambda>kind. ''could not read input: '' @ kind) (read p)
      | None \<Rightarrow> map_err (\<lambda>kind. ''could not read standard input: '' @ kind) stdin)"

record RedactHost =
  rd_file :: "string option"
  rd_read :: "string \<Rightarrow> string + string"
  rd_stdin :: "string + string"
  rd_mode :: "string option"
  rd_detectors :: DetectorSet
  rd_random :: "string option"
  rd_keyed_hash :: "string \<Rightarrow> string \<Rightarrow> string"
  rd_output :: bool
  rd_force :: bool
  rd_os :: OutputOs

definition redaction_mode :: "string option \<Rightarrow> RedactionMode" where
  "redaction_mode v =
     (if v = Some ''env-ref'' then RM_EnvRef else if v = Some ''schema-only'' then RM_SchemaOnly
      else if v = Some ''surrogate'' then RM_Surrogate else if v = Some ''block'' then RM_Block else RM_Placeholder)"

text \<open>The text that is printed or becomes the content of the output file.\<close>

definition redact_command :: "RedactHost \<Rightarrow> TraceHost \<Rightarrow> (string, string) fsm" where
  "redact_command h t =
     fs_bind (fs_lift (read_text_input (rd_file h) (rd_read h) (rd_stdin h))) (\<lambda>input.
     let mode = redaction_mode (rd_mode h);
         options = \<lparr>ro_mode = mode, ro_dotenv = (if mode = RM_EnvRef then Some (DotenvCatalog_parse input) else None)\<rparr>
     in
     fs_bind (fs_lift (map_err RedactionError_fmt (redact (rd_random h) (rd_keyed_hash h) (rd_detectors h) input options))) (\<lambda>output'.
     fs_bind (if th_enabled t
              then fs_map_err TraceError_fmt (append_transform_trace (th_codec t) (th_clock t) (th_counter t) (th_dir t) Route_Redact
                input (out_text output') (out_findings output'))
              else fs_ret ()) (\<lambda>_.
     fs_lift (if rd_output h then write_transformed_output (rd_os h) (out_text output') (rd_force h) else Ok (out_text output')))))"

section \<open>Policy and status\<close>

definition parse_destination :: "string option \<Rightarrow> Destination" where
  "parse_destination v =
     (if v = Some ''agent'' then Dest_Agent else if v = Some ''tool'' then Dest_Tool else if v = Some ''child'' then Dest_ChildProcess
      else if v = Some ''file'' then Dest_File else if v = Some ''log'' then Dest_Log else if v = Some ''audit'' then Dest_Audit
      else if v = Some ''user'' then Dest_User else if v = Some ''trusted-local'' then Dest_TrustedLocal else Dest_ModelProvider)"

definition parse_sensitivity :: "string option \<Rightarrow> Sensitivity" where
  "parse_sensitivity v =
     (if v = Some ''public'' then Sens_Public else if v = Some ''internal'' then Sens_Internal
      else if v = Some ''confidential'' then Sens_Confidential else if v = Some ''restricted'' then Sens_Restricted else Sens_Secret)"

definition parse_preset :: "string option \<Rightarrow> Preset" where
  "parse_preset v =
     (if v = Some ''chill'' then Preset_Chill else if v = Some ''strict'' then Preset_Strict
      else if v = Some ''ci'' then Preset_Ci else Preset_Balanced)"

fun Preset_debug :: "Preset \<Rightarrow> string" where
  "Preset_debug Preset_Chill = ''Chill''" | "Preset_debug Preset_Balanced = ''Balanced''"
| "Preset_debug Preset_Strict = ''Strict''" | "Preset_debug Preset_Ci = ''Ci''"

fun DecisionAction_debug :: "DecisionAction \<Rightarrow> string" where
  "DecisionAction_debug DA_Allow = ''Allow''" | "DecisionAction_debug DA_Redact = ''Redact''"
| "DecisionAction_debug DA_Warn = ''Warn''" | "DecisionAction_debug DA_Block = ''Block''"
| "DecisionAction_debug DA_Restore = ''Restore''"

fun DecisionBasis_debug :: "DecisionBasis \<Rightarrow> string" where
  "DecisionBasis_debug DB_Invariant = ''Invariant''" | "DecisionBasis_debug DB_InvalidPolicy = ''InvalidPolicy''"
| "DecisionBasis_debug DB_ExplicitDeny = ''ExplicitDeny''" | "DecisionBasis_debug DB_ExplicitAllow = ''ExplicitAllow''"
| "DecisionBasis_debug DB_Preset = ''Preset''"

fun Destination_debug :: "Destination \<Rightarrow> string" where
  "Destination_debug Dest_ModelProvider = ''ModelProvider''" | "Destination_debug Dest_Agent = ''Agent''"
| "Destination_debug Dest_Tool = ''Tool''" | "Destination_debug Dest_ChildProcess = ''ChildProcess''"
| "Destination_debug Dest_File = ''File''" | "Destination_debug Dest_Log = ''Log''" | "Destination_debug Dest_Audit = ''Audit''"
| "Destination_debug Dest_User = ''User''" | "Destination_debug Dest_TrustedLocal = ''TrustedLocal''"

fun Sensitivity_debug :: "Sensitivity \<Rightarrow> string" where
  "Sensitivity_debug Sens_Public = ''Public''" | "Sensitivity_debug Sens_Internal = ''Internal''"
| "Sensitivity_debug Sens_Confidential = ''Confidential''" | "Sensitivity_debug Sens_Secret = ''Secret''"
| "Sensitivity_debug Sens_Restricted = ''Restricted''"

text \<open>The arguments of \<open>check\<close>: mode, destination and sensitivity; \<open>now\<close> is the clock of the evaluation.\<close>

definition policy_command :: "int \<Rightarrow> (string option \<times> string option \<times> string option) option \<Rightarrow> CliEnd" where
  "policy_command now check =
     (case check of
        None \<Rightarrow> cli_fail ''policy subcommand is required''
      | Some (mode, destination, sensitivity) \<Rightarrow>
          (let preset = parse_preset mode; destination = parse_destination destination; sensitivity = parse_sensitivity sensitivity;
               request = \<lparr>rq_operation = Op_Disclose, rq_kind = SK_ApiKey, rq_sensitivity = sensitivity, rq_source = SC_File,
                          rq_destination = destination\<rparr>;
               decision = evaluate_at (Policy_preset preset) request now
           in End_Exit (println (''action='' @ DecisionAction_debug (dec_action decision) @ '' basis='' @
                DecisionBasis_debug (ex_basis (dec_explanation decision)) @ '' mode='' @ Preset_debug preset @ '' destination='' @
                Destination_debug destination @ '' sensitivity='' @ Sensitivity_debug sensitivity))
              (Ok (if permits_operation decision then 0 else 2))))"

definition status_command :: "PolicyCodec \<Rightarrow> (path \<Rightarrow> ReadText) \<Rightarrow> path \<Rightarrow> Fs \<Rightarrow> CliEnd \<times> Fs" where
  "status_command c follow dir s =
     (case load_project_network_policy c follow dir s of
        (Inl message, s) \<Rightarrow> (cli_fail message, s)
      | (Inr policy, s) \<Rightarrow>
          (End_Exit
            (println ''Blindfold status'' @ println (''network default allow domains: '' @ nat_str (length DEFAULT_ALLOWED_DOMAINS)) @
             println (''project allowed domains: '' @ nat_str (card (np_allow policy))) @
             concat (map (\<lambda>domain. println (''  allow '' @ domain)) (sorted_list_of_set (np_allow policy))) @
             println (''project denied domains: '' @ nat_str (card (np_deny policy))) @
             concat (map (\<lambda>domain. println (''  deny '' @ domain)) (sorted_list_of_set (np_deny policy))) @
             println ''unknown domains: block'')
            (Ok 0), s))"

section \<open>Diff check\<close>

record DiffHost =
  dc_patch :: "string option"
  dc_read :: "string \<Rightarrow> string + string"
  dc_staged :: bool
  dc_json :: bool
  dc_root :: string
  dc_git :: "GitCommand \<Rightarrow> (bool \<times> string) option"

definition diff_report :: "DiffHost \<Rightarrow> string + Report" where
  "diff_report h =
     (case dc_patch h of
        Some p \<Rightarrow> res_bind (map_err (\<lambda>kind. ''could not read patch: '' @ kind) (dc_read h p)) (\<lambda>input. map_err PatchError_fmt (scan input))
      | None \<Rightarrow> map_err GitError_fmt (scan_git (dc_git h) (dc_root h) (if dc_staged h then GD_Staged else GD_WorkingTree)))"

definition diff_command :: "DiffHost \<Rightarrow> CliEnd" where
  "diff_command h =
     (case diff_report h of
        Inl message \<Rightarrow> cli_fail message
      | Inr report \<Rightarrow>
          End_Exit (if dc_json h then println (Report_to_json report) else Report_to_text report)
            (Ok (if rp_outcome report = SO_Findings then 2 else 0)))"

section \<open>Vault and audit\<close>

datatype VaultSub = VS_PutEnv "string option" "nat option" | VS_List | VS_Clear bool | VS_Other

record VaultHost =
  vh_env :: VaultEnv
  vh_key :: "string option"
  vh_dir :: path
  vh_root :: string
  vh_var :: "string \<Rightarrow> string option"
  vh_call :: StoreCall
  vh_audit_codec :: AuditCodec
  vh_audit_clock :: int

definition vault_put_env :: "VaultHost \<Rightarrow> Vault \<Rightarrow> Scope \<Rightarrow> string option \<Rightarrow> nat option \<Rightarrow> Fs \<Rightarrow> CliEnd \<times> Fs" where
  "vault_put_env h v sc name ttl s =
     (case name of
        None \<Rightarrow> (cli_fail ''environment variable name is required'', s)
      | Some name \<Rightarrow>
          (case env_var (vh_var h) name of
             None \<Rightarrow> (cli_fail ''environment value is unavailable'', s)
           | Some v' \<Rightarrow>
               (case store (vh_env h) v (sc_clock (vh_call h)) (sc_ids (vh_call h)) (sc_nonce (vh_call h)) SRK_Environment sc (SecretValue v')
                  ((case ttl of Some n \<Rightarrow> n | None \<Rightarrow> 3600) * 1000000000) s of
                  (Inl e, s) \<Rightarrow> (cli_fail (VaultError_fmt e), s)
                | (Inr safe_ref, s) \<Rightarrow>
                    (End_Exit (println (sr_encoded safe_ref)) (Ok 0),
                     append_audit (vh_audit_codec h) (vh_audit_clock h) (vh_dir h) AA_Store AO_Succeeded (Some safe_ref) s))))"

definition vault_sub :: "VaultHost \<Rightarrow> Vault \<Rightarrow> Scope \<Rightarrow> VaultSub \<Rightarrow> Fs \<Rightarrow> CliEnd \<times> Fs" where
  "vault_sub h v sc sub s =
     (case sub of
        VS_PutEnv name ttl \<Rightarrow> vault_put_env h v sc name ttl s
      | VS_List \<Rightarrow>
          (case list_entries (vh_env h) v (sc_clock (vh_call h)) sc s of
             (None, s) \<Rightarrow> (End_Panic, s)
           | (Some (Inl e), s) \<Rightarrow> (cli_fail (VaultError_fmt e), s)
           | (Some (Inr entries), s) \<Rightarrow> (End_Exit (concat (map (\<lambda>m. println (sr_encoded (me_safe_ref m))) entries)) (Ok 0), s))
      | VS_Clear yes \<Rightarrow>
          if \<not> yes then (cli_fail ''vault clear is destructive; pass --yes to confirm this working-directory scope'', s)
          else
            (case clear (vh_env h) v (sc_nonce (vh_call h)) sc s of
               (Inl e, s) \<Rightarrow> (cli_fail (VaultError_fmt e), s)
             | (Inr removed, s) \<Rightarrow>
                 (End_Exit (println (''Removed '' @ nat_str removed @ '' scoped vault entries.'')) (Ok 0),
                  append_audit (vh_audit_codec h) (vh_audit_clock h) (vh_dir h) AA_Clear AO_Succeeded None s))
      | VS_Other \<Rightarrow> (cli_fail ''vault subcommand is required'', s))"

definition vault_command :: "VaultHost \<Rightarrow> VaultSub \<Rightarrow> Fs \<Rightarrow> CliEnd \<times> Fs" where
  "vault_command h sub s =
     (case open_vault (vh_env h) (vh_key h) (vh_dir h) s of
        (Inl message, s) \<Rightarrow> (cli_fail message, s)
      | (Inr v, s) \<Rightarrow>
          (case project_scope (vh_root h) of
             Inl e \<Rightarrow> (cli_fail (VaultError_fmt e), s)
           | Inr sc \<Rightarrow> vault_sub h v sc sub s))"

definition audit_command :: "AuditCodec \<Rightarrow> path \<Rightarrow> Fs \<Rightarrow> CliEnd \<times> Fs" where
  "audit_command c dir s =
     (case RotationPolicy_new (1024 * 1024) 5 of
        Inl e \<Rightarrow> (cli_fail (VaultError_fmt e), s)
      | Inr rotation \<Rightarrow>
          (case AuditLog_open (dir @ [''.blindfold'', ''audit.jsonl'']) rotation s of
             (Inl e, s) \<Rightarrow> (cli_fail (''could not open audit log: '' @ VaultError_fmt e), s)
           | (Inr audit, s) \<Rightarrow>
               (case read_lines c audit s of
                  (Inl e, s) \<Rightarrow> (cli_fail (''could not read audit log: '' @ VaultError_fmt e), s)
                | (Inr ls, s) \<Rightarrow>
                    (End_Exit (if ls = [] then println ''No audit events recorded.'' else concat (map println ls)) (Ok 0), s))))"

section \<open>Trace\<close>

fun trace_route_label :: "Route \<Rightarrow> string" where
  "trace_route_label Route_OpenAi = ''openai''" | "trace_route_label Route_Anthropic = ''anthropic''"
| "trace_route_label Route_Unknown = ''unknown''" | "trace_route_label Route_Redact = ''redact''"
| "trace_route_label Route_Mask = ''mask''" | "trace_route_label Route_Scan = ''scan''"
| "trace_route_label Route_Exec = ''exec''" | "trace_route_label Route_Call = ''call''"
| "trace_route_label Route_Policy = ''policy''" | "trace_route_label Route_DiffCheck = ''diff-check''"
| "trace_route_label Route_Vault = ''vault''" | "trace_route_label Route_Audit = ''audit''"
| "trace_route_label Route_Proxy = ''proxy''" | "trace_route_label Route_Egress = ''egress''"
| "trace_route_label Route_Mcp = ''mcp''" | "trace_route_label Route_RunClaude = ''run:claude''"
| "trace_route_label Route_RunCodex = ''run:codex''" | "trace_route_label Route_RunOpencode = ''run:opencode''"
| "trace_route_label Route_Init = ''init''" | "trace_route_label Route_Doctor = ''doctor''"

definition trace_is_provider_route :: "Route \<Rightarrow> bool" where
  "trace_is_provider_route route \<longleftrightarrow> route = Route_OpenAi \<or> route = Route_Anthropic \<or> route = Route_Unknown"

fun trace_coverage_label :: "Coverage \<Rightarrow> string" where
  "trace_coverage_label Cov_Protected = ''protected''" | "trace_coverage_label Cov_Degraded = ''degraded''"
| "trace_coverage_label Cov_Unprotected = ''unprotected''"

fun trace_outcome_label :: "Outcome \<Rightarrow> string" where
  "trace_outcome_label Out_Observed = ''observed''" | "trace_outcome_label Out_Succeeded = ''succeeded''"
| "trace_outcome_label Out_Rejected = ''rejected''" | "trace_outcome_label Out_Failed = ''failed''"
| "trace_outcome_label Out_TimedOut = ''timed_out''"

fun trace_issue_label :: "Issue \<Rightarrow> string" where
  "trace_issue_label Issue_UnsupportedRequest = ''unsupported_request''"
| "trace_issue_label Issue_UnsupportedResponse = ''unsupported_response''"
| "trace_issue_label Issue_RequestTooLarge = ''request_too_large''"
| "trace_issue_label Issue_ResponseTooLarge = ''response_too_large''"
| "trace_issue_label Issue_InvalidPayload = ''invalid_payload''"
| "trace_issue_label Issue_ProxyLoop = ''proxy_loop''"
| "trace_issue_label Issue_RouteNotAllowed = ''route_not_allowed''"
| "trace_issue_label Issue_UpstreamFailure = ''upstream_failure''"
| "trace_issue_label Issue_Timeout = ''timeout''"
| "trace_issue_label Issue_DirectFilesystemUnmediated = ''direct_filesystem_unmediated''"

definition print_trace_json_array :: "TraceCodec \<Rightarrow> Record list \<Rightarrow> CliEnd" where
  "print_trace_json_array c records =
     (case try_map (to_json c) records of
        Inl _ \<Rightarrow> cli_fail ''trace serialization failed''
      | Inr texts \<Rightarrow> End_Exit (println (''['' @ join_with '','' texts @ '']'')) (Ok 0))"

definition byte_counts :: "64 word \<times> 64 word \<Rightarrow> string" where
  "byte_counts p = nat_str (unat (fst p)) @ '' bytes -> '' @ nat_str (unat (snd p)) @ '' bytes''"

definition replacement_line :: "Replacement \<Rightarrow> string" where
  "replacement_line r =
     println (''  '' @ rep_id r @ ''  '' @ Category_label (rep_category r) @ ''  '' @ rep_pointer r @ ''  occurrences='' @
       nat_str (unat (rep_occurrences r)))"

definition trace_record_text :: "Record \<Rightarrow> string" where
  "trace_record_text r =
     println (''request: '' @ rec_request_id r) @
     (if trace_is_provider_route (rec_route r)
      then println (''route: agent -> blindfold -> '' @ trace_route_label (rec_route r))
      else println (''activity: '' @ trace_route_label (rec_route r))) @
     println (''coverage: '' @ trace_coverage_label (rec_coverage r)) @
     println (''request: '' @ byte_counts (rec_request_bytes r)) @
     println (''response: '' @ byte_counts (rec_response_bytes r)) @
     println (''outcome: '' @ trace_outcome_label (rec_outcome r)) @
     (case rec_issue r of Some i \<Rightarrow> println (''issue: '' @ trace_issue_label i) | None \<Rightarrow> []) @
     println ''replacements:'' @
     (if rec_replacements r = [] then println ''  none'' else concat (map replacement_line (rec_replacements r))) @
     println ''retention: metadata only; original and sanitized payloads not retained''"

definition print_trace_record :: "TraceCodec \<Rightarrow> Record \<Rightarrow> bool \<Rightarrow> CliEnd" where
  "print_trace_record c r json =
     (if json
      then (case to_json c r of Inr text' \<Rightarrow> End_Exit (println text') (Ok 0) | Inl e \<Rightarrow> cli_fail (TraceError_fmt e))
      else End_Exit (trace_record_text r) (Ok 0))"

definition trace_summary :: "Record \<Rightarrow> string" where
  "trace_summary r =
     println (rec_request_id r @ ''  route='' @ trace_route_label (rec_route r) @ '' coverage='' @
       trace_coverage_label (rec_coverage r) @ '' outcome='' @ trace_outcome_label (rec_outcome r) @ '' replacements='' @
       nat_str (length (rec_replacements r)))"

text \<open>\<open>show\<close> and \<open>export\<close> differ in the flag of \<open>TS_Show\<close>: whether JSON is printed.\<close>

datatype TraceSub = TS_Clear bool | TS_List bool | TS_Tail bool | TS_Show "string option" bool | TS_Other

definition print_trace_selection :: "TraceCodec \<Rightarrow> TraceSub \<Rightarrow> Record list \<Rightarrow> CliEnd" where
  "print_trace_selection c sub records =
     (case sub of
        TS_List json \<Rightarrow>
          if json then print_trace_json_array c records
          else End_Exit (concat (map trace_summary records) @ (if records = [] then println ''No trace records recorded.'' else [])) (Ok 0)
      | TS_Tail json \<Rightarrow> if records = [] then cli_fail ''no trace records recorded'' else print_trace_record c (last records) json
      | TS_Show request_id json \<Rightarrow>
          (case request_id of
             None \<Rightarrow> cli_fail ''request ID is required''
           | Some request_id \<Rightarrow>
               (case List.find (\<lambda>r. rec_request_id r = request_id) records of
                  None \<Rightarrow> cli_fail ''request trace was not found''
                | Some r \<Rightarrow> print_trace_record c r json))
      | _ \<Rightarrow> cli_fail ''trace subcommand is required'')"

definition trace_command :: "TraceCodec \<Rightarrow> path \<Rightarrow> TraceSub \<Rightarrow> Fs \<Rightarrow> CliEnd \<times> Fs" where
  "trace_command c dir sub s =
     (case open_trace_store dir s of
        (Inl e, s) \<Rightarrow> (cli_fail (TraceError_fmt e), s)
      | (Inr st, s) \<Rightarrow>
          (case sub of
             TS_Clear yes \<Rightarrow>
               if \<not> yes then (cli_fail ''trace clear is destructive; pass --yes to confirm'', s)
               else (case Store_clear st s of
                   (Inl e, s) \<Rightarrow> (cli_fail (TraceError_fmt e), s)
                 | (Inr removed, s) \<Rightarrow> (End_Exit (println (''Removed '' @ nat_str removed @ '' trace files.'')) (Ok 0), s))
           | TS_Other \<Rightarrow> (cli_fail ''trace subcommand is required'', s)
           | _ \<Rightarrow>
               (case read_all c st s of
                  (Inl e, s) \<Rightarrow> (cli_fail (TraceError_fmt e), s)
                | (Inr records, s) \<Rightarrow> (print_trace_selection c sub records, s))))"

section \<open>Plugins\<close>

fun mode_name :: "NonInteractiveMode \<Rightarrow> string" where
  "mode_name Mode_Print = ''print''" | "mode_name Mode_Exec = ''exec''" | "mode_name Mode_Review = ''review''"
| "mode_name Mode_Run = ''run''"

fun protocol_name :: "Protocol \<Rightarrow> string" where
  "protocol_name Proto_BuiltinV1 = ''builtin-v1''" | "protocol_name Proto_StdioJsonV1 = ''stdio-json-v1''"

text \<open>\<open>req_text\<close> prints a version requirement, as the \<open>semver\<close> crate does.\<close>

definition print_plugin_manifest :: "(VersionReq \<Rightarrow> string) \<Rightarrow> PluginManifest \<Rightarrow> string" where
  "print_plugin_manifest req_text m =
     println (pm_id m @ '' plugin='' @ (case pm_version m of Version v \<Rightarrow> v) @ '' protocol='' @ protocol_name (pm_protocol m) @
       '' command='' @ hs_command (pm_harness m) @ '' harness='' @ jq @ req_text (hs_version_requirement (pm_harness m)) @ jq @
       '' modes='' @ join_with '','' (map mode_name (hs_noninteractive_modes (pm_harness m))))"

definition plugin_list_command :: "ManifestLib \<Rightarrow> (VersionReq \<Rightarrow> string) \<Rightarrow> CliEnd" where
  "plugin_list_command lib req_text =
     (case try_map (HarnessAdapter_load lib) [''claude'', ''codex'', ''opencode''] of
        Inl e \<Rightarrow> cli_fail (AdapterError_fmt e)
      | Inr adapters \<Rightarrow> End_Exit (concat (map (\<lambda>a. print_plugin_manifest req_text (ha_manifest a)) adapters)) (Ok 0))"

definition plugin_validate_command ::
  "HostFs \<Rightarrow> (string \<Rightarrow> PluginManifest option) \<Rightarrow> (VersionReq \<Rightarrow> string) \<Rightarrow> string list \<Rightarrow> CliEnd"
where
  "plugin_validate_command fs toml_from_str req_text directories =
     (case load_explicit_plugins fs toml_from_str directories of
        Inl e \<Rightarrow> cli_fail (''plugin validation failed: '' @ HostError_fmt e)
      | Inr plugins \<Rightarrow>
          (let plugins = sort_key (\<lambda>p. pm_id (ip_manifest p)) plugins in
           End_Exit (concat (map (\<lambda>p. print_plugin_manifest req_text (ip_manifest p)) plugins) @
             println (''Validated '' @ nat_str (length plugins) @ '' explicit plugin director'' @
               (if length plugins = 1 then ''y'' else ''ies'') @ ''; no plugin was installed, activated, or executed.''))
            (Ok 0)))"

datatype PluginSub = PS_List | PS_Validate "string list" | PS_Other

definition plugin_command ::
  "ManifestLib \<Rightarrow> HostFs \<Rightarrow> (string \<Rightarrow> PluginManifest option) \<Rightarrow> (VersionReq \<Rightarrow> string) \<Rightarrow> PluginSub \<Rightarrow> CliEnd"
where
  "plugin_command lib fs toml_from_str req_text sub =
     (case sub of
        PS_List \<Rightarrow> plugin_list_command lib req_text
      | PS_Validate directories \<Rightarrow> plugin_validate_command fs toml_from_str req_text directories
      | PS_Other \<Rightarrow> End_Exit [] (Ok 1))"

section \<open>Proxy\<close>

record ProxyArgs =
  pa_listen :: "string option"
  pa_openai :: "string option"
  pa_anthropic :: "string option"
  pa_openrouter :: "string option"

definition proxy_upstream :: "(string \<Rightarrow> Url option) \<Rightarrow> string \<Rightarrow> Provider \<Rightarrow> string option \<Rightarrow> string + Upstream list" where
  "proxy_upstream url_of name provider url =
     (case url of
        None \<Rightarrow> Ok []
      | Some url \<Rightarrow> res_map (\<lambda>u. [u]) (map_err ConfigError_fmt (Upstream_new url_of name url provider)))"

text \<open>
  The proxy that is served, with the address it is bound to; \<open>addr_of\<close> parses a socket address and \<open>bound\<close> is the
  address the system gave the listener.
\<close>

definition proxy_command ::
  "(string \<Rightarrow> SocketAddr option) \<Rightarrow> (string \<Rightarrow> Url option) \<Rightarrow> HttpLib \<Rightarrow> SocketAddr option \<Rightarrow> DetectorSet \<Rightarrow> ProxyArgs \<Rightarrow>
     string + AppState \<times> SocketAddr"
where
  "proxy_command addr_of url_of http bound ds args =
     res_bind (ok_or (Option.bind (pa_listen args) addr_of) ''invalid proxy listen address'') (\<lambda>listen.
     res_bind (proxy_upstream url_of ''openai'' Prov_OpenAi (pa_openai args)) (\<lambda>openai.
     res_bind (proxy_upstream url_of ''anthropic'' Prov_Anthropic (pa_anthropic args)) (\<lambda>anthropic.
     res_bind (proxy_upstream url_of ''openrouter'' Prov_OpenAi (pa_openrouter args)) (\<lambda>openrouter.
     let us = openai @ anthropic @ openrouter in
     if us = [] then Err ''at least one upstream must be configured''
     else
       res_bind (map_err ConfigError_fmt (Proxy_new (Config_default\<lparr>cfg_bind_addr := listen, cfg_upstreams := us\<rparr>))) (\<lambda>config.
       map_err ConfigError_fmt (Proxy_bind http bound config (DetectorSanitizer ds) False))))))"

section \<open>Lemmas: the verdict of a scan\<close>

lemma scan_report_verdict:
  assumes "scan_fs_ok env" and "sf_metadata env start \<noteq> None" and "\<not> sc_follow_symlinks sc"
  shows "\<exists>r. Scanner_scan env sc start = Some (Ok r) \<and>
    (\<not> sr_limit_reached r \<longrightarrow> sr_files r = walk env sc (max_depth (sc_limits sc)) start)"
proof -
  obtain r where r: "scan_loop env sc [(start, 0)] [] ScanReport_default = Some r"
    using scan_loop_total[OF assms(1)] by blast
  then show ?thesis
    using scan_loop_files[OF assms(1,3) r] assms(2) by (auto simp: Scanner_scan_def ScanReport_default_def)
qed

lemma those_none: "those xs = None \<longleftrightarrow> None \<in> set xs"
  by (induction xs) (auto split: option.splits)

lemma scan_json_finding_none:
  "None \<in> scan_json_finding text_of file ` set fs \<longleftrightarrow> fs \<noteq> [] \<and> \<not> utf8_valid (text_of (fsc_path file))"
  by (cases fs) (auto simp: scan_json_finding_def)

lemma scan_json_none:
  "scan_json text_of report = None \<longleftrightarrow> (\<exists>file\<in>set (sr_files report). fsc_findings file \<noteq> [] \<and> \<not> utf8_valid (text_of (fsc_path file)))"
  by (simp add: scan_json_def those_none scan_json_finding_none)

lemma traced_end_exit:
  "traced_end t route bytes (End_Exit out code) s = (result, s') \<Longrightarrow>
     \<exists>code'. result = End_Exit out code' \<and> (code' = code \<or> th_enabled t \<and> (\<exists>e. code' = Err e))"
  by (auto simp: traced_end_def split: if_splits prod.splits sum.splits)

text \<open>
  Files below the depth limit are not looked at, and the report does not say so: in a chain of directories, with
  any file at the end of it and any detectors, the scan is complete and the exit code is 0.
\<close>

definition chain_fs :: ScanFs where
  "chain_fs = \<lparr>sf_metadata = (\<lambda>p. if p = replicate 18 ''d'' then Some \<lparr>md_kind = FK_File, md_len = 40\<rparr>
        else if p = replicate (length p) ''d'' \<and> length p \<le> 17 then Some \<lparr>md_kind = FK_Dir, md_len = 0\<rparr> else None),
     sf_canonicalize = Some, sf_read_dir = (\<lambda>p. Some [Some (p @ [''d''])]), sf_read = (\<lambda>_. Some ''AWS_SECRET_ACCESS_KEY'')\<rparr>"

lemma chain_ignored: "\<not> is_ignored (ScannerBuilder_new ds) (replicate (Suc n) ''d'')"
  by (simp add: is_ignored_def ScannerBuilder_new_def file_name_def file_extension_def del: replicate.simps)

lemma chain_dir:
  assumes "n \<le> 16"
  shows "scan_entry chain_fs (ScannerBuilder_new ds) (replicate (Suc n) ''d'') n [] r =
    (if n = 16 then [] else [(replicate (Suc (Suc n)) ''d'', Suc n)], [], r)"
proof -
  have dir: "sf_metadata chain_fs (replicate (Suc n) ''d'') = Some \<lparr>md_kind = FK_Dir, md_len = 0\<rparr>"
    using assms by (simp add: chain_fs_def replicate_eq_replicate del: replicate.simps)
  have entries: "sf_read_dir chain_fs (replicate (Suc n) ''d'') = Some [Some (replicate (Suc (Suc n)) ''d'')]"
    by (simp add: chain_fs_def replicate_append_same)
  have "\<not> sc_follow_symlinks (ScannerBuilder_new ds)" "max_depth (sc_limits (ScannerBuilder_new ds)) = 16"
    by (simp_all add: ScannerBuilder_new_def ScanLimits_default_def)
  then show ?thesis
    using assms chain_ignored[of ds n] dir entries by (simp add: scan_entry_def scan_dir_def map_filter_def del: replicate.simps)
qed

lemma chain_scan:
  assumes "n \<le> 16" and "\<not> sr_limit_reached r"
  shows "scan_loop chain_fs (ScannerBuilder_new ds) [(replicate (Suc n) ''d'', n)] [] r = Some r"
  using assms(1)
proof (induction "16 - n" arbitrary: n)
  case 0
  then show ?case
    using chain_dir[of n ds r] assms(2) by (subst scan_loop.simps) (simp add: scan_loop.simps del: replicate.simps)
next
  case (Suc m)
  then have "n \<noteq> 16" by simp
  with Suc show ?case
    using chain_dir[of n ds r] assms(2) by (subst scan_loop.simps) (simp del: replicate.simps)
qed

lemma deep_file_not_scanned:
  assumes "sn_fs h = chain_fs" and "sn_path h = Some [''d'']" and "\<not> sn_json h" and "\<not> th_enabled t"
  shows "end_exit (fst (scan_command h t s)) = Ok 0"
proof -
  have "sf_metadata chain_fs [''d''] \<noteq> None" by (simp add: chain_fs_def)
  then have "Scanner_scan chain_fs (ScannerBuilder_new ds) [''d''] = Some (Ok ScanReport_default)" for ds
    using chain_scan[of 0 ScanReport_default ds] by (simp add: Scanner_scan_def ScanReport_default_def)
  then show ?thesis
    using assms by (simp add: scan_command_def traced_end_def scan_exit_def scan_is_incomplete_def ScanReport_default_def)
qed

section \<open>Lemmas: the trace of a command\<close>

lemma Store_append_record_ok:
  assumes "Store_append c st r s = (Ok u, s')"
  shows "record_ok c st r"
proof -
  obtain l len where "Record_validate r = Ok ()" "tc_to_string c r = Some l" "line_length TE_InvalidInput l = Ok len" "len \<le> ts_max_bytes st"
    using assms by (auto simp: Store_append_def to_json_def ok_or_ok_iff not_less split: sum.splits prod.splits if_splits)
  moreover from this have "unat len = length l + 1"
    by (auto simp: line_length_def checked_add_def ok_or_ok_iff unat_of_nat unat_word_ariths split: if_splits)
  ultimately show ?thesis by (auto simp: record_ok_def Record_validate_iff word_le_nat_alt)
qed

lemma append_keeps_history:
  assumes "trace_wf c st s" and "Store_append c st r s = (Ok u, s')"
  shows "\<exists>old new dropped. fst (read_all c st s) = Ok old \<and> fst (read_all c st s') = Ok new \<and> old @ [r] = dropped @ new \<and>
    new \<noteq> [] \<and> last new = r"
proof -
  have "\<forall>x\<in>set [r]. record_ok c st x" using Store_append_record_ok[OF assms(2)] by simp
  from trace.append_each_suffix[OF assms(1) this] show ?thesis
    using assms(2) read_all_wf[OF assms(1)] read_all_wf[of c st] by auto
qed

section \<open>Properties\<close>


definition chain_host :: ScanHost where
  "chain_host = \<lparr>sn_fs = chain_fs, sn_path = Some [''d''], sn_json = False, sn_detectors = [], sn_text_of = (\<lambda>_. []),
     sn_json_text = (\<lambda>_. [])\<rparr>"

definition untraced :: TraceHost where
  "untraced = \<lparr>th_dir = [], th_codec = wit_tcodec, th_clock = 0, th_counter = 0, th_enabled = False\<rparr>"


text \<open>
  C40. A traced command does not report success without its record.  When tracing is on and a command ends with a
  code of its own, the newest record of the store is the one of this command - its route, nothing of its input or
  output - behind the records that were there, of which only the oldest can be gone.
\<close>

theorem traced_command_recorded:
  assumes "th_enabled t" and "command s = (result, s1)" and "traced_command t route command s = (End_Exit out (Ok n), s')"
    and "open_trace_store (th_dir t) s1 = (Ok st, s2)" and "trace_wf (th_codec t) st s2"
  shows "result = End_Exit out (Ok n) \<and>
    (\<exists>old new dropped r. fst (read_all (th_codec t) st s2) = Ok old \<and> fst (read_all (th_codec t) st s') = Ok new \<and>
       old @ [r] = dropped @ new \<and> new \<noteq> [] \<and> last new = r \<and>
       r = \<lparr>rec_version = 1, rec_timestamp = word_of_int (th_clock t div 1000000000),
            rec_request_id = next_trace_request_id (th_clock t) (th_counter t), rec_route = route, rec_coverage = Cov_Protected,
            rec_outcome = Out_Observed, rec_request_bytes = (0, 0), rec_response_bytes = (0, 0), rec_replacements = [],
            rec_issue = None\<rparr>)"
proof -
  have result: "result = End_Exit out (Ok n)"
    and trace: "append_command_trace (th_codec t) (th_clock t) (th_counter t) (th_dir t) route (0, 0) [] s1 = (Ok (), s')"
    using assms(1-3) by (auto simp: traced_command_def traced_end_def split: CliEnd.splits prod.splits sum.splits)
  obtain r where r: "Record_now (th_clock t) (next_trace_request_id (th_clock t) (th_counter t)) route Cov_Protected Out_Observed
      (0, 0) (0, 0) [] None = Ok r" "Store_append (th_codec t) st r s2 = (Ok (), s')"
    using trace assms(4)
    by (auto simp: append_command_trace_def append_trace_record_def append_trace_to_store_def split: sum.splits)
  then have "r = \<lparr>rec_version = 1, rec_timestamp = word_of_int (th_clock t div 1000000000),
      rec_request_id = next_trace_request_id (th_clock t) (th_counter t), rec_route = route, rec_coverage = Cov_Protected,
      rec_outcome = Out_Observed, rec_request_bytes = (0, 0), rec_response_bytes = (0, 0), rec_replacements = [], rec_issue = None\<rparr>"
    by (auto simp: Record_now_def Let_def res_bind_ok_iff split: if_splits)
  then show ?thesis using result append_keeps_history[OF assms(5) r(2)] by blast
qed

text \<open>The status command, traced, in a directory whose trace file does not exist yet.\<close>

definition home_fs :: Fs where
  "home_fs = \<lparr>fs_nodes = (\<lambda>p. if p = [''home''] \<or> p = [''home'', ''.blindfold''] then Some (NDir 0x1C0) else None),
     fs_allows = (\<lambda>_ _. True), fs_dir_mode = 0x1ED\<rparr>"

definition status_record :: Record where
  "status_record = \<lparr>rec_version = 1, rec_timestamp = 0, rec_request_id = ''req_0_0'', rec_route = Route_Policy,
     rec_coverage = Cov_Protected, rec_outcome = Out_Observed, rec_request_bytes = (0, 0), rec_response_bytes = (0, 0),
     rec_replacements = [], rec_issue = None\<rparr>"

definition status_codec :: TraceCodec where
  "status_codec = \<lparr>tc_to_string = (\<lambda>r. if r = status_record then Some ''one'' else None),
     tc_from_slice = (\<lambda>b. if b = ''one'' then Some status_record else None)\<rparr>"

definition status_host :: TraceHost where
  "status_host = \<lparr>th_dir = [''home''], th_codec = status_codec, th_clock = 0, th_counter = 0, th_enabled = True\<rparr>"

definition status_run :: "Fs \<Rightarrow> CliEnd \<times> Fs" where
  "status_run = status_command \<lparr>pc_from_str = (\<lambda>_. None), pc_to_string_pretty = (\<lambda>_. None)\<rparr> (\<lambda>_. RT_Error) [''home'']"

theorem traced_command_recorded_witness:
  "\<exists>out s' st r new. traced_command status_host Route_Policy status_run home_fs = (End_Exit out (Ok 0), s') \<and>
     fst (read_all status_codec st s') = Ok new \<and> last new = r \<and> rec_route r = Route_Policy"
proof -
  have id: "next_trace_request_id 0 0 = ''req_0_0''" by (simp add: next_trace_request_id_def hex_str.simps hex_digit_def)
  have closed: "closed_record status_record"
    by (simp add: closed_record_def status_record_def is_ascii_hexdigit_def is_ascii_digit_def byte_def)
  obtain out where run: "status_run home_fs = (End_Exit out (Ok 0), home_fs)"
    by (simp add: status_run_def status_command_def load_project_network_policy_def read_to_string_def home_fs_def
        project_network_policy_path_def ProjectNetworkPolicy_default_def)
  have codec: "trace_codec_ok status_codec" by (auto simp: trace_codec_ok_def status_codec_def line_ok_def split: if_splits)
  let ?p = "[''home'', ''.blindfold'', ''trace.jsonl'']"
  have dirs: "fs_working home_fs" "plain home_fs (lock_path ?p)" "log_path ?p" "fs_nodes home_fs (butlast ?p) = Some (NDir 0x1C0)"
    by (simp_all add: fs_working_def home_fs_def plain_def lock_path_def log_path_def)
  have "{1..<length ?p} = {1, 2}" by auto
  then have parents: "parent_dirs ?p home_fs" by (simp add: parent_dirs_def home_fs_def)
  have none: "\<forall>i. fs_nodes home_fs (gen_path ?p i) = None"
  proof
    show "fs_nodes home_fs (gen_path ?p i) = None" for i
      by (cases i) (simp_all add: home_fs_def gen_path.simps)
  qed
  have lim: "(1024 * 1024 :: 64 word) \<noteq> 0" "unat (1024 * 1024 :: 64 word) < 2 ^ 64 - 1" by simp_all
  have "\<exists>st s2. Store_open ?p (1024 * 1024) 3 home_fs = (Ok st, s2) \<and>
      trace_wf status_codec st s2 \<and> trace_records status_codec st s2 = [] \<and> ts_max_bytes st = 1024 * 1024"
    by (rule trace_open_fresh[OF codec dirs(1) parents _ dirs(3,4) _ lim _ dirs(2) none]) simp_all
  then obtain st s2 where st: "open_trace_store [''home''] home_fs = (Ok st, s2)" "trace_wf status_codec st s2"
    "ts_max_bytes st = 1024 * 1024"
    by (auto simp: open_trace_store_def)
  have "record_ok status_codec st status_record" using closed st(3) by (simp add: record_ok_def status_codec_def)
  from store_append_wf[OF st(2) this] obtain s' where app: "Store_append status_codec st status_record s2 = (Ok (), s')" by blast
  have "Record_now 0 (next_trace_request_id 0 0) Route_Policy Cov_Protected Out_Observed (0, 0) (0, 0) [] None = Ok status_record"
    using Record_validate_iff[THEN iffD2, OF closed] unfolding id by (simp add: Record_now_def Let_def status_record_def)
  then have traced: "traced_command status_host Route_Policy status_run home_fs = (End_Exit out (Ok 0), s')"
    using run st(1) app
    by (simp add: traced_command_def traced_end_def status_host_def append_command_trace_def append_trace_record_def append_trace_to_store_def)
  have "th_enabled status_host" "th_dir status_host = [''home'']" "th_codec status_host = status_codec" by (simp_all add: status_host_def)
  then show ?thesis
    using traced_command_recorded[OF _ run traced] st(1,2) traced by force
qed

end
