(* ===== verification/Spec2Isabelle.thy ===== *)
theory Spec2Isabelle
  imports Safe_Ref Policy Redaction Exec Vault Audit_Log Trace Diff_Scan Mcp Proxy Scanner Container_Run Cli_Egress Cli_Boundary Cli_Agent Cli_Commands
begin

text \<open>
  \<^bold>\<open>Blindfold\<close>: a verification development of the Rust workspace under \<open>src/crates\<close>.

  Blindfold keeps secrets away from AI agents.  Text on its way to a model, a log or an agent is
  searched for secrets and redacted; a secret an agent must use is stored in an encrypted vault and
  handed out as an opaque reference; the reference is turned back into the secret only where a policy
  allows it: in the environment of an isolated child process, or in an approved argument of a tool call.

  \<^bold>\<open>Parts and theories.\<close>
  \<^item> \<open>Prelude\<close>: results (\<open>Err = Inl\<close>, \<open>Ok = Inr\<close>, the question-mark operator as \<open>res_bind\<close>), loops with
    early return, checked and saturating 64-bit arithmetic, orders.  \<open>Rust_Str\<close>: the operations on \<open>str\<close>
    that the sources use, on strings of bytes.  \<open>Rust_Map\<close>: \<open>BTreeMap\<close> as a sorted association list, with its
    laws as the locale \<open>map_interface\<close>.  \<open>Json\<close>: \<open>serde_json::Value\<close> and its leaves.
  \<^item> \<open>Core\<close>, \<open>Safe_Ref\<close> (\<open>blindfold-core\<close>): classifications, findings, static errors, log events, and the
    reference format.
  \<^item> \<open>Policy\<close> (\<open>blindfold-policy\<close>): rules, presets, validation and the decision function.
  \<^item> \<open>Detect_Findings\<close>, \<open>Detectors\<close>, \<open>Redaction\<close> (\<open>blindfold-detectors\<close>): spans and overlap resolution, the
    built-in detectors, the dotenv catalogue and the five redaction modes.
  \<^item> \<open>Stream_Redactor\<close>, \<open>Exec\<close> (\<open>blindfold-exec\<close>): redaction of a byte stream in chunks, and the execution of a
    command with injected secrets.
  \<^item> \<open>Fs_Model\<close>, \<open>Vault\<close>, \<open>Rotating_Log\<close>, \<open>Audit_Log\<close> (\<open>blindfold-vault\<close>): a file system whose calls may fail,
    the encrypted vault, and the rotating audit log.
  \<^item> \<open>Trace\<close> (\<open>blindfold-trace\<close>): payload-free records and their store.
  \<^item> \<open>Diff_Patch\<close>, \<open>Diff_Scan\<close> (\<open>blindfold-diff\<close>): the unified patch parser, the scanner of added lines, reports.
  \<^item> \<open>Mcp\<close> (\<open>blindfold-mcp\<close>): the transformer of MCP messages.
  \<^item> \<open>Proxy_Sanitize\<close>, \<open>Proxy_Config\<close>, \<open>Proxy\<close> (\<open>blindfold-proxy\<close>): JSON and event stream sanitizing, configuration,
    forwarding, the WebSocket bridge and tracing of one exchange.
  \<^item> \<open>Scanner\<close> (\<open>blindfold-detectors/src/scanner.rs\<close>): the bounded walk over a repository.
  \<^item> \<open>Plugin_Api\<close>, \<open>Plugin_Host\<close> (\<open>blindfold-plugin-api\<close>, \<open>blindfold-plugin-host\<close>): manifests, explicit plugin
    directories, resolution of executables and the version probe, which is an execution of \<open>Exec\<close>.
  \<^item> \<open>Container_Spec\<close>, \<open>Container_Run\<close> (\<open>blindfold-cli/src/container_runner.rs\<close>): the description of a locked run, the
    commands given to the container engine, and the lifecycle with interrupts and cleanup.
  \<^item> \<open>Cli_Sanitize\<close> (\<open>commands.rs\<close>, \<open>boundary.rs\<close>): the detector sanitizer behind proxy and MCP, the MCP command, the
    master key, the audit and trace writers.  \<open>Cli_Egress\<close>: the network policy and the CONNECT guard.
    \<open>Cli_Boundary\<close> (\<open>boundary.rs\<close>, \<open>host_credential.rs\<close>): the gateway, host credentials, the container command.
    \<open>Cli_Agent\<close> (\<open>agent_adapter.rs\<close>, \<open>commands.rs\<close>): the managed run of a coding agent.
  \<^item> \<open>Cli_Mask\<close>, \<open>Cli_Call\<close>, \<open>Cli_Config\<close>, \<open>Cli_Commands\<close> (\<open>commands.rs\<close>, \<open>config.rs\<close>, \<open>doctor.rs\<close>): masking, the
    brokered call and execution, the configuration and its diagnosis, the dispatch with its traces and all other
    commands with what they print and their exit codes.

  Definitions keep the names of the Rust items; a method is \<open>Type_method\<close>, an enumeration constructor has
  a prefix of its type, a part of a long function that is a definition of its own is named after what it
  computes.  Structures are records, enumerations datatypes; \<open>&mut self\<close> methods return the new state.

  \<^bold>\<open>How the parts interact.\<close>  The redactor runs the detectors and resolves overlaps; the vault and the audit
  log use the file system model and \<open>Rotating_Log\<close>, which the trace store shares; execution resolves
  references, builds the child's environment and streams its output through the stream redactor; the
  proxy sanitizes with any implementation of the \<open>Sanitizer\<close> trait and writes \<open>Trace\<close> records.  The command
  line connects them: its sanitizer is the redactor with placeholders, masking stores in the vault, a managed agent
  gets the proxy, the egress guard and the environment of its adapter, a container run gives its gateway the
  credential file, and every traced command appends to the trace store.  The contracts
  between the parts are locales interpreted on the definitions: \<open>map_interface\<close> on the sorted list, the locales
  of the stores, and \<open>text_sanitizer\<close> on the exact-value, the credential, the detector and the boundary sanitizer.

  \<^bold>\<open>What the lemmas show.\<close>  Safe references: parser and printer agree (C1).  Policy: a hard invariant no policy
  can break, exact conditions of restoring (C2, C3); further lemmas on validation, precedence and presets.
  Detection and redaction: overlap resolution, usable spans, exact redaction (C4 to C6).  Execution: streaming
  redaction equals whole-text redaction for every chunking, output and environment hold no other secret (C7 to
  C10).  Vault: round trip, exact authorization, failing closed (C11 to C13).  Trace: closed records, nothing
  forgotten but from the old end (C14, C15); lemmas on bounds, clearing and refusing unsafe storage, and the same
  for the audit log.  Diff: parsing inverts rendering, scanning is exact (C16, C17).  MCP: restoring is decided
  leaf by leaf and scoped (C18, C19).  Proxy: JSON and event streams are sanitized leaf by leaf and event by
  event, what is sent and returned is safe, forwarding ends (C20 to C24).  Scanner and plugins: the walk ends
  and is exact, loading and probing are sound (C25 to C27).  Containers: isolation and cleanup (C28, C29).
  Command line: noninterference of detected secrets, the MCP loop, the egress guard and its policy (C30 to C33),
  the gateway and the container command (C34, C35), the managed agent (C36), masking and the brokered call
  (C37, C38), the verdict of a scan and the record of a traced command (C39, C40); the diagnosis of the
  configuration is the lemma \<open>doctor_healthy_iff\<close>.

  \<^bold>\<open>Parameters and hypotheses.\<close>  Code outside the repository is an argument of the definitions that call it:
  the AEAD cipher, the JSON codecs, randomness, hashing, the clock, system calls, the HTTP and WebSocket
  libraries, URL parsing, Git, child processes.  Hypotheses on them state documented behaviour: decryption
  inverts encryption, a written record reads back, a compact JSON text has no line break, the container engine
  answers truthfully from the history of its commands.  Each property
  with such a hypothesis has a witness in which the parameter is a concrete function.

  \<^bold>\<open>Loops and bounds.\<close>  Every loop is a terminating recursion, except the loop of the stream redactor
  and the walk of the scanner, partial functions that are proved to end; no fuel is used.  Machine integers are words where
  the code adds to them or parses them; lengths of strings in memory are natural numbers.  An asynchronous
  exchange is one step with the point where its deadline cancels it; the messages of the two ends of a
  bridge come as one list in arrival order, so every interleaving is covered.  File locks serialise the
  operations on a store: each is one step.

  \<^bold>\<open>Not modelled.\<close>  The declarative schema of the command line, which a library interprets, and the \<open>main\<close>
  functions; what is written to the standard error stream; accept loops and the bytes relayed over an open tunnel
  or socket; supervision of processes and signals beyond their outcome; erasure of memory; derived and accessor
  code; the tests.  The SDKs in other languages are not Rust.
\<close>

end
